(* ===== verification/Prelude.thy ===== *)
theory Prelude
  imports Complex_Main "HOL-Library.Multiset"
begin

text \<open>
  Shared vocabulary of the development: Go's 64-bit integers with their wrap-around, the way
  a handler ends (normally or in a run-time panic), HTTP answers, the decimal and hexadecimal
  printing that the code uses to build identifiers, the Go map and slice idioms the components
  have in common, and a generic invariant argument for a component run by a list of calls.
\<close>

named_theorems go_simps "unfolding rules for the Go idioms of the prelude"
named_theorems op_defs "definitions of the operations of the components"

section \<open>Machine integers\<close>

text \<open>
  Go's \<open>int\<close> is 64 bits wide on the platforms this code is built for. Arithmetic wraps around.
  A value is an \<open>int\<close> of HOL; \<open>wrap64\<close> is written where the source adds or subtracts values that a
  client chooses.
\<close>

definition wrap64 :: "int \<Rightarrow> int" where
  "wrap64 x = (x + 2 ^ 63) mod 2 ^ 64 - 2 ^ 63"

definition in64 :: "int \<Rightarrow> bool" where
  "in64 x \<longleftrightarrow> - (2 ^ 63) \<le> x \<and> x < 2 ^ 63"

lemma wrap64_id [simp]: "in64 x \<Longrightarrow> wrap64 x = x"
  by (simp add: wrap64_def in64_def)

lemma in64_wrap64 [simp]: "in64 (wrap64 x)"
proof -
  have "0 \<le> (x + 2 ^ 63) mod 2 ^ 64" "(x + 2 ^ 63) mod 2 ^ 64 < 2 ^ 64"
    by simp_all
  then show ?thesis by (simp add: wrap64_def in64_def)
qed

lemma in64_between: "0 \<le> x \<Longrightarrow> x \<le> y \<Longrightarrow> in64 y \<Longrightarrow> in64 x"
  by (simp add: in64_def)

text \<open>Go's \<open>max\<close> on integers is HOL's; integer division truncates towards zero.\<close>

definition quot :: "int \<Rightarrow> int \<Rightarrow> int" where
  "quot a b = sgn a * sgn b * (\<bar>a\<bar> div \<bar>b\<bar>)"

lemma quot_nonneg: "0 \<le> a \<Longrightarrow> 0 < b \<Longrightarrow> quot a b = a div b"
  by (cases "a = 0") (simp_all add: quot_def)

text \<open>Go's conversion of a floating-point number to an integer also truncates towards zero.\<close>

definition trunc :: "rat \<Rightarrow> int" where
  "trunc q = (if 0 \<le> q then \<lfloor>q\<rfloor> else \<lceil>q\<rceil>)"

lemma trunc_of_int [simp]: "trunc (of_int n) = n"
  by (simp add: trunc_def)

lemma trunc_mono: "p \<le> q \<Longrightarrow> trunc p \<le> trunc q"
proof -
  assume pq: "p \<le> q"
  consider "0 \<le> p" | "q < 0" | "p < 0" "0 \<le> q" by linarith
  then show ?thesis
  proof cases
    case 3
    then have "\<lceil>p\<rceil> \<le> 0" "0 \<le> \<lfloor>q\<rfloor>" by linarith+
    then have "\<lceil>p\<rceil> \<le> \<lfloor>q\<rfloor>" by (rule order_trans)
    with 3 show ?thesis by (simp add: trunc_def)
  qed (use pq in \<open>auto simp: trunc_def floor_mono ceiling_mono\<close>)
qed

text \<open>
  A value that does not fit a 64-bit integer converts to the smallest one (the language leaves this
  to the platform; amd64 does so).
\<close>

definition int_of_float :: "rat \<Rightarrow> int" where
  "int_of_float q = (if in64 (trunc q) then trunc q else - (2 ^ 63))"

lemma int_of_float_of_int [simp]: "in64 n \<Longrightarrow> int_of_float (of_int n) = n"
  by (simp add: int_of_float_def)

section \<open>Time\<close>

text \<open>
  A \<open>time.Time\<close> is the number of nanoseconds since the epoch, a \<open>time.Duration\<close> a number of
  nanoseconds. An operation that reads the clock takes the reading as an argument.
\<close>

type_synonym time = int
type_synonym duration = int

definition second :: duration where
  "second = 1000000000"

definition minute :: duration where
  "minute = 60 * second"

section \<open>How a call ends\<close>

text \<open>
  A Go function may stop in a run-time panic after it has already changed the state. Handlers
  whose source can panic return the state they leave together with how they ended.
\<close>

datatype exit = Done | Panicked

text \<open>The slice expression \<open>s[:n]\<close> panics when the string is shorter than \<open>n\<close>.\<close>

definition slice_to :: "'a list \<Rightarrow> nat \<Rightarrow> 'a list option" where
  "slice_to s n = (if n \<le> length s then Some (take n s) else None)"

lemma slice_to_None [simp]: "slice_to s n = None \<longleftrightarrow> length s < n"
  by (auto simp: slice_to_def)

section \<open>HTTP\<close>

datatype http_method = GET | POST | PUT | DELETE | PATCH | OPTIONS | OtherMethod

text \<open>An answer is its status code and a body; the body's type is the handler's.\<close>

datatype 'b answer = Answer (ans_status: int) (ans_body: 'b)

text \<open>Decoded JSON, where a handler looks at values of unknown type.\<close>

datatype json = JNull | JBool bool | JNum rat | JStr string | JArr "json list" | JObj "(string \<times> json) list"

section \<open>Printing numbers\<close>

text \<open>\<open>fmt.Sprintf\<close> with \<open>%d\<close> and \<open>%x\<close>, for the identifiers the managers hand out.\<close>

definition digit_char :: "nat \<Rightarrow> char" where
  "digit_char d = (if d < 10 then char_of (48 + d) else char_of (87 + d))"

definition char_digit :: "char \<Rightarrow> nat" where
  "char_digit c = (let n = of_char c in if n < 58 then n - 48 else n - 87)"

fun show_base :: "nat \<Rightarrow> nat \<Rightarrow> string" where
  "show_base b n =
     (if b < 2 \<or> n < b then [digit_char n] else show_base b (n div b) @ [digit_char (n mod b)])"

declare show_base.simps [simp del]

definition read_base :: "nat \<Rightarrow> string \<Rightarrow> nat" where
  "read_base b s = foldl (\<lambda>a c. a * b + char_digit c) 0 s"

definition fmt_d :: "int \<Rightarrow> string" where
  "fmt_d n = (if n < 0 then CHR ''-'' # show_base 10 (nat (- n)) else show_base 10 (nat n))"

definition fmt_x :: "int \<Rightarrow> string" where
  "fmt_x n = (if n < 0 then CHR ''-'' # show_base 16 (nat (- n)) else show_base 16 (nat n))"

lemma char_digit_digit_char: "d < 16 \<Longrightarrow> char_digit (digit_char d) = d"
  by (auto simp: char_digit_def digit_char_def Let_def of_char_of)

lemma read_show_base: "2 \<le> b \<Longrightarrow> b \<le> 16 \<Longrightarrow> read_base b (show_base b n) = n"
proof (induction b n rule: show_base.induct)
  case (1 b n)
  show ?case
  proof (cases "n < b")
    case True
    with "1.prems" show ?thesis
      by (simp add: show_base.simps [of b n] read_base_def char_digit_digit_char)
  next
    case False
    moreover from "1.prems" have "n mod b < 16"
      using mod_less_divisor [of b n] by linarith
    ultimately show ?thesis
      using "1.prems" "1.IH" by (simp add: show_base.simps [of b n] read_base_def char_digit_digit_char)
  qed
qed

lemma show_base_inj: "2 \<le> b \<Longrightarrow> b \<le> 16 \<Longrightarrow> show_base b m = show_base b n \<longleftrightarrow> m = n"
  by (metis read_show_base)

lemma digit_char_range: "d < 16 \<Longrightarrow> of_char (digit_char d) \<in> {48..57} \<union> {97..102::nat}"
  by (auto simp: digit_char_def of_char_of)

lemma show_base_chars:
  "2 \<le> b \<Longrightarrow> b \<le> 16 \<Longrightarrow> c \<in> set (show_base b n) \<Longrightarrow> of_char c \<in> {48..57} \<union> {97..102::nat}"
proof (induction b n rule: show_base.induct)
  case (1 b n)
  show ?case
  proof (cases "n < b")
    case True
    with "1.prems" show ?thesis
      using digit_char_range [of n] by (simp add: show_base.simps [of b n])
  next
    case False
    from "1.prems" have "n mod b < 16"
      using mod_less_divisor [of b n] by linarith
    with False "1.prems" "1.IH" show ?thesis
      using digit_char_range [of "n mod b"] by (auto simp: show_base.simps [of b n])
  qed
qed

lemma show_base_nonempty [simp]: "show_base b n \<noteq> []"
  by (subst show_base.simps) simp

lemma underscore_not_in_fmt_d: "CHR ''_'' \<notin> set (fmt_d n)"
  using show_base_chars [of 10 "CHR ''_''"] by (auto simp: fmt_d_def)

lemma minus_not_in_show: "CHR ''-'' \<notin> set (show_base 10 n)"
  using show_base_chars [of 10 "CHR ''-''" n] by auto

lemma fmt_d_inj: "fmt_d m = fmt_d n \<Longrightarrow> m = n"
proof (induction m n rule: linorder_wlog)
  case (le m n)
  show ?case
  proof (cases "m < 0 \<longleftrightarrow> n < 0")
    case True
    with le show ?thesis by (auto simp: fmt_d_def show_base_inj split: if_splits)
  next
    case False
    with le.hyps le.prems have "CHR ''-'' \<in> set (show_base 10 (nat n))"
      by (auto simp: fmt_d_def split: if_splits) (metis list.set_intros(1))
    then show ?thesis by (simp add: minus_not_in_show)
  qed
qed simp

text \<open>
  Identifiers have the shape \<open>prefix_number_suffix\<close>; two of them with the same prefix agree on the
  number, whatever the suffixes are.
\<close>

lemma split_at_unique:
  "x \<notin> set a \<Longrightarrow> x \<notin> set b \<Longrightarrow> a @ x # s = b @ x # t \<Longrightarrow> a = b"
  by (induction a arbitrary: b) (auto simp: Cons_eq_append_conv append_eq_Cons_conv)

definition numbered_id :: "string \<Rightarrow> int \<Rightarrow> int \<Rightarrow> string" where
  "numbered_id pre n now = pre @ fmt_d n @ CHR ''_'' # fmt_x now"

lemma numbered_id_inj: "numbered_id pre m s = numbered_id pre n t \<Longrightarrow> m = n"
  unfolding numbered_id_def
  by (metis append_same_eq same_append_eq split_at_unique underscore_not_in_fmt_d fmt_d_inj)

section \<open>Slices and maps\<close>

text \<open>
  The loop that deletes the first element satisfying a test, written in the source as
  \<open>append(xs[:i], xs[i+1:]...)\<close> followed by \<open>break\<close> or \<open>return\<close>.
\<close>

fun remove_first :: "('a \<Rightarrow> bool) \<Rightarrow> 'a list \<Rightarrow> 'a list" where
  "remove_first p [] = []"
| "remove_first p (x # xs) = (if p x then xs else x # remove_first p xs)"

lemma set_remove_first_subset: "set (remove_first p xs) \<subseteq> set xs"
  by (induction xs) auto

lemma remove_first_None: "\<not> (\<exists>x\<in>set xs. p x) \<Longrightarrow> remove_first p xs = xs"
  by (induction xs) auto

lemma distinct_remove_first [simp]: "distinct xs \<Longrightarrow> distinct (remove_first p xs)"
  using set_remove_first_subset by (induction xs) fastforce+

lemma distinct_map_remove_first: "distinct (map f xs) \<Longrightarrow> distinct (map f (remove_first p xs))"
  using set_remove_first_subset by (induction xs) fastforce+

lemma set_remove_first_distinct:
  "distinct xs \<Longrightarrow> set (remove_first (\<lambda>x. x = a) xs) = set xs - {a}"
  by (induction xs) auto

lemma set_remove_first_key:
  "distinct (map f xs) \<Longrightarrow> set (remove_first (\<lambda>x. f x = k) xs) = {x \<in> set xs. f x \<noteq> k}"
  by (induction xs) (auto, metis imageI)

lemma list_all2_right: "list_all2 P xs ys \<Longrightarrow> y \<in> set ys \<Longrightarrow> \<exists>x \<in> set xs. P x y"
  by (induction rule: list_all2_induct) auto

lemma list_all2_left: "list_all2 P xs ys \<Longrightarrow> x \<in> set xs \<Longrightarrow> \<exists>y \<in> set ys. P x y"
  by (induction rule: list_all2_induct) auto

lemma length_remove_first:
  "length (remove_first p xs) = (if \<exists>x\<in>set xs. p x then length xs - 1 else length xs)"
  by (induction xs) (auto simp: Suc_diff_le length_greater_0_conv, (metis Suc_pred length_pos_if_in_set)+)

text \<open>
  Go iterates over a map in an unspecified order. An operation that does so takes the order as an
  argument, and its properties hold for every order that lists the map's keys once.
\<close>

definition map_order :: "('k \<rightharpoonup> 'v) \<Rightarrow> 'k list \<Rightarrow> bool" where
  "map_order m ks \<longleftrightarrow> distinct ks \<and> set ks = dom m"

definition map_values :: "('k \<rightharpoonup> 'v) \<Rightarrow> 'k list \<Rightarrow> 'v list" where
  "map_values m ks = List.map_filter m ks"

lemma map_order_distinct [dest]: "map_order m ks \<Longrightarrow> distinct ks"
  by (simp add: map_order_def)

lemma map_order_set: "map_order m ks \<Longrightarrow> set ks = dom m"
  by (simp add: map_order_def)

lemma set_map_values: "map_order m ks \<Longrightarrow> set (map_values m ks) = ran m"
  by (force simp: map_values_def map_order_def List.map_filter_def ran_def)

lemma length_map_values: "map_order m ks \<Longrightarrow> length (map_values m ks) = card (dom m)"
proof -
  assume a: "map_order m ks"
  then have "filter (\<lambda>k. m k \<noteq> None) ks = ks"
    by (intro filter_True) (auto simp: map_order_def)
  then have "map_values m ks = map (the \<circ> m) ks"
    by (simp add: map_values_def List.map_filter_def)
  with a show ?thesis by (simp add: map_order_def distinct_card [symmetric])
qed

text \<open>A loop that collects the elements passing a test collects the set that the test describes.\<close>

lemma set_filter_exact: "(\<And>x. x \<in> set xs \<Longrightarrow> P x \<longleftrightarrow> x \<in> A) \<Longrightarrow> A \<subseteq> set xs \<Longrightarrow> set (filter P xs) = A"
  by auto

text \<open>Histories are trimmed to their newest elements after each append.\<close>

definition keep_last :: "nat \<Rightarrow> 'a list \<Rightarrow> 'a list" where
  "keep_last n xs = drop (length xs - n) xs"

lemma keep_last_short: "length xs \<le> n \<Longrightarrow> keep_last n xs = xs"
  by (simp add: keep_last_def)

lemma length_keep_last [simp]: "length (keep_last n xs) = min n (length xs)"
  by (simp add: keep_last_def)

lemma keep_last_Nil [simp]: "keep_last n [] = []"
  by (simp add: keep_last_def)

lemma keep_last_append: "keep_last n (keep_last n xs @ ys) = keep_last n (xs @ ys)"
proof (cases "length xs \<le> n")
  case True
  then show ?thesis by (simp add: keep_last_short)
next
  case False
  then have "n + length ys - n = length ys" "length xs - (length xs - n) = n" by auto
  with False show ?thesis by (simp add: keep_last_def add.commute)
qed

lemma keep_last_map: "keep_last n (map f xs) = map f (keep_last n xs)"
  by (simp add: keep_last_def drop_map)

lemma set_keep_last: "set (keep_last n xs) \<subseteq> set xs"
  by (simp add: keep_last_def set_drop_subset)

section \<open>Runs of a component\<close>

text \<open>
  A component is driven by a list of calls. What every call keeps, every run keeps.
\<close>

locale component =
  fixes step :: "'s \<Rightarrow> 'c \<Rightarrow> 's" and inv :: "'s \<Rightarrow> bool"
  assumes step_inv: "inv s \<Longrightarrow> inv (step s c)"
begin

lemma run_inv: "inv s \<Longrightarrow> inv (foldl step s cs)"
  by (induction cs arbitrary: s) (simp_all add: step_inv)

end

section \<open>Refinement\<close>

text \<open>
  A component whose calls return results is a relation between a state, a call, its result and the
  next state. Its specification is a function on abstract states. When every step of the component is
  a step of the specification, every run is: it returns what the specification says.
\<close>

inductive runs :: "('s \<Rightarrow> 'c \<Rightarrow> 'r \<Rightarrow> 's \<Rightarrow> bool) \<Rightarrow> 's \<Rightarrow> ('c \<times> 'r) list \<Rightarrow> 's \<Rightarrow> bool"
  for step where
  runs_Nil: "runs step s [] s"
| runs_snoc: "runs step s tr s' \<Longrightarrow> step s' c r s'' \<Longrightarrow> runs step s (tr @ [(c, r)]) s''"

lemma runs_Cons: "step s c r s' \<Longrightarrow> runs step s' tr s'' \<Longrightarrow> runs step s ((c, r) # tr) s''"
  by (rotate_tac 1, induction rule: runs.induct)
    (auto intro: runs_snoc [where tr = "[]", simplified] runs_Nil runs_snoc [where tr = "_ # _", simplified])

definition spec_run :: "('a \<Rightarrow> 'c \<Rightarrow> 'r \<times> 'a) \<Rightarrow> 'a \<Rightarrow> 'c list \<Rightarrow> 'r list \<times> 'a" where
  "spec_run astep a cs = foldl (\<lambda>(rs, a) c. let (r, a') = astep a c in (rs @ [r], a')) ([], a) cs"

lemma spec_run_Nil [simp]: "spec_run astep a [] = ([], a)"
  by (simp add: spec_run_def)

lemma spec_run_snoc:
  "spec_run astep a (cs @ [c]) =
     (let (rs, b) = spec_run astep a cs; (r, b') = astep b c in (rs @ [r], b'))"
  by (simp add: spec_run_def split_beta)

locale simulation =
  fixes step :: "'s \<Rightarrow> 'c \<Rightarrow> 'r \<Rightarrow> 's \<Rightarrow> bool" and inv :: "'s \<Rightarrow> bool"
    and abs :: "'s \<Rightarrow> 'a" and astep :: "'a \<Rightarrow> 'c \<Rightarrow> 'r \<times> 'a"
  assumes step_keeps: "inv s \<Longrightarrow> step s c r s' \<Longrightarrow> inv s'"
    and step_refines: "inv s \<Longrightarrow> step s c r s' \<Longrightarrow> astep (abs s) c = (r, abs s')"
begin

lemma runs_keep: "runs step s tr s' \<Longrightarrow> inv s \<Longrightarrow> inv s'"
  by (induction rule: runs.induct) (auto intro: step_keeps)

lemma runs_refine:
  "runs step s tr s' \<Longrightarrow> inv s \<Longrightarrow> spec_run astep (abs s) (map fst tr) = (map snd tr, abs s')"
  by (induction rule: runs.induct)
    (simp_all add: spec_run_snoc step_refines [OF runs_keep])

end


end
