(* ===== verification/SchedTypes.thy ===== *)
theory SchedTypes
  imports Prelude
begin

text \<open>
  The data that the scheduler service exchanges (apps/scheduler/internal/scheduler/scheduler.go):
  queue items, allocations, and the configuration it reads.
\<close>

record queue_item =
  qi_id :: string
  qi_userId :: string
  qi_sessionType :: string
  qi_resourceClass :: string
  qi_priority :: int
  qi_cpuCores :: int
  qi_ramGB :: int
  qi_gpuRequired :: bool
  qi_gpuVramGB :: int
  qi_latencyBudgetMs :: int
  qi_status :: string
  qi_position :: int
  qi_estimatedWait :: int
  qi_createdAt :: time
  qi_assignedHost :: string

definition PriorityNormal :: int where
  "PriorityNormal = 2"

record allocation =
  al_id :: string
  al_queueId :: string
  al_userId :: string
  al_hostId :: string
  al_cpuCores :: int
  al_ramGB :: int
  al_allocatedAt :: time
  al_expiresAt :: time

record sched_config =
  scheduleInterval :: duration
  maxQueueSize :: int
  defaultTTL :: duration
  authToken :: string

section \<open>Loading the configuration\<close>

text \<open>
  apps/scheduler/internal/config/config.go. The environment is a function from names to values (an
  unset variable reads as the empty string); \<open>strconv.Atoi\<close> and \<open>time.ParseDuration\<close> are parameters
  that return \<open>None\<close> for their error.
\<close>

definition getEnv :: "(string \<Rightarrow> string) \<Rightarrow> string \<Rightarrow> string \<Rightarrow> string" where
  "getEnv env key fallback = (if env key \<noteq> '''' then env key else fallback)"

definition getParsed :: "(string \<Rightarrow> string) \<Rightarrow> (string \<Rightarrow> int option) \<Rightarrow> string \<Rightarrow> int \<Rightarrow> int" where
  "getParsed env parse key fallback =
     (if env key \<noteq> '''' then case parse (env key) of Some n \<Rightarrow> n | None \<Rightarrow> fallback else fallback)"

definition load_config ::
  "(string \<Rightarrow> string) \<Rightarrow> (string \<Rightarrow> int option) \<Rightarrow> (string \<Rightarrow> int option) \<Rightarrow> sched_config" where
  "load_config env atoi parseDuration =
     \<lparr>scheduleInterval = getParsed env parseDuration ''FREECOMPUTE_SCHEDULER_INTERVAL'' (5 * second),
      maxQueueSize = getParsed env atoi ''FREECOMPUTE_SCHEDULER_MAX_QUEUE'' 1000,
      defaultTTL = getParsed env parseDuration ''FREECOMPUTE_SCHEDULER_TTL'' (30 * 60 * second),
      authToken = getEnv env ''FREECOMPUTE_SCHEDULER_AUTH_TOKEN'' ''''\<rparr>"

lemma load_config_default_token: "env ''FREECOMPUTE_SCHEDULER_AUTH_TOKEN'' = '''' \<Longrightarrow>
  authToken (load_config env atoi pd) = ''''"
  by (simp add: load_config_def getEnv_def)

end
