(* ===== verification/GoHeap.thy ===== *)
theory GoHeap
  imports Prelude
begin

text \<open>
  The standard library's \<open>container/heap\<close>, as the two priority queues of the program use it: a slice
  of pointers whose \<open>Swap\<close>, \<open>Push\<close> and \<open>Pop\<close> methods also keep an \<open>index\<close> field in each element.
  A heap is the slice together with the \<open>index\<close> field of every element; \<open>lt\<close> is the \<open>Less\<close> method,
  which reads the other fields of the elements. The locale \<open>heap_order\<close> states what \<open>Less\<close> must be
  (a strict weak order) and derives that every operation keeps the heap shape, the elements and the
  index field.
\<close>

type_synonym 'h heap = "'h list \<times> ('h \<Rightarrow> int)"

definition parent :: "nat \<Rightarrow> nat" where
  "parent k = (k - 1) div 2"

lemma parent_less: "0 < k \<Longrightarrow> parent k < k"
  by (auto simp: parent_def)

lemma parent_le [simp]: "parent k \<le> k"
  by (auto simp: parent_def)

lemma parent_bound: "k < n \<Longrightarrow> parent k < n"
  using parent_le [of k] by linarith

lemma parent_eq_self: "parent k = k \<longleftrightarrow> k = 0"
  using parent_less [of k] by (auto simp: parent_def)

lemma children_of: "0 < k \<Longrightarrow> parent k = i \<Longrightarrow> k = 2 * i + 1 \<or> k = 2 * i + 2"
  by (auto simp: parent_def)

section \<open>The operations\<close>

text \<open>\<open>Swap(i, j)\<close>: exchange the elements, then store their new positions.\<close>

definition hswap :: "'h heap \<Rightarrow> nat \<Rightarrow> nat \<Rightarrow> 'h heap" where
  "hswap hp i j =
     (let xs = fst hp; a = xs ! i; b = xs ! j
      in (xs[i := b, j := a], (snd hp)(b := int i, a := int j)))"

text \<open>The methods \<open>Push\<close> (append, index is the old length) and \<open>Pop\<close> (cut the last, index is -1).\<close>

definition happend :: "'h heap \<Rightarrow> 'h \<Rightarrow> 'h heap" where
  "happend hp x = (fst hp @ [x], (snd hp)(x := int (length (fst hp))))"

definition hcut :: "'h heap \<Rightarrow> 'h \<times> 'h heap" where
  "hcut hp = (let x = last (fst hp) in (x, (butlast (fst hp), (snd hp)(x := - 1))))"

function hup :: "('h \<Rightarrow> 'h \<Rightarrow> bool) \<Rightarrow> 'h heap \<Rightarrow> nat \<Rightarrow> 'h heap" where
  "hup lt hp j =
     (let i = parent j
      in if i = j \<or> \<not> lt (fst hp ! j) (fst hp ! i) then hp else hup lt (hswap hp i j) i)"
  by pat_completeness auto
termination
  by (relation "measure (\<lambda>(lt, hp, j). j)") (auto simp: parent_eq_self parent_less)

definition hchild :: "('h \<Rightarrow> 'h \<Rightarrow> bool) \<Rightarrow> 'h list \<Rightarrow> nat \<Rightarrow> nat \<Rightarrow> nat" where
  "hchild lt xs i n =
     (let j1 = 2 * i + 1; j2 = j1 + 1
      in if j2 < n \<and> lt (xs ! j2) (xs ! j1) then j2 else j1)"

text \<open>\<open>down\<close> returns the heap and the position at which the element came to rest.\<close>

function hdown :: "('h \<Rightarrow> 'h \<Rightarrow> bool) \<Rightarrow> 'h heap \<Rightarrow> nat \<Rightarrow> nat \<Rightarrow> 'h heap \<times> nat" where
  "hdown lt hp i n =
     (if 2 * i + 1 \<ge> n then (hp, i)
      else let j = hchild lt (fst hp) i n
           in if \<not> lt (fst hp ! j) (fst hp ! i) then (hp, i)
              else hdown lt (hswap hp i j) j n)"
  by pat_completeness auto
termination
  by (relation "measure (\<lambda>(lt, hp, i, n). n - i)") (auto simp: hchild_def Let_def)

declare hup.simps [simp del] hdown.simps [simp del]

definition heap_push :: "('h \<Rightarrow> 'h \<Rightarrow> bool) \<Rightarrow> 'h heap \<Rightarrow> 'h \<Rightarrow> 'h heap" where
  "heap_push lt hp x = hup lt (happend hp x) (length (fst hp))"

definition heap_pop :: "('h \<Rightarrow> 'h \<Rightarrow> bool) \<Rightarrow> 'h heap \<Rightarrow> 'h \<times> 'h heap" where
  "heap_pop lt hp =
     (let n = length (fst hp) - 1 in hcut (fst (hdown lt (hswap hp 0 n) 0 n)))"

definition heap_remove :: "('h \<Rightarrow> 'h \<Rightarrow> bool) \<Rightarrow> 'h heap \<Rightarrow> nat \<Rightarrow> 'h \<times> 'h heap" where
  "heap_remove lt hp i =
     (let n = length (fst hp) - 1
      in if n = i then hcut hp
         else let (hp', i') = hdown lt (hswap hp i n) i n
              in hcut (if i < i' then hp' else hup lt hp' i))"

section \<open>Elements, length and the index field\<close>

text \<open>\<open>idx_ok\<close>: no element occurs twice and each one's index field is its position.\<close>

definition idx_ok :: "'h heap \<Rightarrow> bool" where
  "idx_ok hp \<longleftrightarrow> distinct (fst hp) \<and> (\<forall>k < length (fst hp). snd hp (fst hp ! k) = int k)"

lemma length_hswap [simp]: "length (fst (hswap hp i j)) = length (fst hp)"
  by (simp add: hswap_def Let_def)

lemma mset_hswap:
  "i < length (fst hp) \<Longrightarrow> j < length (fst hp) \<Longrightarrow> mset (fst (hswap hp i j)) = mset (fst hp)"
  by (simp add: hswap_def Let_def mset_swap)

lemma nth_hswap:
  "i < length (fst hp) \<Longrightarrow> j < length (fst hp) \<Longrightarrow> k < length (fst hp) \<Longrightarrow>
   fst (hswap hp i j) ! k =
     (if k = j then fst hp ! i else if k = i then fst hp ! j else fst hp ! k)"
  by (simp add: hswap_def Let_def nth_list_update)

lemma idx_ok_hswap:
  assumes "idx_ok hp" "i < length (fst hp)" "j < length (fst hp)"
  shows "idx_ok (hswap hp i j)"
proof -
  have d: "distinct (fst (hswap hp i j))"
    using assms mset_hswap [of i hp j] by (metis idx_ok_def mset_eq_imp_distinct_iff)
  have "snd (hswap hp i j) (fst (hswap hp i j) ! k) = int k" if "k < length (fst hp)" for k
    using assms that
    by (auto simp: nth_hswap) (auto simp: hswap_def Let_def idx_ok_def nth_eq_iff_index_eq)
  with d show ?thesis by (simp add: idx_ok_def)
qed

lemma snd_hswap_other:
  "x \<notin> set (fst hp) \<Longrightarrow> i < length (fst hp) \<Longrightarrow> j < length (fst hp) \<Longrightarrow>
   snd (hswap hp i j) x = snd hp x"
  by (auto simp: hswap_def Let_def)

lemma hup_keeps:
  assumes "j < length (fst hp)"
  shows "length (fst (hup lt hp j)) = length (fst hp)"
    and "mset (fst (hup lt hp j)) = mset (fst hp)"
    and "idx_ok hp \<Longrightarrow> idx_ok (hup lt hp j)"
  using assms
  by (induction lt hp j rule: hup.induct)
    (simp add: hup.simps Let_def mset_hswap idx_ok_hswap parent_bound)+

lemma hchild_bounds:
  "2 * i + 1 < n \<Longrightarrow> hchild lt xs i n < n \<and> i < hchild lt xs i n \<and> parent (hchild lt xs i n) = i"
  by (auto simp: hchild_def Let_def parent_def)

lemma hdown_keeps:
  assumes "i < n" "n \<le> length (fst hp)"
  shows "length (fst (fst (hdown lt hp i n))) = length (fst hp)"
    and "mset (fst (fst (hdown lt hp i n))) = mset (fst hp)"
    and "idx_ok hp \<Longrightarrow> idx_ok (fst (hdown lt hp i n))"
    and "i \<le> snd (hdown lt hp i n)" "snd (hdown lt hp i n) < n"
    and "n \<le> k \<Longrightarrow> k < length (fst hp) \<Longrightarrow> fst (fst (hdown lt hp i n)) ! k = fst hp ! k"
  using assms
proof (induction lt hp i n rule: hdown.induct)
  case (1 lt hp i n)
  let ?j = "hchild lt (fst hp) i n"
  let ?stop = "n \<le> 2 * i + 1 \<or> \<not> lt (fst hp ! ?j) (fst hp ! i)"
  have eq: "hdown lt hp i n = (if ?stop then (hp, i) else hdown lt (hswap hp i ?j) ?j n)"
    by (simp add: hdown.simps [of lt hp i n] Let_def)
  have j: "\<not> ?stop \<Longrightarrow> ?j < n \<and> i < ?j"
    using hchild_bounds [of i n lt "fst hp"] by auto
  note IH = 1(1-6) [OF _ refl, simplified]
  { case 1 then show ?case using IH(1) j by (simp add: eq) }
  { case 2 then show ?case using IH(2) j by (auto simp: eq mset_hswap) }
  { case 3 then show ?case using IH(3) j by (simp add: eq idx_ok_hswap) }
  { case 4 then show ?case using IH(4) j by (auto simp add: eq intro: order_trans less_imp_le) }
  { case 5 then show ?case using IH(5) j by (simp add: eq) }
  { case 6 then show ?case using IH(6) j by (auto simp: eq nth_hswap) }
qed


section \<open>Heap shape\<close>

text \<open>
  \<open>is_heap\<close>: no element precedes its parent. While an element is being moved the shape has a gap at
  one position: the edges at that position are not known, only that its children do not precede its
  parent.
\<close>

definition is_heap :: "('h \<Rightarrow> 'h \<Rightarrow> bool) \<Rightarrow> 'h list \<Rightarrow> nat \<Rightarrow> bool" where
  "is_heap lt xs n \<longleftrightarrow> (\<forall>k<n. 0 < k \<longrightarrow> \<not> lt (xs ! k) (xs ! parent k))"

definition heap_gap :: "('h \<Rightarrow> 'h \<Rightarrow> bool) \<Rightarrow> 'h list \<Rightarrow> nat \<Rightarrow> nat \<Rightarrow> bool" where
  "heap_gap lt xs n i \<longleftrightarrow>
     (\<forall>k<n. 0 < k \<and> k \<noteq> i \<and> parent k \<noteq> i \<longrightarrow> \<not> lt (xs ! k) (xs ! parent k)) \<and>
     (\<forall>k<n. 0 < k \<and> parent k = i \<and> 0 < i \<longrightarrow> \<not> lt (xs ! k) (xs ! parent i))"

definition below_ok :: "('h \<Rightarrow> 'h \<Rightarrow> bool) \<Rightarrow> 'h list \<Rightarrow> nat \<Rightarrow> nat \<Rightarrow> bool" where
  "below_ok lt xs n i \<longleftrightarrow> (\<forall>k<n. 0 < k \<and> parent k = i \<longrightarrow> \<not> lt (xs ! k) (xs ! i))"

definition above_ok :: "('h \<Rightarrow> 'h \<Rightarrow> bool) \<Rightarrow> 'h list \<Rightarrow> nat \<Rightarrow> bool" where
  "above_ok lt xs i \<longleftrightarrow> (0 < i \<longrightarrow> \<not> lt (xs ! i) (xs ! parent i))"

lemma heap_from_gap:
  assumes "heap_gap lt xs n i" "below_ok lt xs n i" "above_ok lt xs i"
  shows "is_heap lt xs n"
  unfolding is_heap_def
proof (intro allI impI)
  fix k assume "k < n" "0 < k"
  with assms show "\<not> lt (xs ! k) (xs ! parent k)"
    by (cases "k = i \<or> parent k = i") (auto simp: heap_gap_def below_ok_def above_ok_def)
qed

lemma gap_cong:
  assumes eq: "\<And>k. k < n \<Longrightarrow> k \<noteq> i \<Longrightarrow> ys ! k = xs ! k" and i: "i < n"
    and gap: "heap_gap lt xs n i"
  shows "heap_gap lt ys n i"
  unfolding heap_gap_def
proof (intro conjI allI impI; elim conjE)
  fix k assume k: "k < n" "0 < k" "k \<noteq> i" "parent k \<noteq> i"
  then show "\<not> lt (ys ! k) (ys ! parent k)"
    using gap by (simp add: eq parent_bound heap_gap_def)
next
  fix k assume k: "k < n" "0 < k" "parent k = i" "0 < i"
  then have "k \<noteq> i" "parent i \<noteq> i" "parent i < n" using i parent_less [of k] parent_less [of i] by (auto simp: parent_bound)
  with k show "\<not> lt (ys ! k) (ys ! parent i)"
    using gap by (simp add: eq heap_gap_def)
qed

lemma is_heap_le: "is_heap lt xs n \<Longrightarrow> m \<le> n \<Longrightarrow> is_heap lt xs m"
  by (auto simp: is_heap_def)

lemma is_heap_cong:
  assumes eq: "\<And>k. k < n \<Longrightarrow> ys ! k = xs ! k" and h: "is_heap lt xs n"
  shows "is_heap lt ys n"
  using h eq by (simp add: is_heap_def parent_bound)

text \<open>A well-formed heap: the index fields are right and no element precedes its parent.\<close>

definition heap_ok :: "('h \<Rightarrow> 'h \<Rightarrow> bool) \<Rightarrow> 'h heap \<Rightarrow> bool" where
  "heap_ok lt hp \<longleftrightarrow> idx_ok hp \<and> is_heap lt (fst hp) (length (fst hp))"

lemma heap_ok_empty [simp]: "heap_ok lt ([], f)"
  by (simp add: heap_ok_def idx_ok_def is_heap_def)

lemma heap_ok_set: "heap_ok lt hp \<Longrightarrow> mset (fst hp) = mset_set (set (fst hp))"
  by (simp add: heap_ok_def idx_ok_def mset_set_set)

text \<open>Sifting up does not touch the positions after the start.\<close>

lemma hup_above: "j < k \<Longrightarrow> k < length (fst hp) \<Longrightarrow> fst (hup lt hp j) ! k = fst hp ! k"
proof (induction lt hp j rule: hup.induct)
  case (1 lt hp j)
  then show ?case
    using parent_le [of j]
    by (auto simp: hup.simps [of lt hp j] Let_def nth_hswap)
qed

locale heap_order =
  fixes lt :: "'h \<Rightarrow> 'h \<Rightarrow> bool"
  assumes asym: "lt a b \<Longrightarrow> \<not> lt b a"
    and negtrans: "\<not> lt a b \<Longrightarrow> \<not> lt b c \<Longrightarrow> \<not> lt a c"
begin

lemma gap_of_heap:
  assumes h: "is_heap lt xs n" and i: "i < n"
  shows "heap_gap lt xs n i"
proof -
  have "\<not> lt (xs ! k) (xs ! parent i)" if "k < n" "0 < k" "parent k = i" "0 < i" for k
    using h that i negtrans [of "xs ! k" "xs ! i"] by (auto simp: is_heap_def)
  with h show ?thesis by (simp add: is_heap_def heap_gap_def)
qed

lemma hchild_least:
  assumes "2 * i + 1 < n" "0 < k" "k < n" "parent k = i"
  shows "\<not> lt (xs ! k) (xs ! hchild lt xs i n)"
  using children_of [OF assms(2,4)] assms(1,3) asym
  by (auto simp: hchild_def Let_def)

lemma up_step:
  assumes hp: "heap_gap lt (fst hp) n j" "below_ok lt (fst hp) n j"
    and j: "j < n" "n \<le> length (fst hp)" "0 < j" and lt: "lt (fst hp ! j) (fst hp ! parent j)"
  defines "hp' \<equiv> hswap hp (parent j) j"
  shows "heap_gap lt (fst hp') n (parent j)" and "below_ok lt (fst hp') n (parent j)"
proof -
  let ?xs = "fst hp" and ?i = "parent j"
  have ij: "?i < j" and i: "?i < n" using j by (auto simp: parent_less parent_bound)
  have nth: "fst hp' ! k = (if k = j then ?xs ! ?i else if k = ?i then ?xs ! j else ?xs ! k)"
    if "k < n" for k
    using that j i by (simp add: hp'_def nth_hswap)
  note par = parent_bound
  have g1: "\<not> lt (?xs ! k) (?xs ! parent k)" if "k < n" "0 < k" "k \<noteq> j" "parent k \<noteq> j" for k
    using hp(1) that by (auto simp: heap_gap_def)
  have g2: "\<not> lt (?xs ! k) (?xs ! ?i)" if "k < n" "0 < k" "parent k = j" for k
    using hp(1) that j by (auto simp: heap_gap_def)
  have pi: "parent ?i \<noteq> j" "0 < ?i \<Longrightarrow> parent ?i < ?i"
    using ij parent_le [of ?i] by (linarith, simp add: parent_less)
  have sib: "\<not> lt (?xs ! k) (?xs ! j)" if "k < n" "0 < k" "parent k = ?i" "k \<noteq> j" for k
    using g1 [of k] that ij asym [OF lt] negtrans by (metis less_irrefl)
  show "heap_gap lt (fst hp') n ?i"
    unfolding heap_gap_def
  proof (intro conjI allI impI; elim conjE)
    fix k assume k: "k < n" "0 < k" "k \<noteq> ?i" "parent k \<noteq> ?i"
    then show "\<not> lt (fst hp' ! k) (fst hp' ! parent k)"
      using g1 [of k] g2 [of k] ij by (cases "parent k = j") (auto simp: nth par)
  next
    fix k assume k: "k < n" "0 < k" "parent k = ?i" "0 < ?i"
    have up: "\<not> lt (?xs ! ?i) (?xs ! parent ?i)" using g1 [of ?i] k i ij pi by auto
    show "\<not> lt (fst hp' ! k) (fst hp' ! parent ?i)"
    proof (cases "k = j")
      case True
      with up i pi k show ?thesis by (simp add: nth par)
    next
      case False
      then have "\<not> lt (?xs ! k) (?xs ! parent ?i)"
        using g1 [of k] k ij up negtrans by (metis less_irrefl)
      with False i pi k show ?thesis by (auto simp: nth par)
    qed
  qed
  show "below_ok lt (fst hp') n ?i"
    unfolding below_ok_def
  proof (intro allI impI; elim conjE)
    fix k assume k: "k < n" "0 < k" "parent k = ?i"
    then have "k \<noteq> ?i" using parent_less [of k] by auto
    then show "\<not> lt (fst hp' ! k) (fst hp' ! ?i)"
      using sib [of k] asym [OF lt] ij i k by (auto simp: nth)
  qed
qed

lemma hup_heap:
  "heap_gap lt (fst hp) n j \<Longrightarrow> below_ok lt (fst hp) n j \<Longrightarrow> j < n \<Longrightarrow> n \<le> length (fst hp) \<Longrightarrow>
   is_heap lt (fst (hup lt hp j)) n"
proof (induction j arbitrary: hp rule: less_induct)
  case (less j)
  show ?case
  proof (cases "parent j = j \<or> \<not> lt (fst hp ! j) (fst hp ! parent j)")
    case True
    then have "above_ok lt (fst hp) j" by (auto simp: above_ok_def parent_eq_self)
    with True less.prems show ?thesis
      by (auto simp: hup.simps [of lt hp j] Let_def intro: heap_from_gap)
  next
    case False
    then have "0 < j" by (auto simp: parent_eq_self)
    with False less show ?thesis
      using up_step [of hp n j] less.IH [of "parent j" "hswap hp (parent j) j"]
      by (auto simp: hup.simps [of lt hp j] Let_def parent_less)
  qed
qed

lemma down_stop:
  assumes "2 * i + 1 \<ge> n \<or> \<not> lt (xs ! hchild lt xs i n) (xs ! i)"
  shows "below_ok lt xs n i"
  unfolding below_ok_def
proof (intro allI impI; elim conjE)
  fix k assume k: "k < n" "0 < k" "parent k = i"
  then have "2 * i + 1 < n" using children_of [OF k(2,3)] by auto
  then show "\<not> lt (xs ! k) (xs ! i)"
    using assms hchild_least [OF _ k(2,1,3)] negtrans by fastforce
qed

lemma down_step:
  assumes gap: "heap_gap lt (fst hp) n i" and i: "2 * i + 1 < n" "n \<le> length (fst hp)"
  defines "j \<equiv> hchild lt (fst hp) i n"
  defines "hp' \<equiv> hswap hp i j"
  assumes lt: "lt (fst hp ! j) (fst hp ! i)"
  shows "heap_gap lt (fst hp') n j" and "above_ok lt (fst hp') j"
proof -
  let ?xs = "fst hp"
  have j: "j < n" "i < j" "parent j = i" using hchild_bounds [OF i(1), of lt "fst hp"] by (simp_all add: j_def)
  have nth: "fst hp' ! k = (if k = j then ?xs ! i else if k = i then ?xs ! j else ?xs ! k)"
    if "k < n" for k
    using that j i by (simp add: hp'_def nth_hswap)
  note par = parent_bound
  have g1: "\<not> lt (?xs ! k) (?xs ! parent k)" if "k < n" "0 < k" "k \<noteq> i" "parent k \<noteq> i" for k
    using gap that by (auto simp: heap_gap_def)
  have g2: "0 < i \<Longrightarrow> \<not> lt (?xs ! j) (?xs ! parent i)"
    using gap j by (auto simp: heap_gap_def)
  have least: "\<not> lt (?xs ! k) (?xs ! j)" if "k < n" "0 < k" "parent k = i" for k
    using hchild_least [OF i(1) that(2,1,3)] by (simp add: j_def)
  show "heap_gap lt (fst hp') n j"
    unfolding heap_gap_def
  proof (intro conjI allI impI; elim conjE)
    fix k assume k: "k < n" "0 < k" "k \<noteq> j" "parent k \<noteq> j"
    consider "k = i" | "parent k = i" "k \<noteq> i" | "k \<noteq> i" "parent k \<noteq> i" by blast
    then show "\<not> lt (fst hp' ! k) (fst hp' ! parent k)"
      by cases (use k g1 [of k] g2 least [of k] in \<open>auto simp: nth par parent_eq_self\<close>)
  next
    fix k assume k: "k < n" "0 < k" "parent k = j" "0 < j"
    then have "k \<noteq> i" "k \<noteq> j" using j parent_less [of k] by auto
    with k j show "\<not> lt (fst hp' ! k) (fst hp' ! parent j)"
      using g1 [of k] by (simp add: nth)
  qed
  show "above_ok lt (fst hp') j"
    using j asym [OF lt] by (simp add: above_ok_def nth)
qed

lemma hdown_heap:
  "heap_gap lt (fst hp) n i \<Longrightarrow> above_ok lt (fst hp) i \<Longrightarrow> i < n \<Longrightarrow> n \<le> length (fst hp) \<Longrightarrow>
   is_heap lt (fst (fst (hdown lt hp i n))) n"
proof (induction "n - i" arbitrary: hp i rule: less_induct)
  case less
  let ?j = "hchild lt (fst hp) i n"
  show ?case
  proof (cases "2 * i + 1 \<ge> n \<or> \<not> lt (fst hp ! ?j) (fst hp ! i)")
    case True
    from down_stop [OF this] less.prems have "is_heap lt (fst hp) n"
      by (auto intro: heap_from_gap)
    with True show ?thesis by (auto simp: hdown.simps [of lt hp i n] Let_def)
  next
    case False
    then have j: "?j < n" "i < ?j" using hchild_bounds [of i n lt "fst hp"] by auto
    with False less.prems have "is_heap lt (fst (fst (hdown lt (hswap hp i ?j) ?j n))) n"
      using down_step [of hp n i] by (intro less.hyps) auto
    with False show ?thesis by (auto simp: hdown.simps [of lt hp i n] Let_def)
  qed
qed

lemma hdown_moved:
  assumes "heap_gap lt (fst hp) n i" "i < n" "n \<le> length (fst hp)"
  shows "i < snd (hdown lt hp i n) \<Longrightarrow> is_heap lt (fst (fst (hdown lt hp i n))) n"
    and "\<not> i < snd (hdown lt hp i n) \<Longrightarrow> fst (hdown lt hp i n) = hp \<and> below_ok lt (fst hp) n i"
proof -
  let ?j = "hchild lt (fst hp) i n"
  let ?stop = "2 * i + 1 \<ge> n \<or> \<not> lt (fst hp ! ?j) (fst hp ! i)"
  have eq: "hdown lt hp i n = (if ?stop then (hp, i) else hdown lt (hswap hp i ?j) ?j n)"
    by (simp add: hdown.simps [of lt hp i n] Let_def)
  have j: "\<not> ?stop \<Longrightarrow> ?j < n \<and> i < ?j" using hchild_bounds [of i n lt "fst hp"] by auto
  have "is_heap lt (fst (fst (hdown lt hp i n))) n" if "\<not> ?stop"
    using that assms j down_step [OF assms(1) _ assms(3)]
    unfolding eq by (simp add: hdown_heap)
  moreover have "?stop" if "\<not> i < snd (hdown lt hp i n)"
    using that hdown_keeps(4) [of ?j n "hswap hp i ?j" lt] j assms by (fastforce simp: eq)
  ultimately show "i < snd (hdown lt hp i n) \<Longrightarrow> is_heap lt (fst (fst (hdown lt hp i n))) n"
    and "\<not> i < snd (hdown lt hp i n) \<Longrightarrow> fst (hdown lt hp i n) = hp \<and> below_ok lt (fst hp) n i"
    using down_stop by (fastforce simp: eq)+
qed


section \<open>The exported operations\<close>

lemma root_least: "is_heap lt xs n \<Longrightarrow> k < n \<Longrightarrow> \<not> lt (xs ! k) (xs ! 0)"
proof (induction k rule: less_induct)
  case (less k)
  show ?case
  proof (cases "k = 0")
    case True
    then show ?thesis using asym by blast
  next
    case False
    then have "\<not> lt (xs ! parent k) (xs ! 0)" "\<not> lt (xs ! k) (xs ! parent k)"
      using less by (auto simp: parent_less parent_bound is_heap_def)
    then show ?thesis using negtrans by blast
  qed
qed

lemma heap_push_ok:
  assumes ok: "heap_ok lt hp" and x: "x \<notin> set (fst hp)"
  shows "heap_ok lt (heap_push lt hp x)"
    and "mset (fst (heap_push lt hp x)) = add_mset x (mset (fst hp))"
proof -
  let ?n = "length (fst hp)" and ?hp = "happend hp x"
  have len: "length (fst ?hp) = Suc ?n" by (simp add: happend_def)
  have idx: "idx_ok ?hp"
    unfolding idx_ok_def
  proof (intro conjI allI impI)
    show "distinct (fst ?hp)" using ok x by (simp add: happend_def heap_ok_def idx_ok_def)
    fix k assume "k < length (fst ?hp)"
    then show "snd ?hp (fst ?hp ! k) = int k"
      using ok x nth_mem [of k "fst hp"]
      by (cases "k = ?n") (auto simp: happend_def heap_ok_def idx_ok_def nth_append)
  qed
  have "heap_gap lt (fst ?hp) (Suc ?n) ?n"
    unfolding heap_gap_def
  proof (intro conjI allI impI; elim conjE)
    fix k assume "k < Suc ?n" "0 < k" "k \<noteq> ?n" "parent k \<noteq> ?n"
    then show "\<not> lt (fst ?hp ! k) (fst ?hp ! parent k)"
      using ok by (simp add: heap_ok_def is_heap_def happend_def nth_append parent_bound)
  next
    fix k assume "k < Suc ?n" "0 < k" "parent k = ?n"
    then show "\<not> lt (fst ?hp ! k) (fst ?hp ! parent ?n)"
      using parent_less [of k] by simp
  qed
  moreover have "below_ok lt (fst ?hp) (Suc ?n) ?n"
    unfolding below_ok_def
  proof (intro allI impI; elim conjE)
    fix k assume "k < Suc ?n" "0 < k" "parent k = ?n"
    then show "\<not> lt (fst ?hp ! k) (fst ?hp ! ?n)"
      using parent_less [of k] by simp
  qed
  ultimately have "is_heap lt (fst (hup lt ?hp ?n)) (Suc ?n)"
    by (intro hup_heap) (simp_all add: len)
  then show "heap_ok lt (heap_push lt hp x)"
    using idx by (simp add: heap_ok_def heap_push_def hup_keeps len)
  show "mset (fst (heap_push lt hp x)) = add_mset x (mset (fst hp))"
    by (simp add: heap_push_def hup_keeps len) (simp add: happend_def)
qed

lemma hcut_ok:
  assumes idx: "idx_ok hp" and ne: "fst hp \<noteq> []"
    and heap: "is_heap lt (fst hp) (length (fst hp) - 1)"
  shows "heap_ok lt (snd (hcut hp))"
    and "mset (fst hp) = add_mset (fst (hcut hp)) (mset (fst (snd (hcut hp))))"
    and "fst (hcut hp) = fst hp ! (length (fst hp) - 1)"
proof -
  let ?x = "last (fst hp)"
  have split: "fst hp = butlast (fst hp) @ [?x]" using ne by simp
  have fresh: "?x \<notin> set (butlast (fst hp))"
    using idx split by (metis distinct_append idx_ok_def not_distinct_conv_prefix)
  have pos: "butlast (fst hp) ! k = fst hp ! k" if "k < length (fst hp) - 1" for k
    using that by (simp add: nth_butlast)
  have other: "fst hp ! k \<noteq> ?x" if "k < length (fst hp) - 1" for k
    using that fresh nth_mem [of k "butlast (fst hp)"] by (auto simp: pos)
  have "idx_ok (snd (hcut hp))"
    using idx other by (simp add: hcut_def Let_def idx_ok_def distinct_butlast pos)
  moreover have "is_heap lt (butlast (fst hp)) (length (fst hp) - 1)"
    using heap by (rule is_heap_cong [rotated]) (simp add: pos)
  ultimately show "heap_ok lt (snd (hcut hp))"
    by (simp add: heap_ok_def hcut_def Let_def)
  show "mset (fst hp) = add_mset (fst (hcut hp)) (mset (fst (snd (hcut hp))))"
    by (subst split) (simp add: hcut_def Let_def)
  show "fst (hcut hp) = fst hp ! (length (fst hp) - 1)"
    using ne by (simp add: hcut_def Let_def last_conv_nth)
qed

text \<open>Both removals first bring the element to the end and repair the shape of the rest.\<close>

lemma swap_last_gap:
  assumes ok: "heap_ok lt hp" and i: "i < length (fst hp) - 1"
  shows "heap_gap lt (fst (hswap hp i (length (fst hp) - 1))) (length (fst hp) - 1) i"
proof (rule gap_cong)
  show "heap_gap lt (fst hp) (length (fst hp) - 1) i"
    using ok i by (intro gap_of_heap) (auto simp: heap_ok_def is_heap_def)
  show "fst (hswap hp i (length (fst hp) - 1)) ! k = fst hp ! k"
    if "k < length (fst hp) - 1" "k \<noteq> i" for k
    using that i by (simp add: nth_hswap)
qed (use i in simp)

lemma heap_pop_eq_remove:
  assumes ok: "heap_ok lt hp" and ne: "fst hp \<noteq> []"
  shows "heap_pop lt hp = heap_remove lt hp 0"
proof -
  let ?n = "length (fst hp) - 1"
  show ?thesis
  proof (cases "?n = 0")
    case True
    then have "hswap hp 0 0 = (fst hp, (snd hp)(fst hp ! 0 := 0))"
      by (simp add: hswap_def Let_def)
    also have "\<dots> = hp"
      using ok ne by (cases hp) (simp add: heap_ok_def idx_ok_def fun_upd_idem)
    finally show ?thesis
      using True by (simp add: heap_pop_def heap_remove_def hdown.simps)
  next
    case False
    let ?hp = "hswap hp 0 ?n"
    have gap: "heap_gap lt (fst ?hp) ?n 0"
      using swap_last_gap [OF ok] False by simp
    have up: "hup lt g 0 = g" for g
      by (simp add: hup.simps [of lt g 0] parent_def)
    show ?thesis
      using False hdown_moved(2) [OF gap]
      by (simp add: heap_pop_def heap_remove_def Let_def up split: prod.split)
  qed
qed

lemma heap_remove_ok:
  assumes ok: "heap_ok lt hp" and i: "i < length (fst hp)"
  shows "heap_ok lt (snd (heap_remove lt hp i))"
    and "fst (heap_remove lt hp i) = fst hp ! i"
    and "mset (fst (snd (heap_remove lt hp i))) = mset (fst hp) - {#fst hp ! i#}"
proof -
  let ?n = "length (fst hp) - 1" and ?hp = "hswap hp i (length (fst hp) - 1)"
  define g where "g = (if ?n = i then hp
    else if i < snd (hdown lt ?hp i ?n) then fst (hdown lt ?hp i ?n)
    else hup lt (fst (hdown lt ?hp i ?n)) i)"
  have rem: "heap_remove lt hp i = hcut g"
    by (simp add: heap_remove_def g_def Let_def split: prod.split)
  have idx: "idx_ok hp" and heap: "is_heap lt (fst hp) (length (fst hp))"
    using ok by (simp_all add: heap_ok_def)
  have ne: "fst hp \<noteq> []" using i by auto
  have main: "idx_ok g \<and> mset (fst g) = mset (fst hp) \<and> length (fst g) = length (fst hp) \<and>
      is_heap lt (fst g) ?n \<and> fst g ! ?n = fst hp ! i"
  proof (cases "?n = i")
    case True
    then show ?thesis
      using idx is_heap_le [OF heap, of ?n] by (simp add: g_def)
  next
    case False
    then have i': "i < ?n" using i by linarith
    have n: "?n < length (fst hp)" using i' by linarith
    note gap = swap_last_gap [OF ok i']
    have idx': "idx_ok ?hp" using idx i n by (rule idx_ok_hswap)
    have last: "fst ?hp ! ?n = fst hp ! i" using i n by (simp add: nth_hswap)
    have ms: "mset (fst ?hp) = mset (fst hp)" using i n by (rule mset_hswap)
    show ?thesis
    proof (cases "i < snd (hdown lt ?hp i ?n)")
      case True
      with False show ?thesis
        using hdown_moved(1) [OF gap i'] hdown_keeps [OF i', where hp = ?hp and lt = lt] n idx' ms last
        by (simp add: g_def)
    next
      case stay: False
      then have d: "fst (hdown lt ?hp i ?n) = ?hp" "below_ok lt (fst ?hp) ?n i"
        using hdown_moved(2) [OF gap i'] by simp_all
      then have g: "g = hup lt ?hp i" using False stay by (simp add: g_def)
      have "is_heap lt (fst g) ?n" unfolding g using gap d(2) i' by (intro hup_heap) simp_all
      moreover have "fst g ! ?n = fst ?hp ! ?n"
        unfolding g using i' n by (intro hup_above) simp_all
      ultimately show ?thesis
        using hup_keeps [of i ?hp lt] i idx' ms last by (simp add: g)
    qed
  qed
  then have g: "idx_ok g" "fst g \<noteq> []" "is_heap lt (fst g) (length (fst g) - 1)"
    using ne by auto
  note cut = hcut_ok [OF g]
  show "heap_ok lt (snd (heap_remove lt hp i))" using cut(1) by (simp add: rem)
  show "fst (heap_remove lt hp i) = fst hp ! i" using cut(3) main by (simp add: rem)
  with cut(2) main show "mset (fst (snd (heap_remove lt hp i))) = mset (fst hp) - {#fst hp ! i#}"
    by (simp add: rem)
qed

lemma heap_pop_ok:
  assumes ok: "heap_ok lt hp" and ne: "fst hp \<noteq> []"
  shows "heap_ok lt (snd (heap_pop lt hp))"
    and "fst (heap_pop lt hp) = fst hp ! 0"
    and "mset (fst (snd (heap_pop lt hp))) = mset (fst hp) - {#fst hp ! 0#}"
    and "x \<in> set (fst hp) \<Longrightarrow> \<not> lt x (fst (heap_pop lt hp))"
proof -
  have 0: "0 < length (fst hp)" using ne by simp
  note heap_remove_ok [OF ok 0, folded heap_pop_eq_remove [OF ok ne]]
  then show "heap_ok lt (snd (heap_pop lt hp))" "fst (heap_pop lt hp) = fst hp ! 0"
    "mset (fst (snd (heap_pop lt hp))) = mset (fst hp) - {#fst hp ! 0#}"
    by simp_all
  then show "\<not> lt x (fst (heap_pop lt hp))" if "x \<in> set (fst hp)"
    using that ok by (auto simp: in_set_conv_nth heap_ok_def root_least)
qed

end

end
