(* ===== verification/PtrHeap.thy ===== *)
theory PtrHeap
  imports GoHeap
begin

text \<open>
  A priority queue of pointers to structs: the heap of \<open>GoHeap\<close> whose elements are addresses, the
  memory that holds the structs, and the next free address. The comparison \<open>before\<close> reads the
  structs. Both queues of the program (\<open>scheduler.PriorityQueue\<close> and \<open>session.SessionScheduler\<close>) are
  built on it. The locale \<open>data_order\<close> has the laws of \<open>before\<close>; the locale \<open>priority_queue\<close> is the
  contract the queue gives to its clients, in terms of the bag of queued structs.
\<close>

record 'd pheap =
  ph_heap :: "nat heap"
  ph_data :: "nat \<rightharpoonup> 'd"
  ph_next :: nat

definition ph_empty :: "'d pheap" where
  "ph_empty = \<lparr>ph_heap = ([], \<lambda>_. 0), ph_data = Map.empty, ph_next = 0\<rparr>"

abbreviation ph_queue :: "'d pheap \<Rightarrow> nat list" where
  "ph_queue s \<equiv> fst (ph_heap s)"

abbreviation ph_index :: "'d pheap \<Rightarrow> nat \<Rightarrow> int" where
  "ph_index s \<equiv> snd (ph_heap s)"

abbreviation ph_deref :: "'d pheap \<Rightarrow> nat \<Rightarrow> 'd" where
  "ph_deref s h \<equiv> the (ph_data s h)"

definition ph_less :: "('d \<Rightarrow> 'd \<Rightarrow> bool) \<Rightarrow> (nat \<rightharpoonup> 'd) \<Rightarrow> nat \<Rightarrow> nat \<Rightarrow> bool" where
  "ph_less before data a b \<longleftrightarrow> before (the (data a)) (the (data b))"

definition ph_push :: "('d \<Rightarrow> 'd \<Rightarrow> bool) \<Rightarrow> 'd \<Rightarrow> 'd pheap \<Rightarrow> 'd pheap" where
  "ph_push before d s =
     (let h = ph_next s; data = (ph_data s)(h \<mapsto> d)
      in \<lparr>ph_heap = heap_push (ph_less before data) (ph_heap s) h, ph_data = data, ph_next = Suc h\<rparr>)"

definition ph_pop :: "('d \<Rightarrow> 'd \<Rightarrow> bool) \<Rightarrow> 'd pheap \<Rightarrow> ('d \<times> 'd pheap) option" where
  "ph_pop before s =
     (if ph_queue s = [] then None
      else let (h, hp) = heap_pop (ph_less before (ph_data s)) (ph_heap s)
           in Some (ph_deref s h, s\<lparr>ph_heap := hp\<rparr>))"

definition ph_remove :: "('d \<Rightarrow> 'd \<Rightarrow> bool) \<Rightarrow> nat \<Rightarrow> 'd pheap \<Rightarrow> 'd pheap" where
  "ph_remove before i s =
     s\<lparr>ph_heap := snd (heap_remove (ph_less before (ph_data s)) (ph_heap s) i)\<rparr>"

definition ph_bag :: "'d pheap \<Rightarrow> 'd multiset" where
  "ph_bag s = image_mset (ph_deref s) (mset (ph_queue s))"

definition ph_inv :: "('d \<Rightarrow> 'd \<Rightarrow> bool) \<Rightarrow> 'd pheap \<Rightarrow> bool" where
  "ph_inv before s \<longleftrightarrow>
     heap_ok (ph_less before (ph_data s)) (ph_heap s) \<and>
     set (ph_queue s) \<subseteq> dom (ph_data s) \<and> dom (ph_data s) \<subseteq> {..<ph_next s}"

lemma ph_inv_empty [simp]: "ph_inv before ph_empty"
  by (simp add: ph_inv_def ph_empty_def)

lemma ph_bag_empty [simp]: "ph_bag ph_empty = {#}"
  by (simp add: ph_bag_def ph_empty_def)

lemma heap_ok_data_cong:
  assumes "heap_ok (ph_less before f) hp" "\<And>h. h \<in> set (fst hp) \<Longrightarrow> g h = f h"
  shows "heap_ok (ph_less before g) hp"
  using assms by (auto simp: heap_ok_def is_heap_def ph_less_def parent_bound)

text \<open>The contract of a priority queue, and the order in which a client gets everything out.\<close>

locale priority_queue =
  fixes inv :: "'s \<Rightarrow> bool" and bag :: "'s \<Rightarrow> 'd multiset"
    and push :: "'d \<Rightarrow> 's \<Rightarrow> 's" and pop :: "'s \<Rightarrow> ('d \<times> 's) option"
    and before :: "'d \<Rightarrow> 'd \<Rightarrow> bool"
  assumes inv_push: "inv s \<Longrightarrow> inv (push d s)"
    and bag_push: "inv s \<Longrightarrow> bag (push d s) = add_mset d (bag s)"
    and pop_None: "inv s \<Longrightarrow> pop s = None \<longleftrightarrow> bag s = {#}"
    and inv_pop: "inv s \<Longrightarrow> pop s = Some (d, s') \<Longrightarrow> inv s'"
    and bag_pop: "inv s \<Longrightarrow> pop s = Some (d, s') \<Longrightarrow> bag s = add_mset d (bag s')"
    and first_pop: "inv s \<Longrightarrow> pop s = Some (d, s') \<Longrightarrow> e \<in># bag s \<Longrightarrow> \<not> before e d"

fun drain :: "('s \<Rightarrow> ('d \<times> 's) option) \<Rightarrow> nat \<Rightarrow> 's \<Rightarrow> 'd list" where
  "drain pop 0 s = []"
| "drain pop (Suc n) s = (case pop s of None \<Rightarrow> [] | Some (d, s') \<Rightarrow> d # drain pop n s')"

context priority_queue begin

lemma drain_bag: "inv s \<Longrightarrow> size (bag s) \<le> n \<Longrightarrow> mset (drain pop n s) = bag s"
proof (induction n arbitrary: s)
  case 0
  then show ?case by simp
next
  case (Suc n)
  show ?case
  proof (cases "pop s")
    case None
    with Suc.prems pop_None [of s] show ?thesis by simp
  next
    case (Some p)
    obtain d s' where p: "pop s = Some (d, s')" using Some by (cases p) auto
    with Suc show ?thesis using bag_pop [OF Suc.prems(1) p] inv_pop [OF Suc.prems(1) p] by simp
  qed
qed

lemma drain_sorted:
  "inv s \<Longrightarrow> sorted_wrt (\<lambda>x y. \<not> before y x) (drain pop n s)
     \<and> set (drain pop n s) \<subseteq> set_mset (bag s)"
proof (induction n arbitrary: s)
  case (Suc n)
  show ?case
  proof (cases "pop s")
    case (Some p)
    obtain d s' where p: "pop s = Some (d, s')" using Some by (cases p) auto
    note bag_pop [OF Suc.prems p] inv_pop [OF Suc.prems p] first_pop [OF Suc.prems p]
    with Suc.IH [of s'] p show ?thesis by fastforce
  qed simp
qed simp

end

locale data_order =
  fixes before :: "'d \<Rightarrow> 'd \<Rightarrow> bool"
  assumes before_asym: "before a b \<Longrightarrow> \<not> before b a"
    and before_negtrans: "\<not> before a b \<Longrightarrow> \<not> before b c \<Longrightarrow> \<not> before a c"

sublocale data_order \<subseteq> ptr: heap_order "ph_less before data" for data
  by unfold_locales (auto simp: ph_less_def dest: before_asym before_negtrans)

context data_order begin

lemma push_keeps:
  assumes inv: "ph_inv before s"
  shows "ph_inv before (ph_push before d s)"
    and "ph_bag (ph_push before d s) = add_mset d (ph_bag s)"
    and "ph_data (ph_push before d s) = (ph_data s)(ph_next s \<mapsto> d)"
    and "mset (ph_queue (ph_push before d s)) = add_mset (ph_next s) (mset (ph_queue s))"
proof -
  let ?h = "ph_next s" and ?data = "(ph_data s)(ph_next s \<mapsto> d)"
  have fresh: "?h \<notin> set (ph_queue s)" using inv by (auto simp: ph_inv_def)
  have "heap_ok (ph_less before ?data) (ph_heap s)"
  proof (rule heap_ok_data_cong)
    show "heap_ok (ph_less before (ph_data s)) (ph_heap s)" using inv by (simp add: ph_inv_def)
    show "?data h = ph_data s h" if "h \<in> set (ph_queue s)" for h using that fresh by auto
  qed
  note push = ptr.heap_push_ok [OF this fresh]
  have set: "set (fst (heap_push (ph_less before ?data) (ph_heap s) ?h)) = insert ?h (set (ph_queue s))"
    using push(2) by (metis set_mset_add_mset_insert set_mset_mset)
  show "ph_inv before (ph_push before d s)"
    using inv push set by (auto simp: ph_inv_def ph_push_def Let_def)
  show "ph_data (ph_push before d s) = ?data"
    by (simp add: ph_push_def Let_def)
  show "mset (ph_queue (ph_push before d s)) = add_mset ?h (mset (ph_queue s))"
    using push(2) by (simp add: ph_push_def Let_def)
  then show "ph_bag (ph_push before d s) = add_mset d (ph_bag s)"
    using fresh by (auto simp: ph_bag_def ph_push_def Let_def intro!: image_mset_cong)
qed

lemma remove_keeps:
  assumes inv: "ph_inv before s" and i: "i < length (ph_queue s)"
  shows "ph_inv before (ph_remove before i s)"
    and "ph_bag s = add_mset (ph_deref s (ph_queue s ! i)) (ph_bag (ph_remove before i s))"
    and "ph_data (ph_remove before i s) = ph_data s" "ph_next (ph_remove before i s) = ph_next s"
    and "mset (ph_queue s) = add_mset (ph_queue s ! i) (mset (ph_queue (ph_remove before i s)))"
    and "set (ph_queue (ph_remove before i s)) = set (ph_queue s) - {ph_queue s ! i}"
proof -
  have ok: "heap_ok (ph_less before (ph_data s)) (ph_heap s)" using inv by (simp add: ph_inv_def)
  note rem = ptr.heap_remove_ok [OF ok i]
  show ms: "mset (ph_queue s) = add_mset (ph_queue s ! i) (mset (ph_queue (ph_remove before i s)))"
    using rem(3) i by (simp add: ph_remove_def)
  then show "ph_bag s = add_mset (ph_deref s (ph_queue s ! i)) (ph_bag (ph_remove before i s))"
    by (simp add: ph_bag_def ph_remove_def)
  have d: "distinct (ph_queue s)" using ok by (simp add: heap_ok_def idx_ok_def)
  show set: "set (ph_queue (ph_remove before i s)) = set (ph_queue s) - {ph_queue s ! i}"
    using ms d by (metis Diff_insert_absorb distinct.simps(2) mset.simps(2) mset_eq_imp_distinct_iff
        mset_eq_setD list.simps(15))
  show "ph_inv before (ph_remove before i s)"
    using inv rem(1) set by (auto simp: ph_inv_def ph_remove_def)
qed (simp_all add: ph_remove_def)

lemma pop_cases:
  assumes inv: "ph_inv before s"
  obtains (empty) "ph_queue s = []" "ph_pop before s = None"
  | (pop) h s' where "ph_pop before s = Some (ph_deref s h, s')" "h = ph_queue s ! 0"
      "ph_queue s \<noteq> []" "s' = ph_remove before 0 s" "\<And>k. k \<in> set (ph_queue s) \<Longrightarrow>
       \<not> before (ph_deref s k) (ph_deref s h)"
proof (cases "ph_queue s = []")
  case True
  then show thesis using empty by (simp add: ph_pop_def)
next
  case False
  have ok: "heap_ok (ph_less before (ph_data s)) (ph_heap s)" using inv by (simp add: ph_inv_def)
  show thesis
    using False ptr.heap_pop_ok [OF ok False] ptr.heap_pop_eq_remove [OF ok False]
    by (intro pop [of "ph_queue s ! 0" "ph_remove before 0 s"])
       (auto simp: ph_pop_def ph_remove_def ph_less_def split: prod.split)
qed

lemma pop_keeps:
  assumes inv: "ph_inv before s" and pop: "ph_pop before s = Some (d, s')"
  shows "ph_inv before s'" "ph_bag s = add_mset d (ph_bag s')"
    "e \<in># ph_bag s \<Longrightarrow> \<not> before e d"
proof -
  obtain h where h: "d = ph_deref s h" "h = ph_queue s ! 0" "ph_queue s \<noteq> []"
      "s' = ph_remove before 0 s"
    and first: "\<And>k. k \<in> set (ph_queue s) \<Longrightarrow> \<not> before (ph_deref s k) (ph_deref s h)"
    using inv by (rule pop_cases) (use pop in auto)
  then show "ph_inv before s'" "ph_bag s = add_mset d (ph_bag s')"
    using remove_keeps [OF inv, of 0] by simp_all
  show "e \<in># ph_bag s \<Longrightarrow> \<not> before e d"
    using first h(1) by (auto simp: ph_bag_def)
qed

end

sublocale data_order \<subseteq> pq: priority_queue "ph_inv before" ph_bag "ph_push before" "ph_pop before" before
proof unfold_locales
  show "ph_pop before s = None \<longleftrightarrow> ph_bag s = {#}" if "ph_inv before s" for s
    by (simp add: ph_pop_def ph_bag_def split: prod.split)
qed (use push_keeps pop_keeps in auto)

end
