(* ===== verification/PriorityQueue.thy ===== *)
theory PriorityQueue
  imports SchedTypes PtrHeap
begin

text \<open>
  The priority queue of apps/scheduler/internal/scheduler/queue.go: a heap of \<open>*queuedItem\<close> ordered by
  falling priority and, at equal priority, by the time of enqueuing, plus the map \<open>items\<close> from item ids
  to the queued pointers, which \<open>Remove\<close> uses to find an element's position.
\<close>

section \<open>State and operations\<close>

text \<open>A \<open>queuedItem\<close>; its \<open>index\<close> field is kept by the heap.\<close>

record queued_item =
  qd_item :: queue_item
  qd_enqueuedAt :: time

definition qd_before :: "queued_item \<Rightarrow> queued_item \<Rightarrow> bool" where
  "qd_before a b =
     (if qi_priority (qd_item a) \<noteq> qi_priority (qd_item b)
      then qi_priority (qd_item a) > qi_priority (qd_item b)
      else qd_enqueuedAt a < qd_enqueuedAt b)"

record pq_state =
  pq_queue :: "queued_item pheap"
  pq_items :: "string \<rightharpoonup> nat"

definition NewPriorityQueue :: pq_state where
  "NewPriorityQueue = \<lparr>pq_queue = ph_empty, pq_items = Map.empty\<rparr>"

definition pq_Enqueue :: "time \<Rightarrow> queue_item \<Rightarrow> pq_state \<Rightarrow> pq_state" where
  "pq_Enqueue now it s =
     \<lparr>pq_queue = ph_push qd_before \<lparr>qd_item = it, qd_enqueuedAt = now\<rparr> (pq_queue s),
      pq_items = (pq_items s)(qi_id it \<mapsto> ph_next (pq_queue s))\<rparr>"

definition pq_Dequeue :: "pq_state \<Rightarrow> queue_item option \<times> pq_state" where
  "pq_Dequeue s =
     (case ph_pop qd_before (pq_queue s) of
        None \<Rightarrow> (None, s)
      | Some (qd, q) \<Rightarrow>
          (Some (qd_item qd), \<lparr>pq_queue = q, pq_items = (pq_items s)(qi_id (qd_item qd) := None)\<rparr>))"

definition pq_Peek :: "pq_state \<Rightarrow> queue_item option" where
  "pq_Peek s =
     (case ph_queue (pq_queue s) of
        [] \<Rightarrow> None
      | h # _ \<Rightarrow> Some (qd_item (ph_deref (pq_queue s) h)))"

text \<open>
  \<open>heap.Remove\<close> panics when the index is not a position of the slice; that outcome is \<open>None\<close>.
\<close>

definition pq_Remove :: "string \<Rightarrow> pq_state \<Rightarrow> (bool \<times> pq_state) option" where
  "pq_Remove ident s =
     (case pq_items s ident of
        None \<Rightarrow> Some (False, s)
      | Some h \<Rightarrow>
          let i = ph_index (pq_queue s) h
          in if i < 0 \<or> int (length (ph_queue (pq_queue s))) \<le> i then None
             else Some (True, \<lparr>pq_queue = ph_remove qd_before (nat i) (pq_queue s),
                               pq_items = (pq_items s)(ident := None)\<rparr>))"

definition pq_Len :: "pq_state \<Rightarrow> nat" where
  "pq_Len s = length (ph_queue (pq_queue s))"

definition pq_List :: "pq_state \<Rightarrow> queue_item list" where
  "pq_List s = map (\<lambda>h. qd_item (ph_deref (pq_queue s) h)) (ph_queue (pq_queue s))"

lemmas pq_defs = pq_Enqueue_def pq_Dequeue_def pq_Remove_def NewPriorityQueue_def

section \<open>The order of the queue\<close>

interpretation qd: data_order qd_before
  by unfold_locales (auto simp: qd_before_def split: if_splits)

section \<open>Invariant\<close>

text \<open>
  The queue is well formed and every entry of \<open>items\<close> points to a queued element with that id.
  \<open>pq_unique\<close> says in addition that every queued element is found under its id.
\<close>

definition pq_inv :: "pq_state \<Rightarrow> bool" where
  "pq_inv s \<longleftrightarrow> ph_inv qd_before (pq_queue s) \<and>
     (\<forall>ident h. pq_items s ident = Some h \<longrightarrow>
        h \<in> set (ph_queue (pq_queue s)) \<and> qi_id (qd_item (ph_deref (pq_queue s) h)) = ident)"

definition pq_unique :: "pq_state \<Rightarrow> bool" where
  "pq_unique s \<longleftrightarrow> (\<forall>h \<in> set (ph_queue (pq_queue s)).
     pq_items s (qi_id (qd_item (ph_deref (pq_queue s) h))) = Some h)"

abbreviation pq_bag :: "pq_state \<Rightarrow> queued_item multiset" where
  "pq_bag s \<equiv> ph_bag (pq_queue s)"

lemma pq_inv_new [simp]: "pq_inv NewPriorityQueue"
  by (simp add: pq_inv_def NewPriorityQueue_def)

lemma pq_inv_bounds:
  "pq_inv s \<Longrightarrow> h \<in> set (ph_queue (pq_queue s)) \<Longrightarrow> h < ph_next (pq_queue s)"
  by (auto simp: pq_inv_def ph_inv_def)

lemma pq_Enqueue_inv:
  assumes inv: "pq_inv s"
  shows "pq_inv (pq_Enqueue now it s)"
    and "pq_bag (pq_Enqueue now it s) = add_mset \<lparr>qd_item = it, qd_enqueuedAt = now\<rparr> (pq_bag s)"
    and "pq_unique s \<Longrightarrow> qi_id it \<notin> dom (pq_items s) \<Longrightarrow> pq_unique (pq_Enqueue now it s)"
proof -
  let ?d = "\<lparr>qd_item = it, qd_enqueuedAt = now\<rparr>" and ?q = "pq_queue s"
  have ph: "ph_inv qd_before ?q" using inv by (simp add: pq_inv_def)
  note push = qd.push_keeps [OF ph, of ?d]
  have set: "set (ph_queue (ph_push qd_before ?d ?q)) = insert (ph_next ?q) (set (ph_queue ?q))"
    using push(4) by (metis set_mset_add_mset_insert set_mset_mset)
  have fresh: "h \<noteq> ph_next ?q" if "h \<in> set (ph_queue ?q)" for h
    using pq_inv_bounds [OF inv that] by simp
  show "pq_bag (pq_Enqueue now it s) = add_mset ?d (pq_bag s)"
    using push(2) by (simp add: pq_Enqueue_def)
  show "pq_inv (pq_Enqueue now it s)"
    using inv push(1,3) fresh by (auto simp: pq_inv_def pq_Enqueue_def set)
  show "pq_unique (pq_Enqueue now it s)" if "pq_unique s" "qi_id it \<notin> dom (pq_items s)"
    using that fresh push(3) by (auto simp: pq_unique_def pq_Enqueue_def set)
qed

text \<open>Taking out the element at one position and its entry under \<open>items\<close>.\<close>

lemma pq_cut_inv:
  assumes inv: "pq_inv s" and i: "i < length (ph_queue (pq_queue s))"
  defines "h \<equiv> ph_queue (pq_queue s) ! i"
  defines "s' \<equiv> \<lparr>pq_queue = ph_remove qd_before i (pq_queue s),
    pq_items = (pq_items s)(qi_id (qd_item (ph_deref (pq_queue s) h)) := None)\<rparr>"
  shows "pq_inv s'" and "pq_bag s = add_mset (ph_deref (pq_queue s) h) (pq_bag s')"
    and "pq_unique s \<Longrightarrow> pq_unique s'"
proof -
  have ph: "ph_inv qd_before (pq_queue s)" using inv by (simp add: pq_inv_def)
  note rem = qd.remove_keeps [OF ph i]
  show "pq_inv s'"
    using inv rem(1,3,6) by (auto simp: pq_inv_def s'_def h_def split: if_splits)
  show "pq_bag s = add_mset (ph_deref (pq_queue s) h) (pq_bag s')"
    using rem(2) by (simp add: s'_def h_def)
  show "pq_unique s'" if u: "pq_unique s"
    unfolding pq_unique_def
  proof
    let ?id = "\<lambda>k. qi_id (qd_item (ph_deref (pq_queue s) k))"
    fix k assume "k \<in> set (ph_queue (pq_queue s'))"
    then have "k \<in> set (ph_queue (pq_queue s))" "k \<noteq> h" using rem(6) by (auto simp: s'_def h_def)
    moreover have "pq_items s (?id h) = Some h" using u i by (simp add: pq_unique_def h_def)
    ultimately have "pq_items s (?id k) = Some k" "?id k \<noteq> ?id h" using u by (auto simp: pq_unique_def)
    then show "pq_items s' (qi_id (qd_item (ph_deref (pq_queue s') k))) = Some k"
      using rem(3) by (simp add: s'_def)
  qed
qed

lemma pq_Dequeue_cases:
  assumes inv: "pq_inv s"
  obtains (empty) "pq_bag s = {#}" "pq_Dequeue s = (None, s)"
  | (item) qd s' where "pq_Dequeue s = (Some (qd_item qd), s')" "pq_bag s = add_mset qd (pq_bag s')"
      "pq_inv s'" "pq_unique s \<Longrightarrow> pq_unique s'" "\<And>e. e \<in># pq_bag s \<Longrightarrow> \<not> qd_before e qd"
proof (cases "ph_pop qd_before (pq_queue s)")
  case None
  then show thesis using empty inv by (simp add: pq_Dequeue_def pq_inv_def qd.pq.pop_None)
next
  case (Some p)
  have ph: "ph_inv qd_before (pq_queue s)" using inv by (simp add: pq_inv_def)
  obtain qd q where p: "ph_pop qd_before (pq_queue s) = Some (qd, q)" using Some by (cases p) auto
  then have h: "qd = ph_deref (pq_queue s) (ph_queue (pq_queue s) ! 0)" "ph_queue (pq_queue s) \<noteq> []"
      "q = ph_remove qd_before 0 (pq_queue s)"
    using qd.pop_cases [OF ph] by (metis option.distinct(1) option.inject prod.inject)+
  then have i: "0 < length (ph_queue (pq_queue s))" by simp
  show thesis
    using item [of qd] pq_cut_inv [OF inv i] qd.pop_keeps(3) [OF ph p]
    by (simp add: pq_Dequeue_def p h)
qed

lemma pq_Remove_cases:
  assumes inv: "pq_inv s"
  obtains (absent) "pq_items s ident = None" "pq_Remove ident s = Some (False, s)"
  | (found) qd s' where "pq_Remove ident s = Some (True, s')" "qi_id (qd_item qd) = ident"
      "pq_bag s = add_mset qd (pq_bag s')" "pq_inv s'" "pq_unique s \<Longrightarrow> pq_unique s'"
proof (cases "pq_items s ident")
  case None
  then show thesis using absent by (simp add: pq_Remove_def)
next
  case (Some h)
  let ?q = "pq_queue s"
  have h: "h \<in> set (ph_queue ?q)" "qi_id (qd_item (ph_deref ?q h)) = ident"
    using inv Some by (auto simp: pq_inv_def)
  then obtain i where i: "i < length (ph_queue ?q)" "ph_queue ?q ! i = h"
    by (auto simp: in_set_conv_nth)
  moreover have "ph_index ?q h = int i"
    using inv i by (auto simp: pq_inv_def ph_inv_def heap_ok_def idx_ok_def)
  ultimately show thesis
    using found [of _ "ph_deref ?q h"] pq_cut_inv [OF inv i(1)] h(2) Some
    by (simp add: pq_Remove_def)
qed

section \<open>Runs\<close>

datatype pq_call = Enqueue time queue_item | Dequeue | Remove string

fun pq_step :: "pq_state \<Rightarrow> pq_call \<Rightarrow> pq_state" where
  "pq_step s (Enqueue now it) = pq_Enqueue now it s"
| "pq_step s Dequeue = snd (pq_Dequeue s)"
| "pq_step s (Remove ident) = (case pq_Remove ident s of None \<Rightarrow> s | Some (_, s') \<Rightarrow> s')"

lemma pq_step_inv: "pq_inv s \<Longrightarrow> pq_inv (pq_step s c)"
proof (cases c)
  case (Enqueue now it)
  then show "pq_inv s \<Longrightarrow> ?thesis" by (simp add: pq_Enqueue_inv)
next
  case Dequeue
  assume inv: "pq_inv s"
  with Dequeue show ?thesis by (cases rule: pq_Dequeue_cases [OF inv]) auto
next
  case (Remove ident)
  assume inv: "pq_inv s"
  with Remove show ?thesis by (cases rule: pq_Remove_cases [OF inv, of ident]) auto
qed

interpretation pq: component pq_step pq_inv
  by unfold_locales (rule pq_step_inv)

abbreviation pq_run :: "pq_call list \<Rightarrow> pq_state" where
  "pq_run cs \<equiv> foldl pq_step NewPriorityQueue cs"

lemma pq_run_inv: "pq_inv (pq_run cs)"
  by (rule pq.run_inv) simp

text \<open>Dequeuing until the queue is empty.\<close>

fun pq_drain :: "nat \<Rightarrow> pq_state \<Rightarrow> queue_item list" where
  "pq_drain 0 s = []"
| "pq_drain (Suc n) s =
     (case pq_Dequeue s of (None, _) \<Rightarrow> [] | (Some it, s') \<Rightarrow> it # pq_drain n s')"

lemma pq_drain_eq: "pq_drain n s = map qd_item (drain (ph_pop qd_before) n (pq_queue s))"
  by (induction n arbitrary: s) (auto simp: pq_Dequeue_def split: option.splits prod.splits)

lemma pq_List_bag: "mset (pq_List s) = image_mset qd_item (pq_bag s)"
  by (simp add: pq_List_def ph_bag_def image_mset.compositionality comp_def)

lemma pq_Len_bag: "pq_Len s = size (pq_bag s)"
  by (simp add: pq_Len_def ph_bag_def)


section \<open>Properties\<close>

text \<open>
  C5: Whatever calls were made, taking everything out of the queue returns exactly the queued
  elements, by falling priority and, at equal priority, in the order in which they were enqueued.
\<close>

theorem pq_drain_order:
  "\<exists>qds. pq_drain (pq_Len (pq_run cs)) (pq_run cs) = map qd_item qds
     \<and> mset qds = pq_bag (pq_run cs)
     \<and> sorted_wrt (\<lambda>a b. qi_priority (qd_item a) > qi_priority (qd_item b)
         \<or> qi_priority (qd_item a) = qi_priority (qd_item b) \<and> qd_enqueuedAt a \<le> qd_enqueuedAt b) qds"
proof -
  let ?s = "pq_queue (pq_run cs)" and ?n = "pq_Len (pq_run cs)"
  have inv: "ph_inv qd_before ?s" using pq_run_inv [of cs] by (simp add: pq_inv_def)
  have "sorted_wrt (\<lambda>x y. \<not> qd_before y x) (drain (ph_pop qd_before) ?n ?s)"
    using qd.pq.drain_sorted [OF inv] by simp
  then have "sorted_wrt (\<lambda>a b. qi_priority (qd_item a) > qi_priority (qd_item b)
      \<or> qi_priority (qd_item a) = qi_priority (qd_item b) \<and> qd_enqueuedAt a \<le> qd_enqueuedAt b)
      (drain (ph_pop qd_before) ?n ?s)"
    by (rule sorted_wrt_mono_rel [rotated]) (auto simp: qd_before_def split: if_splits)
  moreover have "mset (drain (ph_pop qd_before) ?n ?s) = ph_bag ?s"
    using inv by (rule qd.pq.drain_bag) (simp add: pq_Len_bag)
  ultimately show ?thesis using pq_drain_eq by blast
qed

text \<open>
  Removing an id never runs out of the heap slice, whatever calls were made before. It answers
  \<open>true\<close> after taking out exactly one element with that id, and \<open>false\<close> after changing nothing.
\<close>

theorem pq_Remove_total:
  "case pq_Remove ident (pq_run cs) of
     None \<Rightarrow> False
   | Some (removed, s') \<Rightarrow>
       if removed then pq_inv s' \<and> (\<exists>qd. qi_id (qd_item qd) = ident \<and> pq_bag (pq_run cs) = add_mset qd (pq_bag s'))
       else s' = pq_run cs"
  using pq_run_inv [of cs] by (cases rule: pq_Remove_cases [of _ ident]) auto

text \<open>
  While ids are not enqueued twice, \<open>items\<close> finds every queued element, so \<open>Remove\<close> answers
  \<open>true\<close> exactly for the ids that are queued.
\<close>

lemma pq_Remove_unique:
  assumes inv: "pq_inv s" and u: "pq_unique s"
  shows "(\<exists>s'. pq_Remove ident s = Some (True, s')) \<longleftrightarrow> (\<exists>it \<in> set (pq_List s). qi_id it = ident)"
proof -
  have "ident \<in> dom (pq_items s) \<longleftrightarrow> (\<exists>it \<in> set (pq_List s). qi_id it = ident)"
  proof
    assume "ident \<in> dom (pq_items s)"
    then obtain h where "pq_items s ident = Some h" by auto
    with inv have "h \<in> set (ph_queue (pq_queue s))" "qi_id (qd_item (ph_deref (pq_queue s) h)) = ident"
      by (auto simp: pq_inv_def)
    then show "\<exists>it \<in> set (pq_List s). qi_id it = ident" by (auto simp: pq_List_def)
  next
    assume "\<exists>it \<in> set (pq_List s). qi_id it = ident"
    with u show "ident \<in> dom (pq_items s)" by (auto simp: pq_List_def pq_unique_def)
  qed
  then show ?thesis
    by (cases rule: pq_Remove_cases [OF inv, of ident]) (auto simp: pq_Remove_def)
qed

definition dup_item :: "int \<Rightarrow> queue_item" where
  "dup_item p = \<lparr>qi_id = ''x'', qi_userId = ''u'', qi_sessionType = ''desktop'', qi_resourceClass = '''',
     qi_priority = p, qi_cpuCores = 2, qi_ramGB = 4, qi_gpuRequired = False, qi_gpuVramGB = 0,
     qi_latencyBudgetMs = 0, qi_status = ''queued'', qi_position = 1, qi_estimatedWait = 0,
     qi_createdAt = 0, qi_assignedHost = ''''\<rparr>"

text \<open>
  If an id is queued twice, dequeuing one of the two makes the other unreachable for \<open>Remove\<close>,
  although it is still queued: the map entry is deleted by id, not by element.
\<close>

theorem pq_duplicate_id_stuck:
  "let s = pq_run [Enqueue 1 (dup_item 2), Enqueue 2 (dup_item 1), Dequeue]
   in map_option fst (pq_Remove ''x'' s) = Some False \<and> map qi_id (pq_List s) = [''x'']"
  by code_simp

end
