(* ===== verification/Allocator.thy ===== *)
theory Allocator
  imports SchedTypes
begin

text \<open>
  apps/scheduler/internal/scheduler/allocator.go: the counters of one resource pool and the table of
  allocation leases. Additions wrap around as Go's \<open>int\<close> does, because the requested amounts come from
  the caller. The locale \<open>pool\<close> is the contract of a pool with a limit, which the scheduler's resource
  allocator and its host manager share: a grant never passes the limit and a release gives back what
  was granted.
\<close>

section \<open>Resource pools\<close>

record capacity =
  totalCPUCores :: int
  totalRAMGB :: int
  totalGPUVram :: int

record usage =
  usedCPUCores :: int
  usedRAMGB :: int
  usedGPUVram :: int

record resource_allocator =
  ra_capacity :: capacity
  ra_used :: usage

definition NewResourceAllocator :: "capacity \<Rightarrow> resource_allocator" where
  "NewResourceAllocator cap =
     \<lparr>ra_capacity = cap, ra_used = \<lparr>usedCPUCores = 0, usedRAMGB = 0, usedGPUVram = 0\<rparr>\<rparr>"

definition ra_CanAllocate :: "int \<Rightarrow> int \<Rightarrow> int \<Rightarrow> resource_allocator \<Rightarrow> bool" where
  "ra_CanAllocate cpu ram gpuVram a \<longleftrightarrow>
     wrap64 (usedCPUCores (ra_used a) + cpu) \<le> totalCPUCores (ra_capacity a) \<and>
     wrap64 (usedRAMGB (ra_used a) + ram) \<le> totalRAMGB (ra_capacity a) \<and>
     wrap64 (usedGPUVram (ra_used a) + gpuVram) \<le> totalGPUVram (ra_capacity a)"

definition ra_Allocate :: "int \<Rightarrow> int \<Rightarrow> int \<Rightarrow> resource_allocator \<Rightarrow> bool \<times> resource_allocator" where
  "ra_Allocate cpu ram gpuVram a =
     (if \<not> (wrap64 (usedCPUCores (ra_used a) + cpu) \<le> totalCPUCores (ra_capacity a) \<and>
            wrap64 (usedRAMGB (ra_used a) + ram) \<le> totalRAMGB (ra_capacity a) \<and>
            wrap64 (usedGPUVram (ra_used a) + gpuVram) \<le> totalGPUVram (ra_capacity a))
      then (False, a)
      else (True, a\<lparr>ra_used := \<lparr>usedCPUCores = wrap64 (usedCPUCores (ra_used a) + cpu),
                                usedRAMGB = wrap64 (usedRAMGB (ra_used a) + ram),
                                usedGPUVram = wrap64 (usedGPUVram (ra_used a) + gpuVram)\<rparr>\<rparr>))"

definition ra_Release :: "int \<Rightarrow> int \<Rightarrow> int \<Rightarrow> resource_allocator \<Rightarrow> resource_allocator" where
  "ra_Release cpu ram gpuVram a =
     a\<lparr>ra_used := \<lparr>usedCPUCores = max 0 (wrap64 (usedCPUCores (ra_used a) - cpu)),
                  usedRAMGB = max 0 (wrap64 (usedRAMGB (ra_used a) - ram)),
                  usedGPUVram = max 0 (wrap64 (usedGPUVram (ra_used a) - gpuVram))\<rparr>\<rparr>"

definition ra_Usage :: "resource_allocator \<Rightarrow> usage" where
  "ra_Usage a = ra_used a"

definition ra_Available :: "resource_allocator \<Rightarrow> int \<times> int \<times> int" where
  "ra_Available a =
     (wrap64 (totalCPUCores (ra_capacity a) - usedCPUCores (ra_used a)),
      wrap64 (totalRAMGB (ra_capacity a) - usedRAMGB (ra_used a)),
      wrap64 (totalGPUVram (ra_capacity a) - usedGPUVram (ra_used a)))"

lemmas ra_defs = ra_CanAllocate_def ra_Allocate_def ra_Release_def ra_Available_def

section \<open>The contract of a pool\<close>

text \<open>
  A pool grants requests and takes them back. \<open>fits\<close> says that a request is one the pool is meant for
  (an amount from 0 to a bound that no sum can pass), \<open>inv\<close> that the amounts in use lie between 0 and
  the limit.
\<close>

locale pool =
  fixes inv :: "'p \<Rightarrow> bool" and fits :: "'r \<Rightarrow> bool"
    and grant :: "'r \<Rightarrow> 'p \<Rightarrow> bool \<times> 'p" and give_back :: "'r \<Rightarrow> 'p \<Rightarrow> 'p"
  assumes inv_grant: "inv p \<Longrightarrow> fits r \<Longrightarrow> inv (snd (grant r p))"
    and refuse: "\<not> fst (grant r p) \<Longrightarrow> snd (grant r p) = p"
    and inv_give_back: "inv p \<Longrightarrow> fits r \<Longrightarrow> inv (give_back r p)"
    and give_back_grant: "inv p \<Longrightarrow> fits r \<Longrightarrow> fst (grant r p) \<Longrightarrow> give_back r (snd (grant r p)) = p"
begin

text \<open>Granting a list of requests and giving the granted ones back in any bracketed order.\<close>

lemma grant_all_inv:
  "inv p \<Longrightarrow> \<forall>r \<in> set rs. fits r \<Longrightarrow> inv (foldl (\<lambda>p r. snd (grant r p)) p rs)"
  by (induction rs arbitrary: p) (simp_all add: inv_grant)

lemma mixed_inv:
  "inv p \<Longrightarrow> \<forall>c \<in> set cs. fits (snd c) \<Longrightarrow>
   inv (foldl (\<lambda>p (g, r). if g then snd (grant r p) else give_back r p) p cs)"
  by (induction cs arbitrary: p) (auto simp: inv_grant inv_give_back)

lemma grant_then_all_back:
  "inv p \<Longrightarrow> \<forall>r \<in> set rs. fits r \<Longrightarrow>
   foldr (\<lambda>r k p. if fst (grant r p) then give_back r (k (snd (grant r p))) else k p) rs (\<lambda>p. p) p = p"
proof (induction rs arbitrary: p)
  case (Cons r rs)
  then show ?case
    by (auto simp: inv_grant give_back_grant refuse)
qed simp

end

definition bounded :: "int \<Rightarrow> int \<Rightarrow> bool" where
  "bounded limit x \<longleftrightarrow> 0 \<le> x \<and> x \<le> limit"

definition ra_inv :: "resource_allocator \<Rightarrow> bool" where
  "ra_inv a \<longleftrightarrow>
     bounded (totalCPUCores (ra_capacity a)) (usedCPUCores (ra_used a)) \<and>
     bounded (totalRAMGB (ra_capacity a)) (usedRAMGB (ra_used a)) \<and>
     bounded (totalGPUVram (ra_capacity a)) (usedGPUVram (ra_used a)) \<and>
     totalCPUCores (ra_capacity a) < 2 ^ 62 \<and> totalRAMGB (ra_capacity a) < 2 ^ 62 \<and>
     totalGPUVram (ra_capacity a) < 2 ^ 62"

definition amount :: "int \<Rightarrow> bool" where
  "amount n \<longleftrightarrow> 0 \<le> n \<and> n < 2 ^ 62"

text \<open>Amounts below \<open>2 ^ 62\<close> never wrap around.\<close>

lemma wrap64_add_amount: "bounded l u \<Longrightarrow> l < 2 ^ 62 \<Longrightarrow> amount n \<Longrightarrow> wrap64 (u + n) = u + n"
  by (rule wrap64_id) (simp add: in64_def bounded_def amount_def)

lemma wrap64_sub_amount: "bounded l u \<Longrightarrow> l < 2 ^ 62 \<Longrightarrow> amount n \<Longrightarrow> wrap64 (u - n) = u - n"
  by (rule wrap64_id) (simp add: in64_def bounded_def amount_def)

lemma bounded_max: "bounded l u \<Longrightarrow> 0 \<le> n \<Longrightarrow> bounded l (max 0 (u - n))"
  by (auto simp: bounded_def)

definition ra_fits :: "int \<times> int \<times> int \<Rightarrow> bool" where
  "ra_fits r \<longleftrightarrow> (case r of (cpu, ram, gpu) \<Rightarrow> amount cpu \<and> amount ram \<and> amount gpu)"

abbreviation ra_grant :: "int \<times> int \<times> int \<Rightarrow> resource_allocator \<Rightarrow> bool \<times> resource_allocator" where
  "ra_grant r a \<equiv> (case r of (cpu, ram, gpu) \<Rightarrow> ra_Allocate cpu ram gpu a)"

abbreviation ra_give_back :: "int \<times> int \<times> int \<Rightarrow> resource_allocator \<Rightarrow> resource_allocator" where
  "ra_give_back r a \<equiv> (case r of (cpu, ram, gpu) \<Rightarrow> ra_Release cpu ram gpu a)"

interpretation ra: pool ra_inv ra_fits ra_grant ra_give_back
proof unfold_locales
  fix a :: resource_allocator and r :: "int \<times> int \<times> int"
  obtain cpu ram gpu where r: "r = (cpu, ram, gpu)" by (cases r)
  show "\<not> fst (ra_grant r a) \<Longrightarrow> snd (ra_grant r a) = a"
    by (auto simp: r ra_Allocate_def)
  assume inv: "ra_inv a" and fits: "ra_fits r"
  note w = wrap64_add_amount wrap64_sub_amount
  from inv fits show "ra_inv (snd (ra_grant r a))"
    by (auto simp: r ra_Allocate_def ra_inv_def ra_fits_def w)
      (auto simp: bounded_def amount_def)
  from inv fits show "ra_inv (ra_give_back r a)"
    by (auto simp: r ra_Release_def ra_inv_def ra_fits_def w amount_def intro: bounded_max)
  show "ra_give_back r (snd (ra_grant r a)) = a" if "fst (ra_grant r a)"
  proof -
    have undo: "max 0 (wrap64 u) = u" if "bounded l u" "l < 2 ^ 62" for u l
      using that wrap64_id [of u] by (simp add: bounded_def in64_def)
    from inv fits that show ?thesis
      by (cases a; cases "ra_used a")
         (auto simp: r ra_Allocate_def ra_Release_def ra_inv_def ra_fits_def w undo split: if_splits)
  qed
qed

section \<open>Leases\<close>

record lease =
  le_id :: string
  le_userId :: string
  le_hostId :: string
  le_cpuCores :: int
  le_ramGB :: int
  le_gpuVramGB :: int
  le_createdAt :: time
  le_expiresAt :: time

type_synonym leases = "string \<rightharpoonup> lease"

definition lm_Create :: "lease \<Rightarrow> leases \<Rightarrow> leases" where
  "lm_Create l m = m(le_id l \<mapsto> l)"

definition lm_Revoke :: "string \<Rightarrow> leases \<Rightarrow> leases" where
  "lm_Revoke ident m = m(ident := None)"

definition lm_Get :: "string \<Rightarrow> leases \<Rightarrow> lease option" where
  "lm_Get ident m = m ident"

text \<open>\<open>ks\<close> is the order in which the map is iterated.\<close>

definition lm_ListByHost :: "string list \<Rightarrow> string \<Rightarrow> leases \<Rightarrow> lease list" where
  "lm_ListByHost ks hostID m = filter (\<lambda>l. le_hostId l = hostID) (map_values m ks)"

definition lm_CleanupExpired :: "string list \<Rightarrow> time \<Rightarrow> leases \<Rightarrow> leases" where
  "lm_CleanupExpired ks now m =
     foldl (\<lambda>m k. case m k of Some l \<Rightarrow> if now > le_expiresAt l then m(k := None) else m | None \<Rightarrow> m) m ks"

text \<open>Whatever the order of the iteration, the expired leases are gone and the others are as before.\<close>

lemma lm_cleanup_fold:
  "distinct ks \<Longrightarrow>
   foldl (\<lambda>m k. case m k of Some l \<Rightarrow> if now > le_expiresAt l then m(k := None) else m | None \<Rightarrow> m) m ks k =
     (if k \<in> set ks then (case m k of Some l \<Rightarrow> if now > le_expiresAt l then None else Some l | None \<Rightarrow> None)
      else m k)"
  by (induction ks arbitrary: m) (auto split: option.splits)

lemma lm_CleanupExpired_eq:
  "map_order m ks \<Longrightarrow> lm_CleanupExpired ks now m k =
     (case m k of Some l \<Rightarrow> if now > le_expiresAt l then None else Some l | None \<Rightarrow> None)"
  unfolding lm_CleanupExpired_def
  by (subst lm_cleanup_fold) (auto simp: map_order_def domIff split: option.splits)

lemma lm_ListByHost_set:
  "map_order m ks \<Longrightarrow> set (lm_ListByHost ks h m) = {l. l \<in> ran m \<and> le_hostId l = h}"
  by (auto simp: lm_ListByHost_def set_map_values)

section \<open>Properties\<close>

text \<open>
  In any sequence of grants and releases of amounts below \<open>2 ^ 62\<close>, on a new pool whose limits are
  below \<open>2 ^ 62\<close>, every amount in use stays between 0 and its limit.
\<close>

theorem ra_never_over_limit:
  assumes "amount (totalCPUCores cap)" "amount (totalRAMGB cap)" "amount (totalGPUVram cap)"
    and "\<forall>c \<in> set cs. ra_fits (snd c)"
  shows "ra_inv (foldl (\<lambda>a (g, r). if g then snd (ra_grant r a) else ra_give_back r a)
    (NewResourceAllocator cap) cs)"
  using assms by (intro ra.mixed_inv) (auto simp: NewResourceAllocator_def ra_inv_def bounded_def amount_def)

theorem ra_never_over_limit_witness:
  "ra_inv (foldl (\<lambda>a (g, r). if g then snd (ra_grant r a) else ra_give_back r a)
    (NewResourceAllocator \<lparr>totalCPUCores = 8, totalRAMGB = 32, totalGPUVram = 0\<rparr>)
    [(True, (4, 16, 0)), (True, (8, 1, 0)), (False, (2, 0, 0))])"
  by (rule ra_never_over_limit) (auto simp: amount_def ra_fits_def)

text \<open>
  Releasing what was just granted restores the pool exactly, and a refused request leaves it
  unchanged.
\<close>

theorem ra_release_undoes_allocate:
  assumes "ra_inv a" "ra_fits (cpu, ram, gpu)"
  shows "(if fst (ra_Allocate cpu ram gpu a) then ra_Release cpu ram gpu (snd (ra_Allocate cpu ram gpu a))
          else snd (ra_Allocate cpu ram gpu a)) = a"
  using ra.give_back_grant [OF assms] ra.refuse [of a "(cpu, ram, gpu)"] by simp

theorem ra_release_undoes_allocate_witness:
  "ra_Release 4 16 0 (snd (ra_Allocate 4 16 0
     (NewResourceAllocator \<lparr>totalCPUCores = 8, totalRAMGB = 32, totalGPUVram = 0\<rparr>))) =
   NewResourceAllocator \<lparr>totalCPUCores = 8, totalRAMGB = 32, totalGPUVram = 0\<rparr>"
proof -
  let ?a = "NewResourceAllocator \<lparr>totalCPUCores = 8, totalRAMGB = 32, totalGPUVram = 0\<rparr>"
  have inv: "ra_inv ?a" by (simp add: NewResourceAllocator_def ra_inv_def bounded_def)
  have fits: "ra_fits (4, 16, 0)" by (simp add: ra_fits_def amount_def)
  have "fst (ra_Allocate 4 16 0 ?a)"
    by (simp add: ra_Allocate_def NewResourceAllocator_def wrap64_def)
  then show ?thesis using ra_release_undoes_allocate [OF inv fits] by simp
qed

text \<open>
  The limit is not safe for every value of a 64-bit request: when one unit is in use, a request
  for \<open>2 ^ 63 - 1\<close> cores wraps around, is granted, and leaves a negative amount in use.
\<close>

theorem ra_allocate_wraps:
  "let a = snd (ra_Allocate 1 0 0
             (NewResourceAllocator \<lparr>totalCPUCores = 8, totalRAMGB = 8, totalGPUVram = 0\<rparr>))
   in fst (ra_Allocate (2 ^ 63 - 1) 0 0 a)
      \<and> usedCPUCores (ra_used (snd (ra_Allocate (2 ^ 63 - 1) 0 0 a))) = - (2 ^ 63)"
  by (simp add: ra_Allocate_def NewResourceAllocator_def wrap64_def Let_def)

text \<open>
  The cleanup removes exactly the leases whose expiry lies before the current time, in whatever
  order the map is iterated.
\<close>

theorem lm_cleanup_exact:
  assumes "map_order m ks"
  shows "lm_Get k (lm_CleanupExpired ks now m) =
    (case lm_Get k m of Some l \<Rightarrow> if now > le_expiresAt l then None else Some l | None \<Rightarrow> None)"
  by (simp add: lm_Get_def lm_CleanupExpired_eq [OF assms])

definition lease_ex :: "string \<Rightarrow> time \<Rightarrow> lease" where
  "lease_ex i t = \<lparr>le_id = i, le_userId = ''u'', le_hostId = ''h'', le_cpuCores = 1, le_ramGB = 1,
     le_gpuVramGB = 0, le_createdAt = 0, le_expiresAt = t\<rparr>"

theorem lm_cleanup_exact_witness:
  "lm_Get ''a'' (lm_CleanupExpired [''b'', ''a''] 10
     (lm_Create (lease_ex ''a'' 5) (lm_Create (lease_ex ''b'' 20) Map.empty))) = None"
proof -
  let ?m = "lm_Create (lease_ex ''a'' 5) (lm_Create (lease_ex ''b'' 20) Map.empty)"
  have "map_order ?m [''b'', ''a'']"
    by (auto simp: map_order_def lm_Create_def lease_ex_def split: if_splits)
  from lm_cleanup_exact [OF this, of "''a''" 10] show ?thesis
    by (simp add: lm_Get_def lm_Create_def lease_ex_def)
qed

end
