(* ===== verification/HostManager.thy ===== *)
theory HostManager
  imports Allocator
begin

text \<open>
  The scheduler service's registry of host machines (apps/scheduler/internal/host/manager.go): the
  table of hosts, registration, heartbeats, the list of available hosts, and the counters of
  allocated cores and memory. The table holds pointers, so a host is read and changed through its
  key; the code that keeps a list of hosts keeps a list of keys here.
\<close>

section \<open>State\<close>

record host =
  h_id :: string
  h_name :: string
  h_region :: string
  h_cpuCores :: int
  h_ramGB :: int
  h_gpuVramGB :: int
  h_gpuModel :: string
  h_driverVersion :: string
  h_encoderSupport :: "string list"
  h_uplinkMbps :: int
  h_latencyMs :: int
  h_uptimeHours :: int
  h_online :: bool
  h_allocatedCPUCores :: int
  h_allocatedRAMGB :: int
  h_allocatedGPUVram :: int
  h_lastHeartbeat :: time
  h_capabilities :: "string list"
  h_createdAt :: time

type_synonym hosts = "string \<rightharpoonup> host"

section \<open>Operations\<close>

text \<open>
  The log line of \<open>Register\<close> slices the id to 8 bytes after the host is stored and the lock released.
\<close>

definition hm_Register :: "time \<Rightarrow> host \<Rightarrow> hosts \<Rightarrow> hosts \<times> exit" where
  "hm_Register now h m =
     (let h' = h\<lparr>h_online := True, h_lastHeartbeat := now, h_createdAt := now\<rparr>
      in (m(h_id h \<mapsto> h'), if slice_to (h_id h) 8 = None then Panicked else Done))"

text \<open>
  One numeric field of a heartbeat: \<open>metrics[key].(float64)\<close> succeeds only for a JSON number. The
  capacity fields change only to a smaller value.
\<close>

definition metric :: "(string \<rightharpoonup> json) \<Rightarrow> string \<Rightarrow> int option" where
  "metric metrics key = (case metrics key of Some (JNum q) \<Rightarrow> Some (int_of_float q) | _ \<Rightarrow> None)"

definition hm_beat :: "time \<Rightarrow> (string \<rightharpoonup> json) \<Rightarrow> host \<Rightarrow> host" where
  "hm_beat now metrics h =
     (let h = h\<lparr>h_online := True, h_lastHeartbeat := now\<rparr>;
          h = (case metric metrics ''cpuCores'' of
                 Some v \<Rightarrow> if v > 0 \<and> v < h_cpuCores h then h\<lparr>h_cpuCores := v\<rparr> else h | None \<Rightarrow> h);
          h = (case metric metrics ''ramGb'' of
                 Some v \<Rightarrow> if v > 0 \<and> v < h_ramGB h then h\<lparr>h_ramGB := v\<rparr> else h | None \<Rightarrow> h);
          h = (case metric metrics ''gpuVramGb'' of
                 Some v \<Rightarrow> if v \<ge> 0 \<and> v < h_gpuVramGB h then h\<lparr>h_gpuVramGB := v\<rparr> else h | None \<Rightarrow> h);
          h = (case metric metrics ''uptimeHours'' of Some v \<Rightarrow> h\<lparr>h_uptimeHours := v\<rparr> | None \<Rightarrow> h);
          h = (case metric metrics ''latencyMs'' of Some v \<Rightarrow> h\<lparr>h_latencyMs := v\<rparr> | None \<Rightarrow> h)
      in h)"

definition hm_Heartbeat :: "time \<Rightarrow> string \<Rightarrow> (string \<rightharpoonup> json) \<Rightarrow> hosts \<Rightarrow> bool \<times> hosts" where
  "hm_Heartbeat now ident metrics m =
     (case m ident of None \<Rightarrow> (False, m) | Some h \<Rightarrow> (True, m(ident \<mapsto> hm_beat now metrics h)))"

definition hm_Get :: "string \<Rightarrow> hosts \<Rightarrow> host option" where
  "hm_Get ident m = m ident"

text \<open>The test of the loop in \<open>GetAvailable\<close>; \<open>ks\<close> is the order in which the table is iterated.\<close>

definition available :: "time \<Rightarrow> host \<Rightarrow> bool" where
  "available now h \<longleftrightarrow>
     h_online h \<and> \<not> (now - h_lastHeartbeat h > 30 * second) \<and>
     \<not> (h_allocatedCPUCores h \<ge> h_cpuCores h) \<and> \<not> (h_allocatedRAMGB h \<ge> h_ramGB h)"

definition hm_GetAvailable :: "string list \<Rightarrow> time \<Rightarrow> hosts \<Rightarrow> string list" where
  "hm_GetAvailable ks now m = filter (\<lambda>k. case m k of None \<Rightarrow> False | Some h \<Rightarrow> available now h) ks"

definition hm_Allocate :: "string \<Rightarrow> int \<Rightarrow> int \<Rightarrow> hosts \<Rightarrow> bool \<times> hosts" where
  "hm_Allocate ident cpu ram m =
     (case m ident of
        None \<Rightarrow> (False, m)
      | Some h \<Rightarrow>
          if wrap64 (h_allocatedCPUCores h + cpu) > h_cpuCores h then (False, m)
          else if wrap64 (h_allocatedRAMGB h + ram) > h_ramGB h then (False, m)
          else (True, m(ident \<mapsto> h\<lparr>h_allocatedCPUCores := wrap64 (h_allocatedCPUCores h + cpu),
                                  h_allocatedRAMGB := wrap64 (h_allocatedRAMGB h + ram)\<rparr>)))"

definition hm_Release :: "string \<Rightarrow> int \<Rightarrow> int \<Rightarrow> hosts \<Rightarrow> hosts" where
  "hm_Release ident cpu ram m =
     (case m ident of
        None \<Rightarrow> m
      | Some h \<Rightarrow> m(ident \<mapsto> h\<lparr>h_allocatedCPUCores := max 0 (wrap64 (h_allocatedCPUCores h - cpu)),
                              h_allocatedRAMGB := max 0 (wrap64 (h_allocatedRAMGB h - ram))\<rparr>))"

definition hm_MarkOffline :: "string \<Rightarrow> hosts \<Rightarrow> hosts \<times> exit" where
  "hm_MarkOffline ident m =
     (case m ident of
        None \<Rightarrow> (m, Done)
      | Some h \<Rightarrow> (m(ident \<mapsto> h\<lparr>h_online := False\<rparr>),
                   if slice_to ident 8 = None then Panicked else Done))"

definition hm_List :: "string list \<Rightarrow> hosts \<Rightarrow> host list" where
  "hm_List ks m = map_values m ks"

section \<open>HTTP handlers\<close>

text \<open>
  A request body is \<open>None\<close> when it does not decode. A panic in a handler is caught by the HTTP server,
  which closes the connection without an answer: the answer is then \<open>None\<close>, and the state stays.
\<close>

datatype host_body = HErr string | HHost host | HHosts "host list" | HStatus string

definition HandleRegister ::
  "time \<Rightarrow> http_method \<Rightarrow> host option \<Rightarrow> hosts \<Rightarrow> host_body answer option \<times> hosts" where
  "HandleRegister now meth body m =
     (if meth \<noteq> POST then (Some (Answer 405 (HErr ''method not allowed'')), m)
      else case body of
        None \<Rightarrow> (Some (Answer 400 (HErr ''invalid json'')), m)
      | Some h \<Rightarrow>
          if h_id h = '''' then (Some (Answer 400 (HErr ''id required'')), m)
          else (case hm_Register now h m of
                  (m', Panicked) \<Rightarrow> (None, m')
                | (m', Done) \<Rightarrow>
                    (Some (Answer 201 (HHost (h\<lparr>h_online := True, h_lastHeartbeat := now, h_createdAt := now\<rparr>))), m')))"

definition HandleHeartbeat ::
  "time \<Rightarrow> http_method \<Rightarrow> (string \<times> (string \<rightharpoonup> json)) option \<Rightarrow> hosts \<Rightarrow> host_body answer \<times> hosts" where
  "HandleHeartbeat now meth body m =
     (if meth \<noteq> POST then (Answer 405 (HErr ''method not allowed''), m)
      else case body of
        None \<Rightarrow> (Answer 400 (HErr ''invalid json''), m)
      | Some (ident, metrics) \<Rightarrow>
          (case hm_Heartbeat now ident metrics m of
             (False, m') \<Rightarrow> (Answer 404 (HErr ''host not found''), m')
           | (True, m') \<Rightarrow> (Answer 200 (HStatus ''ok''), m')))"

definition HandleListHosts :: "string list \<Rightarrow> http_method \<Rightarrow> hosts \<Rightarrow> host_body answer" where
  "HandleListHosts ks meth m =
     (if meth \<noteq> GET then Answer 405 (HErr ''method not allowed'') else Answer 200 (HHosts (hm_List ks m)))"

section \<open>Invariants\<close>

text \<open>
  Every host is stored under its own id, capacities are at most \<open>2 ^ 62\<close> (the sums cannot wrap), and
  the allocated amounts are not negative.
\<close>

definition host_ok :: "host \<Rightarrow> bool" where
  "host_ok h \<longleftrightarrow> amount (h_cpuCores h) \<and> amount (h_ramGB h)
     \<and> amount (h_allocatedCPUCores h) \<and> amount (h_allocatedRAMGB h)"

definition hosts_ok :: "hosts \<Rightarrow> bool" where
  "hosts_ok m \<longleftrightarrow> (\<forall>k h. m k = Some h \<longrightarrow> h_id h = k \<and> host_ok h)"

lemma hosts_okD: "hosts_ok m \<Longrightarrow> m k = Some h \<Longrightarrow> h_id h = k \<and> host_ok h"
  by (simp add: hosts_ok_def)

lemma hosts_ok_upd: "hosts_ok m \<Longrightarrow> h_id h = k \<Longrightarrow> host_ok h \<Longrightarrow> hosts_ok (m(k \<mapsto> h))"
  by (simp add: hosts_ok_def)

lemma hosts_ok_empty [simp]: "hosts_ok Map.empty"
  by (simp add: hosts_ok_def)

lemma hm_beat_fields [simp]:
  "h_id (hm_beat now metrics h) = h_id h"
  "h_allocatedCPUCores (hm_beat now metrics h) = h_allocatedCPUCores h"
  "h_allocatedRAMGB (hm_beat now metrics h) = h_allocatedRAMGB h"
  "h_online (hm_beat now metrics h)" "h_lastHeartbeat (hm_beat now metrics h) = now"
  by (auto simp: hm_beat_def Let_def split: option.splits)

text \<open>The capacity that a heartbeat leaves: the reported one where it is positive and smaller.\<close>

lemma hm_beat_capacity:
  "h_cpuCores (hm_beat now metrics h) =
     (case metric metrics ''cpuCores'' of
        Some v \<Rightarrow> if 0 < v \<and> v < h_cpuCores h then v else h_cpuCores h | None \<Rightarrow> h_cpuCores h)"
  "h_ramGB (hm_beat now metrics h) =
     (case metric metrics ''ramGb'' of
        Some v \<Rightarrow> if 0 < v \<and> v < h_ramGB h then v else h_ramGB h | None \<Rightarrow> h_ramGB h)"
  "h_gpuVramGB (hm_beat now metrics h) =
     (case metric metrics ''gpuVramGb'' of
        Some v \<Rightarrow> if 0 \<le> v \<and> v < h_gpuVramGB h then v else h_gpuVramGB h | None \<Rightarrow> h_gpuVramGB h)"
  by (auto simp: hm_beat_def Let_def split: option.splits)

lemma host_ok_beat: "host_ok h \<Longrightarrow> host_ok (hm_beat now metrics h)"
  by (auto simp: host_ok_def hm_beat_capacity amount_def split: option.splits)

lemma hm_Heartbeat_ok: "hosts_ok m \<Longrightarrow> hosts_ok (snd (hm_Heartbeat now k metrics m))"
  by (auto simp: hm_Heartbeat_def host_ok_beat dest: hosts_okD intro!: hosts_ok_upd split: option.splits)

lemma hm_Register_ok: "hosts_ok m \<Longrightarrow> host_ok h \<Longrightarrow> hosts_ok (fst (hm_Register now h m))"
  by (auto simp: hm_Register_def Let_def host_ok_def intro!: hosts_ok_upd)

lemma hm_MarkOffline_ok: "hosts_ok m \<Longrightarrow> hosts_ok (fst (hm_MarkOffline k m))"
  by (auto simp: hm_MarkOffline_def host_ok_def dest: hosts_okD intro!: hosts_ok_upd split: option.splits)

lemma amount_wrap_add: "amount a \<Longrightarrow> amount b \<Longrightarrow> wrap64 (a + b) = a + b"
  by (rule wrap64_id) (simp add: in64_def amount_def)

lemma amount_wrap_sub: "amount a \<Longrightarrow> amount b \<Longrightarrow> wrap64 (a - b) = a - b"
  by (rule wrap64_id) (simp add: in64_def amount_def)

lemmas amount_wrap = amount_wrap_add amount_wrap_sub

text \<open>With amounts that cannot wrap, \<open>Allocate\<close> and \<open>Release\<close> are plain arithmetic.\<close>

definition add_load :: "int \<Rightarrow> int \<Rightarrow> host \<Rightarrow> host" where
  "add_load cpu ram h = h\<lparr>h_allocatedCPUCores := h_allocatedCPUCores h + cpu,
                         h_allocatedRAMGB := h_allocatedRAMGB h + ram\<rparr>"

definition sub_load :: "int \<Rightarrow> int \<Rightarrow> host \<Rightarrow> host" where
  "sub_load cpu ram h = h\<lparr>h_allocatedCPUCores := max 0 (h_allocatedCPUCores h - cpu),
                         h_allocatedRAMGB := max 0 (h_allocatedRAMGB h - ram)\<rparr>"

definition has_room :: "int \<Rightarrow> int \<Rightarrow> host \<Rightarrow> bool" where
  "has_room cpu ram h \<longleftrightarrow> h_allocatedCPUCores h + cpu \<le> h_cpuCores h \<and> h_allocatedRAMGB h + ram \<le> h_ramGB h"

lemma hm_Allocate_eq:
  assumes "hosts_ok m" "amount cpu" "amount ram"
  shows "hm_Allocate k cpu ram m =
    (case m k of None \<Rightarrow> (False, m)
     | Some h \<Rightarrow> if has_room cpu ram h then (True, m(k \<mapsto> add_load cpu ram h)) else (False, m))"
  using assms
  by (auto simp: hm_Allocate_def has_room_def add_load_def host_ok_def amount_wrap
      dest!: hosts_okD split: option.splits)

lemma hm_Release_eq:
  assumes "hosts_ok m" "amount cpu" "amount ram"
  shows "hm_Release k cpu ram m = (case m k of None \<Rightarrow> m | Some h \<Rightarrow> m(k \<mapsto> sub_load cpu ram h))"
  using assms
  by (auto simp: hm_Release_def sub_load_def host_ok_def amount_wrap dest!: hosts_okD split: option.splits)

lemma add_load_ok: "host_ok h \<Longrightarrow> amount cpu \<Longrightarrow> amount ram \<Longrightarrow> has_room cpu ram h \<Longrightarrow> host_ok (add_load cpu ram h)"
  by (auto simp: host_ok_def add_load_def has_room_def amount_def)

lemma sub_load_ok: "host_ok h \<Longrightarrow> amount cpu \<Longrightarrow> amount ram \<Longrightarrow> host_ok (sub_load cpu ram h)"
  by (auto simp: host_ok_def sub_load_def amount_def)

lemma load_id [simp]: "h_id (add_load cpu ram h) = h_id h" "h_id (sub_load cpu ram h) = h_id h"
  by (simp_all add: add_load_def sub_load_def)

lemma sub_add_load: "host_ok h \<Longrightarrow> sub_load cpu ram (add_load cpu ram h) = h"
  by (simp add: sub_load_def add_load_def host_ok_def amount_def)

section \<open>The registry as a pool\<close>

abbreviation hm_grant :: "string \<times> int \<times> int \<Rightarrow> hosts \<Rightarrow> bool \<times> hosts" where
  "hm_grant r m \<equiv> (case r of (k, cpu, ram) \<Rightarrow> hm_Allocate k cpu ram m)"

abbreviation hm_give_back :: "string \<times> int \<times> int \<Rightarrow> hosts \<Rightarrow> hosts" where
  "hm_give_back r m \<equiv> (case r of (k, cpu, ram) \<Rightarrow> hm_Release k cpu ram m)"

definition hm_fits :: "string \<times> int \<times> int \<Rightarrow> bool" where
  "hm_fits r \<longleftrightarrow> (case r of (k, cpu, ram) \<Rightarrow> amount cpu \<and> amount ram)"

interpretation hm: pool hosts_ok hm_fits hm_grant hm_give_back
proof unfold_locales
  fix m :: hosts and r :: "string \<times> int \<times> int"
  obtain k cpu ram where r: "r = (k, cpu, ram)" by (cases r)
  show "\<not> fst (hm_grant r m) \<Longrightarrow> snd (hm_grant r m) = m"
    by (auto simp: r hm_Allocate_def split: option.splits if_splits)
  assume ok: "hosts_ok m" and fits: "hm_fits r"
  then have am: "amount cpu" "amount ram" by (simp_all add: r hm_fits_def)
  note al = hm_Allocate_eq [OF ok am] and re = hm_Release_eq [OF _ am]
  show "hosts_ok (snd (hm_grant r m))"
    using ok am by (auto simp: r al split: option.splits dest!: hosts_okD [OF ok]
        intro!: hosts_ok_upd add_load_ok)
  show back_ok: "hosts_ok (hm_give_back r m)"
    using ok am by (auto simp: r re split: option.splits dest!: hosts_okD [OF ok]
        intro!: hosts_ok_upd sub_load_ok)
  show "hm_give_back r (snd (hm_grant r m)) = m" if "fst (hm_grant r m)"
  proof (cases "m k")
    case (Some h)
    with hosts_okD [OF ok Some] that ok am show ?thesis
      by (simp add: r al re hosts_ok_upd add_load_ok sub_add_load fun_upd_idem split: if_splits)
  qed (use that in \<open>simp add: r hm_Allocate_def\<close>)
qed

end
