(* ===== verification/GoSort.thy ===== *)
theory GoSort
  imports Prelude
begin

text \<open>
  The standard library's \<open>sort.Slice\<close>. Its contract is that the result is a permutation of the slice
  in which no element precedes an earlier one, provided that the comparison is a strict weak order on
  the elements; the order of equal elements is not promised. The locale \<open>slice_sorter\<close> states this
  contract. The operations of the components take the sorting function as an argument.
  \<open>sort_slice\<close> is the insertion sort that the library runs on slices of at most twelve elements.
\<close>

definition strict_weak_on :: "'a set \<Rightarrow> ('a \<Rightarrow> 'a \<Rightarrow> bool) \<Rightarrow> bool" where
  "strict_weak_on A lt \<longleftrightarrow>
     (\<forall>a\<in>A. \<forall>b\<in>A. lt a b \<longrightarrow> \<not> lt b a) \<and>
     (\<forall>a\<in>A. \<forall>b\<in>A. \<forall>c\<in>A. \<not> lt a b \<longrightarrow> \<not> lt b c \<longrightarrow> \<not> lt a c)"

lemma strict_weak_on_subset: "strict_weak_on A lt \<Longrightarrow> B \<subseteq> A \<Longrightarrow> strict_weak_on B lt"
  unfolding strict_weak_on_def by (meson subsetD)

lemma strict_weak_on_asym: "strict_weak_on A lt \<Longrightarrow> a \<in> A \<Longrightarrow> b \<in> A \<Longrightarrow> lt a b \<Longrightarrow> \<not> lt b a"
  unfolding strict_weak_on_def by meson

lemma strict_weak_on_negtrans:
  "strict_weak_on A lt \<Longrightarrow> a \<in> A \<Longrightarrow> b \<in> A \<Longrightarrow> c \<in> A \<Longrightarrow> \<not> lt a b \<Longrightarrow> \<not> lt b c \<Longrightarrow> \<not> lt a c"
  unfolding strict_weak_on_def by meson

lemma strict_weak_on_key:
  "strict_weak_on A (\<lambda>x y. (key x :: 'k :: linorder) < key y)"
  "strict_weak_on A (\<lambda>x y. (key x :: 'k :: linorder) > key y)"
  by (auto simp: strict_weak_on_def)

locale slice_sorter =
  fixes srt :: "('a \<Rightarrow> 'a \<Rightarrow> bool) \<Rightarrow> 'a list \<Rightarrow> 'a list"
  assumes mset_srt: "mset (srt lt xs) = mset xs"
    and sorted_srt: "strict_weak_on (set xs) lt \<Longrightarrow> sorted_wrt (\<lambda>x y. \<not> lt y x) (srt lt xs)"
begin

lemma set_srt [simp]: "set (srt lt xs) = set xs"
  by (metis mset_srt set_mset_mset)

lemma length_srt [simp]: "length (srt lt xs) = length xs"
  by (metis mset_srt size_mset)

lemma srt_Nil_iff [simp]: "srt lt xs = [] \<longleftrightarrow> xs = []"
  by (metis length_0_conv length_srt)

text \<open>The first element of the result is one that nothing precedes.\<close>

lemma hd_srt:
  assumes "strict_weak_on (set xs) lt" "y \<in> set xs"
  shows "hd (srt lt xs) \<in> set xs" and "\<not> lt y (hd (srt lt xs))"
proof -
  have s: "sorted_wrt (\<lambda>x y. \<not> lt y x) (srt lt xs)" using assms(1) by (rule sorted_srt)
  obtain z zs where zs: "srt lt xs = z # zs" using assms(2) by (cases "srt lt xs") auto
  then have mem: "set xs = insert z (set zs)" by (metis list.simps(15) set_srt)
  then show "hd (srt lt xs) \<in> set xs" by (simp add: zs)
  have "\<not> lt z z" using strict_weak_on_asym [OF assms(1), of z z] mem by auto
  with s mem assms(2) show "\<not> lt y (hd (srt lt xs))" by (auto simp: zs)
qed

end

text \<open>
  Insertion sort: the element at position \<open>i\<close> moves left while it precedes its left neighbour.
  \<open>sink\<close> works on the reversed sorted prefix.
\<close>

fun sink :: "('a \<Rightarrow> 'a \<Rightarrow> bool) \<Rightarrow> 'a \<Rightarrow> 'a list \<Rightarrow> 'a list" where
  "sink lt x [] = [x]"
| "sink lt x (y # ys) = (if lt x y then y # sink lt x ys else x # y # ys)"

definition sort_slice :: "('a \<Rightarrow> 'a \<Rightarrow> bool) \<Rightarrow> 'a list \<Rightarrow> 'a list" where
  "sort_slice lt xs = rev (foldl (\<lambda>acc x. sink lt x acc) [] xs)"

lemma mset_sink: "mset (sink lt x ys) = add_mset x (mset ys)"
  by (induction ys) auto

lemma set_sink: "set (sink lt x ys) = insert x (set ys)"
  by (metis mset_sink set_mset_add_mset_insert set_mset_mset)

lemma mset_sink_foldl: "mset (foldl (\<lambda>acc x. sink lt x acc) acc xs) = mset acc + mset xs"
  by (induction xs arbitrary: acc) (auto simp: mset_sink)

lemma sorted_sink:
  assumes "strict_weak_on (insert x (set ys)) lt" "sorted_wrt (\<lambda>a b. \<not> lt a b) ys"
  shows "sorted_wrt (\<lambda>a b. \<not> lt a b) (sink lt x ys)"
  using assms
proof (induction ys)
  case (Cons y ys)
  have sub: "strict_weak_on (insert x (set ys)) lt"
    using Cons.prems(1) by (rule strict_weak_on_subset) auto
  show ?case
  proof (cases "lt x y")
    case True
    then have "\<not> lt y x" using strict_weak_on_asym [OF Cons.prems(1), of x y] by simp
    with True Cons.prems Cons.IH [OF sub] show ?thesis by (auto simp: set_sink)
  next
    case False
    have "\<not> lt x z" if "z \<in> set ys" for z
      using False that Cons.prems(2) strict_weak_on_negtrans [OF Cons.prems(1), of x y z] by simp
    with False Cons.prems(2) show ?thesis by auto
  qed
qed simp

lemma sorted_sink_foldl:
  "strict_weak_on (set acc \<union> set xs) lt \<Longrightarrow> sorted_wrt (\<lambda>a b. \<not> lt a b) acc \<Longrightarrow>
   sorted_wrt (\<lambda>a b. \<not> lt a b) (foldl (\<lambda>acc x. sink lt x acc) acc xs)"
proof (induction xs arbitrary: acc)
  case (Cons x xs)
  have "strict_weak_on (insert x (set acc)) lt"
    using Cons.prems(1) by (rule strict_weak_on_subset) auto
  with Cons show ?case
    by (simp add: sorted_sink set_sink)
qed simp

interpretation insertion: slice_sorter sort_slice
proof unfold_locales
  fix lt :: "'a \<Rightarrow> 'a \<Rightarrow> bool" and xs
  show "mset (sort_slice lt xs) = mset xs"
    by (simp add: sort_slice_def mset_sink_foldl)
  show "sorted_wrt (\<lambda>x y. \<not> lt y x) (sort_slice lt xs)" if "strict_weak_on (set xs) lt"
    using sorted_sink_foldl [of "[]" xs lt] that by (simp add: sort_slice_def sorted_wrt_rev)
qed

end
