(* ===== verification/GoFloat.thy ===== *)
theory GoFloat
  imports Prelude
begin

text \<open>
  Go's \<open>float64\<close> as the scoring and averaging code uses it: finite values are exact rationals
  (rounding to 53 bits is not modelled), and the special values behave as IEEE 754 says. In
  particular a division by zero does not stop the program, and every comparison with \<open>NaN\<close> is false.
\<close>

datatype f64 = Fin rat | PInf | NInf | NaN

abbreviation f_of_int :: "int \<Rightarrow> f64" where
  "f_of_int n \<equiv> Fin (of_int n)"

fun fadd :: "f64 \<Rightarrow> f64 \<Rightarrow> f64" where
  "fadd (Fin a) (Fin b) = Fin (a + b)"
| "fadd NaN _ = NaN"
| "fadd _ NaN = NaN"
| "fadd PInf NInf = NaN"
| "fadd NInf PInf = NaN"
| "fadd PInf _ = PInf"
| "fadd _ PInf = PInf"
| "fadd NInf _ = NInf"
| "fadd _ NInf = NInf"

fun fneg :: "f64 \<Rightarrow> f64" where
  "fneg (Fin a) = Fin (- a)"
| "fneg PInf = NInf"
| "fneg NInf = PInf"
| "fneg NaN = NaN"

definition fsub :: "f64 \<Rightarrow> f64 \<Rightarrow> f64" where
  "fsub a b = fadd a (fneg b)"

text \<open>The sign of a value, used to multiply and divide with infinities.\<close>

fun inf_of :: "rat \<Rightarrow> f64" where
  "inf_of s = (if s > 0 then PInf else if s < 0 then NInf else NaN)"

fun fsgn :: "f64 \<Rightarrow> rat" where
  "fsgn (Fin a) = sgn a"
| "fsgn PInf = 1"
| "fsgn NInf = - 1"
| "fsgn NaN = 0"

fun fmul :: "f64 \<Rightarrow> f64 \<Rightarrow> f64" where
  "fmul (Fin a) (Fin b) = Fin (a * b)"
| "fmul a b = inf_of (fsgn a * fsgn b)"

text \<open>The divisors of the program are converted integers, so a zero divisor is the positive zero.\<close>

fun fdiv :: "f64 \<Rightarrow> f64 \<Rightarrow> f64" where
  "fdiv (Fin a) (Fin b) = (if b = 0 then inf_of (sgn a) else Fin (a / b))"
| "fdiv NaN _ = NaN"
| "fdiv _ NaN = NaN"
| "fdiv (Fin a) _ = Fin 0"
| "fdiv a (Fin b) = (if b < 0 then fneg a else a)"
| "fdiv _ _ = NaN"

fun flt :: "f64 \<Rightarrow> f64 \<Rightarrow> bool" where
  "flt (Fin a) (Fin b) \<longleftrightarrow> a < b"
| "flt NaN _ \<longleftrightarrow> False"
| "flt _ NaN \<longleftrightarrow> False"
| "flt NInf b \<longleftrightarrow> b \<noteq> NInf"
| "flt a PInf \<longleftrightarrow> a \<noteq> PInf"
| "flt _ _ \<longleftrightarrow> False"

definition fmin :: "f64 \<Rightarrow> f64 \<Rightarrow> f64" where
  "fmin a b = (if a = NaN \<or> b = NaN then NaN else if flt a b then a else b)"

definition finite_f :: "f64 \<Rightarrow> bool" where
  "finite_f x \<longleftrightarrow> (\<exists>q. x = Fin q)"

lemma fsub_Fin [simp]: "fsub (Fin a) (Fin b) = Fin (a - b)"
  by (simp add: fsub_def)

lemma fmin_Fin [simp]: "fmin (Fin a) (Fin b) = Fin (min a b)"
  by (simp add: fmin_def min_def)

lemma finite_f_Fin [simp]: "finite_f (Fin q)"
  by (simp add: finite_f_def)

lemma finite_f_fdiv_int: "n \<noteq> 0 \<Longrightarrow> fdiv (Fin q) (f_of_int n) = Fin (q / of_int n)"
  by simp

text \<open>On values other than \<open>NaN\<close> the comparison is a strict weak order.\<close>

lemma flt_asym: "flt a b \<Longrightarrow> \<not> flt b a"
  by (cases a; cases b) auto

lemma flt_negtrans: "b \<noteq> NaN \<Longrightarrow> \<not> flt a b \<Longrightarrow> \<not> flt b c \<Longrightarrow> \<not> flt a c"
  by (cases a; cases b; cases c) auto

lemma flt_trans: "flt a b \<Longrightarrow> flt b c \<Longrightarrow> flt a c"
  by (cases a; cases b; cases c) auto

lemma flt_irrefl [simp]: "\<not> flt a a"
  by (cases a) auto

lemma flt_NaN [simp]: "\<not> flt a NaN"
  by (cases a) auto

end
