(* ===== verification/ClusterScheduler.thy ===== *)
theory ClusterScheduler
  imports HostManager GoSort GoFloat
begin

text \<open>
  The scheduler service: the scores of apps/scheduler/internal/scheduler/ranker.go, the queue, the
  allocations and the scheduling cycle of scheduler.go, their HTTP handlers, and the authentication
  middleware of apps/scheduler/cmd/scheduler/main.go. The service state is one record; the queue
  holds pointers that nothing else keeps, so its items are values here. A cycle reads the clock
  several times; the model gives all readings of one call the same value \<open>now\<close>. The orders in which
  the maps are iterated are arguments (\<open>ks\<close> for the hosts, \<open>as\<close> for the allocations), and so is the
  sorting function \<open>srt\<close>.
\<close>

section \<open>Ranking\<close>

definition scoreHost :: "queue_item \<Rightarrow> host \<Rightarrow> f64" where
  "scoreHost item h =
     (if wrap64 (h_cpuCores h - h_allocatedCPUCores h) < qi_cpuCores item then Fin 0
      else if wrap64 (h_ramGB h - h_allocatedRAMGB h) < qi_ramGB item then Fin 0
      else if qi_gpuRequired item \<and> h_gpuVramGB h = 0 then Fin 0
      else if qi_gpuRequired item \<and> h_gpuVramGB h < qi_gpuVramGB item then Fin 0
      else
        let score = Fin 100;
            cpuAvail = f_of_int (wrap64 (h_cpuCores h - h_allocatedCPUCores h));
            cpuRatio = fdiv (f_of_int (qi_cpuCores item)) cpuAvail;
            score = fsub score (fmul cpuRatio (Fin 20));
            ramAvail = f_of_int (wrap64 (h_ramGB h - h_allocatedRAMGB h));
            ramRatio = fdiv (f_of_int (qi_ramGB item)) ramAvail;
            score = fsub score (fmul ramRatio (Fin 20));
            score = (if h_uplinkMbps h > 0 \<and> qi_latencyBudgetMs item > 0
                     then let latencyScore = fdiv (f_of_int (wrap64 (100 - h_latencyMs h))) (Fin 100);
                              score = fadd score (fmul latencyScore (Fin 15))
                          in if h_latencyMs h > qi_latencyBudgetMs item then fsub score (Fin 30) else score
                     else score);
            score = (if h_uptimeHours h > 0
                     then fadd score (fmul (fmin (fdiv (f_of_int (h_uptimeHours h)) (Fin 720)) (Fin 1)) (Fin 10))
                     else score);
            score = (if h_gpuVramGB h > 0 then fadd score (Fin 15) else score);
            loadRatio = fdiv (f_of_int (h_allocatedCPUCores h)) (f_of_int (h_cpuCores h));
            score = fsub score (fmul loadRatio (Fin 20))
        in if flt score (Fin 0) then Fin 0 else score)"

text \<open>\<open>rankedHost\<close> pairs a host with its score; the hosts are given and returned by their keys.\<close>

type_synonym ranked = "string \<times> f64"

definition rankHosts ::
  "((ranked \<Rightarrow> ranked \<Rightarrow> bool) \<Rightarrow> ranked list \<Rightarrow> ranked list) \<Rightarrow> hosts \<Rightarrow> queue_item \<Rightarrow> string list \<Rightarrow> string list" where
  "rankHosts srt m item ks =
     (let ranked = List.map_filter (\<lambda>k. case m k of
                       None \<Rightarrow> None
                     | Some h \<Rightarrow> let score = scoreHost item h
                                 in if flt (Fin 0) score then Some (k, score) else None) ks
      in map fst (srt (\<lambda>a b. flt (snd b) (snd a)) ranked))"

section \<open>State\<close>

record sched =
  ss_hosts :: hosts
  ss_queue :: "queue_item list"
  ss_nextID :: int
  ss_allocations :: "string \<rightharpoonup> allocation"

definition new_sched :: sched where
  "new_sched = \<lparr>ss_hosts = Map.empty, ss_queue = [], ss_nextID = 1, ss_allocations = Map.empty\<rparr>"

section \<open>The scheduling cycle\<close>

text \<open>
  An item that is placed gets an allocation under its own id, and the host's counters are raised; the log
  line then slices both ids to 8 bytes.
\<close>

definition place :: "duration \<Rightarrow> time \<Rightarrow> string \<Rightarrow> queue_item \<Rightarrow> allocation" where
  "place ttl now best item =
     \<lparr>al_id = qi_id item, al_queueId = qi_id item, al_userId = qi_userId item, al_hostId = best,
      al_cpuCores = qi_cpuCores item, al_ramGB = qi_ramGB item, al_allocatedAt = now,
      al_expiresAt = now + ttl\<rparr>"

text \<open>
  One pass of the loop. The hosts are those that were available when the cycle began (\<open>hs\<close>); the ranking reads
  their records without a lock (\<open>view\<close>), \<open>Allocate\<close> works on the table as it is then (\<open>m\<close>), and its result is
  ignored.
\<close>

definition place_item ::
  "((ranked \<Rightarrow> ranked \<Rightarrow> bool) \<Rightarrow> ranked list \<Rightarrow> ranked list) \<Rightarrow> duration \<Rightarrow> time \<Rightarrow> string list \<Rightarrow> hosts \<Rightarrow>
   queue_item \<Rightarrow> hosts \<Rightarrow> (string \<rightharpoonup> allocation) \<Rightarrow> queue_item \<times> hosts \<times> (string \<rightharpoonup> allocation) \<times> exit" where
  "place_item srt ttl now hs view item m al =
     (if qi_status item \<noteq> ''queued'' then (item, m, al, Done)
      else case rankHosts srt view item hs of
        [] \<Rightarrow> (item, m, al, Done)
      | best # _ \<Rightarrow>
          let al' = al(qi_id item \<mapsto> place ttl now best item);
              item' = item\<lparr>qi_status := ''allocated'', qi_assignedHost := best\<rparr>;
              m' = snd (hm_Allocate best (qi_cpuCores item) (qi_ramGB item) m)
          in (item', m', al', if slice_to (qi_id item) 8 = None \<or> slice_to best 8 = None then Panicked else Done))"

text \<open>The loop when nothing else happens to the hosts meanwhile.\<close>

fun schedule_items ::
  "((ranked \<Rightarrow> ranked \<Rightarrow> bool) \<Rightarrow> ranked list \<Rightarrow> ranked list) \<Rightarrow> duration \<Rightarrow> time \<Rightarrow> string list \<Rightarrow>
   queue_item list \<Rightarrow> hosts \<Rightarrow> (string \<rightharpoonup> allocation) \<Rightarrow>
   queue_item list \<times> hosts \<times> (string \<rightharpoonup> allocation) \<times> exit" where
  "schedule_items srt ttl now hs [] m al = ([], m, al, Done)"
| "schedule_items srt ttl now hs (item # rest) m al =
     (case place_item srt ttl now hs m item m al of
        (item', m', al', Panicked) \<Rightarrow> (item' # rest, m', al', Panicked)
      | (item', m', al', Done) \<Rightarrow> (case schedule_items srt ttl now hs rest m' al' of (q, r) \<Rightarrow> (item' # q, r)))"

text \<open>One pass of the cleanup, and the loop.\<close>

definition clean_item ::
  "string \<Rightarrow> time \<Rightarrow> hosts \<Rightarrow> (string \<rightharpoonup> allocation) \<Rightarrow> hosts \<times> (string \<rightharpoonup> allocation) \<times> exit" where
  "clean_item k now m al =
     (case al k of
        None \<Rightarrow> (m, al, Done)
      | Some a \<Rightarrow>
          if now > al_expiresAt a
          then (hm_Release (al_hostId a) (al_cpuCores a) (al_ramGB a) m, al(k := None),
                if slice_to k 8 = None \<or> slice_to (al_hostId a) 8 = None then Panicked else Done)
          else (m, al, Done))"

fun cleanupExpired ::
  "string list \<Rightarrow> time \<Rightarrow> hosts \<Rightarrow> (string \<rightharpoonup> allocation) \<Rightarrow> hosts \<times> (string \<rightharpoonup> allocation) \<times> exit" where
  "cleanupExpired [] now m al = (m, al, Done)"
| "cleanupExpired (k # ks) now m al =
     (case clean_item k now m al of
        (m', al', Panicked) \<Rightarrow> (m', al', Panicked)
      | (m', al', Done) \<Rightarrow> cleanupExpired ks now m' al')"

definition scheduleCycle ::
  "((ranked \<Rightarrow> ranked \<Rightarrow> bool) \<Rightarrow> ranked list \<Rightarrow> ranked list) \<Rightarrow> sched_config \<Rightarrow> time \<Rightarrow>
   string list \<Rightarrow> string list \<Rightarrow> sched \<Rightarrow> sched \<times> exit" where
  "scheduleCycle srt cfg now ks as s =
     (if ss_queue s = [] then (s, Done)
      else let hs = hm_GetAvailable ks now (ss_hosts s)
           in if hs = [] then (s, Done)
              else case schedule_items srt (defaultTTL cfg) now hs (ss_queue s) (ss_hosts s) (ss_allocations s) of
                (q, m, al, Panicked) \<Rightarrow>
                  (s\<lparr>ss_queue := q, ss_hosts := m, ss_allocations := al\<rparr>, Panicked)
              | (q, m, al, Done) \<Rightarrow>
                  (case cleanupExpired as now m al of
                     (m', al', e) \<Rightarrow> (s\<lparr>ss_queue := q, ss_hosts := m', ss_allocations := al'\<rparr>, e)))"

section \<open>HTTP handlers\<close>

datatype sched_body =
    SErr string
  | SItem queue_item
  | SQueue "queue_item list"
  | SAllocations "allocation list"
  | SStatus string

record enqueue_req =
  rq_userId :: string
  rq_sessionType :: string
  rq_resourceClass :: string
  rq_priority :: int
  rq_cpuCores :: int
  rq_ramGB :: int
  rq_gpuRequired :: bool
  rq_gpuVramGB :: int
  rq_latencyBudgetMs :: int

definition new_item :: "time \<Rightarrow> string \<Rightarrow> int \<Rightarrow> enqueue_req \<Rightarrow> queue_item" where
  "new_item now ident pos req =
     \<lparr>qi_id = ident, qi_userId = rq_userId req, qi_sessionType = rq_sessionType req,
      qi_resourceClass = rq_resourceClass req,
      qi_priority = (if rq_priority req < 1 then PriorityNormal else rq_priority req),
      qi_cpuCores = (if rq_cpuCores req < 1 then 2 else rq_cpuCores req),
      qi_ramGB = (if rq_ramGB req < 1 then 4 else rq_ramGB req),
      qi_gpuRequired = rq_gpuRequired req, qi_gpuVramGB = rq_gpuVramGB req,
      qi_latencyBudgetMs = rq_latencyBudgetMs req, qi_status = ''queued'', qi_position = pos,
      qi_estimatedWait = 0, qi_createdAt = now, qi_assignedHost = ''''\<rparr>"

definition enqueue :: "sched_config \<Rightarrow> time \<Rightarrow> enqueue_req option \<Rightarrow> sched \<Rightarrow> sched_body answer \<times> sched" where
  "enqueue cfg now req s =
     (case req of
        None \<Rightarrow> (Answer 400 (SErr ''invalid json''), s)
      | Some req \<Rightarrow>
          if rq_userId req = '''' then (Answer 400 (SErr ''userId required''), s)
          else if int (length (ss_queue s)) \<ge> maxQueueSize cfg then (Answer 503 (SErr ''queue full''), s)
          else let item = new_item now (numbered_id ''req_'' (ss_nextID s) now) (int (length (ss_queue s)) + 1) req
               in (Answer 201 (SItem item),
                   s\<lparr>ss_queue := ss_queue s @ [item], ss_nextID := ss_nextID s + 1\<rparr>))"

definition listQueue :: "sched \<Rightarrow> sched_body answer" where
  "listQueue s = Answer 200 (SQueue (ss_queue s))"

definition getQueueItem :: "string \<Rightarrow> sched \<Rightarrow> sched_body answer" where
  "getQueueItem ident s =
     (case List.find (\<lambda>it. qi_id it = ident) (ss_queue s) of
        Some it \<Rightarrow> Answer 200 (SItem it)
      | None \<Rightarrow> Answer 404 (SErr ''not found''))"

definition dequeue :: "string \<Rightarrow> sched \<Rightarrow> sched_body answer \<times> sched" where
  "dequeue ident s =
     (if \<exists>it \<in> set (ss_queue s). qi_id it = ident
      then let s' = s\<lparr>ss_queue := remove_first (\<lambda>it. qi_id it = ident) (ss_queue s)\<rparr>
           in (Answer 200 (SStatus ''removed''),
               case ss_allocations s ident of
                 None \<Rightarrow> s'
               | Some a \<Rightarrow> s'\<lparr>ss_hosts := hm_Release (al_hostId a) (al_cpuCores a) (al_ramGB a) (ss_hosts s),
                              ss_allocations := (ss_allocations s)(ident := None)\<rparr>)
      else (Answer 404 (SErr ''not found''), s))"

definition HandleQueue :: "sched_config \<Rightarrow> time \<Rightarrow> http_method \<Rightarrow> enqueue_req option \<Rightarrow> sched \<Rightarrow> sched_body answer \<times> sched" where
  "HandleQueue cfg now meth req s =
     (if meth = POST then enqueue cfg now req s
      else if meth = GET then (listQueue s, s)
      else (Answer 405 (SErr ''method not allowed''), s))"

text \<open>The path starts with the registered pattern \<open>/api/queue/\<close>; the id is the rest of it.\<close>

definition HandleQueueItem :: "http_method \<Rightarrow> string \<Rightarrow> sched \<Rightarrow> sched_body answer \<times> sched" where
  "HandleQueueItem meth path s =
     (let ident = drop (length ''/api/queue/'') path
      in if ident = '''' then (Answer 400 (SErr ''id required''), s)
         else if meth = GET then (getQueueItem ident s, s)
         else if meth = DELETE then dequeue ident s
         else (Answer 405 (SErr ''method not allowed''), s))"

definition HandleAllocations :: "string list \<Rightarrow> http_method \<Rightarrow> sched \<Rightarrow> sched_body answer" where
  "HandleAllocations as meth s =
     (if meth \<noteq> GET then Answer 405 (SErr ''method not allowed'')
      else Answer 200 (SAllocations (map_values (ss_allocations s) as)))"

definition HandleSchedule ::
  "((ranked \<Rightarrow> ranked \<Rightarrow> bool) \<Rightarrow> ranked list \<Rightarrow> ranked list) \<Rightarrow> sched_config \<Rightarrow> time \<Rightarrow>
   string list \<Rightarrow> string list \<Rightarrow> http_method \<Rightarrow> sched \<Rightarrow> sched_body answer option \<times> sched" where
  "HandleSchedule srt cfg now ks as meth s =
     (if meth \<noteq> POST then (Some (Answer 405 (SErr ''method not allowed'')), s)
      else case scheduleCycle srt cfg now ks as s of
        (s', Done) \<Rightarrow> (Some (Answer 200 (SStatus ''scheduled'')), s')
      | (s', Panicked) \<Rightarrow> (None, s'))"

section \<open>Authentication middleware\<close>

text \<open>
  \<open>requireAuth\<close> lets a request through (\<open>None\<close>) or answers it. \<open>withCORS\<close> answers every \<open>OPTIONS\<close>
  request itself. \<open>ConstantTimeCompare\<close> is equality.
\<close>

definition requireAuth :: "string \<Rightarrow> string \<Rightarrow> string answer option" where
  "requireAuth token hdr =
     (if token = '''' then Some (Answer 503 ''scheduler auth token not configured'')
      else if take 7 hdr \<noteq> ''Bearer '' then Some (Answer 401 ''unauthorized'')
      else if drop 7 hdr \<noteq> token then Some (Answer 401 ''unauthorized'')
      else None)"

definition withCORS :: "http_method \<Rightarrow> string answer option" where
  "withCORS meth = (if meth = OPTIONS then Some (Answer 204 '''') else None)"

text \<open>
  The middleware in front of every route but the health check: a handler runs, and may change the
  state, only when both let the request through.
\<close>

definition guarded ::
  "sched_config \<Rightarrow> http_method \<Rightarrow> string \<Rightarrow> ('s \<Rightarrow> 'b answer option \<times> 's) \<Rightarrow> 's \<Rightarrow>
   (string answer + 'b answer option) \<times> 's" where
  "guarded cfg meth hdr handler s =
     (case withCORS meth of
        Some a \<Rightarrow> (Inl a, s)
      | None \<Rightarrow> (case requireAuth (authToken cfg) hdr of
                  Some a \<Rightarrow> (Inl a, s)
                | None \<Rightarrow> (case handler s of (b, s') \<Rightarrow> (Inr b, s'))))"

section \<open>The scores\<close>

text \<open>A positive score means that the host has room and the GPU the item asks for.\<close>

definition suits :: "queue_item \<Rightarrow> host \<Rightarrow> bool" where
  "suits item h \<longleftrightarrow>
     qi_cpuCores item \<le> wrap64 (h_cpuCores h - h_allocatedCPUCores h) \<and>
     qi_ramGB item \<le> wrap64 (h_ramGB h - h_allocatedRAMGB h) \<and>
     (qi_gpuRequired item \<longrightarrow> h_gpuVramGB h \<noteq> 0 \<and> qi_gpuVramGB item \<le> h_gpuVramGB h)"

lemma scoreHost_suits: "flt (Fin 0) (scoreHost item h) \<Longrightarrow> suits item h"
  by (auto simp: scoreHost_def suits_def split: if_splits)

lemma suits_has_room:
  assumes "suits item h" "host_ok h"
  shows "has_room (qi_cpuCores item) (qi_ramGB item) h"
  using assms by (simp add: suits_def host_ok_def amount_wrap has_room_def)

text \<open>The entries of the ranking: the hosts with a positive score, best first.\<close>

lemma ranked_strict_weak:
  "strict_weak_on {p. flt (Fin 0) (snd p)} (\<lambda>a b. flt (snd b) (snd a))"
proof -
  have nan: "flt (Fin 0) x \<Longrightarrow> x \<noteq> NaN" for x by auto
  show ?thesis
    unfolding strict_weak_on_def using flt_asym flt_negtrans nan by blast
qed

definition ranking :: "hosts \<Rightarrow> queue_item \<Rightarrow> string list \<Rightarrow> ranked list" where
  "ranking m item ks = List.map_filter (\<lambda>k. case m k of
       None \<Rightarrow> None
     | Some h \<Rightarrow> let score = scoreHost item h
                 in if flt (Fin 0) score then Some (k, score) else None) ks"

lemma set_ranking:
  "set (ranking m item ks) =
     {(k, scoreHost item h) | k h. k \<in> set ks \<and> m k = Some h \<and> flt (Fin 0) (scoreHost item h)}"
  by (force simp: ranking_def List.map_filter_def Let_def split: option.splits if_splits)

lemma rankHosts_eq: "rankHosts srt m item ks = map fst (srt (\<lambda>a b. flt (snd b) (snd a)) (ranking m item ks))"
  by (simp add: rankHosts_def ranking_def Let_def)

lemma ranking_order: "strict_weak_on (set (ranking m item ks)) (\<lambda>a b. flt (snd b) (snd a))"
  using ranked_strict_weak by (rule strict_weak_on_subset) (auto simp: set_ranking)

lemma rankHosts_best:
  assumes srt: "slice_sorter srt" and r: "rankHosts srt m item ks = best # rest"
  obtains h where "best \<in> set ks" "m best = Some h" "flt (Fin 0) (scoreHost item h)"
    "\<And>k h'. k \<in> set ks \<Longrightarrow> m k = Some h' \<Longrightarrow> \<not> flt (scoreHost item h) (scoreHost item h')"
proof -
  let ?R = "ranking m item ks" and ?lt = "\<lambda>a b :: ranked. flt (snd b) (snd a)"
  have ne: "srt ?lt ?R \<noteq> []" and hd: "fst (hd (srt ?lt ?R)) = best"
    using r by (auto simp: rankHosts_eq)
  have order: "strict_weak_on (set ?R) ?lt" by (rule ranking_order)
  have "?R \<noteq> []" using ne by (simp add: slice_sorter.srt_Nil_iff [OF srt])
  then obtain y where y: "y \<in> set ?R" by (cases ?R) auto
  have "hd (srt ?lt ?R) \<in> set ?R" by (rule slice_sorter.hd_srt(1) [OF srt order y])
  then obtain h where h: "best \<in> set ks" "m best = Some h" "flt (Fin 0) (scoreHost item h)"
      "hd (srt ?lt ?R) = (best, scoreHost item h)"
    using hd by (auto simp: set_ranking)
  have "\<not> flt (scoreHost item h) (scoreHost item h')" if "k \<in> set ks" "m k = Some h'" for k h'
  proof
    assume lt: "flt (scoreHost item h) (scoreHost item h')"
    then have "flt (Fin 0) (scoreHost item h')"
      using flt_negtrans [of "scoreHost item h" "Fin 0" "scoreHost item h'"] h(3) flt_asym flt_trans by blast
    with that have "(k, scoreHost item h') \<in> set ?R" by (auto simp: set_ranking)
    from slice_sorter.hd_srt(2) [OF srt order this] lt h(4) show False by simp
  qed
  with h(1-3) that show thesis by blast
qed

lemma rankHosts_empty:
  assumes srt: "slice_sorter srt" and k: "k \<in> set ks" "m k = Some h"
    and r: "rankHosts srt m item ks = []"
  shows "\<not> flt (Fin 0) (scoreHost item h)"
proof
  assume "flt (Fin 0) (scoreHost item h)"
  with k have "ranking m item ks \<noteq> []" using set_ranking [of m item ks] by fastforce
  with r show False by (simp add: rankHosts_eq slice_sorter.srt_Nil_iff [OF srt])
qed

end
