(* ===== verification/SchedulerProofs.thy ===== *)
theory SchedulerProofs
  imports ClusterScheduler
begin

text \<open>
  The scheduler service over time: the accounting of allocated resources, the invariant of the
  reachable states, and the properties of the cycle, the queue and the middleware. The steps of the
  service are an inductive relation with one rule per kind of request (and one for the cycle).
\<close>

section \<open>Accounting\<close>

text \<open>The sum of one amount over the live allocations of a host.\<close>

definition load_of :: "(allocation \<Rightarrow> int) \<Rightarrow> (string \<rightharpoonup> allocation) \<Rightarrow> string \<Rightarrow> int" where
  "load_of f al k = (\<Sum>i \<in> {i \<in> dom al. al_hostId (the (al i)) = k}. f (the (al i)))"

lemma load_of_empty [simp]: "load_of f Map.empty k = 0"
  by (simp add: load_of_def)

lemma load_of_insert:
  assumes "finite (dom al)" "al i = None"
  shows "load_of f (al(i \<mapsto> a)) k = load_of f al k + (if al_hostId a = k then f a else 0)"
proof -
  let ?D = "{j \<in> dom al. al_hostId (the (al j)) = k}"
  have D: "finite ?D" "i \<notin> ?D" using assms by auto
  have same: "(\<Sum>j\<in>?D. f (the ((al(i \<mapsto> a)) j))) = (\<Sum>j\<in>?D. f (the (al j)))"
    using assms(2) by (intro sum.cong) auto
  have set: "{j \<in> dom (al(i \<mapsto> a)). al_hostId (the ((al(i \<mapsto> a)) j)) = k} =
      (if al_hostId a = k then insert i ?D else ?D)"
    using assms(2) by (auto split: if_splits)
  show ?thesis unfolding load_of_def set using D same by simp
qed

lemma load_of_delete:
  assumes "finite (dom al)" "al i = Some a"
  shows "load_of f al k = load_of f (al(i := None)) k + (if al_hostId a = k then f a else 0)"
  using load_of_insert [of "al(i := None)" i f a k] assms by (simp add: fun_upd_idem)

lemma load_of_nonneg: "(\<And>i a. al i = Some a \<Longrightarrow> 0 \<le> f a) \<Longrightarrow> 0 \<le> load_of f al k"
  unfolding load_of_def by (rule sum_nonneg) auto

text \<open>
  What a step of the service can do to the books of a host: nothing, lose the host's part in an allocation
  (\<open>Lost\<close>: the host refused resources that the cycle records as allocated, or registered again while it has
  allocations), or take the host's word for what is allocated on it (\<open>Declared\<close>).
\<close>

datatype label = Quiet | Lost string | Declared string

text \<open>
  The books balance: the counters of every host are the sums over its live allocations, and at most these sums
  where something was lost.
\<close>

definition books :: "label set \<Rightarrow> (string \<rightharpoonup> allocation) \<Rightarrow> string \<Rightarrow> host \<Rightarrow> bool" where
  "books L al k h \<longleftrightarrow> Declared k \<in> L \<or>
     h_allocatedCPUCores h \<le> load_of al_cpuCores al k \<and> h_allocatedRAMGB h \<le> load_of al_ramGB al k \<and>
     (Lost k \<in> L \<or> h_allocatedCPUCores h = load_of al_cpuCores al k \<and> h_allocatedRAMGB h = load_of al_ramGB al k)"

definition balanced :: "label set \<Rightarrow> hosts \<Rightarrow> (string \<rightharpoonup> allocation) \<Rightarrow> bool" where
  "balanced L m al \<longleftrightarrow> finite (dom al) \<and>
     (\<forall>i a. al i = Some a \<longrightarrow> amount (al_cpuCores a) \<and> amount (al_ramGB a) \<and> al_hostId a \<in> dom m) \<and>
     (\<forall>k h. m k = Some h \<longrightarrow> books L al k h)"

lemma balancedD:
  assumes "balanced L m al"
  shows "finite (dom al)"
    and "al i = Some a \<Longrightarrow> amount (al_cpuCores a) \<and> amount (al_ramGB a) \<and> al_hostId a \<in> dom m"
    and "m k = Some h \<Longrightarrow> books L al k h"
  using assms by (auto simp: balanced_def)

lemma balancedI:
  assumes "finite (dom al)"
    and "\<And>i a. al i = Some a \<Longrightarrow> amount (al_cpuCores a) \<and> amount (al_ramGB a) \<and> al_hostId a \<in> dom m"
    and "\<And>k h. m k = Some h \<Longrightarrow> books L al k h"
  shows "balanced L m al"
  using assms by (auto simp: balanced_def)

lemma books_mono: "books L al k h \<Longrightarrow> L \<subseteq> L' \<Longrightarrow> books L' al k h"
  by (auto simp: books_def)

lemma balanced_mono: "balanced L m al \<Longrightarrow> L \<subseteq> L' \<Longrightarrow> balanced L' m al"
  unfolding balanced_def by (meson books_mono)

lemma balanced_Quiet [simp]: "balanced (insert Quiet L) m al = balanced L m al"
  by (simp add: balanced_def books_def)

text \<open>A change of a host that leaves its counters alone.\<close>

lemma balanced_upd:
  "balanced L m al \<Longrightarrow> m k = Some h \<Longrightarrow> h_allocatedCPUCores h' = h_allocatedCPUCores h \<Longrightarrow>
   h_allocatedRAMGB h' = h_allocatedRAMGB h \<Longrightarrow> balanced L (m(k \<mapsto> h')) al"
  by (auto simp: balanced_def books_def)

text \<open>An allocation on a host that grants it, and on one that refuses.\<close>

lemma books_insert:
  assumes "finite (dom al)" "al i = None" "books L al k h" "al_hostId a = b" "amount (al_cpuCores a)" "amount (al_ramGB a)"
  shows "k \<noteq> b \<Longrightarrow> books L (al(i \<mapsto> a)) k h"
    and "k = b \<Longrightarrow> books L (al(i \<mapsto> a)) k (add_load (al_cpuCores a) (al_ramGB a) h)"
    and "k = b \<Longrightarrow> books (insert (Lost b) L) (al(i \<mapsto> a)) k h"
  using assms(3-) by (auto simp: books_def load_of_insert [OF assms(1,2)] add_load_def amount_def)

lemma release_balanced:
  assumes ok: "hosts_ok m" and bal: "balanced L m al" and a: "al i = Some a"
  defines "m' \<equiv> hm_Release (al_hostId a) (al_cpuCores a) (al_ramGB a) m"
  shows "hosts_ok m'" and "balanced L m' (al(i := None))" and "dom m' = dom m"
proof -
  have am: "amount (al_cpuCores a)" "amount (al_ramGB a)" and "al_hostId a \<in> dom m"
    using balancedD(2) [OF bal a] by auto
  then obtain h where h: "m (al_hostId a) = Some h" by auto
  have m': "m' = m(al_hostId a \<mapsto> sub_load (al_cpuCores a) (al_ramGB a) h)"
    using h by (simp add: m'_def hm_Release_eq [OF ok am])
  show "hosts_ok m'" using hosts_okD [OF ok h] ok am unfolding m' by (simp add: hosts_ok_upd sub_load_ok)
  show dom: "dom m' = dom m" using h by (auto simp: m')
  have fin: "finite (dom al)" using bal by (rule balancedD)
  have pos: "\<And>j b. (al(i := None)) j = Some b \<Longrightarrow> 0 \<le> al_cpuCores b \<and> 0 \<le> al_ramGB b"
    using balancedD(2) [OF bal] by (auto simp: amount_def split: if_splits)
  have rest: "0 \<le> load_of al_cpuCores (al(i := None)) k" "0 \<le> load_of al_ramGB (al(i := None)) k" for k
    using pos by (blast intro: load_of_nonneg)+
  note del = load_of_delete [OF fin a]
  show "balanced L m' (al(i := None))"
  proof (rule balancedI)
    show "finite (dom (al(i := None)))" using fin by simp
    show "amount (al_cpuCores b) \<and> amount (al_ramGB b) \<and> al_hostId b \<in> dom m'" if "(al(i := None)) j = Some b" for j b
      using balancedD(2) [OF bal] that dom by (auto split: if_splits)
    fix k g assume g: "m' k = Some g"
    show "books L (al(i := None)) k g"
    proof (cases "k = al_hostId a")
      case True
      then have "g = sub_load (al_cpuCores a) (al_ramGB a) h" using g by (simp add: m')
      with balancedD(3) [OF bal h] rest [of "al_hostId a"] True show ?thesis
        by (auto simp: books_def sub_load_def del)
    next
      case False
      then have "books L al k g" using g balancedD(3) [OF bal] by (simp add: m')
      with False show ?thesis by (auto simp: books_def del)
    qed
  qed
qed

section \<open>The loops of the cycle\<close>

text \<open>What the cycle may do to an item: nothing, or mark a queued one as allocated to a host.\<close>

definition item_step :: "queue_item \<Rightarrow> queue_item \<Rightarrow> bool" where
  "item_step it it' \<longleftrightarrow> it' = it \<or>
     qi_status it = ''queued'' \<and> (\<exists>b. it' = it\<lparr>qi_status := ''allocated'', qi_assignedHost := b\<rparr>)"

lemma item_step_refl [simp]: "item_step it it"
  by (simp add: item_step_def)

lemma item_step_fields:
  "item_step it it' \<Longrightarrow> qi_id it' = qi_id it \<and> qi_cpuCores it' = qi_cpuCores it \<and> qi_ramGB it' = qi_ramGB it"
  by (auto simp: item_step_def)

lemma item_steps_map: "list_all2 item_step q q' \<Longrightarrow> map qi_id q' = map qi_id q"
  by (induction rule: list_all2_induct) (simp_all add: item_step_fields)

text \<open>Hosts after a cycle are unchanged or within their capacity.\<close>

definition in_capacity :: "host \<Rightarrow> bool" where
  "in_capacity h \<longleftrightarrow> h_allocatedCPUCores h \<le> h_cpuCores h \<and> h_allocatedRAMGB h \<le> h_ramGB h"

text \<open>The host refuses what a pass of the loop records as allocated on it.\<close>

definition place_label :: "queue_item \<Rightarrow> queue_item \<Rightarrow> hosts \<Rightarrow> label" where
  "place_label item item' m =
     (if item' \<noteq> item \<and> \<not> fst (hm_Allocate (qi_assignedHost item') (qi_cpuCores item) (qi_ramGB item) m)
      then Lost (qi_assignedHost item') else Quiet)"

lemma place_item_ok:
  assumes srt: "slice_sorter srt" and ok: "hosts_ok m" "hosts_ok view" and bal: "balanced L m al" and hs: "set hs \<subseteq> dom m"
    and req: "1 \<le> qi_cpuCores item" "1 \<le> qi_ramGB item" and fresh: "qi_status item = ''queued'' \<Longrightarrow> al (qi_id item) = None"
    and run: "place_item srt ttl now hs view item m al = (item', m', al', e)"
  shows "hosts_ok m'" "balanced (insert (place_label item item' m) L) m' al'" "dom m' = dom m" "item_step item item'"
    "al' i = al i \<or> qi_id item' = i \<and> qi_status item' = ''allocated''"
    "m' k = Some h' \<Longrightarrow> m k = Some h' \<or> in_capacity h'"
    "view = m \<Longrightarrow> place_label item item' m = Quiet"
proof -
  consider (stays) "item' = item" "m' = m" "al' = al"
    | (placed) best rest where "qi_status item = ''queued''" "rankHosts srt view item hs = best # rest"
      "item' = item\<lparr>qi_status := ''allocated'', qi_assignedHost := best\<rparr>"
      "m' = snd (hm_Allocate best (qi_cpuCores item) (qi_ramGB item) m)" "al' = al(qi_id item \<mapsto> place ttl now best item)"
    using run by (auto simp: place_item_def Let_def split: if_splits list.splits)
  then have "hosts_ok m' \<and> balanced (insert (place_label item item' m) L) m' al' \<and> dom m' = dom m \<and> item_step item item' \<and>
    (\<forall>i. al' i = al i \<or> qi_id item' = i \<and> qi_status item' = ''allocated'') \<and>
    (\<forall>k h'. m' k = Some h' \<longrightarrow> m k = Some h' \<or> in_capacity h') \<and> (view = m \<longrightarrow> place_label item item' m = Quiet)"
  proof cases
    case stays
    with ok bal show ?thesis by (simp add: place_label_def)
  next
    case placed
    obtain v where v: "best \<in> set hs" "view best = Some v" "flt (Fin 0) (scoreHost item v)"
      using rankHosts_best [OF srt placed(2)] by metis
    have vok: "host_ok v" using hosts_okD [OF ok(2) v(2)] by simp
    have vroom: "has_room (qi_cpuCores item) (qi_ramGB item) v" using suits_has_room [OF scoreHost_suits [OF v(3)] vok] .
    with vok req have am: "amount (qi_cpuCores item)" "amount (qi_ramGB item)"
      by (auto simp: has_room_def host_ok_def amount_def)
    obtain h where h: "m best = Some h" using v(1) hs by auto
    have hok: "host_ok h" using hosts_okD [OF ok(1) h] by simp
    let ?a = "place ttl now best item"
    have a: "al_hostId ?a = best" "al_cpuCores ?a = qi_cpuCores item" "al_ramGB ?a = qi_ramGB item"
      by (simp_all add: place_def)
    have new: "al (qi_id item) = None" using fresh placed(1) .
    have "qi_status item' \<noteq> qi_status item" using placed(1,3) by simp
    then have ne: "item' \<noteq> item" by blast
    have step: "item_step item item'" "qi_id item' = qi_id item" "qi_status item' = ''allocated''" "qi_assignedHost item' = best"
      using placed(1,3) by (auto simp: item_step_def)
    note ins = books_insert [OF balancedD(1) [OF bal] new _ a(1)]
    have amt: "amount (al_cpuCores b) \<and> amount (al_ramGB b) \<and> al_hostId b \<in> dom m" if "al' j = Some b" for j b
      using that balancedD(2) [OF bal] am h by (auto simp: placed(5) place_def split: if_splits)
    have fin: "finite (dom al')" using balancedD(1) [OF bal] by (simp add: placed(5))
    show ?thesis
    proof (cases "has_room (qi_cpuCores item) (qi_ramGB item) h")
      case True
      have m': "m' = m(best \<mapsto> add_load (qi_cpuCores item) (qi_ramGB item) h)" "fst (hm_Allocate best (qi_cpuCores item) (qi_ramGB item) m)"
        using h True by (simp_all add: placed(4) hm_Allocate_eq [OF ok(1) am])
      then have lab: "place_label item item' m = Quiet" by (simp add: place_label_def step(4))
      have "balanced L m' al'"
      proof (rule balancedI [OF fin])
        show "amount (al_cpuCores b) \<and> amount (al_ramGB b) \<and> al_hostId b \<in> dom m'" if "al' j = Some b" for j b
          using amt [OF that] h by (auto simp: m'(1))
        show "books L al' k g" if "m' k = Some g" for k g
          using that ins(1,2) [of L k] balancedD(3) [OF bal] am h a
          by (cases "k = best") (auto simp: m'(1) placed(5))
      qed
      moreover have "hosts_ok m'" using ok(1) hosts_okD [OF ok(1) h] am True by (simp add: m'(1) hosts_ok_upd add_load_ok)
      moreover have "dom m' = dom m" using h by (auto simp: m'(1))
      moreover have "m k = Some h' \<or> in_capacity h'" if "m' k = Some h'" for k h'
        using that True by (auto simp: m'(1) in_capacity_def has_room_def add_load_def split: if_splits)
      ultimately show ?thesis using step lab by (simp add: placed(5))
    next
      case False
      have m': "m' = m" "\<not> fst (hm_Allocate best (qi_cpuCores item) (qi_ramGB item) m)"
        using h False by (simp_all add: placed(4) hm_Allocate_eq [OF ok(1) am])
      then have lab: "place_label item item' m = Lost best" using ne by (simp add: place_label_def step(4))
      have "balanced (insert (Lost best) L) m' al'"
      proof (rule balancedI [OF fin])
        show "amount (al_cpuCores b) \<and> amount (al_ramGB b) \<and> al_hostId b \<in> dom m'" if "al' j = Some b" for j b
          using amt [OF that] by (simp add: m'(1))
        show "books (insert (Lost best) L) al' k g" if "m' k = Some g" for k g
          using that ins(1,3) [of L k g] balancedD(3) [OF bal, of k g] am a books_mono [of L al' k g "insert (Lost best) L"]
          by (cases "k = best") (auto simp: m'(1) placed(5))
      qed
      moreover have "view \<noteq> m" using vroom False v(2) h by auto
      ultimately show ?thesis using step lab ok(1) by (simp add: m'(1) placed(5))
    qed
  qed
  then show "hosts_ok m'" "balanced (insert (place_label item item' m) L) m' al'" "dom m' = dom m" "item_step item item'"
    "al' i = al i \<or> qi_id item' = i \<and> qi_status item' = ''allocated''"
    "m' k = Some h' \<Longrightarrow> m k = Some h' \<or> in_capacity h'" "view = m \<Longrightarrow> place_label item item' m = Quiet"
    by blast+
qed

lemma schedule_items_ok:
  assumes srt: "slice_sorter srt"
  shows "hosts_ok m \<Longrightarrow> balanced L m al \<Longrightarrow> set hs \<subseteq> dom m \<Longrightarrow> distinct (map qi_id items) \<Longrightarrow>
    (\<forall>it \<in> set items. 1 \<le> qi_cpuCores it \<and> 1 \<le> qi_ramGB it) \<Longrightarrow>
    (\<forall>it \<in> set items. qi_status it = ''queued'' \<longrightarrow> al (qi_id it) = None) \<Longrightarrow>
    schedule_items srt ttl now hs items m al = (q, m', al', e) \<Longrightarrow>
    hosts_ok m' \<and> balanced L m' al' \<and> dom m' = dom m \<and> list_all2 item_step items q \<and>
    (\<forall>i. al' i = al i \<or> (\<exists>it \<in> set q. qi_id it = i \<and> qi_status it = ''allocated'')) \<and>
    (\<forall>k h'. m' k = Some h' \<longrightarrow> m k = Some h' \<or> in_capacity h')"
proof (induction items arbitrary: m al q m' al' e)
  case Nil
  then show ?case by simp
next
  case (Cons item rest)
  note prems = Cons.prems
  obtain item1 m1 al1 e1 where p: "place_item srt ttl now hs m item m al = (item1, m1, al1, e1)"
    by (cases "place_item srt ttl now hs m item m al")
  have req: "1 \<le> qi_cpuCores item" "1 \<le> qi_ramGB item" and fresh: "qi_status item = ''queued'' \<Longrightarrow> al (qi_id item) = None"
    using prems(5,6) by auto
  note placed = place_item_ok [OF srt prems(1,1,2,3) req fresh p]
  have bal1: "balanced L m1 al1" using placed(2,7) by simp
  have id1: "qi_id item1 = qi_id item" using item_step_fields [OF placed(4)] by simp
  show ?case
  proof (cases e1)
    case Panicked
    with prems(7) p have q: "q = item1 # rest" "m' = m1" "al' = al1" by auto
    have "\<forall>i. al1 i = al i \<or> (\<exists>it \<in> set (item1 # rest). qi_id it = i \<and> qi_status it = ''allocated'')"
      using placed(5) by auto
    with placed(1,3,4,6) bal1 show ?thesis unfolding q by (auto simp: list_all2_same)
  next
    case Done
    with prems(7) p obtain q1 where q1: "schedule_items srt ttl now hs rest m1 al1 = (q1, m', al', e)" "q = item1 # q1"
      by (auto split: prod.splits)
    have "qi_id it \<noteq> qi_id item" if "it \<in> set rest" for it
      using prems(4) imageI [OF that, of qi_id] by auto
    then have "\<forall>it \<in> set rest. qi_status it = ''queued'' \<longrightarrow> al1 (qi_id it) = None"
      using prems(6) placed(5) id1 by (metis list.set_intros(2))
    from Cons.IH [OF placed(1) bal1 _ _ _ this q1(1)] prems(3-5) placed(3)
    have IH: "hosts_ok m'" "balanced L m' al'" "dom m' = dom m1" "list_all2 item_step rest q1"
        "\<forall>i. al' i = al1 i \<or> (\<exists>it \<in> set q1. qi_id it = i \<and> qi_status it = ''allocated'')"
        "\<forall>k h'. m' k = Some h' \<longrightarrow> m1 k = Some h' \<or> in_capacity h'"
      by auto
    moreover have "al' i = al i \<or> (\<exists>it \<in> set q. qi_id it = i \<and> qi_status it = ''allocated'')" for i
      using IH(5) [rule_format, of i] placed(5) [of i] q1(2) by auto
    moreover have "m k = Some h' \<or> in_capacity h'" if "m' k = Some h'" for k h'
      using IH(6) that placed(6) by blast
    ultimately show ?thesis using placed(3,4) q1(2) by simp
  qed
qed

lemma clean_item_ok:
  assumes "hosts_ok m" "balanced L m al" "clean_item k now m al = (m', al', e)"
  shows "hosts_ok m'" "balanced L m' al'" "dom m' = dom m" "al' i = al i \<or> al' i = None"
    "m' j = Some h' \<Longrightarrow> \<exists>h. m j = Some h \<and> (in_capacity h \<longrightarrow> in_capacity h')"
proof -
  consider "m' = m" "al' = al" | a where "al k = Some a" "m' = hm_Release (al_hostId a) (al_cpuCores a) (al_ramGB a) m" "al' = al(k := None)"
    using assms(3) by (auto simp: clean_item_def split: option.splits if_splits)
  then have all: "hosts_ok m' \<and> balanced L m' al' \<and> dom m' = dom m \<and> (\<forall>i. al' i = al i \<or> al' i = None) \<and>
    (\<forall>j h'. m' j = Some h' \<longrightarrow> (\<exists>h. m j = Some h \<and> (in_capacity h \<longrightarrow> in_capacity h')))"
  proof cases
    case 2
    have am: "amount (al_cpuCores a)" "amount (al_ramGB a)" using balancedD(2) [OF assms(2) 2(1)] by auto
    have "\<exists>h. m j = Some h \<and> (in_capacity h \<longrightarrow> in_capacity g)" if "m' j = Some g" for j g
      using that am hosts_okD [OF assms(1)]
      by (force simp: 2(2) hm_Release_eq [OF assms(1) am] in_capacity_def sub_load_def host_ok_def
          amount_def split: option.splits if_splits)
    with release_balanced [OF assms(1,2) 2(1)] 2(2,3) show ?thesis by simp
  qed (use assms in simp)
  from all show "hosts_ok m'" "balanced L m' al'" "dom m' = dom m" "al' i = al i \<or> al' i = None" by simp_all
  from all show "\<exists>h. m j = Some h \<and> (in_capacity h \<longrightarrow> in_capacity h')" if "m' j = Some h'" using that by simp
qed

lemma cleanupExpired_ok:
  "hosts_ok m \<Longrightarrow> balanced L m al \<Longrightarrow> cleanupExpired ks now m al = (m', al', e) \<Longrightarrow>
   hosts_ok m' \<and> balanced L m' al' \<and> dom m' = dom m \<and> (\<forall>i. al' i = al i \<or> al' i = None) \<and>
   (\<forall>k h'. m' k = Some h' \<longrightarrow> (\<exists>h. m k = Some h \<and> (in_capacity h \<longrightarrow> in_capacity h')))"
proof (induction ks arbitrary: m al)
  case (Cons k ks)
  obtain m1 al1 e1 where c: "clean_item k now m al = (m1, al1, e1)" by (cases "clean_item k now m al")
  note ok = clean_item_ok [OF Cons.prems(1,2) c]
  show ?case
  proof (cases e1)
    case Panicked
    with c Cons.prems(3) have "m' = m1" "al' = al1" by auto
    with ok(1-3) ok(4,5) show ?thesis by simp
  next
    case Done
    with c Cons.prems(3) have "cleanupExpired ks now m1 al1 = (m', al', e)" by simp
    from Cons.IH [OF ok(1,2) this] ok(3-5) show ?thesis by metis
  qed
qed simp

section \<open>The service over time\<close>

text \<open>
  A cycle holds the mutex of the scheduler from beginning to end, but takes that of the host registry anew for
  the list of available hosts, for each allocation and for each release, and its ranking reads the hosts without
  any. So the requests about hosts (registrations, heartbeats, removals) may come between any two passes of its
  loops, and requests about the queue only when no cycle runs. The phase says how far the cycle is: \<open>Placing hs i\<close>
  has the hosts \<open>hs\<close> and comes to the item \<open>i\<close> of the queue, \<open>Cleaning now ks\<close> has the keys \<open>ks\<close> of allocations left.
  The records that a ranking reads are any (\<open>view\<close>): older or newer ones than those in the table, or some of both.
  Every host ever registered has capacities and counters between 0 and \<open>2 ^ 62\<close>; otherwise requests are
  arbitrary, and a host may register any number of times.
\<close>

datatype phase = Idle | Placing "string list" nat | Cleaning time "string list"

definition register_label :: "host \<Rightarrow> sched \<Rightarrow> label" where
  "register_label h s =
     (if h_allocatedCPUCores h \<noteq> 0 \<or> h_allocatedRAMGB h \<noteq> 0 then Declared (h_id h)
      else if h_id h \<in> al_hostId ` ran (ss_allocations s) then Lost (h_id h) else Quiet)"

inductive sched_step ::
  "((ranked \<Rightarrow> ranked \<Rightarrow> bool) \<Rightarrow> ranked list \<Rightarrow> ranked list) \<Rightarrow> sched_config \<Rightarrow> label \<Rightarrow>
   phase \<Rightarrow> sched \<Rightarrow> phase \<Rightarrow> sched \<Rightarrow> bool"
  for srt cfg where
  register: "host_ok h \<Longrightarrow> sched_step srt cfg (register_label h s)
     ph s ph (s\<lparr>ss_hosts := snd (HandleRegister now POST (Some h) (ss_hosts s))\<rparr>)"
| heartbeat: "sched_step srt cfg Quiet ph s ph (s\<lparr>ss_hosts := snd (HandleHeartbeat now meth req (ss_hosts s))\<rparr>)"
| offline: "sched_step srt cfg Quiet ph s ph (s\<lparr>ss_hosts := fst (hm_MarkOffline k (ss_hosts s))\<rparr>)"
| queue: "sched_step srt cfg Quiet Idle s Idle (snd (HandleQueue cfg now meth req s))"
| queue_item: "sched_step srt cfg Quiet Idle s Idle (snd (HandleQueueItem meth path s))"
| cycle_begin: "ss_queue s \<noteq> [] \<Longrightarrow> hm_GetAvailable ks now (ss_hosts s) = hs \<Longrightarrow> hs \<noteq> [] \<Longrightarrow>
     sched_step srt cfg Quiet Idle s (Placing hs 0) s"
| cycle_place: "i < length (ss_queue s) \<Longrightarrow> hosts_ok view \<Longrightarrow>
     place_item srt (defaultTTL cfg) now hs view (ss_queue s ! i) (ss_hosts s) (ss_allocations s) = (item, m, al, e) \<Longrightarrow>
     sched_step srt cfg (place_label (ss_queue s ! i) item (ss_hosts s)) (Placing hs i) s
       (if e = Panicked then Idle else Placing hs (i + 1))
       (s\<lparr>ss_queue := (ss_queue s)[i := item], ss_hosts := m, ss_allocations := al\<rparr>)"
| cycle_cleanup: "i = length (ss_queue s) \<Longrightarrow> sched_step srt cfg Quiet (Placing hs i) s (Cleaning now ks) s"
| cycle_clean: "clean_item k now (ss_hosts s) (ss_allocations s) = (m, al, e) \<Longrightarrow>
     sched_step srt cfg Quiet (Cleaning now (k # ks)) s (if e = Panicked then Idle else Cleaning now ks)
       (s\<lparr>ss_hosts := m, ss_allocations := al\<rparr>)"
| cycle_end: "sched_step srt cfg Quiet (Cleaning now []) s Idle s"

text \<open>The states the service can reach, with what its steps did to the books.\<close>

inductive sched_reach ::
  "((ranked \<Rightarrow> ranked \<Rightarrow> bool) \<Rightarrow> ranked list \<Rightarrow> ranked list) \<Rightarrow> sched_config \<Rightarrow> label set \<Rightarrow> phase \<Rightarrow> sched \<Rightarrow> bool"
  for srt cfg where
  start: "sched_reach srt cfg {Quiet} Idle new_sched"
| step: "sched_reach srt cfg L ph s \<Longrightarrow> sched_step srt cfg l ph s ph' s' \<Longrightarrow> sched_reach srt cfg (insert l L) ph' s'"

inductive_cases sched_stepE: "sched_step srt cfg l ph s ph' s'"

text \<open>The invariant of the reachable states.\<close>

definition item_ok :: "int \<Rightarrow> queue_item \<Rightarrow> bool" where
  "item_ok next it \<longleftrightarrow> 1 \<le> qi_cpuCores it \<and> 1 \<le> qi_ramGB it \<and>
     (\<exists>n t. n < next \<and> qi_id it = numbered_id ''req_'' n t)"

definition sched_inv :: "label set \<Rightarrow> sched \<Rightarrow> bool" where
  "sched_inv L s \<longleftrightarrow> hosts_ok (ss_hosts s) \<and> balanced L (ss_hosts s) (ss_allocations s) \<and>
     distinct (map qi_id (ss_queue s)) \<and> (\<forall>it \<in> set (ss_queue s). item_ok (ss_nextID s) it) \<and>
     (\<forall>i \<in> dom (ss_allocations s). \<exists>it \<in> set (ss_queue s). qi_id it = i \<and> qi_status it \<noteq> ''queued'')"

fun phase_ok :: "phase \<Rightarrow> sched \<Rightarrow> bool" where
  "phase_ok (Placing hs i) s = (set hs \<subseteq> dom (ss_hosts s) \<and> i \<le> length (ss_queue s))"
| "phase_ok ph s = True"

lemma sched_inv_new [simp]: "sched_inv L new_sched"
  by (simp add: sched_inv_def new_sched_def balanced_def)

lemma available_dom: "set (hm_GetAvailable ks now m) \<subseteq> dom m"
  by (auto simp: hm_GetAvailable_def split: option.splits)

lemma queued_free:
  assumes "sched_inv L s" "it \<in> set (ss_queue s)" "qi_status it = ''queued''"
  shows "ss_allocations s (qi_id it) = None"
proof (rule ccontr)
  assume "ss_allocations s (qi_id it) \<noteq> None"
  then have "qi_id it \<in> dom (ss_allocations s)" by auto
  then obtain it' where "it' \<in> set (ss_queue s)" "qi_id it' = qi_id it" "qi_status it' \<noteq> ''queued''"
    using assms(1) by (auto simp: sched_inv_def)
  with assms show False by (auto simp: sched_inv_def distinct_map dest: inj_onD)
qed

lemma item_ok_mono: "item_ok n it \<Longrightarrow> n \<le> n' \<Longrightarrow> item_ok n' it"
  by (force simp: item_ok_def)

lemma item_step_ok: "item_step it it' \<Longrightarrow> item_ok n it \<Longrightarrow> item_ok n it'"
  using item_step_fields [of it it'] by (simp add: item_ok_def)

lemma fresh_id: "item_ok n it \<Longrightarrow> qi_id it \<noteq> numbered_id ''req_'' n t"
  using numbered_id_inj by (fastforce simp: item_ok_def)

lemma enqueue_inv:
  assumes inv: "sched_inv L s"
  shows "sched_inv L (snd (enqueue cfg now req s))"
proof -
  have "sched_inv L (s\<lparr>ss_queue := ss_queue s @ [new_item now (numbered_id ''req_'' (ss_nextID s) now) pos r],
      ss_nextID := ss_nextID s + 1\<rparr>)" for pos r
  proof -
    let ?it = "new_item now (numbered_id ''req_'' (ss_nextID s) now) pos r"
    have id: "qi_id ?it = numbered_id ''req_'' (ss_nextID s) now" by (simp add: new_item_def)
    have "1 \<le> qi_cpuCores ?it" "1 \<le> qi_ramGB ?it" by (auto simp: new_item_def)
    with id have new: "item_ok (ss_nextID s + 1) ?it"
      unfolding item_ok_def by (intro conjI exI [of _ "ss_nextID s"] exI [of _ now]) auto
    have old: "item_ok (ss_nextID s) it" if "it \<in> set (ss_queue s)" for it
      using inv that by (simp add: sched_inv_def)
    have "qi_id ?it \<notin> qi_id ` set (ss_queue s)"
      using fresh_id [OF old] id by (metis imageE)
    moreover have "item_ok (ss_nextID s + 1) it" if "it \<in> set (ss_queue s)" for it
      using old [OF that] by (rule item_ok_mono) simp
    ultimately show ?thesis
      using inv new unfolding sched_inv_def by auto
  qed
  with inv show ?thesis by (auto simp: enqueue_def Let_def split: option.split)
qed

lemma dequeue_inv:
  assumes inv: "sched_inv L s"
  shows "sched_inv L (snd (dequeue ident s))"
proof (cases "\<exists>it \<in> set (ss_queue s). qi_id it = ident")
  case False
  with inv show ?thesis by (simp add: dequeue_def)
next
  case True
  let ?q = "remove_first (\<lambda>it. qi_id it = ident) (ss_queue s)"
  have d: "distinct (map qi_id (ss_queue s))" using inv by (simp add: sched_inv_def)
  have q: "set ?q = {it \<in> set (ss_queue s). qi_id it \<noteq> ident}"
    using d by (rule set_remove_first_key)
  have dq: "distinct (map qi_id ?q)" using d by (rule distinct_map_remove_first)
  show ?thesis
  proof (cases "ss_allocations s ident")
    case None
    with True inv q dq show ?thesis
      by (auto simp: dequeue_def Let_def sched_inv_def) (metis (no_types, lifting) domIff mem_Collect_eq domI)
  next
    case (Some a)
    have "hosts_ok (ss_hosts s)" "balanced L (ss_hosts s) (ss_allocations s)"
      using inv by (simp_all add: sched_inv_def)
    note release_balanced [OF this Some]
    with True Some inv q dq show ?thesis
      by (auto simp: dequeue_def Let_def sched_inv_def) blast
  qed
qed

lemma scheduleCycle_cases:
  assumes srt: "slice_sorter srt" and inv: "sched_inv L s"
  obtains (idle) "scheduleCycle srt cfg now ks as s = (s, Done)"
      "ss_queue s = [] \<or> hm_GetAvailable ks now (ss_hosts s) = []"
  | (ran) q m1 al1 m al e where
      "scheduleCycle srt cfg now ks as s = (s\<lparr>ss_queue := q, ss_hosts := m, ss_allocations := al\<rparr>, e)"
      "list_all2 item_step (ss_queue s) q" "hosts_ok m" "balanced L m al" "dom m = dom (ss_hosts s)"
      "\<forall>i. al1 i = ss_allocations s i \<or> (\<exists>it \<in> set q. qi_id it = i \<and> qi_status it = ''allocated'')"
      "\<forall>i. al i = al1 i \<or> al i = None"
      "\<forall>k h. m1 k = Some h \<longrightarrow> ss_hosts s k = Some h \<or> in_capacity h"
      "hosts_ok m1" "balanced L m1 al1"
      "m = m1 \<and> al = al1 \<or> cleanupExpired as now m1 al1 = (m, al, e)"
proof (cases "ss_queue s = [] \<or> hm_GetAvailable ks now (ss_hosts s) = []")
  case True
  then have "scheduleCycle srt cfg now ks as s = (s, Done)" by (auto simp: scheduleCycle_def Let_def)
  with True show thesis using idle by simp
next
  case False
  let ?hs = "hm_GetAvailable ks now (ss_hosts s)"
  obtain q m1 al1 e1 where it: "schedule_items srt (defaultTTL cfg) now ?hs (ss_queue s) (ss_hosts s)
      (ss_allocations s) = (q, m1, al1, e1)"
    by (cases "schedule_items srt (defaultTTL cfg) now ?hs (ss_queue s) (ss_hosts s) (ss_allocations s)")
  have "\<forall>it \<in> set (ss_queue s). qi_status it = ''queued'' \<longrightarrow> ss_allocations s (qi_id it) = None"
    using queued_free [OF inv] by blast
  with schedule_items_ok [OF srt _ _ available_dom _ _ _ it, of L] inv
  have ok: "hosts_ok m1 \<and> balanced L m1 al1 \<and> dom m1 = dom (ss_hosts s) \<and> list_all2 item_step (ss_queue s) q \<and>
    (\<forall>i. al1 i = ss_allocations s i \<or> (\<exists>it \<in> set q. qi_id it = i \<and> qi_status it = ''allocated'')) \<and>
    (\<forall>k h'. m1 k = Some h' \<longrightarrow> ss_hosts s k = Some h' \<or> in_capacity h')"
    by (simp add: sched_inv_def item_ok_def)
  show thesis
  proof (cases e1)
    case Panicked
    with ok it False show thesis
      by (intro ran [where q = q and m = m1 and al = al1 and e = Panicked and ?m1.0 = m1 and ?al1.0 = al1]) (auto simp: scheduleCycle_def Let_def)
  next
    case Done
    obtain m al e where cl: "cleanupExpired as now m1 al1 = (m, al, e)"
      by (cases "cleanupExpired as now m1 al1")
    have c: "hosts_ok m" "balanced L m al" "dom m = dom (ss_hosts s)" "\<forall>i. al i = al1 i \<or> al i = None"
      using cleanupExpired_ok [OF _ _ cl, of L] ok by simp_all
    with ok Done it cl False show thesis
      by (intro ran [where q = q and m = m and al = al and e = e and ?m1.0 = m1 and ?al1.0 = al1]) (auto simp: scheduleCycle_def Let_def)
  qed
qed

lemma scheduleCycle_inv:
  assumes srt: "slice_sorter srt" and inv: "sched_inv L s"
  shows "sched_inv L (fst (scheduleCycle srt cfg now ks as s))"
  using srt inv
proof (cases rule: scheduleCycle_cases [of srt L s cfg now ks as])
  case (ran q m1 al1 m al e)
  have items: "map qi_id q = map qi_id (ss_queue s)" using ran(2) by (rule item_steps_map)
  have ok: "\<forall>it \<in> set q. item_ok (ss_nextID s) it"
  proof
    fix it assume "it \<in> set q"
    then obtain it0 where "it0 \<in> set (ss_queue s)" "item_step it0 it"
      using list_all2_right [OF ran(2)] by auto
    with inv show "item_ok (ss_nextID s) it" by (auto simp: sched_inv_def intro: item_step_ok)
  qed
  have placed: "\<exists>it \<in> set q. qi_id it = i \<and> qi_status it \<noteq> ''queued''" if i: "i \<in> dom al" for i
  proof -
    from i ran(7) have "i \<in> dom al1" by (metis domIff)
    with ran(6) consider "i \<in> dom (ss_allocations s)" | "\<exists>it \<in> set q. qi_id it = i \<and> qi_status it = ''allocated''"
      by (metis domIff)
    then show ?thesis
    proof cases
      case 1
      then obtain it0 where it0: "it0 \<in> set (ss_queue s)" "qi_id it0 = i" "qi_status it0 \<noteq> ''queued''"
        using inv by (auto simp: sched_inv_def)
      then obtain it where "it \<in> set q" "item_step it0 it"
        using list_all2_left [OF ran(2)] by auto
      with it0 show ?thesis by (auto simp: item_step_def)
    qed auto
  qed
  with ran inv items ok show ?thesis by (simp add: sched_inv_def)
qed (use inv in simp)

lemma HandleRegister_state:
  "snd (HandleRegister now POST (Some h) m) = m \<or>
   snd (HandleRegister now POST (Some h) m) =
     m(h_id h \<mapsto> h\<lparr>h_online := True, h_lastHeartbeat := now, h_createdAt := now\<rparr>)"
  by (auto simp: HandleRegister_def hm_Register_def Let_def)

lemma register_books:
  assumes "balanced L (ss_hosts s) (ss_allocations s)"
  shows "balanced (insert (register_label h s) L) ((ss_hosts s)(h_id h \<mapsto> h\<lparr>h_online := True, h_lastHeartbeat := now, h_createdAt := now\<rparr>))
    (ss_allocations s)"
proof (rule balancedI)
  let ?h = "h\<lparr>h_online := True, h_lastHeartbeat := now, h_createdAt := now\<rparr>" and ?L = "insert (register_label h s) L"
  show "finite (dom (ss_allocations s))" using assms by (rule balancedD)
  show "amount (al_cpuCores a) \<and> amount (al_ramGB a) \<and> al_hostId a \<in> dom ((ss_hosts s)(h_id h \<mapsto> ?h))"
    if "ss_allocations s i = Some a" for i a
    using balancedD(2) [OF assms that] by auto
  fix k g assume g: "((ss_hosts s)(h_id h \<mapsto> ?h)) k = Some g"
  show "books ?L (ss_allocations s) k g"
  proof (cases "k = h_id h")
    case False
    with g have "books L (ss_allocations s) k g" using balancedD(3) [OF assms] by simp
    then show ?thesis by (rule books_mono) blast
  next
    case True
    have "load_of f (ss_allocations s) (h_id h) = 0" if "h_id h \<notin> al_hostId ` ran (ss_allocations s)" for f
      using that by (force simp: load_of_def ran_def intro!: sum.neutral)
    moreover have "0 \<le> load_of al_cpuCores (ss_allocations s) k" "0 \<le> load_of al_ramGB (ss_allocations s) k"
      using balancedD(2) [OF assms] by (auto intro!: load_of_nonneg simp: amount_def)
    ultimately show ?thesis using True g by (auto simp: books_def register_label_def)
  qed
qed

lemma place_step_inv:
  assumes srt: "slice_sorter srt" and inv: "sched_inv L s" and i: "i < length (ss_queue s)" and v: "hosts_ok view"
    and hs: "set hs \<subseteq> dom (ss_hosts s)"
    and run: "place_item srt ttl now hs view (ss_queue s ! i) (ss_hosts s) (ss_allocations s) = (item, m, al, e)"
  shows "sched_inv (insert (place_label (ss_queue s ! i) item (ss_hosts s)) L)
    (s\<lparr>ss_queue := (ss_queue s)[i := item], ss_hosts := m, ss_allocations := al\<rparr>)" and "dom m = dom (ss_hosts s)"
    and "item_step (ss_queue s ! i) item"
proof -
  have it: "ss_queue s ! i \<in> set (ss_queue s)" using i by simp
  have ok: "hosts_ok (ss_hosts s)" "balanced L (ss_hosts s) (ss_allocations s)" "item_ok (ss_nextID s) (ss_queue s ! i)"
    using inv it by (auto simp: sched_inv_def)
  have req: "1 \<le> qi_cpuCores (ss_queue s ! i)" "1 \<le> qi_ramGB (ss_queue s ! i)" using ok(3) by (auto simp: item_ok_def)
  note placed = place_item_ok [OF srt ok(1) v ok(2) hs req queued_free [OF inv it] run]
  show "dom m = dom (ss_hosts s)" "item_step (ss_queue s ! i) item" using placed by auto
  let ?q = "(ss_queue s)[i := item]"
  have id: "qi_id item = qi_id (ss_queue s ! i)" using item_step_fields [OF placed(4)] by simp
  then have "map qi_id ?q = map qi_id (ss_queue s)" by (simp add: map_update list_update_same_conv i)
  moreover have "item_ok (ss_nextID s) it" if "it \<in> set ?q" for it
    using that inv item_step_ok [OF placed(4) ok(3)] set_update_subset_insert [of "ss_queue s" i item] by (auto simp: sched_inv_def)
  moreover have "\<exists>it \<in> set ?q. qi_id it = j \<and> qi_status it \<noteq> ''queued''" if "j \<in> dom al" for j
  proof (cases "al j = ss_allocations s j")
    case False
    then have "qi_id item = j" "qi_status item = ''allocated''" using placed(5) [of j] by auto
    then show ?thesis using set_update_memI [OF i, of item] by force
  next
    case True
    with that have "j \<in> dom (ss_allocations s)" by (simp add: dom_def)
    then obtain it where it: "it \<in> set (ss_queue s)" "qi_id it = j" "qi_status it \<noteq> ''queued''"
      using inv by (auto simp: sched_inv_def)
    then obtain n where n: "n < length (ss_queue s)" "it = ss_queue s ! n" by (metis in_set_conv_nth)
    show ?thesis
    proof (cases "n = i")
      case True
      with it n placed(4) have "item = it" by (auto simp: item_step_def)
      with it set_update_memI [OF i, of item] show ?thesis by blast
    next
      case False
      then have "?q ! n = it" "n < length ?q" using n by simp_all
      with it show ?thesis by (metis nth_mem)
    qed
  qed
  ultimately show "sched_inv (insert (place_label (ss_queue s ! i) item (ss_hosts s)) L)
    (s\<lparr>ss_queue := ?q, ss_hosts := m, ss_allocations := al\<rparr>)"
    using inv placed(1,2) by (simp add: sched_inv_def)
qed

lemma sched_inv_hosts:
  "sched_inv L s \<Longrightarrow> hosts_ok m \<Longrightarrow> balanced L' m (ss_allocations s) \<Longrightarrow> sched_inv L' (s\<lparr>ss_hosts := m\<rparr>)"
  by (simp add: sched_inv_def)

lemma phase_ok_hosts: "phase_ok ph s \<Longrightarrow> dom (ss_hosts s) \<subseteq> dom m \<Longrightarrow> phase_ok ph (s\<lparr>ss_hosts := m\<rparr>)"
  by (cases ph) (simp_all, blast)

lemma sched_inv_Quiet [simp]: "sched_inv (insert Quiet L) s = sched_inv L s"
  by (simp add: sched_inv_def)

lemma heartbeat_state:
  "snd (HandleHeartbeat now meth req m) = m \<or>
   (\<exists>k h metrics. m k = Some h \<and> snd (HandleHeartbeat now meth req m) = m(k \<mapsto> hm_beat now metrics h))"
  by (cases req) (auto simp: HandleHeartbeat_def hm_Heartbeat_def split: option.split prod.split bool.split)

lemma sched_step_inv:
  assumes srt: "slice_sorter srt"
  shows "sched_step srt cfg l ph s ph' s' \<Longrightarrow> sched_inv L s \<Longrightarrow> phase_ok ph s \<Longrightarrow> sched_inv (insert l L) s' \<and> phase_ok ph' s'"
proof (induction rule: sched_step.induct)
  case (register h s ph now)
  let ?m = "(ss_hosts s)(h_id h \<mapsto> h\<lparr>h_online := True, h_lastHeartbeat := now, h_createdAt := now\<rparr>)"
  have bal: "balanced L (ss_hosts s) (ss_allocations s)" using register(2) by (simp add: sched_inv_def)
  have "hosts_ok ?m" using register by (auto simp: sched_inv_def host_ok_def intro!: hosts_ok_upd)
  then have "sched_inv (insert (register_label h s) L) (s\<lparr>ss_hosts := ?m\<rparr>)"
    using register(2) register_books [OF bal] by (intro sched_inv_hosts)
  moreover have "sched_inv (insert (register_label h s) L) (s\<lparr>ss_hosts := ss_hosts s\<rparr>)"
    using register(2) balanced_mono [OF bal] by (intro sched_inv_hosts) (auto simp: sched_inv_def)
  moreover have "phase_ok ph (s\<lparr>ss_hosts := ?m\<rparr>)" "phase_ok ph (s\<lparr>ss_hosts := ss_hosts s\<rparr>)"
    using register(3) by (auto intro!: phase_ok_hosts)
  ultimately show ?case using HandleRegister_state [of now h "ss_hosts s"] by auto
next
  case (heartbeat ph s now meth req)
  from heartbeat_state [of now meth req "ss_hosts s"] show ?case
  proof (elim disjE exE conjE)
    fix k h metrics assume h: "ss_hosts s k = Some h"
      "snd (HandleHeartbeat now meth req (ss_hosts s)) = (ss_hosts s)(k \<mapsto> hm_beat now metrics h)"
    have "hosts_ok ((ss_hosts s)(k \<mapsto> hm_beat now metrics h))" "balanced L ((ss_hosts s)(k \<mapsto> hm_beat now metrics h)) (ss_allocations s)"
      using heartbeat(1) hosts_okD [of "ss_hosts s" k h] h(1)
      by (auto simp: sched_inv_def host_ok_beat intro!: hosts_ok_upd balanced_upd)
    with heartbeat h show ?thesis by (auto intro!: sched_inv_hosts phase_ok_hosts)
  qed (use heartbeat in simp)
next
  case (offline ph s k)
  have "hosts_ok (fst (hm_MarkOffline k (ss_hosts s)))" "balanced L (fst (hm_MarkOffline k (ss_hosts s))) (ss_allocations s)"
    "dom (ss_hosts s) \<subseteq> dom (fst (hm_MarkOffline k (ss_hosts s)))"
    using offline(1) by (auto simp: sched_inv_def hm_MarkOffline_ok) (auto simp: hm_MarkOffline_def balanced_upd split: option.splits)
  with offline show ?case by (auto intro!: sched_inv_hosts phase_ok_hosts)
next
  case (queue s now meth req)
  then show ?case by (simp add: HandleQueue_def enqueue_inv)
next
  case (queue_item s meth path)
  then show ?case by (simp add: HandleQueueItem_def Let_def dequeue_inv)
next
  case (cycle_begin s ks now hs)
  then show ?case using available_dom [of ks now "ss_hosts s"] by simp
next
  case (cycle_place i s view now hs item m al e)
  from place_step_inv [OF srt cycle_place(4,1,2) _ cycle_place(3)] cycle_place(1,5) show ?case by simp
next
  case (cycle_clean k now s m al e ks)
  have "hosts_ok (ss_hosts s)" "balanced L (ss_hosts s) (ss_allocations s)" using cycle_clean(2) by (auto simp: sched_inv_def)
  note ok = clean_item_ok [OF this cycle_clean(1)]
  have "\<exists>it \<in> set (ss_queue s). qi_id it = i \<and> qi_status it \<noteq> ''queued''" if "i \<in> dom al" for i
    using that ok(4) [of i] cycle_clean(2) by (auto simp: sched_inv_def)
  with cycle_clean(2) ok(1,2) show ?case by (auto simp: sched_inv_def)
qed simp_all

lemma sched_reach_inv:
  assumes srt: "slice_sorter srt"
  shows "sched_reach srt cfg L ph s \<Longrightarrow> sched_inv L s \<and> phase_ok ph s"
  by (induction rule: sched_reach.induct) (auto dest: sched_step_inv [OF srt])

section \<open>A cycle without interruption\<close>

text \<open>The steps of a cycle in which nothing else happens are the function \<open>scheduleCycle\<close>.\<close>

lemma reach_Quiet: "sched_reach srt cfg L ph s \<Longrightarrow> Quiet \<in> L"
  by (induction rule: sched_reach.induct) auto

lemma reach_quiet_step:
  "sched_reach srt cfg L ph s \<Longrightarrow> sched_step srt cfg Quiet ph s ph' s' \<Longrightarrow> sched_reach srt cfg L ph' s'"
  using sched_reach.step [of srt cfg L ph s Quiet ph' s'] reach_Quiet [of srt cfg L ph s] by (simp add: insert_absorb)

lemma placing_run:
  assumes srt: "slice_sorter srt"
  shows "sched_reach srt cfg L (Placing hs (length pre)) s \<Longrightarrow> ss_queue s = pre @ items \<Longrightarrow>
    schedule_items srt (defaultTTL cfg) now hs items (ss_hosts s) (ss_allocations s) = (q, m, al, e) \<Longrightarrow>
    sched_reach srt cfg L (case e of Panicked \<Rightarrow> Idle | Done \<Rightarrow> Placing hs (length (pre @ q)))
      (s\<lparr>ss_queue := pre @ q, ss_hosts := m, ss_allocations := al\<rparr>)"
proof (induction items arbitrary: pre s q m al)
  case Nil
  then have "s\<lparr>ss_queue := pre, ss_hosts := m, ss_allocations := al\<rparr> = s" by (cases s) simp
  with Nil show ?case by auto
next
  case (Cons item rest)
  obtain item1 m1 al1 e1 where p: "place_item srt (defaultTTL cfg) now hs (ss_hosts s) item (ss_hosts s) (ss_allocations s) = (item1, m1, al1, e1)"
    by (cases "place_item srt (defaultTTL cfg) now hs (ss_hosts s) item (ss_hosts s) (ss_allocations s)")
  let ?s = "s\<lparr>ss_queue := (pre @ [item1]) @ rest, ss_hosts := m1, ss_allocations := al1\<rparr>"
  have inv: "sched_inv L s" "set hs \<subseteq> dom (ss_hosts s)" using sched_reach_inv [OF srt Cons.prems(1)] by auto
  have at: "ss_queue s ! length pre = item" "length pre < length (ss_queue s)" by (simp_all add: Cons.prems(2))
  have it: "item \<in> set (ss_queue s)" by (simp add: Cons.prems(2))
  have ok: "hosts_ok (ss_hosts s)" "balanced L (ss_hosts s) (ss_allocations s)" "item_ok (ss_nextID s) item"
    using inv(1) it by (auto simp: sched_inv_def)
  have req: "1 \<le> qi_cpuCores item" "1 \<le> qi_ramGB item" using ok(3) by (auto simp: item_ok_def)
  have "place_label item item1 (ss_hosts s) = Quiet"
    using place_item_ok(7) [OF srt ok(1,1,2) inv(2) req queued_free [OF inv(1) it] p] by simp
  then have step: "sched_step srt cfg Quiet (Placing hs (length pre)) s (if e1 = Panicked then Idle else Placing hs (length pre + 1)) ?s"
    using sched_step.cycle_place [OF at(2) ok(1), of srt cfg now hs item1 m1 al1 e1] p by (simp add: at(1) Cons.prems(2))
  note reach1 = reach_quiet_step [OF Cons.prems(1) step]
  show ?case
  proof (cases e1)
    case Panicked
    with p Cons.prems(3) have "q = item1 # rest" "m = m1" "al = al1" "e = Panicked" by auto
    with reach1 Panicked show ?thesis by simp
  next
    case Done
    with p Cons.prems(3) obtain q1 where q1: "schedule_items srt (defaultTTL cfg) now hs rest m1 al1 = (q1, m, al, e)" "q = item1 # q1"
      by (auto split: prod.splits)
    from Cons.IH [of "pre @ [item1]" ?s q1 m al] reach1 Done q1 show ?thesis by (cases e) simp_all
  qed
qed

lemma cleaning_run:
  "sched_reach srt cfg L (Cleaning now ks) s \<Longrightarrow> cleanupExpired ks now (ss_hosts s) (ss_allocations s) = (m, al, e) \<Longrightarrow>
    sched_reach srt cfg L Idle (s\<lparr>ss_hosts := m, ss_allocations := al\<rparr>)"
proof (induction ks arbitrary: s)
  case Nil
  then have "s\<lparr>ss_hosts := m, ss_allocations := al\<rparr> = s" by simp
  with reach_quiet_step [OF Nil(1) sched_step.cycle_end] show ?case by simp
next
  case (Cons k ks)
  obtain m1 al1 e1 where c: "clean_item k now (ss_hosts s) (ss_allocations s) = (m1, al1, e1)"
    by (cases "clean_item k now (ss_hosts s) (ss_allocations s)")
  note reach1 = reach_quiet_step [OF Cons.prems(1) sched_step.cycle_clean [OF c]]
  show ?case
  proof (cases e1)
    case Panicked
    with c Cons.prems(2) reach1 show ?thesis by simp
  next
    case Done
    with c Cons.prems(2) Cons.IH [of "s\<lparr>ss_hosts := m1, ss_allocations := al1\<rparr>"] reach1 show ?thesis by simp
  qed
qed

lemma cycle_run:
  assumes srt: "slice_sorter srt" and reach: "sched_reach srt cfg L Idle s"
  shows "sched_reach srt cfg L Idle (fst (scheduleCycle srt cfg now ks as s))"
proof (cases "ss_queue s = [] \<or> hm_GetAvailable ks now (ss_hosts s) = []")
  case True
  then have "scheduleCycle srt cfg now ks as s = (s, Done)" by (auto simp: scheduleCycle_def Let_def)
  with reach show ?thesis by simp
next
  case False
  let ?hs = "hm_GetAvailable ks now (ss_hosts s)"
  obtain q m al e where it: "schedule_items srt (defaultTTL cfg) now ?hs (ss_queue s) (ss_hosts s) (ss_allocations s) = (q, m, al, e)"
    by (cases "schedule_items srt (defaultTTL cfg) now ?hs (ss_queue s) (ss_hosts s) (ss_allocations s)")
  let ?s = "s\<lparr>ss_queue := q, ss_hosts := m, ss_allocations := al\<rparr>"
  have "sched_reach srt cfg L (Placing ?hs (length ([] :: queue_item list))) s"
    using reach_quiet_step [OF reach sched_step.cycle_begin] False by simp
  from placing_run [OF srt this _ it] have r: "sched_reach srt cfg L (case e of Panicked \<Rightarrow> Idle | Done \<Rightarrow> Placing ?hs (length q)) ?s"
    by (cases e) simp_all
  show ?thesis
  proof (cases e)
    case Panicked
    with r it False show ?thesis by (auto simp: scheduleCycle_def Let_def)
  next
    case Done
    obtain m' al' e' where cl: "cleanupExpired as now m al = (m', al', e')" by (cases "cleanupExpired as now m al")
    have "sched_reach srt cfg L (Cleaning now as) ?s"
      using reach_quiet_step [OF _ sched_step.cycle_cleanup] r Done by simp
    from cleaning_run [OF this] cl Done it False show ?thesis by (auto simp: scheduleCycle_def Let_def)
  qed
qed

section \<open>The items and the length of the queue\<close>

lemma cycle_items:
  assumes "slice_sorter srt" "sched_inv L s"
  shows "list_all2 item_step (ss_queue s) (ss_queue (fst (scheduleCycle srt cfg now ks as s)))"
  using assms
  by (cases rule: scheduleCycle_cases [of srt L s cfg now ks as]) (simp_all add: list_all2_same)

lemma length_enqueue:
  "length (ss_queue (snd (enqueue cfg now req s))) \<le> max (length (ss_queue s)) (nat (maxQueueSize cfg))"
  by (auto simp: enqueue_def Let_def split: option.split)

lemma length_dequeue: "length (ss_queue (snd (dequeue ident s))) \<le> length (ss_queue s)"
  by (auto simp: dequeue_def Let_def length_remove_first split: option.split)

lemma sched_step_length:
  "sched_step srt cfg l ph s ph' s' \<Longrightarrow> length (ss_queue s') \<le> max (length (ss_queue s)) (nat (maxQueueSize cfg))"
proof (induction rule: sched_step.induct)
  case (queue s now meth req)
  then show ?case using length_enqueue by (simp add: HandleQueue_def)
next
  case (queue_item s meth path)
  then show ?case using length_dequeue [of "drop (length ''/api/queue/'') path" s]
    by (auto simp: HandleQueueItem_def Let_def)
qed simp_all

lemma bearer_length: "length ''Bearer '' = 7"
  by simp

section \<open>Properties\<close>

text \<open>
  A small run used by the witnesses: one host registers, one request is queued, one cycle runs.
\<close>

definition ex_host :: "string \<Rightarrow> host" where
  "ex_host i = \<lparr>h_id = i, h_name = ''n'', h_region = ''eu'', h_cpuCores = 2, h_ramGB = 8,
     h_gpuVramGB = 0, h_gpuModel = '''', h_driverVersion = '''', h_encoderSupport = [],
     h_uplinkMbps = 0, h_latencyMs = 0, h_uptimeHours = 0, h_online = True,
     h_allocatedCPUCores = 0, h_allocatedRAMGB = 0, h_allocatedGPUVram = 0, h_lastHeartbeat = 0,
     h_capabilities = [], h_createdAt = 0\<rparr>"

definition ex_cfg :: sched_config where
  "ex_cfg = \<lparr>scheduleInterval = 5 * second, maxQueueSize = 10, defaultTTL = 30, authToken = ''t''\<rparr>"

definition ex_req :: enqueue_req where
  "ex_req = \<lparr>rq_userId = ''u'', rq_sessionType = ''desktop'', rq_resourceClass = '''', rq_priority = 0,
     rq_cpuCores = 2, rq_ramGB = 4, rq_gpuRequired = False, rq_gpuVramGB = 0, rq_latencyBudgetMs = 0\<rparr>"

definition ex_registered :: "string \<Rightarrow> sched" where
  "ex_registered i = new_sched\<lparr>ss_hosts := snd (HandleRegister 1000 POST (Some (ex_host i)) (ss_hosts new_sched))\<rparr>"

definition ex_queued :: "string \<Rightarrow> sched" where
  "ex_queued i = snd (HandleQueue ex_cfg 2000 POST (Some ex_req) (ex_registered i))"

definition ex_placed :: sched where
  "ex_placed = fst (scheduleCycle sort_slice ex_cfg 3000 [''host-001''] [] (ex_queued ''host-001''))"

lemma ex_queued_reach: "sched_reach srt ex_cfg {Quiet} Idle (ex_queued i)"
proof -
  have "register_label (ex_host i) new_sched = Quiet" by (simp add: register_label_def ex_host_def new_sched_def)
  moreover have "sched_step srt ex_cfg (register_label (ex_host i) new_sched) Idle new_sched Idle (ex_registered i)"
    unfolding ex_registered_def by (rule sched_step.register) (simp add: ex_host_def host_ok_def amount_def)
  ultimately have "sched_reach srt ex_cfg {Quiet} Idle (ex_registered i)"
    using reach_quiet_step [OF sched_reach.start] by simp
  from reach_quiet_step [OF this sched_step.queue] show ?thesis unfolding ex_queued_def .
qed

lemma ex_placed_reach: "sched_reach sort_slice ex_cfg {Quiet} Idle ex_placed"
  unfolding ex_placed_def by (rule cycle_run [OF insertion.slice_sorter_axioms ex_queued_reach])

lemma ex_placed_host: "map_option h_allocatedCPUCores (ss_hosts ex_placed ''host-001'') = Some 2"
  by code_simp

lemma ex_placed_alloc:
  "map_option al_expiresAt (ss_allocations ex_placed (numbered_id ''req_'' 1 2000)) = Some 3030"
  by code_simp

text \<open>
  C1: The books of the hosts, under every interleaving. In every state of the service, also in the middle of a
  cycle, whatever requests, heartbeats, registrations, removals, cycles and expiries came before and wherever
  they interrupted cycles: the allocated cores and memory of a host that never declared anything allocated when it
  registered are not negative and at most the sums over its live allocations. They are exactly these sums unless the
  host lost a part of them, which happens in two ways only: it refused an allocation that the cycle records all the
  same (a heartbeat or a registration came after the ranking had read the host), or it registered again while it
  had allocations. The numbers with which hosts register are between 0 and \<open>2 ^ 62\<close>.
\<close>

theorem sched_accounting:
  assumes "slice_sorter srt" "sched_reach srt cfg L ph s" "ss_hosts s k = Some h" "Declared k \<notin> L"
  shows "0 \<le> h_allocatedCPUCores h \<and> h_allocatedCPUCores h \<le> load_of al_cpuCores (ss_allocations s) k
    \<and> 0 \<le> h_allocatedRAMGB h \<and> h_allocatedRAMGB h \<le> load_of al_ramGB (ss_allocations s) k
    \<and> (Lost k \<notin> L \<longrightarrow> h_allocatedCPUCores h = load_of al_cpuCores (ss_allocations s) k
                       \<and> h_allocatedRAMGB h = load_of al_ramGB (ss_allocations s) k)"
proof -
  have inv: "hosts_ok (ss_hosts s)" "balanced L (ss_hosts s) (ss_allocations s)"
    using sched_reach_inv [OF assms(1,2)] by (simp_all add: sched_inv_def)
  from balancedD(3) [OF inv(2) assms(3)] hosts_okD [OF inv(1) assms(3)] assms(4)
  show ?thesis by (auto simp: books_def host_ok_def amount_def)
qed

theorem sched_accounting_witness: "load_of al_cpuCores (ss_allocations ex_placed) ''host-001'' = 2"
proof -
  obtain h where h: "ss_hosts ex_placed ''host-001'' = Some h" "h_allocatedCPUCores h = 2"
    using ex_placed_host by auto
  from sched_accounting [OF insertion.slice_sorter_axioms ex_placed_reach h(1)] h(2)
  show ?thesis by simp
qed

text \<open>
  The books do get lost: a host of two cores that a heartbeat cuts down to one, between the ranking and the
  allocation, refuses the item, which is recorded as allocated on it.
\<close>

theorem sched_heartbeat_mid_cycle_loses:
  "\<exists>L s h a. sched_reach sort_slice ex_cfg L Idle s \<and> ss_hosts s ''host-001'' = Some h \<and> h_allocatedCPUCores h = 0 \<and>
     ss_allocations s (numbered_id ''req_'' 1 2000) = Some a \<and> al_hostId a = ''host-001'' \<and> al_cpuCores a = 2"
proof -
  let ?q = "ex_queued ''host-001''" and ?beat = "(''host-001'', [''cpuCores'' \<mapsto> JNum 1])"
  let ?s = "?q\<lparr>ss_hosts := snd (HandleHeartbeat 2500 POST (Some ?beat) (ss_hosts ?q))\<rparr>"
  have ok: "hosts_ok (ss_hosts ?q)"
    using sched_reach_inv [OF insertion.slice_sorter_axioms ex_queued_reach] by (simp add: sched_inv_def)
  have "ss_queue ?q \<noteq> []" "hm_GetAvailable [''host-001''] 2500 (ss_hosts ?q) = [''host-001'']" by code_simp+
  from reach_quiet_step [OF ex_queued_reach sched_step.cycle_begin [OF this]]
  have "sched_reach sort_slice ex_cfg {Quiet} (Placing [''host-001''] 0) ?q" by simp
  from reach_quiet_step [OF this sched_step.heartbeat]
  have r: "sched_reach sort_slice ex_cfg {Quiet} (Placing [''host-001''] 0) ?s" .
  have q: "rankHosts sort_slice (ss_hosts ?q) (ss_queue ?q ! 0) [''host-001''] = [''host-001'']"
    "qi_status (ss_queue ?q ! 0) = ''queued''" "qi_cpuCores (ss_queue ?q ! 0) = 2" "length (ss_queue ?q) = 1"
    "qi_id (ss_queue ?q ! 0) = numbered_id ''req_'' 1 2000" "slice_to (numbered_id ''req_'' 1 2000) 8 \<noteq> None"
    "slice_to ''host-001'' 8 \<noteq> None" "map_option h_cpuCores (ss_hosts ?q ''host-001'') = Some 2"
    "map_option h_allocatedCPUCores (ss_hosts ?q ''host-001'') = Some 0" "int_of_float 1 = 1"
    by code_simp+
  then obtain h where h: "ss_hosts ?q ''host-001'' = Some h" "h_cpuCores h = 2" "h_allocatedCPUCores h = 0" by auto
  let ?h = "hm_beat 2500 [''cpuCores'' \<mapsto> JNum 1] h"
  have cores: "h_cpuCores ?h = 1" by (simp add: hm_beat_capacity metric_def h q(10))
  have s: "ss_hosts ?s ''host-001'' = Some ?h" by (simp add: HandleHeartbeat_def hm_Heartbeat_def h)
  have wrap: "wrap64 2 = 2" by code_simp
  let ?p = "place_item sort_slice (defaultTTL ex_cfg) 2500 [''host-001''] (ss_hosts ?q) (ss_queue ?s ! 0) (ss_hosts ?s) (ss_allocations ?s)"
  have refused: "hm_Allocate ''host-001'' 2 ram (ss_hosts ?s) = (False, ss_hosts ?s)" for ram
    unfolding hm_Allocate_def s by (simp add: cores h(3) wrap)
  have v: "fst (snd ?p) = ss_hosts ?s" "snd (snd (snd ?p)) = Done" "0 < length (ss_queue ?s)"
    "fst (snd (snd ?p)) (numbered_id ''req_'' 1 2000) = Some (place (defaultTTL ex_cfg) 2500 ''host-001'' (ss_queue ?q ! 0))"
    using q(1-7) refused unfolding place_item_def by (simp_all del: fun_upd_apply add: fun_upd_same)
  obtain item m al e where p: "?p = (item, m, al, e)" by (cases ?p)
  let ?t = "?s\<lparr>ss_queue := (ss_queue ?s)[0 := item], ss_hosts := m, ss_allocations := al\<rparr>"
  from sched_reach.step [OF r sched_step.cycle_place [OF v(3) ok p]] v(2) p
  obtain L where L: "sched_reach sort_slice ex_cfg L (Placing [''host-001''] 1) ?t" by auto
  have "sched_reach sort_slice ex_cfg L (Cleaning 2500 []) ?t"
    by (rule reach_quiet_step [OF L sched_step.cycle_cleanup]) (simp add: q(4))
  from reach_quiet_step [OF this sched_step.cycle_end] v(1,4) p s h(3) q(3) show ?thesis
    by (intro exI [of _ L] exI [of _ ?t] exI [of _ ?h] exI [of _ "place (defaultTTL ex_cfg) 2500 ''host-001'' (ss_queue ?q ! 0)"])
      (simp add: place_def)
qed

text \<open>
  C23: A cycle never allocates beyond the capacity of a host: a host that is within its capacity
  before a cycle that no request about hosts interrupts is within it afterwards, whatever was placed on it; in
  every state that the interleavings reach.
\<close>

theorem sched_cycle_capacity:
  assumes "slice_sorter srt" "sched_reach srt cfg L Idle s"
    and "ss_hosts s k = Some h" "in_capacity h"
    and "ss_hosts (fst (scheduleCycle srt cfg now ks as s)) k = Some h'"
  shows "in_capacity h'"
proof -
  have inv: "sched_inv L s" using sched_reach_inv [OF assms(1,2)] by simp
  show ?thesis
    using assms(1) inv
  proof (cases rule: scheduleCycle_cases [of srt L s cfg now ks as])
    case idle
    with assms(3-5) show ?thesis by simp
  next
    case (ran q m1 al1 m al e)
    then have "m k = Some h'" using assms(5) by simp
    then have "\<exists>h1. m1 k = Some h1 \<and> (in_capacity h1 \<longrightarrow> in_capacity h')"
      using ran(11) cleanupExpired_ok [OF ran(9,10), of as now m al e] by blast
    then obtain h1 where h1: "m1 k = Some h1" "in_capacity h1 \<longrightarrow> in_capacity h'" by blast
    then have "ss_hosts s k = Some h1 \<or> in_capacity h1" using ran(8) by blast
    then have "in_capacity h1" using assms(3,4) by auto
    with h1 show ?thesis by simp
  qed
qed

theorem sched_cycle_capacity_witness:
  "in_capacity (the (ss_hosts ex_placed ''host-001''))"
proof -
  obtain h where h: "ss_hosts (ex_queued ''host-001'') ''host-001'' = Some h" "in_capacity h"
  proof -
    have "map_option in_capacity (ss_hosts (ex_queued ''host-001'') ''host-001'') = Some True" by code_simp
    with that show thesis by auto
  qed
  obtain h' where h': "ss_hosts ex_placed ''host-001'' = Some h'" using ex_placed_host by auto
  from sched_cycle_capacity [OF insertion.slice_sorter_axioms ex_queued_reach h h' [unfolded ex_placed_def]]
  show ?thesis by (simp add: h')
qed

text \<open>
  C17: An item that the cycle places goes to a listed host that has room for it, satisfies its GPU
  request and has the best score of the listed hosts; an item that stays queued has no suitable host
  among them. The choice does not depend on how \<open>sort.Slice\<close> orders equal scores.
\<close>

theorem sched_places_best:
  assumes "slice_sorter srt" and "qi_status item = ''queued''"
    and "schedule_items srt ttl now hs (item # rest) m al = (item' # q, m', al', e)"
  shows "if qi_status item' = ''allocated''
         then \<exists>h. qi_assignedHost item' \<in> set hs \<and> m (qi_assignedHost item') = Some h \<and> suits item h \<and>
                (\<forall>k \<in> set hs. \<forall>h'. m k = Some h' \<longrightarrow> \<not> flt (scoreHost item h) (scoreHost item h'))
         else item' = item \<and>
                (\<forall>k \<in> set hs. \<forall>h'. m k = Some h' \<longrightarrow> \<not> flt (Fin 0) (scoreHost item h'))"
proof (cases "rankHosts srt m item hs")
  case Nil
  with assms(2,3) have "item' = item" by (auto simp: place_item_def split: prod.splits exit.splits)
  with assms(2) rankHosts_empty [OF assms(1) _ _ Nil] show ?thesis by auto
next
  case (Cons best more)
  with assms(2,3) have item': "item' = item\<lparr>qi_status := ''allocated'', qi_assignedHost := best\<rparr>"
    by (auto simp: place_item_def Let_def split: prod.splits if_splits exit.splits)
  obtain h where "best \<in> set hs" "m best = Some h" "flt (Fin 0) (scoreHost item h)"
    "\<And>k h'. k \<in> set hs \<Longrightarrow> m k = Some h' \<Longrightarrow> \<not> flt (scoreHost item h) (scoreHost item h')"
    using rankHosts_best [OF assms(1) Cons] by metis
  then show ?thesis using item' scoreHost_suits by auto
qed

definition ex_item :: queue_item where
  "ex_item = new_item 2000 ''req_0001'' 1 ex_req"

theorem sched_places_best_witness:
  "\<exists>h. map_of [(''host-001'', ex_host ''host-001''), (''host-002'', (ex_host ''host-002'')\<lparr>h_gpuVramGB := 8\<rparr>)]
         ''host-002'' = Some h \<and> suits ex_item h"
proof -
  let ?m = "map_of [(''host-001'', ex_host ''host-001''), (''host-002'', (ex_host ''host-002'')\<lparr>h_gpuVramGB := 8\<rparr>)]"
  let ?hs = "[''host-001'', ''host-002'']" and ?run = "\<lambda>m hs. schedule_items sort_slice 30 3000 hs [ex_item] m Map.empty"
  have placed: "map (\<lambda>it. (qi_status it, qi_assignedHost it)) (fst (?run ?m ?hs)) = [(''allocated'', ''host-002'')]"
    by code_simp
  then obtain item' m' al' e where run: "?run ?m ?hs = ([item'], m', al', e)"
    and item': "qi_status item' = ''allocated''" "qi_assignedHost item' = ''host-002''"
    by (cases "?run ?m ?hs") auto
  have "qi_status ex_item = ''queued''" by (simp add: ex_item_def new_item_def)
  from sched_places_best [OF insertion.slice_sorter_axioms this run] item'
  show ?thesis by auto
qed

text \<open>
  The queue never grows beyond the configured size, in every reachable state.
\<close>

theorem sched_queue_bounded:
  assumes "sched_reach srt cfg L ph s"
  shows "int (length (ss_queue s)) \<le> max 0 (maxQueueSize cfg)"
proof -
  have "length (ss_queue s) \<le> nat (maxQueueSize cfg)"
    using assms
  proof (induction rule: sched_reach.induct)
    case start
    show ?case by (simp add: new_sched_def)
  next
    case (step L ph s l ph' s')
    then show ?case using sched_step_length [OF step(2)] by simp
  qed
  then show ?thesis by linarith
qed

theorem sched_queue_bounded_witness: "int (length (ss_queue ex_placed)) \<le> max 0 (maxQueueSize ex_cfg)"
  by (rule sched_queue_bounded [OF ex_placed_reach])

text \<open>
  A cycle never takes an item off the queue and never changes one that is no longer queued:
  items whose allocation has expired stay in the queue, count against its size, and are not
  scheduled again, until a client deletes them.
\<close>

theorem sched_cycle_keeps_items:
  assumes "slice_sorter srt" "sched_reach srt cfg L Idle s"
  shows "list_all2 (\<lambda>it it'. qi_id it' = qi_id it \<and> (if qi_status it = ''queued'' then True else it' = it))
    (ss_queue s) (ss_queue (fst (scheduleCycle srt cfg now ks as s)))"
  using cycle_items [OF assms(1) sched_reach_inv [OF assms, THEN conjunct1]]
  by (rule list_all2_mono) (auto simp: item_step_def)

theorem sched_cycle_keeps_items_witness:
  "length (ss_queue (fst (scheduleCycle sort_slice ex_cfg 9000 [''host-001''] [numbered_id ''req_'' 1 2000] ex_placed))) = 1"
proof -
  have "length (ss_queue ex_placed) = 1" by code_simp
  with list_all2_lengthD [OF sched_cycle_keeps_items [OF insertion.slice_sorter_axioms ex_placed_reach,
      of 9000 "[''host-001'']" "[numbered_id ''req_'' 1 2000]"]]
  show ?thesis by simp
qed

text \<open>
  When every host is full, a cycle does nothing at all: it returns before
  the cleanup, so allocations that have expired keep their resources, at whatever time it runs.
\<close>

theorem sched_full_never_expires:
  assumes "\<forall>k \<in> set ks. case ss_hosts s k of None \<Rightarrow> True | Some h \<Rightarrow> h_cpuCores h \<le> h_allocatedCPUCores h"
  shows "scheduleCycle srt cfg now ks as s = (s, Done)"
proof -
  have "hm_GetAvailable ks now (ss_hosts s) = []"
    using assms by (auto simp: hm_GetAvailable_def available_def filter_empty_conv split: option.splits)
  then show ?thesis by (simp add: scheduleCycle_def)
qed

theorem sched_full_never_expires_witness:
  "al_expiresAt (the (ss_allocations (fst (scheduleCycle sort_slice ex_cfg 9000 [''host-001'']
     [numbered_id ''req_'' 1 2000] ex_placed)) (numbered_id ''req_'' 1 2000))) = 3030"
proof -
  have "case ss_hosts ex_placed ''host-001'' of None \<Rightarrow> True | Some h \<Rightarrow> h_cpuCores h \<le> h_allocatedCPUCores h"
    by code_simp
  then have full: "\<forall>k \<in> set [''host-001'']. case ss_hosts ex_placed k of None \<Rightarrow> True
      | Some h \<Rightarrow> h_cpuCores h \<le> h_allocatedCPUCores h" by simp
  from sched_full_never_expires [OF full] ex_placed_alloc show ?thesis by auto
qed

text \<open>
  A host whose id is shorter than eight bytes can register (the registration itself panics after
  storing it), and the cycle that places an item on it panics in its log line.
\<close>

theorem sched_short_host_id_panics:
  "fst (HandleRegister 1000 POST (Some (ex_host ''h1'')) Map.empty) = None
   \<and> snd (scheduleCycle sort_slice ex_cfg 3000 [''h1''] [] (ex_queued ''h1'')) = Panicked"
  by code_simp

text \<open>
  Registering a host again resets its counters, although its allocations live on.
\<close>

theorem sched_reregister_loses_accounting:
  "let m = snd (HandleRegister 4000 POST (Some (ex_host ''host-001'')) (ss_hosts ex_placed))
   in map_option h_allocatedCPUCores (m ''host-001'') = Some 0
      \<and> map_option al_cpuCores (ss_allocations ex_placed (numbered_id ''req_'' 1 2000)) = Some 2"
  by code_simp

text \<open>
  A heartbeat is answered 404 and changes nothing for an unknown host. For a known one it never
  raises the CPU, memory or GPU capacity, leaves what is allocated alone, and marks the host as seen.
\<close>

theorem heartbeat_never_inflates:
  "case HandleHeartbeat now POST (Some (k, metrics)) m of (ans, m') \<Rightarrow>
     (case m k of
        None \<Rightarrow> ans = Answer 404 (HErr ''host not found'') \<and> m' = m
      | Some h \<Rightarrow> \<exists>h'. ans = Answer 200 (HStatus ''ok'') \<and> m' = m(k \<mapsto> h') \<and>
          h_cpuCores h' \<le> h_cpuCores h \<and> h_ramGB h' \<le> h_ramGB h \<and> h_gpuVramGB h' \<le> h_gpuVramGB h \<and>
          h_allocatedCPUCores h' = h_allocatedCPUCores h \<and> h_allocatedRAMGB h' = h_allocatedRAMGB h \<and>
          h_online h' \<and> h_lastHeartbeat h' = now)"
proof (cases "m k")
  case None
  then show ?thesis by (simp add: HandleHeartbeat_def hm_Heartbeat_def)
next
  case (Some h)
  have "h_cpuCores (hm_beat now metrics h) \<le> h_cpuCores h" "h_ramGB (hm_beat now metrics h) \<le> h_ramGB h"
    "h_gpuVramGB (hm_beat now metrics h) \<le> h_gpuVramGB h"
    by (auto simp: hm_beat_capacity split: option.splits)
  with Some show ?thesis
    by (auto simp: HandleHeartbeat_def hm_Heartbeat_def intro!: exI [of _ "hm_beat now metrics h"])
qed

text \<open>
  C34: Behind the middleware a handler runs exactly when a token is configured and the request carries
  it as a bearer token (and is not a CORS preflight); otherwise the state is untouched.
\<close>

theorem guarded_fail_closed:
  "if authToken cfg \<noteq> '''' \<and> hdr = ''Bearer '' @ authToken cfg \<and> meth \<noteq> OPTIONS
   then guarded cfg meth hdr handler s = (Inr (fst (handler s)), snd (handler s))
   else \<exists>a. guarded cfg meth hdr handler s = (Inl a, s)"
proof -
  have "take 7 hdr = ''Bearer '' \<and> drop 7 hdr = t \<longleftrightarrow> hdr = ''Bearer '' @ t" for t
    using append_take_drop_id [of 7 hdr] by (metis append_eq_conv_conj bearer_length)
  then show ?thesis
    by (auto simp: guarded_def withCORS_def requireAuth_def split: prod.split)
qed

end
