(* ===== verification/SessionTypes.thy ===== *)
theory SessionTypes
  imports Prelude
begin

text \<open>
  The data of the gateway's session package (apps/gateway/internal/session/session.go and
  allocator.go). The string-valued enumerations of the source are datatypes whose last constructor
  stands for every other string. Floating-point values are rational numbers; a pointer field that may
  be nil is an option. Structs reached through pointers shared by several tables live in a memory (see
  \<open>HostAllocator\<close>).
\<close>

section \<open>Enumerations\<close>

datatype session_type = SessionTypeDesktop | SessionTypeGaming | SessionTypeRemoteSupport
  | SessionTypeHost | OtherSessionType string

datatype session_mode = SessionModeDesktop | SessionModeDevelopment | SessionModeGaming
  | SessionModeRemoteSupport | OtherSessionMode string

datatype resource_class = ResourceClassBasic | ResourceClassStandard | ResourceClassGaming
  | ResourceClassWorkstation | OtherResourceClass string

datatype session_state = SessionStateRequested | SessionStateQueued | SessionStateProvisioning
  | SessionStateWaitingApproval | SessionStateConnecting | SessionStateActive
  | SessionStateReconnecting | SessionStateEnded | SessionStateExpired | SessionStateFailed
  | OtherSessionState string

datatype encoding_mode = EncodingModeSpeed | EncodingModeQuality | EncodingModeBalanced
  | OtherEncodingMode string

datatype encoder_preset = EncoderPresetNone | EncoderPresetUltrafast | EncoderPresetSuperfast
  | EncoderPresetVeryfast | EncoderPresetFaster | EncoderPresetFast | EncoderPresetMedium
  | EncoderPresetSlow | EncoderPresetSlower | EncoderPresetVeryslow | EncoderPresetPlacebo
  | OtherEncoderPreset string

datatype recording_mode = RecordingModeDisabled | RecordingModeOptional | RecordingModeRequired
  | OtherRecordingMode string

section \<open>Stream profiles\<close>

record encoder_config =
  ec_Mode :: encoding_mode
  ec_Preset :: encoder_preset
  ec_CodecProfile :: string
  ec_CodecLevel :: string
  ec_PixelFormat :: string
  ec_GopSize :: int
  ec_BFrames :: int
  ec_RefFrames :: int
  ec_MaxBitrateKbps :: int
  ec_CRF :: int
  ec_QP :: int
  ec_HardwareAccel :: bool

record stream_profile =
  sp_Preset :: string
  sp_Transport :: string
  sp_VideoCodecs :: "string list"
  sp_ActiveVideoCodec :: string
  sp_AudioCodecs :: "string list"
  sp_ActiveAudioCodec :: string
  sp_EncodingMode :: encoding_mode
  sp_EncoderCfg :: encoder_config
  sp_MinBitrateKbps :: int
  sp_StartBitrateKbps :: int
  sp_MaxBitrateKbps :: int
  sp_ResolutionWidth :: int
  sp_ResolutionHeight :: int
  sp_RefreshRateHz :: int
  sp_AdaptiveBitrate :: bool
  sp_AdaptiveResolution :: bool
  sp_PacketLossRecovery :: bool
  sp_AudioEnabled :: bool
  sp_LatencyTargetMs :: int
  sp_KeyframeIntervalMs :: int

section \<open>Sessions\<close>

record session_capabilities =
  cap_ClipboardSync :: bool
  cap_FileTransfer :: bool
  cap_MultiMonitor :: bool
  cap_AudioForwarding :: bool
  cap_SessionRecording :: recording_mode
  cap_Fullscreen :: bool
  cap_HighRefreshRate :: bool
  cap_ControllerRumble :: bool
  cap_SupportedInputs :: "string list"

record session_permissions =
  pm_RequiresUserApproval :: bool
  pm_AllowRemoteControl :: bool
  pm_AllowClipboardRead :: bool
  pm_AllowClipboardWrite :: bool
  pm_AllowFileUpload :: bool
  pm_AllowFileDownload :: bool
  pm_AllowAudioForwarding :: bool
  pm_AllowSessionRecording :: bool
  pm_MaxDurationSeconds :: int
  pm_IdleTimeoutSeconds :: int
  pm_ApprovedByUserID :: string
  pm_ApprovedAt :: time

record network_quality =
  nq_RTTMs :: int
  nq_JitterMs :: int
  nq_PacketLossPercent :: rat
  nq_DownstreamMbps :: rat
  nq_UpstreamMbps :: rat
  nq_Score :: rat
  nq_SampledAt :: time

record access_link =
  tl_ID :: string
  tl_SessionID :: string
  tl_CreatedByUserID :: string
  tl_URL :: string
  tl_OneTimeUse :: bool
  tl_Permissions :: session_permissions
  tl_CreatedAt :: time
  tl_ExpiresAt :: time
  tl_RevokedAt :: "time option"
  tl_AccessCount :: int

record session =
  se_ID :: string
  se_UserID :: string
  se_HostID :: string
  se_VMID :: string
  se_Type :: session_type
  se_Mode :: session_mode
  se_ResourceClass :: resource_class
  se_State :: session_state
  se_StreamProfile :: stream_profile
  se_Capabilities :: session_capabilities
  se_Permissions :: session_permissions
  se_NetworkQuality :: "network_quality option"
  se_CreatedAt :: time
  se_UpdatedAt :: time
  se_ExpiresAt :: time
  se_EndedAt :: "time option"
  se_ConnectionToken :: string
  se_TemporaryLinks :: "access_link list"

record pending_approval =
  pa_SessionID :: string
  pa_RequestedBy :: string
  pa_TargetDeviceID :: string
  pa_RequestedAt :: time
  pa_ExpiresAt :: time

record resolution =
  rs_Width :: int
  rs_Height :: int
  rs_RefreshRate :: int

record create_request =
  rq_UserID :: string
  rq_Type :: session_type
  rq_Mode :: session_mode
  rq_ResourceClass :: resource_class
  rq_VMID :: string
  rq_HostID :: string
  rq_Region :: string
  rq_GPUPreferred :: bool
  rq_GPURequired :: bool
  rq_StreamPreset :: string
  rq_RequestedResolution :: resolution
  rq_RequestedInputs :: "string list"
  rq_RequestedCapabilities :: session_capabilities
  rq_Permissions :: session_permissions

record create_response =
  rp_Session :: nat
  rp_SignalingURL :: string
  rp_ConnectionToken :: string
  rp_EstimatedReady :: int

section \<open>Hosts\<close>

record gpu_info =
  gi_Model :: string
  gi_Vendor :: string
  gi_VRAMGB :: rat
  gi_DriverVersion :: string
  gi_EncoderSupport :: "string \<rightharpoonup> string"
  gi_MaxConcurrentStreams :: int
  gi_CurrentStreams :: int

record network_info =
  ni_PublicIPv4 :: string
  ni_PublicIPv6 :: string
  ni_Region :: string
  ni_UplinkMbps :: rat
  ni_DownlinkMbps :: rat
  ni_P50LatencyMs :: rat
  ni_P95LatencyMs :: rat
  ni_SupportsUDP :: bool
  ni_SupportsP2P :: bool

record host_load =
  hl_CPUUsagePercent :: rat
  hl_RAMUsagePercent :: rat
  hl_GPUUsagePercent :: rat
  hl_GPUVRAMUsedGB :: rat
  hl_StorageUsedGB :: rat
  hl_ActiveVMs :: int
  hl_ActiveStreams :: int
  hl_ActiveProxyRoutes :: int
  hl_EncoderUsagePercent :: rat
  hl_NetworkTxMbps :: rat
  hl_NetworkRxMbps :: rat
  hl_P95LatencyMs :: rat
  hl_Timestamp :: time

record ghost =
  gh_ID :: string
  gh_Name :: string
  gh_Region :: string
  gh_CPUcores :: int
  gh_RAMGB :: int
  gh_GPUVRAMGB :: int
  gh_StorageGB :: int
  gh_Online :: bool
  gh_LastHeartbeat :: time
  gh_ResourceClasses :: "resource_class list"
  gh_GPUs :: "gpu_info list"
  gh_Network :: network_info
  gh_CurrentLoad :: host_load

section \<open>Example data\<close>

definition ex_caps :: session_capabilities where
  "ex_caps = \<lparr>cap_ClipboardSync = True, cap_FileTransfer = False, cap_MultiMonitor = False,
     cap_AudioForwarding = True, cap_SessionRecording = RecordingModeDisabled, cap_Fullscreen = True,
     cap_HighRefreshRate = False, cap_ControllerRumble = False, cap_SupportedInputs = [''mouse'']\<rparr>"

definition ex_perms :: "bool \<Rightarrow> session_permissions" where
  "ex_perms approval = \<lparr>pm_RequiresUserApproval = approval, pm_AllowRemoteControl = True,
     pm_AllowClipboardRead = True, pm_AllowClipboardWrite = False, pm_AllowFileUpload = False,
     pm_AllowFileDownload = False, pm_AllowAudioForwarding = True, pm_AllowSessionRecording = False,
     pm_MaxDurationSeconds = 0, pm_IdleTimeoutSeconds = 0, pm_ApprovedByUserID = '''', pm_ApprovedAt = 0\<rparr>"

definition ex_request :: "session_type \<Rightarrow> bool \<Rightarrow> create_request" where
  "ex_request t approval = \<lparr>rq_UserID = ''u'', rq_Type = t, rq_Mode = SessionModeDesktop,
     rq_ResourceClass = ResourceClassBasic, rq_VMID = ''vm'', rq_HostID = '''', rq_Region = ''eu'',
     rq_GPUPreferred = False, rq_GPURequired = False, rq_StreamPreset = '''',
     rq_RequestedResolution = \<lparr>rs_Width = 0, rs_Height = 0, rs_RefreshRate = 0\<rparr>,
     rq_RequestedInputs = [], rq_RequestedCapabilities = ex_caps, rq_Permissions = ex_perms approval\<rparr>"

end
