(* ===== verification/HostAllocator.thy ===== *)
theory HostAllocator
  imports SessionTypes "HOL-Library.AList"
begin

text \<open>
  apps/gateway/internal/session/allocator.go: the gateway's registry of hosts with its three indexes
  (by region, by resource class, online), and the choice of a host for a session. The tables of the
  source hold pointers to \<open>Host\<close> structs that several tables share; here a pointer is an address of the
  memory \<open>ha_mem\<close>. A bucket of an index is an association list, so that its emptiness can be computed.
\<close>

type_synonym bucket = "(string \<times> nat) list"

record host_allocator =
  ha_mem :: "nat \<rightharpoonup> ghost"
  ha_hosts :: "string \<rightharpoonup> nat"
  ha_byRegion :: "string \<rightharpoonup> bucket"
  ha_byClass :: "resource_class \<rightharpoonup> bucket"
  ha_byOnline :: bucket

definition NewHostAllocator :: host_allocator where
  "NewHostAllocator = \<lparr>ha_mem = Map.empty, ha_hosts = Map.empty, ha_byRegion = Map.empty,
     ha_byClass = Map.empty, ha_byOnline = []\<rparr>"

abbreviation ha_host :: "host_allocator \<Rightarrow> nat \<Rightarrow> ghost" where
  "ha_host a p \<equiv> the (ha_mem a p)"

section \<open>Indexes\<close>

definition bucket_of :: "('k \<rightharpoonup> bucket) \<Rightarrow> 'k \<Rightarrow> bucket" where
  "bucket_of ix k = (case ix k of Some b \<Rightarrow> b | None \<Rightarrow> [])"

text \<open>\<open>if ix[k] == nil { ix[k] = make(...) }; ix[k][ident] = p\<close>\<close>

definition ix_add :: "'k \<Rightarrow> string \<Rightarrow> nat \<Rightarrow> ('k \<rightharpoonup> bucket) \<Rightarrow> 'k \<rightharpoonup> bucket" where
  "ix_add k ident p ix = ix(k \<mapsto> AList.update ident p (bucket_of ix k))"

text \<open>\<open>delete(ix[k], ident); if len(ix[k]) == 0 { delete(ix, k) }\<close>\<close>

definition ix_del :: "'k \<Rightarrow> string \<Rightarrow> ('k \<rightharpoonup> bucket) \<Rightarrow> 'k \<rightharpoonup> bucket" where
  "ix_del k ident ix =
     (let b = AList.delete ident (bucket_of ix k) in ix(k := (if b = [] then None else Some b)))"

text \<open>What an index contains, and that it has no empty bucket.\<close>

definition ix_find :: "('k \<rightharpoonup> bucket) \<Rightarrow> 'k \<Rightarrow> string \<Rightarrow> nat option" where
  "ix_find ix k ident = map_of (bucket_of ix k) ident"

definition ix_tight :: "('k \<rightharpoonup> bucket) \<Rightarrow> bool" where
  "ix_tight ix \<longleftrightarrow> (\<forall>k. ix k \<noteq> Some [])"

lemma ix_find_empty [simp]: "ix_find Map.empty k ident = None"
  by (simp add: ix_find_def bucket_of_def)

lemma ix_find_add [simp]:
  "ix_find (ix_add k ident p ix) k' ident' = (if k' = k \<and> ident' = ident then Some p else ix_find ix k' ident')"
  by (simp add: ix_find_def ix_add_def bucket_of_def update_conv')

lemma ix_find_del [simp]:
  "ix_find (ix_del k ident ix) k' ident' = (if k' = k \<and> ident' = ident then None else ix_find ix k' ident')"
proof (cases "AList.delete ident (bucket_of ix k) = []")
  case True
  have "map_of (AList.delete ident (bucket_of ix k)) ident' = None" for ident' using True by simp
  then have "ident' \<noteq> ident \<Longrightarrow> map_of (bucket_of ix k) ident' = None"
    by (metis delete_conv' fun_upd_apply)
  with True show ?thesis by (simp add: ix_find_def ix_del_def bucket_of_def)
next
  case False
  then show ?thesis by (simp add: ix_find_def ix_del_def bucket_of_def delete_conv')
qed

lemma ix_find_add_all:
  "ix_find (foldl (\<lambda>ix k. ix_add k ident p ix) ix ks) k' ident' =
     (if k' \<in> set ks \<and> ident' = ident then Some p else ix_find ix k' ident')"
  by (induction ks arbitrary: ix) auto

lemma ix_find_del_all:
  "ix_find (foldl (\<lambda>ix k. ix_del k ident ix) ix ks) k' ident' =
     (if k' \<in> set ks \<and> ident' = ident then None else ix_find ix k' ident')"
  by (induction ks arbitrary: ix) auto

lemma ix_tight_empty [simp]: "ix_tight Map.empty"
  by (simp add: ix_tight_def)

lemma ix_tight_add [simp]: "ix_tight ix \<Longrightarrow> ix_tight (ix_add k ident p ix)"
  by (auto simp: ix_tight_def ix_add_def dest: arg_cong [where f = set])

lemma ix_tight_del [simp]: "ix_tight ix \<Longrightarrow> ix_tight (ix_del k ident ix)"
  by (auto simp: ix_tight_def ix_del_def Let_def)

lemma ix_tight_add_all: "ix_tight ix \<Longrightarrow> ix_tight (foldl (\<lambda>ix k. ix_add k ident p ix) ix ks)"
  by (induction ks arbitrary: ix) auto

lemma ix_tight_del_all: "ix_tight ix \<Longrightarrow> ix_tight (foldl (\<lambda>ix k. ix_del k ident ix) ix ks)"
  by (induction ks arbitrary: ix) auto

text \<open>A tight index has a bucket exactly for the keys under which something is filed.\<close>

lemma ix_tight_None:
  assumes "ix_tight ix"
  shows "ix k = None \<longleftrightarrow> (\<forall>ident. ix_find ix k ident = None)"
proof
  assume none: "\<forall>ident. ix_find ix k ident = None"
  show "ix k = None"
  proof (cases "ix k")
    case (Some b)
    with assms have "b \<noteq> []" by (auto simp: ix_tight_def)
    then obtain ident p where "(ident, p) \<in> set b" by (cases b) auto
    then have "map_of b ident \<noteq> None" using weak_map_of_SomeI by fastforce
    with none Some show ?thesis by (simp add: ix_find_def bucket_of_def)
  qed
qed (simp add: ix_find_def bucket_of_def)

section \<open>Registering and updating hosts\<close>

text \<open>The caller allocates the struct it registers.\<close>

definition ha_store :: "nat \<Rightarrow> ghost \<Rightarrow> host_allocator \<Rightarrow> host_allocator" where
  "ha_store p h a = a\<lparr>ha_mem := (ha_mem a)(p \<mapsto> h)\<rparr>"

definition ha_RegisterHost :: "nat \<Rightarrow> host_allocator \<Rightarrow> (string + unit) \<times> host_allocator" where
  "ha_RegisterHost p a =
     (let host = ha_host a p; ident = gh_ID host
      in if ha_hosts a ident \<noteq> None then (Inl ''host already registered'', a)
         else
           let a = a\<lparr>ha_hosts := (ha_hosts a)(ident \<mapsto> p)\<rparr>;
               a = (if gh_Region host \<noteq> ''''
                    then a\<lparr>ha_byRegion := ix_add (gh_Region host) ident p (ha_byRegion a)\<rparr> else a);
               a = a\<lparr>ha_byClass := foldl (\<lambda>ix rc. ix_add rc ident p ix) (ha_byClass a)
                                    (gh_ResourceClasses host)\<rparr>;
               a = (if gh_Online host then a\<lparr>ha_byOnline := AList.update ident p (ha_byOnline a)\<rparr> else a)
           in (Inr (), a))"

definition ha_UnregisterHost :: "string \<Rightarrow> host_allocator \<Rightarrow> (string + unit) \<times> host_allocator" where
  "ha_UnregisterHost hostID a =
     (case ha_hosts a hostID of
        None \<Rightarrow> (Inl ''host not found'', a)
      | Some p \<Rightarrow>
          let host = ha_host a p;
              a = a\<lparr>ha_hosts := (ha_hosts a)(hostID := None)\<rparr>;
              a = (if gh_Region host \<noteq> ''''
                   then a\<lparr>ha_byRegion := ix_del (gh_Region host) hostID (ha_byRegion a)\<rparr> else a);
              a = a\<lparr>ha_byClass := foldl (\<lambda>ix rc. ix_del rc hostID ix) (ha_byClass a)
                                   (gh_ResourceClasses host)\<rparr>;
              a = a\<lparr>ha_byOnline := AList.delete hostID (ha_byOnline a)\<rparr>
          in (Inr (), a))"

definition ha_UpdateHostLoad ::
  "string \<Rightarrow> host_load \<Rightarrow> time \<Rightarrow> host_allocator \<Rightarrow> (string + unit) \<times> host_allocator" where
  "ha_UpdateHostLoad hostID load now a =
     (case ha_hosts a hostID of
        None \<Rightarrow> (Inl ''host not found'', a)
      | Some p \<Rightarrow>
          let host = ha_host a p; wasOnline = gh_Online host;
              a = a\<lparr>ha_mem := (ha_mem a)(p \<mapsto> host\<lparr>gh_CurrentLoad := load,
                                                gh_LastHeartbeat := now, gh_Online := True\<rparr>)\<rparr>;
              a = (if \<not> wasOnline
                   then a\<lparr>ha_byOnline := AList.update (gh_ID host) p (ha_byOnline a)\<rparr> else a)
          in (Inr (), a))"

definition ha_GetHost :: "string \<Rightarrow> host_allocator \<Rightarrow> string + nat" where
  "ha_GetHost hostID a =
     (case ha_hosts a hostID of None \<Rightarrow> Inl ''host not found'' | Some p \<Rightarrow> Inr p)"

text \<open>\<open>ks\<close> is the order in which the table of hosts is iterated.\<close>

definition ha_ListHosts :: "string list \<Rightarrow> host_allocator \<Rightarrow> nat list" where
  "ha_ListHosts ks a = map_values (ha_hosts a) ks"

section \<open>The index invariant\<close>

definition ha_inv :: "host_allocator \<Rightarrow> bool" where
  "ha_inv a \<longleftrightarrow>
     (\<forall>k p. ha_hosts a k = Some p \<longrightarrow> (\<exists>h. ha_mem a p = Some h \<and> gh_ID h = k)) \<and>
     ix_tight (ha_byRegion a) \<and> ix_tight (ha_byClass a) \<and>
     (\<forall>r k p. ix_find (ha_byRegion a) r k = Some p \<longleftrightarrow>
        ha_hosts a k = Some p \<and> r \<noteq> '''' \<and> gh_Region (ha_host a p) = r) \<and>
     (\<forall>c k p. ix_find (ha_byClass a) c k = Some p \<longleftrightarrow>
        ha_hosts a k = Some p \<and> c \<in> set (gh_ResourceClasses (ha_host a p))) \<and>
     (\<forall>k p. map_of (ha_byOnline a) k = Some p \<longleftrightarrow> ha_hosts a k = Some p \<and> gh_Online (ha_host a p))"

lemma ha_invD:
  assumes "ha_inv a"
  shows "ha_hosts a k = Some p \<Longrightarrow> \<exists>h. ha_mem a p = Some h \<and> gh_ID h = k"
    and "ha_hosts a k = Some p \<Longrightarrow> gh_ID (ha_host a p) = k"
    and "ix_tight (ha_byRegion a)" "ix_tight (ha_byClass a)"
    and "ix_find (ha_byRegion a) r k = Some p \<longleftrightarrow>
        ha_hosts a k = Some p \<and> r \<noteq> '''' \<and> gh_Region (ha_host a p) = r"
    and "ix_find (ha_byClass a) c k = Some p \<longleftrightarrow>
        ha_hosts a k = Some p \<and> c \<in> set (gh_ResourceClasses (ha_host a p))"
    and "map_of (ha_byOnline a) k = Some p \<longleftrightarrow> ha_hosts a k = Some p \<and> gh_Online (ha_host a p)"
  using assms unfolding ha_inv_def by (fastforce, fastforce, blast+)

lemma ha_inv_new: "ha_inv NewHostAllocator"
  by (simp add: ha_inv_def NewHostAllocator_def)

text \<open>A struct that is in no table may be written freely.\<close>

lemma ha_inv_store:
  assumes "ha_inv a" "\<forall>k. ha_hosts a k \<noteq> Some p"
  shows "ha_inv (ha_store p h a)"
proof -
  note D = ha_invD [OF assms(1)]
  have "k = k" "ha_hosts a k = Some q \<Longrightarrow> q \<noteq> p" for k q using assms(2) by auto
  then show ?thesis
    unfolding ha_inv_def using D(1,3,4) by (auto simp: ha_store_def D(5-7))
qed

lemma ha_inv_Register:
  assumes inv: "ha_inv a" and p: "ha_mem a p = Some h"
  shows "ha_inv (snd (ha_RegisterHost p a))"
proof (cases "ha_hosts a (gh_ID h)")
  case None
  note D = ha_invD [OF inv]
  let ?a = "snd (ha_RegisterHost p a)"
  have mem: "ha_mem ?a = ha_mem a" and hosts: "ha_hosts ?a = (ha_hosts a)(gh_ID h \<mapsto> p)"
    and region: "\<And>r k. ix_find (ha_byRegion ?a) r k =
      (if gh_Region h \<noteq> '''' \<and> r = gh_Region h \<and> k = gh_ID h then Some p else ix_find (ha_byRegion a) r k)"
    and cls: "\<And>c k. ix_find (ha_byClass ?a) c k =
      (if c \<in> set (gh_ResourceClasses h) \<and> k = gh_ID h then Some p else ix_find (ha_byClass a) c k)"
    and on: "\<And>k. map_of (ha_byOnline ?a) k =
      (if gh_Online h \<and> k = gh_ID h then Some p else map_of (ha_byOnline a) k)"
    and tight: "ix_tight (ha_byRegion ?a)" "ix_tight (ha_byClass ?a)"
    using None p D(3,4)
    by (simp_all add: ha_RegisterHost_def Let_def ix_find_add_all ix_tight_add_all update_conv')
  show ?thesis
    unfolding ha_inv_def using tight
    by (auto simp: mem hosts region cls on p None D(5-7)) (use D(1) in blast)
next
  case (Some q)
  with inv p show ?thesis by (simp add: ha_RegisterHost_def Let_def)
qed

lemma ha_inv_Unregister:
  assumes inv: "ha_inv a"
  shows "ha_inv (snd (ha_UnregisterHost k0 a))"
proof (cases "ha_hosts a k0")
  case (Some p)
  note D = ha_invD [OF inv]
  obtain h where p: "ha_mem a p = Some h" "gh_ID h = k0" using D(1) [OF Some] by blast
  let ?a = "snd (ha_UnregisterHost k0 a)"
  have mem: "ha_mem ?a = ha_mem a" and hosts: "ha_hosts ?a = (ha_hosts a)(k0 := None)"
    and region: "\<And>r k. ix_find (ha_byRegion ?a) r k =
      (if gh_Region h \<noteq> '''' \<and> r = gh_Region h \<and> k = k0 then None else ix_find (ha_byRegion a) r k)"
    and cls: "\<And>c k. ix_find (ha_byClass ?a) c k =
      (if c \<in> set (gh_ResourceClasses h) \<and> k = k0 then None else ix_find (ha_byClass a) c k)"
    and on: "\<And>k. map_of (ha_byOnline ?a) k = (if k = k0 then None else map_of (ha_byOnline a) k)"
    and tight: "ix_tight (ha_byRegion ?a)" "ix_tight (ha_byClass ?a)"
    using Some p D(3,4)
    by (simp_all add: ha_UnregisterHost_def Let_def ix_find_del_all ix_tight_del_all delete_conv')
  show ?thesis
    unfolding ha_inv_def using tight Some p
    by (auto simp: mem hosts region cls on D(5-7)) (use D(1) in blast)
next
  case None
  with inv show ?thesis by (simp add: ha_UnregisterHost_def)
qed

lemma ha_inv_Update:
  assumes inv: "ha_inv a"
  shows "ha_inv (snd (ha_UpdateHostLoad k0 load now a))"
proof (cases "ha_hosts a k0")
  case (Some p)
  note D = ha_invD [OF inv]
  obtain h where p: "ha_mem a p = Some h" "gh_ID h = k0" using D(1) [OF Some] by blast
  let ?a = "snd (ha_UpdateHostLoad k0 load now a)"
  let ?h = "h\<lparr>gh_CurrentLoad := load, gh_LastHeartbeat := now, gh_Online := True\<rparr>"
  have only: "ha_hosts a k = Some p \<longleftrightarrow> k = k0" for k using D(2) [of k p] p Some by auto
  have mem: "ha_mem ?a = (ha_mem a)(p \<mapsto> ?h)" and hosts: "ha_hosts ?a = ha_hosts a"
    and ix: "ha_byRegion ?a = ha_byRegion a" "ha_byClass ?a = ha_byClass a"
    and on: "\<And>k. map_of (ha_byOnline ?a) k =
      (if \<not> gh_Online h \<and> k = k0 then Some p else map_of (ha_byOnline a) k)"
    using Some p by (simp_all add: ha_UpdateHostLoad_def Let_def update_conv')
  have "\<exists>h'. ha_mem ?a q = Some h' \<and> gh_ID h' = k" if "ha_hosts a k = Some q" for k q
    unfolding mem using D(1) [OF that] p that only by (cases "q = p") auto
  moreover have "map_of (ha_byOnline ?a) k = Some q \<longleftrightarrow> ha_hosts a k = Some q \<and> gh_Online (ha_host ?a q)"
    for k q
    unfolding mem on using p Some only [of k] D(7) [of k q] by (cases "q = p") auto
  ultimately show ?thesis
    unfolding ha_inv_def using D(3,4) p by (simp add: mem hosts ix D(5,6))
next
  case None
  with inv show ?thesis by (simp add: ha_UpdateHostLoad_def)
qed

section \<open>Choosing a host\<close>

definition ha_supportsResourceClass :: "ghost \<Rightarrow> resource_class \<Rightarrow> bool" where
  "ha_supportsResourceClass host resourceClass = list_ex (\<lambda>rc. rc = resourceClass) (gh_ResourceClasses host)"

definition ha_hasCapacity :: "ghost \<Rightarrow> session_type \<Rightarrow> bool" where
  "ha_hasCapacity host sessionType =
     (let load = gh_CurrentLoad host
      in if hl_CPUUsagePercent load > 80 then False
         else if hl_RAMUsagePercent load > 80 then False
         else if sessionType = SessionTypeGaming \<and> hl_GPUUsagePercent load > 70 then False
         else if sessionType = SessionTypeGaming \<and> hl_EncoderUsagePercent load > 80 then False
         else if hl_ActiveStreams load \<ge> 10 then False
         else True)"

definition ha_scoreHost :: "ghost \<Rightarrow> session_type \<Rightarrow> resource_class \<Rightarrow> bool \<Rightarrow> rat" where
  "ha_scoreHost host sessionType resourceClass gpuRequired =
     (let load = gh_CurrentLoad host;
          latency = ni_P95LatencyMs (gh_Network host);
          score = 0;
          score = score + (100 - hl_CPUUsagePercent load) * (3 / 10);
          score = score + (100 - hl_RAMUsagePercent load) * (2 / 10);
          score = (if (sessionType = SessionTypeGaming \<or> gpuRequired) \<and> gh_GPUs host \<noteq> []
                   then score + (100 - hl_GPUUsagePercent load) * (3 / 10)
                              + (100 - hl_EncoderUsagePercent load) * (2 / 10)
                   else score);
          score = (if latency > 0 then score + (100 - latency) * (1 / 10) else score)
      in if list_ex (\<lambda>rc. rc = resourceClass) (gh_ResourceClasses host) then score + 10 else score)"

definition ha_selectBestHost ::
  "(nat \<Rightarrow> ghost) \<Rightarrow> session_type \<Rightarrow> resource_class \<Rightarrow> bool \<Rightarrow> nat list \<Rightarrow> nat" where
  "ha_selectBestHost hst sessionType resourceClass gpuRequired candidates =
     (let score = (\<lambda>p. ha_scoreHost (hst p) sessionType resourceClass gpuRequired)
      in fst (foldl (\<lambda>(bestHost, bestScore) p.
                       if score p > bestScore then (p, score p) else (bestHost, bestScore))
                    (hd candidates, score (hd candidates)) (tl candidates)))"

definition ha_AllocateHost ::
  "string list \<Rightarrow> time \<Rightarrow> session_type \<Rightarrow> resource_class \<Rightarrow> string \<Rightarrow> bool \<Rightarrow> host_allocator
     \<Rightarrow> string + nat" where
  "ha_AllocateHost ks now sessionType resourceClass region gpuRequired a =
     (case (if region \<noteq> '''' then ha_byRegion a region else Some (ha_byOnline a)) of
        None \<Rightarrow> Inl ''no available hosts in region''
      | Some regionHosts \<Rightarrow>
          let classHosts = ha_byClass a resourceClass;
              candidates = filter (\<lambda>p.
                let host = ha_host a p
                in if \<not> gh_Online host then False
                   else if (case classHosts of None \<Rightarrow> False | Some b \<Rightarrow> map_of b (gh_ID host) = None)
                     then False
                   else if now - gh_LastHeartbeat host > 5 * minute then False
                   else if gpuRequired \<and> gh_GPUs host = [] then False
                   else ha_hasCapacity host sessionType) (map_values (map_of regionHosts) ks)
          in if candidates = [] then Inl ''no available hosts''
             else Inr (ha_selectBestHost (ha_host a) sessionType resourceClass gpuRequired candidates))"

definition ha_GetAvailableHosts :: "string list \<Rightarrow> string \<Rightarrow> resource_class \<Rightarrow> host_allocator \<Rightarrow> nat list" where
  "ha_GetAvailableHosts ks region resourceClass a =
     filter (\<lambda>p.
       let host = ha_host a p
       in if \<not> gh_Online host then False
          else if region \<noteq> '''' \<and> gh_Region host \<noteq> region then False
          else if \<not> ha_supportsResourceClass host resourceClass then False
          else True) (map_values (ha_hosts a) ks)"

section \<open>What the choice promises\<close>

text \<open>The hosts an allocation ranges over, before the tests on each host.\<close>

definition ha_pool :: "string \<Rightarrow> host_allocator \<Rightarrow> bucket" where
  "ha_pool region a = (if region \<noteq> '''' then bucket_of (ha_byRegion a) region else ha_byOnline a)"

text \<open>
  The hosts that may serve a session, in terms of the table of hosts alone. The class is only a
  filter when some registered host has it.
\<close>

definition ha_eligible ::
  "time \<Rightarrow> session_type \<Rightarrow> resource_class \<Rightarrow> string \<Rightarrow> bool \<Rightarrow> host_allocator \<Rightarrow> nat set" where
  "ha_eligible now st rc region gpu a = {p \<in> ran (ha_hosts a). let h = ha_host a p in
     gh_Online h \<and> (region = '''' \<or> gh_Region h = region) \<and>
     (rc \<in> set (gh_ResourceClasses h) \<or>
      (\<forall>q \<in> ran (ha_hosts a). rc \<notin> set (gh_ResourceClasses (ha_host a q)))) \<and>
     now - gh_LastHeartbeat h \<le> 5 * minute \<and> (gpu \<longrightarrow> gh_GPUs h \<noteq> []) \<and> ha_hasCapacity h st}"

lemma best_fold:
  fixes score :: "'a \<Rightarrow> rat"
  shows "let (b, s) = foldl (\<lambda>(b, s) p. if score p > s then (p, score p) else (b, s)) (x, score x) xs
    in b \<in> insert x (set xs) \<and> s = score b \<and> (\<forall>y \<in> insert x (set xs). score y \<le> s)"
proof (induction xs rule: rev_induct)
  case (snoc y ys)
  obtain b s where bs: "foldl (\<lambda>(b, s) p. if score p > s then (p, score p) else (b, s)) (x, score x) ys = (b, s)"
    by fastforce
  with snoc have "b \<in> insert x (set ys)" "s = score b" and le: "\<forall>y \<in> insert x (set ys). score y \<le> s"
    by auto
  then show ?case
    by (auto simp: bs intro: order_trans [OF _ less_imp_le])
qed simp

lemma ha_selectBestHost_best:
  assumes "cs \<noteq> []"
  shows "ha_selectBestHost hst st rc gpu cs \<in> set cs"
    and "p \<in> set cs \<Longrightarrow> ha_scoreHost (hst p) st rc gpu
      \<le> ha_scoreHost (hst (ha_selectBestHost hst st rc gpu cs)) st rc gpu"
proof -
  have cs: "insert (hd cs) (set (tl cs)) = set cs" using assms by (cases cs) auto
  let ?score = "\<lambda>p. ha_scoreHost (hst p) st rc gpu"
  obtain b s where bs: "foldl (\<lambda>(b, s) p. if ?score p > s then (p, ?score p) else (b, s))
      (hd cs, ?score (hd cs)) (tl cs) = (b, s)" by fastforce
  have sel: "ha_selectBestHost hst st rc gpu cs = b"
    unfolding ha_selectBestHost_def Let_def bs by simp
  have best: "b \<in> set cs \<and> s = ?score b \<and> (\<forall>y \<in> set cs. ?score y \<le> s)"
    using best_fold [of ?score "hd cs" "tl cs"] unfolding bs cs Let_def prod.case .
  show "ha_selectBestHost hst st rc gpu cs \<in> set cs" using sel best by simp
  show "p \<in> set cs \<Longrightarrow> ?score p \<le> ?score (ha_selectBestHost hst st rc gpu cs)"
    using sel best by metis
qed

lemma ha_classHosts:
  assumes "ha_inv a" "ha_hosts a k = Some p"
  shows "(case ha_byClass a rc of None \<Rightarrow> False | Some b \<Rightarrow> map_of b (gh_ID (ha_host a p)) = None) \<longleftrightarrow>
    \<not> (rc \<in> set (gh_ResourceClasses (ha_host a p)) \<or>
       (\<forall>q \<in> ran (ha_hosts a). rc \<notin> set (gh_ResourceClasses (ha_host a q))))"
proof -
  note D = ha_invD [OF assms(1)]
  have k: "gh_ID (ha_host a p) = k" using D(2) assms(2) .
  show ?thesis
  proof (cases "ha_byClass a rc")
    case None
    then have "\<forall>k. ix_find (ha_byClass a) rc k = None" using ix_tight_None [OF D(4)] by blast
    then have "rc \<notin> set (gh_ResourceClasses (ha_host a q))" if "q \<in> ran (ha_hosts a)" for q
      using D(6) [of rc _ q] that by (auto simp: ran_def)
    with None show ?thesis by auto
  next
    case (Some b)
    then have "\<exists>k q. ix_find (ha_byClass a) rc k = Some q" using ix_tight_None [OF D(4), of rc] by auto
    then have "\<exists>q \<in> ran (ha_hosts a). rc \<in> set (gh_ResourceClasses (ha_host a q))"
      by (auto simp: D(6) ran_def)
    moreover have "map_of b k = None \<longleftrightarrow> rc \<notin> set (gh_ResourceClasses (ha_host a p))"
    proof -
      have "ix_find (ha_byClass a) rc k = map_of b k" using Some by (simp add: ix_find_def bucket_of_def)
      then show ?thesis
        using D(6) [of rc k p] D(6) [of rc k "the (map_of b k)"] assms(2) by (cases "map_of b k") auto
    qed
    ultimately show ?thesis using Some k by auto
  qed
qed

lemma ha_pool_ran:
  assumes inv: "ha_inv a"
  shows "ran (map_of (ha_pool region a)) =
    {p \<in> ran (ha_hosts a). if region \<noteq> '''' then gh_Region (ha_host a p) = region else gh_Online (ha_host a p)}"
  using ha_invD(5) [OF inv, of region] ha_invD(7) [OF inv]
  by (auto simp: ha_pool_def ran_def ix_find_def)

lemma ha_AllocateHost_candidates:
  assumes inv: "ha_inv a" and ks: "map_order (map_of (ha_pool region a)) ks"
  shows "\<exists>cs. set cs = ha_eligible now st rc region gpu a \<and>
    (case ha_AllocateHost ks now st rc region gpu a of Inl e \<Rightarrow> cs = []
     | Inr p \<Rightarrow> cs \<noteq> [] \<and> p = ha_selectBestHost (ha_host a) st rc gpu cs)"
proof (cases "region \<noteq> '''' \<and> ha_byRegion a region = None")
  case True
  then have "ha_pool region a = []" by (simp add: ha_pool_def bucket_of_def)
  with ha_pool_ran [OF inv, of region] True
  have "{p \<in> ran (ha_hosts a). gh_Region (ha_host a p) = region} = {}" by simp
  then have "ha_eligible now st rc region gpu a = {}"
    using True by (auto simp: ha_eligible_def Let_def)
  with True show ?thesis by (intro exI [of _ "[]"]) (simp add: ha_AllocateHost_def)
next
  case False
  let ?test = "\<lambda>p. let host = ha_host a p
    in if \<not> gh_Online host then False
       else if (case ha_byClass a rc of None \<Rightarrow> False | Some b \<Rightarrow> map_of b (gh_ID host) = None) then False
       else if now - gh_LastHeartbeat host > 5 * minute then False
       else if gpu \<and> gh_GPUs host = [] then False
       else ha_hasCapacity host st"
  let ?cs = "filter ?test (map_values (map_of (ha_pool region a)) ks)"
  have pool: "(if region \<noteq> '''' then ha_byRegion a region else Some (ha_byOnline a)) = Some (ha_pool region a)"
    using False by (auto simp: ha_pool_def bucket_of_def)
  have eq: "ha_AllocateHost ks now st rc region gpu a = (if ?cs = [] then Inl ''no available hosts''
      else Inr (ha_selectBestHost (ha_host a) st rc gpu ?cs))"
    by (simp only: ha_AllocateHost_def pool option.case Let_def)
  have "?test p \<longleftrightarrow> p \<in> ha_eligible now st rc region gpu a"
    if p: "p \<in> ran (map_of (ha_pool region a))" for p
  proof -
    have ran: "p \<in> ran (ha_hosts a)"
      and reg: "region = '''' \<or> gh_Region (ha_host a p) = region"
      using p ha_pool_ran [OF inv, of region] by (auto split: if_splits)
    then obtain k where "ha_hosts a k = Some p" by (auto simp: ran_def)
    note cls = ha_classHosts [OF inv this, of rc]
    show ?thesis
      unfolding Let_def cls using ran reg by (auto simp: ha_eligible_def Let_def)
  qed
  moreover have "ha_eligible now st rc region gpu a \<subseteq> ran (map_of (ha_pool region a))"
    using ha_pool_ran [OF inv, of region] by (auto simp: ha_eligible_def Let_def)
  ultimately have "set ?cs = ha_eligible now st rc region gpu a"
    unfolding set_map_values [OF ks, symmetric] by (rule set_filter_exact)
  with eq show ?thesis by (intro exI [of _ ?cs]) simp
qed

section \<open>Runs of the registry\<close>

text \<open>A caller registers a struct it has just allocated, or calls another operation.\<close>

datatype ha_call = HaRegister nat ghost | HaUnregister string | HaUpdateLoad string host_load time

definition ha_step :: "host_allocator \<Rightarrow> ha_call \<Rightarrow> host_allocator" where
  "ha_step a c = (case c of
     HaRegister p h \<Rightarrow> if ha_mem a p \<noteq> None then a else snd (ha_RegisterHost p (ha_store p h a))
   | HaUnregister k \<Rightarrow> snd (ha_UnregisterHost k a)
   | HaUpdateLoad k load now \<Rightarrow> snd (ha_UpdateHostLoad k load now a))"

interpretation ha: component ha_step ha_inv
proof unfold_locales
  fix a c assume inv: "ha_inv a"
  show "ha_inv (ha_step a c)"
  proof (cases c)
    case (HaRegister p h)
    show ?thesis
    proof (cases "ha_mem a p = None")
      case True
      then have "\<forall>k. ha_hosts a k \<noteq> Some p" using ha_invD(1) [OF inv, of _ p] by auto
      then have "ha_inv (ha_store p h a)" using inv by (intro ha_inv_store)
      then have "ha_inv (snd (ha_RegisterHost p (ha_store p h a)))"
        by (rule ha_inv_Register) (simp add: ha_store_def)
      with True HaRegister show ?thesis by (simp add: ha_step_def)
    qed (use HaRegister inv in \<open>simp add: ha_step_def\<close>)
  qed (use inv in \<open>simp_all add: ha_step_def ha_inv_Unregister ha_inv_Update\<close>)
qed

abbreviation ha_run :: "ha_call list \<Rightarrow> host_allocator" where
  "ha_run cs \<equiv> foldl ha_step NewHostAllocator cs"

lemmas ha_run_inv = ha.run_inv [OF ha_inv_new]

section \<open>Properties\<close>

text \<open>
  C6: After any sequence of registrations, removals and load updates, the allocator returns a host
  that is registered, online, in the requested region, heard from in the last five minutes, with a GPU
  when one is required and with spare capacity, whose score no other such host exceeds; it fails only
  when there is none. This holds for every order in which the maps are iterated.
\<close>

theorem ha_allocates_best:
  assumes "a = ha_run cs" and "map_order (map_of (ha_pool region a)) ks"
  shows "case ha_AllocateHost ks now st rc region gpu a of
      Inr p \<Rightarrow> p \<in> ha_eligible now st rc region gpu a \<and>
        (\<forall>q \<in> ha_eligible now st rc region gpu a.
           ha_scoreHost (ha_host a q) st rc gpu \<le> ha_scoreHost (ha_host a p) st rc gpu)
    | Inl e \<Rightarrow> ha_eligible now st rc region gpu a = {}"
proof -
  have "ha_inv a" using assms(1) by (simp add: ha_run_inv)
  from ha_AllocateHost_candidates [OF this assms(2)]
  obtain cs' where cs': "set cs' = ha_eligible now st rc region gpu a"
    "case ha_AllocateHost ks now st rc region gpu a of Inl e \<Rightarrow> cs' = []
     | Inr p \<Rightarrow> cs' \<noteq> [] \<and> p = ha_selectBestHost (ha_host a) st rc gpu cs'" by blast
  show ?thesis
  proof (cases "ha_AllocateHost ks now st rc region gpu a")
    case (Inr p)
    with cs' show ?thesis using ha_selectBestHost_best [where cs = cs' and hst = "ha_host a"] by simp
  qed (use cs' in auto)
qed

text \<open>
  C19: The three indexes always agree with the table of hosts: a host is filed under its region, under
  each of its classes and as online exactly when it is registered with that region, class and status,
  and no bucket is left empty. So a removed host is in no index.
\<close>

theorem ha_indexes_agree:
  "let a = ha_run cs in
     (\<forall>r k p. ix_find (ha_byRegion a) r k = Some p \<longleftrightarrow>
        ha_hosts a k = Some p \<and> r \<noteq> '''' \<and> gh_Region (ha_host a p) = r) \<and>
     (\<forall>c k p. ix_find (ha_byClass a) c k = Some p \<longleftrightarrow>
        ha_hosts a k = Some p \<and> c \<in> set (gh_ResourceClasses (ha_host a p))) \<and>
     (\<forall>k p. map_of (ha_byOnline a) k = Some p \<longleftrightarrow> ha_hosts a k = Some p \<and> gh_Online (ha_host a p)) \<and>
     (\<forall>r. ha_byRegion a r \<noteq> Some []) \<and> (\<forall>c. ha_byClass a c \<noteq> Some [])"
  using ha_run_inv [of cs] by (simp add: ha_inv_def ix_tight_def Let_def)

text \<open>
  The listing of available hosts has exactly the registered hosts that are online, in the region
  and of the class, in contrast to the allocation.
\<close>

theorem ha_available_exact:
  assumes "map_order (ha_hosts (ha_run cs)) ks"
  shows "set (ha_GetAvailableHosts ks region rc (ha_run cs)) =
    {p \<in> ran (ha_hosts (ha_run cs)). let h = ha_host (ha_run cs) p in
       gh_Online h \<and> (region = '''' \<or> gh_Region h = region) \<and> rc \<in> set (gh_ResourceClasses h)}"
  using set_map_values [OF assms]
  by (auto simp: ha_GetAvailableHosts_def ha_supportsResourceClass_def list_ex_iff Let_def)

text \<open>
  A class that no registered host offers is not a reason to refuse: the filter is then skipped and
  the session is placed on a host without the class, while the listing of available hosts is empty.
\<close>

theorem ha_missing_class_bypassed:
  assumes "a = ha_run cs" and "map_order (map_of (ha_pool region a)) ks"
    and "\<forall>q \<in> ran (ha_hosts a). rc \<notin> set (gh_ResourceClasses (ha_host a q))"
    and "p \<in> ran (ha_hosts a)" "gh_Online (ha_host a p)" "region = '''' \<or> gh_Region (ha_host a p) = region"
    and "now - gh_LastHeartbeat (ha_host a p) \<le> 5 * minute" "ha_hasCapacity (ha_host a p) st"
  shows "\<exists>q. ha_AllocateHost ks now st rc region False a = Inr q \<and>
    \<not> ha_supportsResourceClass (ha_host a q) rc \<and> ha_GetAvailableHosts ks' region rc a = []"
proof -
  have inv: "ha_inv a" using assms(1) by (simp add: ha_run_inv)
  have "p \<in> ha_eligible now st rc region False a"
    using assms(3-8) by (simp add: ha_eligible_def Let_def)
  with ha_AllocateHost_candidates [OF inv assms(2), of now st rc False]
  obtain cs' where cs': "set cs' = ha_eligible now st rc region False a" "cs' \<noteq> []"
    "ha_AllocateHost ks now st rc region False a = Inr (ha_selectBestHost (ha_host a) st rc False cs')"
    by (cases "ha_AllocateHost ks now st rc region False a") auto
  let ?q = "ha_selectBestHost (ha_host a) st rc False cs'"
  have none: "\<not> ha_supportsResourceClass (ha_host a q) rc" if "q \<in> ran (ha_hosts a)" for q
    using assms(3) that by (auto simp: ha_supportsResourceClass_def list_ex_iff)
  have "?q \<in> ran (ha_hosts a)"
    using ha_selectBestHost_best(1) [OF cs'(2), of "ha_host a" st rc False] cs'(1)
    by (auto simp: ha_eligible_def)
  moreover have "set (map_values (ha_hosts a) ks') \<subseteq> ran (ha_hosts a)"
    by (auto simp: map_values_def List.map_filter_def ran_def)
  then have "ha_GetAvailableHosts ks' region rc a = []"
    using none by (auto simp: ha_GetAvailableHosts_def Let_def filter_empty_conv)
  ultimately show ?thesis using cs'(3) none by auto
qed

section \<open>Examples\<close>

definition ex_load :: "rat \<Rightarrow> host_load" where
  "ex_load cpu = \<lparr>hl_CPUUsagePercent = cpu, hl_RAMUsagePercent = 10, hl_GPUUsagePercent = 0,
     hl_GPUVRAMUsedGB = 0, hl_StorageUsedGB = 0, hl_ActiveVMs = 0, hl_ActiveStreams = 0,
     hl_ActiveProxyRoutes = 0, hl_EncoderUsagePercent = 0, hl_NetworkTxMbps = 0,
     hl_NetworkRxMbps = 0, hl_P95LatencyMs = 0, hl_Timestamp = 0\<rparr>"

definition ex_host :: "string \<Rightarrow> rat \<Rightarrow> ghost" where
  "ex_host ident cpu = \<lparr>gh_ID = ident, gh_Name = ident, gh_Region = ''eu'', gh_CPUcores = 8, gh_RAMGB = 32,
     gh_GPUVRAMGB = 0, gh_StorageGB = 100, gh_Online = True, gh_LastHeartbeat = 0,
     gh_ResourceClasses = [ResourceClassBasic], gh_GPUs = [],
     gh_Network = \<lparr>ni_PublicIPv4 = '''', ni_PublicIPv6 = '''', ni_Region = ''eu'', ni_UplinkMbps = 100,
       ni_DownlinkMbps = 100, ni_P50LatencyMs = 10, ni_P95LatencyMs = 20, ni_SupportsUDP = True,
       ni_SupportsP2P = True\<rparr>, gh_CurrentLoad = ex_load cpu\<rparr>"

definition ex_run :: "ha_call list" where
  "ex_run = [HaRegister 0 (ex_host ''a'' 60), HaRegister 1 (ex_host ''b'' 20), HaRegister 2 (ex_host ''c'' 90),
     HaUnregister ''x'', HaUpdateLoad ''c'' (ex_load 95) 5]"

lemma ex_pool: "ha_pool ''eu'' (ha_run ex_run) = [(''a'', 0), (''b'', 1), (''c'', 2)]"
  by code_simp

lemma ex_hosts: "map_order (ha_hosts (ha_run ex_run)) [''a'', ''b'', ''c'']"
proof -
  have "ha_hosts (ha_run ex_run) = [''a'' \<mapsto> 0, ''b'' \<mapsto> 1, ''c'' \<mapsto> 2]"
    by (simp add: ex_run_def ha_step_def ha_RegisterHost_def ha_UnregisterHost_def ha_UpdateHostLoad_def
        ha_store_def NewHostAllocator_def ex_host_def Let_def)
  then show ?thesis by (auto simp: map_order_def)
qed

lemma ex_hosts_ran: "ran (ha_hosts (ha_run ex_run)) = {0, 1, 2}"
proof -
  have "map_values (ha_hosts (ha_run ex_run)) [''a'', ''b'', ''c''] = [0, 1, 2]" by code_simp
  with set_map_values [OF ex_hosts] show ?thesis by simp
qed

theorem ha_allocates_best_witness:
  "ha_AllocateHost [''c'', ''a'', ''b''] 9 SessionTypeDesktop ResourceClassBasic ''eu'' False (ha_run ex_run) = Inr 1 \<and>
   (case ha_AllocateHost [''c'', ''a'', ''b''] 9 SessionTypeDesktop ResourceClassBasic ''eu'' False (ha_run ex_run) of
      Inr p \<Rightarrow> p \<in> ha_eligible 9 SessionTypeDesktop ResourceClassBasic ''eu'' False (ha_run ex_run) \<and>
        (\<forall>q \<in> ha_eligible 9 SessionTypeDesktop ResourceClassBasic ''eu'' False (ha_run ex_run).
           ha_scoreHost (ha_host (ha_run ex_run) q) SessionTypeDesktop ResourceClassBasic False
             \<le> ha_scoreHost (ha_host (ha_run ex_run) p) SessionTypeDesktop ResourceClassBasic False)
    | Inl e \<Rightarrow> ha_eligible 9 SessionTypeDesktop ResourceClassBasic ''eu'' False (ha_run ex_run) = {})"
proof (rule conjI)
  show "ha_AllocateHost [''c'', ''a'', ''b''] 9 SessionTypeDesktop ResourceClassBasic ''eu'' False (ha_run ex_run) = Inr 1"
    by code_simp
qed (rule ha_allocates_best [OF refl], auto simp: ex_pool map_order_def)

theorem ha_available_exact_witness:
  "set (ha_GetAvailableHosts [''a'', ''b'', ''c''] ''eu'' ResourceClassBasic (ha_run ex_run)) =
    {p \<in> ran (ha_hosts (ha_run ex_run)). let h = ha_host (ha_run ex_run) p in
       gh_Online h \<and> (''eu'' = '''' \<or> gh_Region h = ''eu'') \<and> ResourceClassBasic \<in> set (gh_ResourceClasses h)}"
  by (rule ha_available_exact [OF ex_hosts])

theorem ha_missing_class_bypassed_witness:
  "\<exists>q. ha_AllocateHost [''a'', ''b'', ''c''] 9 SessionTypeDesktop ResourceClassGaming ''eu'' False (ha_run ex_run) = Inr q \<and>
    \<not> ha_supportsResourceClass (ha_host (ha_run ex_run) q) ResourceClassGaming \<and>
    ha_GetAvailableHosts [''a'', ''b'', ''c''] ''eu'' ResourceClassGaming (ha_run ex_run) = []"
proof (rule ha_missing_class_bypassed [OF refl, where p = 1])
  show "map_order (map_of (ha_pool ''eu'' (ha_run ex_run))) [''a'', ''b'', ''c'']"
    by (auto simp: ex_pool map_order_def)
  show "\<forall>q \<in> ran (ha_hosts (ha_run ex_run)).
      ResourceClassGaming \<notin> set (gh_ResourceClasses (ha_host (ha_run ex_run) q))"
    unfolding ex_hosts_ran by (simp, code_simp)
qed (simp add: ex_hosts_ran, code_simp+)

end
