(* ===== verification/AuditLog.thy ===== *)
theory AuditLog
  imports Prelude
begin

text \<open>
  apps/gateway/internal/session/audit.go: the audit log, a slice that keeps the newest entries up to a
  limit. The random identifier of an entry is an argument.
\<close>

record audit_entry =
  ae_ID :: string
  ae_SessionID :: string
  ae_ActorUserID :: string
  ae_Action :: string
  ae_IPAddress :: string
  ae_UserAgent :: string
  ae_Metadata :: "(string \<times> json) list"
  ae_CreatedAt :: time

record audit_log =
  al_entries :: "audit_entry list"
  al_maxEntries :: nat

definition NewAuditLogger :: audit_log where
  "NewAuditLogger = \<lparr>al_entries = [], al_maxEntries = 10000\<rparr>"

definition al_Log ::
  "string \<Rightarrow> string \<Rightarrow> string \<Rightarrow> string \<Rightarrow> (string \<times> json) list \<Rightarrow> time \<Rightarrow> audit_log \<Rightarrow> audit_log" where
  "al_Log auditID sessionID actorUserID action metadata now a =
     (let entry = \<lparr>ae_ID = auditID, ae_SessionID = sessionID, ae_ActorUserID = actorUserID,
            ae_Action = action, ae_IPAddress = '''', ae_UserAgent = '''', ae_Metadata = metadata,
            ae_CreatedAt = now\<rparr>;
          a = a\<lparr>al_entries := al_entries a @ [entry]\<rparr>
      in if length (al_entries a) > al_maxEntries a
         then a\<lparr>al_entries := drop (length (al_entries a) - al_maxEntries a) (al_entries a)\<rparr>
         else a)"

definition al_GetSessionAuditLog :: "string \<Rightarrow> audit_log \<Rightarrow> audit_entry list" where
  "al_GetSessionAuditLog sessionID a = filter (\<lambda>e. ae_SessionID e = sessionID) (al_entries a)"

definition al_GetUserAuditLog :: "string \<Rightarrow> audit_log \<Rightarrow> audit_entry list" where
  "al_GetUserAuditLog userID a = filter (\<lambda>e. ae_ActorUserID e = userID) (al_entries a)"

text \<open>The slice expression panics (\<open>None\<close>) when its start lies beyond the end.\<close>

definition al_GetRecentEntries :: "int \<Rightarrow> audit_log \<Rightarrow> audit_entry list option" where
  "al_GetRecentEntries limit a =
     (let n = int (length (al_entries a));
          limit = (if limit > n then n else limit);
          start = wrap64 (n - limit)
      in if 0 \<le> start \<and> start \<le> n then Some (drop (nat start) (al_entries a)) else None)"

text \<open>\<open>marshal\<close> is \<open>json.MarshalIndent\<close>.\<close>

definition al_ExportJSON :: "(audit_entry list \<Rightarrow> 'e + string) \<Rightarrow> string \<Rightarrow> audit_log \<Rightarrow> 'e + string" where
  "al_ExportJSON marshal sessionID a = marshal (al_GetSessionAuditLog sessionID a)"

section \<open>The log is the end of everything that was logged\<close>

text \<open>A call of \<open>Log\<close> is the entry it makes.\<close>

definition al_log_entry :: "audit_entry \<Rightarrow> audit_log \<Rightarrow> audit_log" where
  "al_log_entry e = al_Log (ae_ID e) (ae_SessionID e) (ae_ActorUserID e) (ae_Action e) (ae_Metadata e) (ae_CreatedAt e)"

definition logged :: "audit_entry \<Rightarrow> audit_entry" where
  "logged e = e\<lparr>ae_IPAddress := '''', ae_UserAgent := ''''\<rparr>"

lemma al_Log_eq:
  "al_Log i s u act m now a = a\<lparr>al_entries := keep_last (al_maxEntries a) (al_entries a @
     [\<lparr>ae_ID = i, ae_SessionID = s, ae_ActorUserID = u, ae_Action = act, ae_IPAddress = '''',
       ae_UserAgent = '''', ae_Metadata = m, ae_CreatedAt = now\<rparr>])\<rparr>"
  by (simp add: al_Log_def keep_last_def Let_def)

lemma al_log_entry_eq:
  "al_log_entry e a = a\<lparr>al_entries := keep_last (al_maxEntries a) (al_entries a @ [logged e])\<rparr>"
  by (cases e) (simp add: al_log_entry_def al_Log_eq logged_def)

lemma al_run_eq:
  "foldl (\<lambda>a e. al_log_entry e a) NewAuditLogger es =
     \<lparr>al_entries = keep_last 10000 (map logged es), al_maxEntries = 10000\<rparr>"
  by (induction es rule: rev_induct) (simp_all add: NewAuditLogger_def al_log_entry_eq keep_last_append)

section \<open>Properties\<close>

text \<open>
  After any number of entries the log holds exactly the last 10000 of them in order, and asking
  for \<open>n\<close> recent entries gives the last \<open>n\<close> of those.
\<close>

theorem audit_keeps_newest:
  assumes "in64 n" "0 \<le> n"
  shows "let a = foldl (\<lambda>a e. al_log_entry e a) NewAuditLogger es in
     al_entries a = keep_last 10000 (map logged es) \<and>
     al_GetRecentEntries n a = Some (keep_last (nat n) (al_entries a))"
proof -
  let ?a = "foldl (\<lambda>a e. al_log_entry e a) NewAuditLogger es"
  have e: "al_entries ?a = keep_last 10000 (map logged es)" by (simp add: al_run_eq)
  have "length (al_entries ?a) \<le> 10000" unfolding e by simp
  then have "in64 (int (length (al_entries ?a)) - m)" if "0 \<le> m" "m \<le> int (length (al_entries ?a))" for m
    using that by (simp add: in64_def)
  then have "al_GetRecentEntries n ?a = Some (keep_last (nat n) (al_entries ?a))"
    using assms by (auto simp: keep_last_def al_GetRecentEntries_def Let_def nat_diff_distrib nat_le_iff)
  with e show ?thesis by (simp add: Let_def)
qed

definition ex_entry :: "string \<Rightarrow> audit_entry" where
  "ex_entry i = \<lparr>ae_ID = i, ae_SessionID = ''s'', ae_ActorUserID = ''u'', ae_Action = ''created'',
     ae_IPAddress = ''1.2.3.4'', ae_UserAgent = '''', ae_Metadata = [], ae_CreatedAt = 7\<rparr>"

theorem audit_keeps_newest_witness:
  "let a = foldl (\<lambda>a e. al_log_entry e a) NewAuditLogger [ex_entry ''1'', ex_entry ''2''] in
     al_entries a = keep_last 10000 (map logged [ex_entry ''1'', ex_entry ''2'']) \<and>
     al_GetRecentEntries 1 a = Some (keep_last (nat 1) (al_entries a))"
  by (rule audit_keeps_newest) (simp_all add: in64_def)

text \<open>
  A negative number of recent entries makes the slice expression panic.
\<close>

theorem audit_negative_limit_panics:
  assumes "n < 0" "in64 n" "length (al_entries a) \<le> 10000"
  shows "al_GetRecentEntries n a = None"
proof -
  let ?len = "int (length (al_entries a))"
  have "wrap64 (?len - n) < 0 \<or> ?len < wrap64 (?len - n)"
  proof (cases "in64 (?len - n)")
    case True
    with assms show ?thesis by simp
  next
    case False
    have "?len - n + 2 ^ 63 = (?len - n - 2 ^ 63) + 1 * 2 ^ 64" by simp
    then have "(?len - n + 2 ^ 63) mod 2 ^ 64 = (?len - n - 2 ^ 63) mod 2 ^ 64"
      by (metis mod_mult_self1)
    moreover have "(?len - n - 2 ^ 63) mod 2 ^ 64 = ?len - n - 2 ^ 63"
      using False assms by (intro mod_pos_pos_trivial) (auto simp: in64_def)
    ultimately have "wrap64 (?len - n) = ?len - n - 2 ^ 64" by (simp add: wrap64_def)
    with assms show ?thesis by (simp add: in64_def)
  qed
  with assms(1) show ?thesis by (auto simp: al_GetRecentEntries_def Let_def)
qed

theorem audit_negative_limit_panics_witness:
  "al_GetRecentEntries (- 1) NewAuditLogger = None"
  by (rule audit_negative_limit_panics) (simp_all add: in64_def NewAuditLogger_def)

end
