(* ===== verification/SessionManager.thy ===== *)
theory SessionManager
  imports HostAllocator AuditLog
begin

text \<open>
  apps/gateway/internal/session/session.go: the session manager. A \<open>*Session\<close> is an address of the
  memory \<open>sm_mem\<close>. The goroutines that \<open>go m.provisionSession(...)\<close> and \<open>time.AfterFunc\<close> start are the
  list \<open>sm_tasks\<close>; a goroutine runs in steps, and other calls may come between its steps. Random
  identifiers and clock readings are arguments.
\<close>

section \<open>Stream profiles\<close>

definition buildDefaultEncoderConfig :: "encoding_mode \<Rightarrow> bool \<Rightarrow> encoder_config" where
  "buildDefaultEncoderConfig m hardwareAccel =
     (let cfg = \<lparr>ec_Mode = m, ec_Preset = EncoderPresetNone, ec_CodecProfile = '''', ec_CodecLevel = '''',
            ec_PixelFormat = '''', ec_GopSize = 0, ec_BFrames = 0, ec_RefFrames = 0,
            ec_MaxBitrateKbps = 0, ec_CRF = 0, ec_QP = 0, ec_HardwareAccel = hardwareAccel\<rparr>;
          cfg = (case m of
              EncodingModeSpeed \<Rightarrow>
                cfg\<lparr>ec_Preset := EncoderPresetVeryfast, ec_PixelFormat := ''yuv420p'', ec_GopSize := 120,
                    ec_BFrames := 0, ec_RefFrames := 2, ec_CRF := 28, ec_QP := 28\<rparr>
            | EncodingModeQuality \<Rightarrow>
                cfg\<lparr>ec_Preset := EncoderPresetSlow, ec_PixelFormat := ''yuv420p'', ec_GopSize := 60,
                    ec_BFrames := 3, ec_RefFrames := 5, ec_CRF := 18, ec_QP := 18\<rparr>
            | _ \<Rightarrow>
                cfg\<lparr>ec_Preset := EncoderPresetMedium, ec_PixelFormat := ''yuv420p'', ec_GopSize := 90,
                    ec_BFrames := 2, ec_RefFrames := 3, ec_CRF := 23, ec_QP := 23\<rparr>)
      in if hardwareAccel
         then cfg\<lparr>ec_Preset := (case m of EncodingModeSpeed \<Rightarrow> EncoderPresetFast
                                  | EncodingModeQuality \<Rightarrow> EncoderPresetMedium
                                  | _ \<Rightarrow> EncoderPresetFast)\<rparr>
         else cfg)"

definition buildStreamProfile :: "string \<Rightarrow> resolution \<Rightarrow> session_mode \<Rightarrow> stream_profile" where
  "buildStreamProfile preset res smode =
     (let encodingMode = (if preset = ''fast'' then EncodingModeSpeed
                          else if preset = ''safe'' then EncodingModeQuality else EncodingModeBalanced);
          profile = \<lparr>sp_Preset = preset, sp_Transport = ''webrtc'',
            sp_VideoCodecs = [''h264'', ''h265'', ''vp8'', ''vp9''], sp_ActiveVideoCodec = '''',
            sp_AudioCodecs = [''opus'', ''aac''], sp_ActiveAudioCodec = '''',
            sp_EncodingMode = encodingMode, sp_EncoderCfg = buildDefaultEncoderConfig encodingMode False,
            sp_MinBitrateKbps = 0, sp_StartBitrateKbps = 0, sp_MaxBitrateKbps = 0,
            sp_ResolutionWidth = rs_Width res, sp_ResolutionHeight = rs_Height res,
            sp_RefreshRateHz = rs_RefreshRate res, sp_AdaptiveBitrate = True,
            sp_AdaptiveResolution = (preset = ''safe''), sp_PacketLossRecovery = True,
            sp_AudioEnabled = True, sp_LatencyTargetMs = 0, sp_KeyframeIntervalMs = 0\<rparr>;
          profile = (if preset = ''fast'' then
            profile\<lparr>sp_MinBitrateKbps := 2000, sp_StartBitrateKbps := 5000, sp_MaxBitrateKbps := 20000,
              sp_LatencyTargetMs := 20, sp_KeyframeIntervalMs := 2000,
              sp_VideoCodecs := [''h265'', ''h264'', ''h263'']\<rparr>
          else
            profile\<lparr>sp_MinBitrateKbps := 500, sp_StartBitrateKbps := 1500, sp_MaxBitrateKbps := 8000,
              sp_LatencyTargetMs := 100, sp_KeyframeIntervalMs := 4000,
              sp_VideoCodecs := [''h264'', ''h265'', ''vp9'', ''vp8'']\<rparr>)
      in if smode = SessionModeGaming
         then profile\<lparr>sp_VideoCodecs := [''h265'', ''h264'', ''av1''], sp_MinBitrateKbps := 3000,
                sp_StartBitrateKbps := 8000, sp_MaxBitrateKbps := 30000, sp_LatencyTargetMs := 15,
                sp_EncodingMode := EncodingModeSpeed,
                sp_EncoderCfg := buildDefaultEncoderConfig EncodingModeSpeed False\<rparr>
         else profile)"

section \<open>State\<close>

text \<open>A goroutine that has not yet run, one in its five-second wait, and an armed removal timer.\<close>

datatype sm_task = ProvisionStart nat | ProvisionWait nat time | RemoveAfter string time

record session_manager =
  sm_mem :: "nat \<rightharpoonup> session"
  sm_next :: nat
  sm_sessions :: "string \<rightharpoonup> nat"
  sm_hostAllocator :: host_allocator
  sm_auditLogger :: audit_log
  sm_pendingApprovals :: "string \<rightharpoonup> pending_approval"
  sm_tasks :: "sm_task list"

definition NewSessionManager :: "host_allocator \<Rightarrow> session_manager" where
  "NewSessionManager alloc =
     \<lparr>sm_mem = Map.empty, sm_next = 0, sm_sessions = Map.empty, sm_hostAllocator = alloc,
      sm_auditLogger = NewAuditLogger, sm_pendingApprovals = Map.empty, sm_tasks = []\<rparr>"

abbreviation sm_session :: "session_manager \<Rightarrow> nat \<Rightarrow> session" where
  "sm_session m p \<equiv> the (sm_mem m p)"

definition sm_write :: "nat \<Rightarrow> (session \<Rightarrow> session) \<Rightarrow> session_manager \<Rightarrow> session_manager" where
  "sm_write p f m = m\<lparr>sm_mem := (sm_mem m)(p \<mapsto> f (sm_session m p))\<rparr>"

definition sm_log :: "string \<Rightarrow> string \<Rightarrow> string \<Rightarrow> string \<Rightarrow> (string \<times> json) list \<Rightarrow> time \<Rightarrow>
    session_manager \<Rightarrow> session_manager" where
  "sm_log auditID sessionID actor act metadata now m =
     m\<lparr>sm_auditLogger := al_Log auditID sessionID actor act metadata now (sm_auditLogger m)\<rparr>"

text \<open>A \<open>go\<close> statement or a timer.\<close>

definition sm_spawn :: "sm_task \<Rightarrow> session_manager \<Rightarrow> session_manager" where
  "sm_spawn t m = m\<lparr>sm_tasks := sm_tasks m @ [t]\<rparr>"

text \<open>The strings of the enumerations, as the audit log records them.\<close>

definition session_type_str :: "session_type \<Rightarrow> string" where
  "session_type_str t = (case t of SessionTypeDesktop \<Rightarrow> ''desktop'' | SessionTypeGaming \<Rightarrow> ''gaming''
     | SessionTypeRemoteSupport \<Rightarrow> ''remote-support'' | SessionTypeHost \<Rightarrow> ''host'' | OtherSessionType s \<Rightarrow> s)"

definition session_mode_str :: "session_mode \<Rightarrow> string" where
  "session_mode_str m = (case m of SessionModeDesktop \<Rightarrow> ''desktop'' | SessionModeDevelopment \<Rightarrow> ''development''
     | SessionModeGaming \<Rightarrow> ''gaming'' | SessionModeRemoteSupport \<Rightarrow> ''remote-support'' | OtherSessionMode s \<Rightarrow> s)"

definition resource_class_str :: "resource_class \<Rightarrow> string" where
  "resource_class_str c = (case c of ResourceClassBasic \<Rightarrow> ''basic'' | ResourceClassStandard \<Rightarrow> ''standard''
     | ResourceClassGaming \<Rightarrow> ''gaming'' | ResourceClassWorkstation \<Rightarrow> ''workstation'' | OtherResourceClass s \<Rightarrow> s)"

section \<open>Creating sessions\<close>

text \<open>
  The random values and the clock reading of a call: the session's id and connection token, the audit
  entry's id, the time, and the order in which the host maps are iterated.
\<close>

record sm_env =
  env_sessionID :: string
  env_token :: string
  env_linkID :: string
  env_auditID :: string
  env_now :: time
  env_order :: "string list"

definition with_defaults :: "create_request \<Rightarrow> create_request" where
  "with_defaults req =
     (let req = (if rq_StreamPreset req = '''' then req\<lparr>rq_StreamPreset := ''safe''\<rparr> else req);
          res = rq_RequestedResolution req;
          res = (if rs_Width res = 0 then res\<lparr>rs_Width := 1920\<rparr> else res);
          res = (if rs_Height res = 0 then res\<lparr>rs_Height := 1080\<rparr> else res);
          res = (if rs_RefreshRate res = 0 then res\<lparr>rs_RefreshRate := 60\<rparr> else res);
          perm = rq_Permissions req;
          perm = (if pm_MaxDurationSeconds perm = 0 then perm\<lparr>pm_MaxDurationSeconds := 3600\<rparr> else perm);
          perm = (if pm_IdleTimeoutSeconds perm = 0 then perm\<lparr>pm_IdleTimeoutSeconds := 600\<rparr> else perm)
      in req\<lparr>rq_RequestedResolution := res, rq_Permissions := perm\<rparr>)"

definition new_session ::
  "sm_env \<Rightarrow> create_request \<Rightarrow> stream_profile \<Rightarrow> string \<Rightarrow> session_state \<Rightarrow> session" where
  "new_session env req profile hostID st =
     \<lparr>se_ID = env_sessionID env, se_UserID = rq_UserID req, se_HostID = hostID, se_VMID = '''',
      se_Type = rq_Type req, se_Mode = rq_Mode req, se_ResourceClass = rq_ResourceClass req,
      se_State = st, se_StreamProfile = profile, se_Capabilities = rq_RequestedCapabilities req,
      se_Permissions = rq_Permissions req, se_NetworkQuality = None, se_CreatedAt = env_now env,
      se_UpdatedAt = env_now env,
      se_ExpiresAt = env_now env + wrap64 (pm_MaxDurationSeconds (rq_Permissions req) * second),
      se_EndedAt = None, se_ConnectionToken = env_token env, se_TemporaryLinks = []\<rparr>"

text \<open>\<open>m.sessions[sessionID] = session\<close>, for a new struct.\<close>

definition sm_add_session :: "session \<Rightarrow> session_manager \<Rightarrow> session_manager" where
  "sm_add_session s m =
     m\<lparr>sm_mem := (sm_mem m)(sm_next m \<mapsto> s), sm_sessions := (sm_sessions m)(se_ID s \<mapsto> sm_next m),
       sm_next := Suc (sm_next m)\<rparr>"

definition create_answer :: "sm_env \<Rightarrow> nat \<Rightarrow> int \<Rightarrow> create_response" where
  "create_answer env p ready =
     \<lparr>rp_Session = p, rp_SignalingURL = ''/signal/'' @ env_sessionID env,
      rp_ConnectionToken = env_token env, rp_EstimatedReady = ready\<rparr>"

definition sm_createSessionRequiringApproval ::
  "sm_env \<Rightarrow> create_request \<Rightarrow> stream_profile \<Rightarrow> session_manager
     \<Rightarrow> (string + create_response) \<times> session_manager" where
  "sm_createSessionRequiringApproval env req profile m =
     (let p = sm_next m;
          m = sm_add_session (new_session env req profile '''' SessionStateWaitingApproval) m;
          pending = \<lparr>pa_SessionID = env_sessionID env, pa_RequestedBy = rq_UserID req,
            pa_TargetDeviceID = rq_VMID req, pa_RequestedAt = env_now env,
            pa_ExpiresAt = env_now env + 5 * minute\<rparr>;
          m = m\<lparr>sm_pendingApprovals := (sm_pendingApprovals m)(env_sessionID env \<mapsto> pending)\<rparr>
      in (Inr (create_answer env p 0), m))"

definition sm_CreateSession ::
  "sm_env \<Rightarrow> create_request \<Rightarrow> session_manager \<Rightarrow> (string + create_response) \<times> session_manager" where
  "sm_CreateSession env req0 m =
     (if rq_UserID req0 = '''' then (Inl ''user ID is required'', m)
      else
        let req = with_defaults req0;
            profile = buildStreamProfile (rq_StreamPreset req) (rq_RequestedResolution req) (rq_Mode req)
        in if rq_Type req = SessionTypeRemoteSupport \<and> pm_RequiresUserApproval (rq_Permissions req)
           then sm_createSessionRequiringApproval env req profile m
           else
             case ha_AllocateHost (env_order env) (env_now env) (rq_Type req) (rq_ResourceClass req)
                    (rq_Region req) (rq_GPURequired req) (sm_hostAllocator m) of
               Inl err \<Rightarrow> (Inl (''failed to allocate host: '' @ err), m)
             | Inr h \<Rightarrow>
                 let hostID = gh_ID (ha_host (sm_hostAllocator m) h);
                     p = sm_next m;
                     m = sm_add_session (new_session env req profile hostID SessionStateQueued) m;
                     m = sm_log (env_auditID env) (env_sessionID env) (rq_UserID req) ''created''
                       [(''type'', JStr (session_type_str (rq_Type req))),
                        (''mode'', JStr (session_mode_str (rq_Mode req))),
                        (''resourceClass'', JStr (resource_class_str (rq_ResourceClass req))),
                        (''hostId'', JStr hostID)] (env_now env) m;
                     m = sm_spawn (ProvisionStart p) m
                 in (Inr (create_answer env p 30), m))"

section \<open>The other operations\<close>

definition sm_ApproveSession ::
  "sm_env \<Rightarrow> string \<Rightarrow> string \<Rightarrow> session_manager \<Rightarrow> (string + unit) \<times> session_manager" where
  "sm_ApproveSession env sessionID approverUserID m =
     (case sm_sessions m sessionID of
        None \<Rightarrow> (Inl ''session not found'', m)
      | Some p \<Rightarrow>
          if se_State (sm_session m p) \<noteq> SessionStateWaitingApproval
          then (Inl ''session is not waiting for approval'', m)
          else
            let m = m\<lparr>sm_pendingApprovals := (sm_pendingApprovals m)(sessionID := None)\<rparr>;
                m = sm_write p (\<lambda>s. s\<lparr>se_Permissions := (se_Permissions s)\<lparr>pm_ApprovedByUserID := approverUserID,
                                                                      pm_ApprovedAt := env_now env\<rparr>,
                                      se_State := SessionStateQueued, se_UpdatedAt := env_now env\<rparr>) m;
                m = sm_log (env_auditID env) sessionID approverUserID ''approved''
                      [(''originalRequester'', JStr (se_UserID (sm_session m p)))] (env_now env) m;
                m = sm_spawn (ProvisionStart p) m
            in (Inr (), m))"

definition sm_GetSession :: "string \<Rightarrow> session_manager \<Rightarrow> string + nat" where
  "sm_GetSession sessionID m =
     (case sm_sessions m sessionID of None \<Rightarrow> Inl ''session not found'' | Some p \<Rightarrow> Inr p)"

definition sm_ListSessions :: "string list \<Rightarrow> session_manager \<Rightarrow> nat list" where
  "sm_ListSessions ks m = map_values (sm_sessions m) ks"

definition sm_UpdateSessionState ::
  "sm_env \<Rightarrow> string \<Rightarrow> session_state \<Rightarrow> session_manager \<Rightarrow> (string + unit) \<times> session_manager" where
  "sm_UpdateSessionState env sessionID st m =
     (case sm_GetSession sessionID m of
        Inl err \<Rightarrow> (Inl err, m)
      | Inr p \<Rightarrow>
          let m = sm_write p (\<lambda>s. s\<lparr>se_State := st, se_UpdatedAt := env_now env\<rparr>) m;
              m = (if st = SessionStateEnded \<or> st = SessionStateExpired \<or> st = SessionStateFailed
                   then sm_write p (\<lambda>s. s\<lparr>se_EndedAt := Some (env_now env)\<rparr>) m else m)
          in (Inr (), m))"

definition sm_EndSession ::
  "sm_env \<Rightarrow> string \<Rightarrow> string \<Rightarrow> session_manager \<Rightarrow> (string + unit) \<times> session_manager" where
  "sm_EndSession env sessionID reason m =
     (case sm_GetSession sessionID m of
        Inl err \<Rightarrow> (Inl err, m)
      | Inr p \<Rightarrow>
          let m = sm_write p (\<lambda>s. s\<lparr>se_State := SessionStateEnded, se_EndedAt := Some (env_now env),
                                   se_UpdatedAt := env_now env\<rparr>) m;
              m = sm_log (env_auditID env) sessionID (se_UserID (sm_session m p)) ''ended''
                    [(''reason'', JStr reason)] (env_now env) m;
              m = sm_spawn (RemoveAfter sessionID (env_now env + 5 * minute)) m
          in (Inr (), m))"

definition sm_UpdateNetworkQuality ::
  "sm_env \<Rightarrow> string \<Rightarrow> network_quality option \<Rightarrow> session_manager \<Rightarrow> (string + unit) \<times> session_manager" where
  "sm_UpdateNetworkQuality env sessionID quality m =
     (case sm_GetSession sessionID m of
        Inl err \<Rightarrow> (Inl err, m)
      | Inr p \<Rightarrow>
          (Inr (), sm_write p (\<lambda>s. s\<lparr>se_NetworkQuality := quality, se_UpdatedAt := env_now env\<rparr>) m))"

definition sm_CreateTemporaryAccessLink ::
  "sm_env \<Rightarrow> string \<Rightarrow> string \<Rightarrow> bool \<Rightarrow> session_permissions \<Rightarrow> session_manager
     \<Rightarrow> (string + access_link) \<times> session_manager" where
  "sm_CreateTemporaryAccessLink env sessionID createdByUserID oneTimeUse permissions m =
     (case sm_GetSession sessionID m of
        Inl err \<Rightarrow> (Inl err, m)
      | Inr p \<Rightarrow>
          let lnk = \<lparr>tl_ID = env_linkID env, tl_SessionID = sessionID, tl_CreatedByUserID = createdByUserID,
                tl_URL = ''/access/'' @ env_linkID env, tl_OneTimeUse = oneTimeUse,
                tl_Permissions = permissions, tl_CreatedAt = env_now env,
                tl_ExpiresAt = env_now env + 60 * minute, tl_RevokedAt = None, tl_AccessCount = 0\<rparr>;
              m = sm_write p (\<lambda>s. s\<lparr>se_TemporaryLinks := se_TemporaryLinks s @ [lnk]\<rparr>) m;
              m = sm_log (env_auditID env) sessionID createdByUserID ''temporary-link-created''
                    [(''linkId'', JStr (env_linkID env)), (''oneTimeUse'', JBool oneTimeUse)] (env_now env) m
          in (Inr lnk, m))"

section \<open>Goroutines\<close>

text \<open>
  \<open>provisionSession\<close> in two steps: up to the \<open>select\<close>, and after it, where \<open>cancelled\<close> says that the
  context ended first (a background context never does, and both callers pass one).
\<close>

definition sm_provisionStart :: "nat \<Rightarrow> time \<Rightarrow> session_manager \<Rightarrow> session_manager" where
  "sm_provisionStart p now m =
     (let m = sm_write p (\<lambda>s. s\<lparr>se_State := SessionStateProvisioning, se_UpdatedAt := now\<rparr>) m
      in sm_spawn (ProvisionWait p (now + 5 * second)) m)"

definition sm_provisionEnd :: "nat \<Rightarrow> bool \<Rightarrow> time \<Rightarrow> session_manager \<Rightarrow> session_manager" where
  "sm_provisionEnd p cancelled now m =
     (if cancelled
      then sm_write p (\<lambda>s. s\<lparr>se_State := SessionStateFailed, se_UpdatedAt := now\<rparr>) m
      else sm_write p (\<lambda>s. s\<lparr>se_State := SessionStateConnecting, se_UpdatedAt := now\<rparr>) m)"

text \<open>One step of the \<open>i\<close>th goroutine at time \<open>now\<close>; a timer that has not run out stays.\<close>

definition sm_run_task :: "nat \<Rightarrow> time \<Rightarrow> session_manager \<Rightarrow> session_manager" where
  "sm_run_task i now m =
     (if i < length (sm_tasks m) then
        let rest = m\<lparr>sm_tasks := take i (sm_tasks m) @ drop (Suc i) (sm_tasks m)\<rparr>
        in case sm_tasks m ! i of
             ProvisionStart p \<Rightarrow> sm_provisionStart p now rest
           | ProvisionWait p deadline \<Rightarrow> if deadline \<le> now then sm_provisionEnd p False now rest else m
           | RemoveAfter sessionID deadline \<Rightarrow>
               if deadline \<le> now then rest\<lparr>sm_sessions := (sm_sessions rest)(sessionID := None)\<rparr> else m
      else m)"

section \<open>Runs\<close>

datatype sm_call = SmCreate sm_env create_request | SmApprove sm_env string string
  | SmSetState sm_env string session_state | SmEnd sm_env string string
  | SmQuality sm_env string "network_quality option"
  | SmLink sm_env string string bool session_permissions | SmTask nat time

definition sm_step :: "session_manager \<Rightarrow> sm_call \<Rightarrow> session_manager" where
  "sm_step m c = (case c of
     SmCreate env req \<Rightarrow> snd (sm_CreateSession env req m)
   | SmApprove env k u \<Rightarrow> snd (sm_ApproveSession env k u m)
   | SmSetState env k st \<Rightarrow> snd (sm_UpdateSessionState env k st m)
   | SmEnd env k reason \<Rightarrow> snd (sm_EndSession env k reason m)
   | SmQuality env k q \<Rightarrow> snd (sm_UpdateNetworkQuality env k q m)
   | SmLink env k u once perms \<Rightarrow> snd (sm_CreateTemporaryAccessLink env k u once perms m)
   | SmTask i now \<Rightarrow> sm_run_task i now m)"

abbreviation sm_run :: "host_allocator \<Rightarrow> sm_call list \<Rightarrow> session_manager" where
  "sm_run alloc cs \<equiv> foldl sm_step (NewSessionManager alloc) cs"

section \<open>Invariant: approval\<close>

definition needs_approval :: "session \<Rightarrow> bool" where
  "needs_approval s \<longleftrightarrow> se_Type s = SessionTypeRemoteSupport \<and> pm_RequiresUserApproval (se_Permissions s)"

fun sm_target :: "sm_task \<Rightarrow> nat option" where
  "sm_target (ProvisionStart p) = Some p"
| "sm_target (ProvisionWait p d) = Some p"
| "sm_target (RemoveAfter k d) = None"

definition approved_in :: "sm_call list \<Rightarrow> string \<Rightarrow> bool" where
  "approved_in cs k \<longleftrightarrow> (\<exists>env u. SmApprove env k u \<in> set cs)"

definition state_set_in :: "sm_call list \<Rightarrow> string \<Rightarrow> bool" where
  "state_set_in cs k \<longleftrightarrow> (\<exists>env st. SmSetState env k st \<in> set cs)"

text \<open>
  \<open>cs\<close> are the calls so far. A session that needs approval and has not been given it has no
  provisioning goroutine, and its state is still the waiting one unless it was ended or its state was
  set by hand.
\<close>

definition sm_wf :: "session_manager \<Rightarrow> bool" where
  "sm_wf m \<longleftrightarrow>
     (\<forall>k p. sm_sessions m k = Some p \<longrightarrow> (\<exists>s. sm_mem m p = Some s \<and> se_ID s = k)) \<and>
     (\<forall>p. sm_mem m p \<noteq> None \<longrightarrow> p < sm_next m) \<and>
     (\<forall>t \<in> set (sm_tasks m). \<forall>p. sm_target t = Some p \<longrightarrow> sm_mem m p \<noteq> None)"

definition sm_held :: "sm_call list \<Rightarrow> session_manager \<Rightarrow> nat \<Rightarrow> session \<Rightarrow> bool" where
  "sm_held cs m p s \<longleftrightarrow>
     needs_approval s \<and> \<not> approved_in cs (se_ID s) \<longrightarrow>
       (\<forall>t \<in> set (sm_tasks m). sm_target t \<noteq> Some p) \<and>
       (se_State s \<in> {SessionStateWaitingApproval, SessionStateEnded} \<or> state_set_in cs (se_ID s))"

definition sm_ok :: "sm_call list \<Rightarrow> session_manager \<Rightarrow> bool" where
  "sm_ok cs m \<longleftrightarrow> sm_wf m \<and> (\<forall>p s. sm_mem m p = Some s \<longrightarrow> sm_held cs m p s)"

lemma sm_ok_new: "sm_ok [] (NewSessionManager alloc)"
  by (simp add: sm_ok_def sm_wf_def NewSessionManager_def)

lemma sm_ok_mono: "sm_ok cs m \<Longrightarrow> set cs \<subseteq> set cs' \<Longrightarrow> sm_ok cs' m"
  by (simp add: sm_ok_def sm_held_def approved_in_def state_set_in_def) (meson subsetD)

lemma sm_wf_session:
  assumes "sm_wf m" "sm_sessions m k = Some p"
  shows "\<exists>s. sm_mem m p = Some s \<and> se_ID s = k" and "se_ID (sm_session m p) = k"
  using assms by (fastforce simp: sm_wf_def)+

lemma sm_ok_tasks:
  assumes "sm_ok cs m" "set ts \<subseteq> set (sm_tasks m)"
  shows "sm_ok cs (m\<lparr>sm_tasks := ts\<rparr>)"
  using assms by (auto simp: sm_ok_def sm_wf_def sm_held_def dest: subsetD)

lemma sm_spawn_sel [simp]:
  "sm_mem (sm_spawn t m) = sm_mem m" "sm_tasks (sm_spawn t m) = sm_tasks m @ [t]"
  "sm_sessions (sm_spawn t m) = sm_sessions m"
  "sm_pendingApprovals (sm_spawn t m) = sm_pendingApprovals m"
  "sm_next (sm_spawn t m) = sm_next m"
  by (simp_all add: sm_spawn_def)

lemma sm_ok_spawn:
  assumes ok: "sm_ok cs m"
    and t: "\<And>p. sm_target t = Some p \<Longrightarrow> \<exists>s. sm_mem m p = Some s \<and> (\<not> needs_approval s \<or> approved_in cs (se_ID s))"
  shows "sm_ok cs (sm_spawn t m)"
proof -
  have "sm_held cs (sm_spawn t m) p s" if p: "sm_mem m p = Some s" for p s
  proof -
    have "sm_held cs m p s" using ok p by (simp add: sm_ok_def)
    then show ?thesis using t [of p] p by (auto simp: sm_held_def)
  qed
  moreover have "sm_wf (sm_spawn t m)"
    using ok t by (fastforce simp: sm_ok_def sm_wf_def)
  ultimately show ?thesis by (simp add: sm_ok_def)
qed

lemma sm_ok_fields:
  "sm_ok cs (m\<lparr>sm_auditLogger := a\<rparr>) \<longleftrightarrow> sm_ok cs m"
  "sm_ok cs (m\<lparr>sm_pendingApprovals := q\<rparr>) \<longleftrightarrow> sm_ok cs m"
  by (simp_all add: sm_ok_def sm_wf_def sm_held_def)

lemma sm_ok_log [simp]: "sm_ok cs (sm_log i k u act md now m) \<longleftrightarrow> sm_ok cs m"
  by (simp add: sm_log_def sm_ok_fields)

lemma sm_log_sel [simp]:
  "sm_mem (sm_log i k u act md now m) = sm_mem m" "sm_tasks (sm_log i k u act md now m) = sm_tasks m"
  "sm_sessions (sm_log i k u act md now m) = sm_sessions m"
  "sm_pendingApprovals (sm_log i k u act md now m) = sm_pendingApprovals m"
  "sm_next (sm_log i k u act md now m) = sm_next m"
  by (simp_all add: sm_log_def)

lemma sm_write_sel [simp]:
  "sm_mem (sm_write p f m) = (sm_mem m)(p \<mapsto> f (sm_session m p))"
  "sm_tasks (sm_write p f m) = sm_tasks m" "sm_sessions (sm_write p f m) = sm_sessions m"
  "sm_pendingApprovals (sm_write p f m) = sm_pendingApprovals m"
  "sm_next (sm_write p f m) = sm_next m"
  by (simp_all add: sm_write_def)

lemma sm_ok_write:
  assumes ok: "sm_ok cs m" and p: "sm_mem m p = Some s"
    and keep: "se_ID (f s) = se_ID s" "needs_approval (f s) = needs_approval s"
    and st: "\<not> needs_approval s \<or> approved_in cs (se_ID s) \<or> state_set_in cs (se_ID s) \<or>
      se_State (f s) \<in> {se_State s, SessionStateEnded}"
  shows "sm_ok cs (sm_write p f m)"
proof -
  have "sm_wf (sm_write p f m)"
    unfolding sm_wf_def
  proof (intro conjI allI impI ballI)
    fix k q assume "sm_sessions (sm_write p f m) k = Some q"
    then show "\<exists>s. sm_mem (sm_write p f m) q = Some s \<and> se_ID s = k"
      using ok p keep(1) sm_wf_session [of m k q] by (cases "q = p") (auto simp: sm_ok_def)
  next
    fix q assume "sm_mem (sm_write p f m) q \<noteq> None"
    then show "q < sm_next (sm_write p f m)"
      using ok p by (cases "q = p") (auto simp: sm_ok_def sm_wf_def)
  next
    fix t q assume "t \<in> set (sm_tasks (sm_write p f m))" "sm_target t = Some q"
    then show "sm_mem (sm_write p f m) q \<noteq> None"
      using ok by (auto simp: sm_ok_def sm_wf_def)
  qed
  moreover have "sm_held cs (sm_write p f m) q s'" if "sm_mem (sm_write p f m) q = Some s'" for q s'
  proof (cases "q = p")
    case True
    have "sm_held cs m p s" using ok p by (simp add: sm_ok_def)
    with that p True keep st show ?thesis by (auto simp: sm_held_def)
  next
    case False
    with that ok have "sm_held cs m q s'" by (simp add: sm_ok_def)
    then show ?thesis by (simp add: sm_held_def)
  qed
  ultimately show ?thesis by (simp add: sm_ok_def)
qed

lemma sm_ok_add_session:
  assumes ok: "sm_ok cs m" and st: "needs_approval s \<Longrightarrow> se_State s = SessionStateWaitingApproval"
  shows "sm_ok cs (sm_add_session s m)"
proof -
  have wf: "sm_wf m" using ok by (simp add: sm_ok_def)
  have fresh: "sm_mem m (sm_next m) = None"
    using wf unfolding sm_wf_def by (metis less_irrefl)
  have "sm_wf (sm_add_session s m)"
    unfolding sm_wf_def
  proof (intro conjI allI impI ballI)
    fix k q assume "sm_sessions (sm_add_session s m) k = Some q"
    then show "\<exists>s'. sm_mem (sm_add_session s m) q = Some s' \<and> se_ID s' = k"
      using sm_wf_session(1) [OF wf, of k q] fresh
      by (cases "k = se_ID s") (auto simp: sm_add_session_def)
  next
    fix q assume "sm_mem (sm_add_session s m) q \<noteq> None"
    then have "q = sm_next m \<or> sm_mem m q \<noteq> None" by (auto simp: sm_add_session_def split: if_splits)
    then have "q = sm_next m \<or> q < sm_next m" using wf unfolding sm_wf_def by blast
    then show "q < sm_next (sm_add_session s m)" by (auto simp: sm_add_session_def)
  next
    fix t q assume "t \<in> set (sm_tasks (sm_add_session s m))" "sm_target t = Some q"
    then show "sm_mem (sm_add_session s m) q \<noteq> None"
      using wf by (auto simp: sm_wf_def sm_add_session_def)
  qed
  moreover have "sm_held cs (sm_add_session s m) q s'" if q: "sm_mem (sm_add_session s m) q = Some s'" for q s'
  proof (cases "q = sm_next m")
    case True
    have "sm_target t \<noteq> Some q" if "t \<in> set (sm_tasks m)" for t
      using wf fresh that True unfolding sm_wf_def by blast
    with q True st show ?thesis by (auto simp: sm_held_def sm_add_session_def)
  next
    case False
    with q ok have "sm_held cs m q s'" by (simp add: sm_ok_def sm_add_session_def)
    then show ?thesis by (simp add: sm_held_def sm_add_session_def)
  qed
  ultimately show ?thesis by (simp add: sm_ok_def)
qed

lemma new_session_sel [simp]:
  "se_State (new_session env req prof h st) = st"
  "needs_approval (new_session env req prof h st) \<longleftrightarrow>
     rq_Type req = SessionTypeRemoteSupport \<and> pm_RequiresUserApproval (rq_Permissions req)"
  "se_ID (new_session env req prof h st) = env_sessionID env"
  by (simp_all add: new_session_def needs_approval_def)

lemma sm_ok_Create: "sm_ok cs m \<Longrightarrow> sm_ok cs (snd (sm_CreateSession env req m))"
proof -
  assume ok: "sm_ok cs m"
  let ?req = "with_defaults req"
  let ?prof = "buildStreamProfile (rq_StreamPreset ?req) (rq_RequestedResolution ?req) (rq_Mode ?req)"
  consider "rq_UserID req = ''''"
    | "rq_UserID req \<noteq> ''''" "rq_Type ?req = SessionTypeRemoteSupport \<and> pm_RequiresUserApproval (rq_Permissions ?req)"
    | "rq_UserID req \<noteq> ''''" "\<not> (rq_Type ?req = SessionTypeRemoteSupport \<and> pm_RequiresUserApproval (rq_Permissions ?req))"
    by blast
  then show ?thesis
  proof cases
    case 2
    have "sm_ok cs (sm_add_session (new_session env ?req ?prof '''' SessionStateWaitingApproval) m)"
      by (rule sm_ok_add_session [OF ok]) simp
    with 2 show ?thesis
      by (simp add: sm_CreateSession_def sm_createSessionRequiringApproval_def Let_def sm_ok_fields)
  next
    case 3
    show ?thesis
    proof (cases "ha_AllocateHost (env_order env) (env_now env) (rq_Type ?req) (rq_ResourceClass ?req)
        (rq_Region ?req) (rq_GPURequired ?req) (sm_hostAllocator m)")
      case (Inr h)
      let ?s = "new_session env ?req ?prof (gh_ID (ha_host (sm_hostAllocator m) h)) SessionStateQueued"
      have "sm_ok cs (sm_add_session ?s m)"
        by (rule sm_ok_add_session [OF ok]) (use 3 in simp)
      moreover have "sm_mem (sm_add_session ?s m) (sm_next m) = Some ?s" by (simp add: sm_add_session_def)
      moreover have "\<not> needs_approval ?s" using 3 by simp
      ultimately show ?thesis
        using 3 Inr unfolding sm_CreateSession_def Let_def
        by (auto intro!: sm_ok_spawn)
    qed (use 3 ok in \<open>auto simp: sm_CreateSession_def Let_def\<close>)
  qed (use ok in \<open>simp add: sm_CreateSession_def\<close>)
qed

lemma sm_ok_Approve:
  assumes ok: "sm_ok cs m" and app: "approved_in cs k"
  shows "sm_ok cs (snd (sm_ApproveSession env k u m))"
proof (cases "sm_sessions m k")
  case (Some p)
  have "sm_wf m" using ok by (simp add: sm_ok_def)
  from sm_wf_session(1) [OF this Some] obtain s where s: "sm_mem m p = Some s" "se_ID s = k" by blast
  let ?f = "\<lambda>s. s\<lparr>se_Permissions := (se_Permissions s)\<lparr>pm_ApprovedByUserID := u, pm_ApprovedAt := env_now env\<rparr>,
                 se_State := SessionStateQueued, se_UpdatedAt := env_now env\<rparr>"
  have w: "sm_ok cs (sm_write p ?f (m\<lparr>sm_pendingApprovals := (sm_pendingApprovals m)(k := None)\<rparr>))"
    by (rule sm_ok_write [where s = s]) (use ok s app in \<open>simp_all add: sm_ok_fields needs_approval_def\<close>)
  show ?thesis
  proof (cases "se_State s = SessionStateWaitingApproval")
    case True
    with Some s show ?thesis
      unfolding sm_ApproveSession_def Let_def
      using w app by (simp, intro sm_ok_spawn) (simp_all add: needs_approval_def)
  qed (use Some s ok in \<open>simp add: sm_ApproveSession_def\<close>)
qed (use ok in \<open>simp add: sm_ApproveSession_def\<close>)

text \<open>The operations that only write one session.\<close>

lemma sm_ok_write_found:
  assumes ok: "sm_ok cs m" and k: "sm_sessions m k = Some p"
    and "\<And>s. se_ID (f s) = se_ID s" "\<And>s. needs_approval (f s) = needs_approval s"
    and "state_set_in cs k \<or> (\<forall>s. se_State (f s) \<in> {se_State s, SessionStateEnded})"
  shows "sm_ok cs (sm_write p f m)"
proof -
  have "sm_wf m" using ok by (simp add: sm_ok_def)
  from sm_wf_session(1) [OF this k] obtain s where s: "sm_mem m p = Some s" "se_ID s = k" by blast
  show ?thesis by (rule sm_ok_write [OF ok s(1)]) (use assms s in auto)
qed

lemma sm_GetSession_Inr: "sm_GetSession k m = Inr p \<longleftrightarrow> sm_sessions m k = Some p"
  by (simp add: sm_GetSession_def split: option.split)

lemma sm_ok_SetState:
  assumes ok: "sm_ok cs m" and st: "state_set_in cs k"
  shows "sm_ok cs (snd (sm_UpdateSessionState env k s m))"
proof (cases "sm_GetSession k m")
  case (Inr p)
  then have k: "sm_sessions m k = Some p" by (simp add: sm_GetSession_Inr)
  let ?m = "sm_write p (\<lambda>r. r\<lparr>se_State := s, se_UpdatedAt := env_now env\<rparr>) m"
  have 1: "sm_ok cs ?m"
    by (rule sm_ok_write_found [OF ok k]) (simp_all add: st needs_approval_def)
  have "sm_ok cs (sm_write p (\<lambda>r. r\<lparr>se_EndedAt := Some (env_now env)\<rparr>) ?m)"
    by (rule sm_ok_write_found [OF 1, of k]) (simp_all add: k needs_approval_def)
  with 1 Inr show ?thesis by (simp add: sm_UpdateSessionState_def Let_def)
qed (use ok in \<open>simp add: sm_UpdateSessionState_def\<close>)

lemma sm_ok_End:
  assumes ok: "sm_ok cs m"
  shows "sm_ok cs (snd (sm_EndSession env k reason m))"
proof (cases "sm_GetSession k m")
  case (Inr p)
  then have k: "sm_sessions m k = Some p" by (simp add: sm_GetSession_Inr)
  have "sm_ok cs (sm_write p (\<lambda>s. s\<lparr>se_State := SessionStateEnded, se_EndedAt := Some (env_now env),
                                   se_UpdatedAt := env_now env\<rparr>) m)"
    by (rule sm_ok_write_found [OF ok k]) (simp_all add: needs_approval_def)
  with Inr show ?thesis
    unfolding sm_EndSession_def Let_def by simp (rule sm_ok_spawn; simp)
qed (use ok in \<open>simp add: sm_EndSession_def\<close>)

lemma sm_ok_Quality: "sm_ok cs m \<Longrightarrow> sm_ok cs (snd (sm_UpdateNetworkQuality env k q m))"
  by (auto simp: sm_UpdateNetworkQuality_def sm_GetSession_def needs_approval_def
      split: option.split intro!: sm_ok_write_found)

lemma sm_ok_Link: "sm_ok cs m \<Longrightarrow> sm_ok cs (snd (sm_CreateTemporaryAccessLink env k u once perms m))"
  by (auto simp: sm_CreateTemporaryAccessLink_def sm_GetSession_def needs_approval_def Let_def
      split: option.split intro!: sm_ok_write_found)

lemma sm_ok_Task:
  assumes ok: "sm_ok cs m"
  shows "sm_ok cs (sm_run_task i now m)"
proof (cases "i < length (sm_tasks m)")
  case True
  let ?rest = "m\<lparr>sm_tasks := take i (sm_tasks m) @ drop (Suc i) (sm_tasks m)\<rparr>"
  have rest: "sm_ok cs ?rest"
    by (rule sm_ok_tasks [OF ok]) (auto dest: in_set_takeD in_set_dropD)
  have mem: "sm_tasks m ! i \<in> set (sm_tasks m)" using True by simp
  have target: "\<exists>s. sm_mem m p = Some s \<and> (\<not> needs_approval s \<or> approved_in cs (se_ID s))"
    if "sm_target (sm_tasks m ! i) = Some p" for p
    using ok mem that unfolding sm_ok_def sm_wf_def sm_held_def by (metis option.exhaust)
  have written: "sm_ok cs (sm_write p f ?rest)"
    if t: "sm_target (sm_tasks m ! i) = Some p" and f: "\<And>s. se_ID (f s) = se_ID s"
      "\<And>s. needs_approval (f s) = needs_approval s" for p f
  proof -
    obtain s where "sm_mem m p = Some s" "\<not> needs_approval s \<or> approved_in cs (se_ID s)"
      using target [OF t] by blast
    then show ?thesis by (intro sm_ok_write [OF rest, of p s]) (auto simp: f)
  qed
  show ?thesis
  proof (cases "sm_tasks m ! i")
    case (ProvisionStart p)
    let ?m = "sm_write p (\<lambda>s. s\<lparr>se_State := SessionStateProvisioning, se_UpdatedAt := now\<rparr>) ?rest"
    have "sm_ok cs ?m" by (rule written) (simp_all add: ProvisionStart needs_approval_def)
    then have "sm_ok cs (sm_spawn (ProvisionWait p (now + 5 * second)) ?m)"
      by (rule sm_ok_spawn) (use target [of p] ProvisionStart in \<open>auto simp: needs_approval_def\<close>)
    with True ProvisionStart show ?thesis by (simp add: sm_run_task_def sm_provisionStart_def Let_def)
  next
    case (ProvisionWait p d)
    have "sm_ok cs (sm_provisionEnd p False now ?rest)"
      unfolding sm_provisionEnd_def
      by (simp, rule written) (simp_all add: ProvisionWait needs_approval_def)
    with True ProvisionWait ok show ?thesis by (simp add: sm_run_task_def Let_def)
  next
    case (RemoveAfter k d)
    have "sm_ok cs (?rest\<lparr>sm_sessions := (sm_sessions ?rest)(k := None)\<rparr>)"
      using rest by (auto simp: sm_ok_def sm_wf_def sm_held_def)
    with True RemoveAfter ok show ?thesis by (simp add: sm_run_task_def Let_def)
  qed
qed (use ok in \<open>simp add: sm_run_task_def\<close>)

lemma sm_ok_run: "sm_ok cs (sm_run alloc cs)"
proof (induction cs rule: rev_induct)
  case (snoc c cs)
  let ?m = "sm_run alloc cs" and ?cs = "cs @ [c]"
  have ok: "sm_ok ?cs ?m" by (rule sm_ok_mono [OF snoc]) auto
  have "sm_ok ?cs (sm_step ?m c)"
  proof (cases c)
    case (SmApprove env k u)
    then have "approved_in ?cs k" by (auto simp: approved_in_def)
    from sm_ok_Approve [OF ok this] SmApprove show ?thesis by (simp add: sm_step_def)
  next
    case (SmSetState env k st)
    then have "state_set_in ?cs k" by (auto simp: state_set_in_def)
    from sm_ok_SetState [OF ok this] SmSetState show ?thesis by (simp add: sm_step_def)
  qed (use ok in \<open>auto simp: sm_step_def intro: sm_ok_Create sm_ok_End sm_ok_Quality sm_ok_Link sm_ok_Task\<close>)
  then show ?case by simp
qed (simp add: sm_ok_new)

section \<open>Properties\<close>

text \<open>
  C7: Remote support needs consent. In every run, a session that requires the user's approval and was
  never approved has no provisioning goroutine, and it is still waiting, or ended, unless a caller set
  its state by hand.
\<close>

theorem sm_no_provisioning_without_approval:
  assumes "sm_mem (sm_run alloc cs) p = Some s" and "needs_approval s"
    and "\<forall>env u. SmApprove env (se_ID s) u \<notin> set cs"
  shows "(\<forall>t \<in> set (sm_tasks (sm_run alloc cs)). sm_target t \<noteq> Some p) \<and>
    (se_State s = SessionStateWaitingApproval \<or> se_State s = SessionStateEnded \<or>
     (\<exists>env st. SmSetState env (se_ID s) st \<in> set cs))"
proof -
  have "sm_held cs (sm_run alloc cs) p s" using sm_ok_run [of cs alloc] assms(1) by (simp add: sm_ok_def)
  then show ?thesis using assms(2,3) by (simp add: sm_held_def approved_in_def state_set_in_def) 
qed

text \<open>
  What creating a session does: without a user, or when no approval is needed and no host can be
  allocated, it fails and changes nothing; otherwise it stores a new session under its id with the
  defaults filled in, and starts provisioning exactly when no approval is needed.
\<close>

theorem sm_create_exact:
  assumes "sm_CreateSession env req m = (r, m')"
  defines "needs \<equiv> rq_Type req = SessionTypeRemoteSupport \<and> pm_RequiresUserApproval (rq_Permissions req)"
  shows "case r of
      Inl e \<Rightarrow> m' = m \<and> (rq_UserID req = '''' \<or> (\<not> needs \<and>
        (\<exists>e'. ha_AllocateHost (env_order env) (env_now env) (rq_Type req) (rq_ResourceClass req)
           (rq_Region req) (rq_GPURequired req) (sm_hostAllocator m) = Inl e')))
    | Inr a \<Rightarrow> rp_Session a = sm_next m \<and> sm_sessions m' (env_sessionID env) = Some (sm_next m) \<and>
        (let s = sm_session m' (sm_next m) in
           se_State s = (if needs then SessionStateWaitingApproval else SessionStateQueued) \<and>
           pm_MaxDurationSeconds (se_Permissions s) \<noteq> 0 \<and> sp_ResolutionWidth (se_StreamProfile s) \<noteq> 0 \<and>
           sm_tasks m' = sm_tasks m @ (if needs then [] else [ProvisionStart (sm_next m)]) \<and>
           (needs \<longleftrightarrow> needs_approval s) \<and>
           (needs \<longrightarrow> sm_pendingApprovals m' (env_sessionID env) \<noteq> None))"
proof -
  have d: "rq_Type (with_defaults req) = rq_Type req" "rq_ResourceClass (with_defaults req) = rq_ResourceClass req"
    "rq_Region (with_defaults req) = rq_Region req" "rq_GPURequired (with_defaults req) = rq_GPURequired req"
    "pm_RequiresUserApproval (rq_Permissions (with_defaults req)) = pm_RequiresUserApproval (rq_Permissions req)"
    "pm_MaxDurationSeconds (rq_Permissions (with_defaults req)) \<noteq> 0"
    "rs_Width (rq_RequestedResolution (with_defaults req)) \<noteq> 0"
    by (simp_all add: with_defaults_def Let_def)
  have w: "sp_ResolutionWidth (buildStreamProfile p res md) = rs_Width res" for p res md
    by (simp add: buildStreamProfile_def Let_def)
  have s: "se_Permissions (new_session env q prof h st) = rq_Permissions q"
    "se_StreamProfile (new_session env q prof h st) = prof" for q prof h st
    by (simp_all add: new_session_def)
  show ?thesis
  proof (cases "rq_UserID req = ''''")
    case True
    with assms show ?thesis by (auto simp: sm_CreateSession_def)
  next
    case user: False
    show ?thesis
    proof (cases needs)
      case True
      with assms user show ?thesis
        by (auto simp: sm_CreateSession_def sm_createSessionRequiringApproval_def Let_def d w s
            create_answer_def sm_add_session_def)
    next
      case False
      then have n: "\<not> (rq_Type req = SessionTypeRemoteSupport \<and> pm_RequiresUserApproval (rq_Permissions req))"
        by (simp add: needs_def)
      from assms(1) user n show ?thesis
        unfolding sm_CreateSession_def Let_def d needs_def if_not_P [OF n] if_not_P [OF user]
        by (auto simp: create_answer_def sm_add_session_def d w s split: sum.splits)
    qed
  qed
qed

text \<open>
  The five minutes for an approval are not enforced: a waiting session can be approved however
  long after the expiry of its pending approval, and then starts provisioning.
\<close>

theorem sm_approval_never_expires:
  assumes "sm_sessions m k = Some p" "se_State (sm_session m p) = SessionStateWaitingApproval"
    and "sm_pendingApprovals m k = Some pa" "pa_ExpiresAt pa < env_now env"
  shows "fst (sm_ApproveSession env k u m) = Inr () \<and>
    se_State (sm_session (snd (sm_ApproveSession env k u m)) p) = SessionStateQueued \<and>
    ProvisionStart p \<in> set (sm_tasks (snd (sm_ApproveSession env k u m)))"
  using assms by (simp add: sm_ApproveSession_def Let_def)

text \<open>
  Ending a session while it is being provisioned does not stop the goroutine: when its wait is
  over it sets the ended session to connecting.
\<close>

theorem sm_ended_session_revived:
  assumes "sm_sessions m k = Some p" "i < length (sm_tasks m)" "sm_tasks m ! i = ProvisionWait p d" "d \<le> now"
  shows "let m' = snd (sm_EndSession env k reason m); m'' = sm_run_task i now m' in
    se_State (sm_session m' p) = SessionStateEnded \<and>
    se_State (sm_session m'' p) = SessionStateConnecting \<and> se_EndedAt (sm_session m'' p) = Some (env_now env)"
proof -
  have g: "sm_GetSession k m = Inr p" using assms(1) by (simp add: sm_GetSession_Inr)
  have nth: "(sm_tasks m @ ts) ! i = ProvisionWait p d" for ts using assms(2,3) by (simp add: nth_append)
  show ?thesis
    using assms(2,4)
    by (simp add: sm_EndSession_def g Let_def sm_run_task_def nth sm_provisionEnd_def)
qed

text \<open>
  Ending a waiting session leaves its pending approval behind, and once the session is removed no
  call but a new session with the same id takes it out again.
\<close>

theorem sm_pending_approval_leaks:
  assumes "sm_sessions m k = None" "sm_pendingApprovals m k = Some pa"
    and "\<forall>c \<in> set cs. \<forall>env req. c = SmCreate env req \<longrightarrow> env_sessionID env \<noteq> k"
  shows "sm_pendingApprovals (foldl sm_step m cs) k = Some pa"
proof -
  have step: "sm_sessions (sm_step m c) k = None \<and> sm_pendingApprovals (sm_step m c) k = Some pa"
    if "sm_sessions m k = None" "sm_pendingApprovals m k = Some pa"
      "\<forall>env req. c = SmCreate env req \<longrightarrow> env_sessionID env \<noteq> k" for m c
  proof (cases c)
    case (SmCreate env req)
    with that show ?thesis
      by (auto simp: sm_step_def sm_CreateSession_def sm_createSessionRequiringApproval_def Let_def
          sm_add_session_def split: sum.split)
  next
    case (SmTask i now)
    with that show ?thesis
      by (auto simp: sm_step_def sm_run_task_def sm_provisionStart_def sm_provisionEnd_def Let_def
          split: sm_task.split)
  qed (use that in \<open>auto simp: sm_step_def sm_ApproveSession_def sm_UpdateSessionState_def sm_EndSession_def
        sm_UpdateNetworkQuality_def sm_CreateTemporaryAccessLink_def sm_GetSession_def Let_def
        split: option.split\<close>)
  have "sm_sessions (foldl sm_step m cs) k = None \<and> sm_pendingApprovals (foldl sm_step m cs) k = Some pa"
    using assms
  proof (induction cs arbitrary: m)
    case (Cons c cs)
    have "\<forall>env req. c = SmCreate env req \<longrightarrow> env_sessionID env \<noteq> k" using Cons.prems(3) by simp
    note s = step [OF Cons.prems(1,2) this]
    have "\<forall>c \<in> set cs. \<forall>env req. c = SmCreate env req \<longrightarrow> env_sessionID env \<noteq> k"
      using Cons.prems(3) by simp
    from Cons.IH [OF conjunct1 [OF s] conjunct2 [OF s] this] show ?case by simp
  qed simp
  then show ?thesis ..
qed

text \<open>
  Every profile that is built has its bitrates in order and a positive latency target, offers
  H.264, and carries the encoder configuration of its encoding mode; a gaming profile is built for
  speed and has the lowest latency target.
\<close>

theorem sm_stream_profile_consistent:
  "let p = buildStreamProfile preset res md in
     0 < sp_MinBitrateKbps p \<and> sp_MinBitrateKbps p \<le> sp_StartBitrateKbps p \<and>
     sp_StartBitrateKbps p \<le> sp_MaxBitrateKbps p \<and> 0 < sp_LatencyTargetMs p \<and>
     ''h264'' \<in> set (sp_VideoCodecs p) \<and>
     sp_EncoderCfg p = buildDefaultEncoderConfig (sp_EncodingMode p) False \<and>
     (md = SessionModeGaming \<longrightarrow> sp_EncodingMode p = EncodingModeSpeed \<and>
        (\<forall>preset' res' md'. sp_LatencyTargetMs p \<le> sp_LatencyTargetMs (buildStreamProfile preset' res' md')))"
  by (simp add: buildStreamProfile_def Let_def)

section \<open>Examples\<close>

definition ex_env :: "string \<Rightarrow> time \<Rightarrow> sm_env" where
  "ex_env k now = \<lparr>env_sessionID = k, env_token = ''t'', env_linkID = ''l'', env_auditID = ''e'',
     env_now = now, env_order = [''a'', ''b'', ''c'']\<rparr>"

definition ex_support :: "sm_call list" where
  "ex_support = [SmCreate (ex_env ''s1'' 0) (ex_request SessionTypeRemoteSupport True),
     SmCreate (ex_env ''s2'' 1) (ex_request SessionTypeDesktop False), SmTask 0 2]"

abbreviation ex_manager :: session_manager where
  "ex_manager \<equiv> sm_run (ha_run ex_run) ex_support"

theorem sm_no_provisioning_without_approval_witness:
  "list_all (\<lambda>t. sm_target t \<noteq> Some 0) (sm_tasks ex_manager) \<and>
    se_State (sm_session ex_manager 0) = SessionStateWaitingApproval"
proof -
  let ?s = "sm_session ex_manager 0"
  have "sm_mem ex_manager 0 \<noteq> None" by code_simp
  then have s: "sm_mem ex_manager 0 = Some ?s" by auto
  have "needs_approval ?s" by code_simp
  moreover have "\<forall>env u. SmApprove env (se_ID ?s) u \<notin> set ex_support" by (simp add: ex_support_def)
  ultimately have "\<forall>t \<in> set (sm_tasks ex_manager). sm_target t \<noteq> Some 0"
    using sm_no_provisioning_without_approval [OF s] by blast
  moreover have "se_State ?s = SessionStateWaitingApproval" by code_simp
  ultimately show ?thesis by (simp only: list_all_iff)
qed

theorem sm_create_exact_witness:
  "\<exists>a. fst (sm_CreateSession (ex_env ''s3'' 9) (ex_request SessionTypeDesktop False) ex_manager) = Inr a \<and>
     rp_Session a = sm_next ex_manager"
proof -
  obtain r m' where c: "sm_CreateSession (ex_env ''s3'' 9) (ex_request SessionTypeDesktop False) ex_manager = (r, m')"
    by (cases "sm_CreateSession (ex_env ''s3'' 9) (ex_request SessionTypeDesktop False) ex_manager")
  have "\<not> isl (fst (sm_CreateSession (ex_env ''s3'' 9) (ex_request SessionTypeDesktop False) ex_manager))"
    by code_simp
  then obtain a where "r = Inr a" using c by (cases r) auto
  with sm_create_exact [OF c] c show ?thesis by simp
qed

theorem sm_approval_never_expires_witness:
  "fst (sm_ApproveSession (ex_env '''' (6 * minute)) ''s1'' ''u2'' ex_manager) = Inr () \<and>
    se_State (sm_session (snd (sm_ApproveSession (ex_env '''' (6 * minute)) ''s1'' ''u2'' ex_manager)) 0) = SessionStateQueued \<and>
    ProvisionStart 0 \<in> set (sm_tasks (snd (sm_ApproveSession (ex_env '''' (6 * minute)) ''s1'' ''u2'' ex_manager)))"
proof -
  have pa: "sm_pendingApprovals ex_manager ''s1'' \<noteq> None" by code_simp
  show ?thesis
  proof (rule sm_approval_never_expires)
    show "sm_pendingApprovals ex_manager ''s1'' = Some (the (sm_pendingApprovals ex_manager ''s1''))"
      using pa by simp
  qed code_simp+
qed

theorem sm_ended_session_revived_witness:
  "let m' = snd (sm_EndSession (ex_env '''' second) ''s2'' ''bye'' ex_manager);
       m'' = sm_run_task 0 (6 * second) m' in
    se_State (sm_session m' 1) = SessionStateEnded \<and>
    se_State (sm_session m'' 1) = SessionStateConnecting \<and>
    se_EndedAt (sm_session m'' 1) = Some (env_now (ex_env '''' second))"
  by (rule sm_ended_session_revived [where d = "2 + 5 * second"]) code_simp+

definition ex_ended :: session_manager where
  "ex_ended = foldl sm_step ex_manager [SmEnd (ex_env '''' 3) ''s1'' ''bye'', SmTask 1 (6 * minute)]"

theorem sm_pending_approval_leaks_witness:
  "sm_pendingApprovals (foldl sm_step ex_ended [SmApprove (ex_env '''' 9) ''s1'' ''u2'', SmEnd (ex_env '''' 9) ''s1'' ''x'']) ''s1''
     = Some (the (sm_pendingApprovals ex_ended ''s1''))"
proof (rule sm_pending_approval_leaks)
  show "sm_sessions ex_ended ''s1'' = None" by code_simp
  have "sm_pendingApprovals ex_ended ''s1'' \<noteq> None" by code_simp
  then show "sm_pendingApprovals ex_ended ''s1'' = Some (the (sm_pendingApprovals ex_ended ''s1''))" by simp
qed simp

end
