(* ===== verification/SessionScheduler.thy ===== *)
theory SessionScheduler
  imports HostAllocator PtrHeap
begin

text \<open>
  apps/gateway/internal/session/scheduler.go: the queue of sessions that wait for a host. Each tick of
  the goroutine takes the session of highest priority and asks the host allocator; a session that
  fails goes back with a lower priority, and is dropped at its tenth failure. A tick is one step here, while the
  source releases the mutex of the queue around the call of the allocator, so that a session queued or taken
  out in between is not followed.
\<close>

section \<open>State and operations\<close>

record queued_session =
  qs_SessionID :: string
  qs_Request :: create_request
  qs_QueuedAt :: time
  qs_Priority :: int
  qs_FailedAttempts :: int

definition qs_before :: "queued_session \<Rightarrow> queued_session \<Rightarrow> bool" where
  "qs_before a b \<longleftrightarrow> qs_Priority a > qs_Priority b"

record session_scheduler =
  ss_queue :: "queued_session pheap"

definition NewSessionScheduler :: session_scheduler where
  "NewSessionScheduler = \<lparr>ss_queue = ph_empty\<rparr>"

definition calculatePriority :: "create_request \<Rightarrow> int" where
  "calculatePriority request =
     (case rq_Type request of
        SessionTypeGaming \<Rightarrow> 100
      | SessionTypeRemoteSupport \<Rightarrow> 75
      | SessionTypeDesktop \<Rightarrow> 50
      | SessionTypeHost \<Rightarrow> 25
      | _ \<Rightarrow> 10)"

definition ss_Enqueue :: "string \<Rightarrow> create_request \<Rightarrow> time \<Rightarrow> session_scheduler \<Rightarrow> session_scheduler" where
  "ss_Enqueue sessionID request now s =
     s\<lparr>ss_queue := ph_push qs_before
        \<lparr>qs_SessionID = sessionID, qs_Request = request, qs_QueuedAt = now,
         qs_Priority = calculatePriority request, qs_FailedAttempts = 0\<rparr> (ss_queue s)\<rparr>"

text \<open>The position of the first session with the id, in the order of the slice.\<close>

fun find_index :: "('a \<Rightarrow> bool) \<Rightarrow> 'a list \<Rightarrow> nat option" where
  "find_index p [] = None"
| "find_index p (x # xs) = (if p x then Some 0 else map_option Suc (find_index p xs))"

definition ss_Dequeue :: "string \<Rightarrow> session_scheduler \<Rightarrow> session_scheduler" where
  "ss_Dequeue sessionID s =
     (case find_index (\<lambda>h. qs_SessionID (ph_deref (ss_queue s) h) = sessionID) (ph_queue (ss_queue s)) of
        None \<Rightarrow> s
      | Some i \<Rightarrow> s\<lparr>ss_queue := ph_remove qs_before i (ss_queue s)\<rparr>)"

definition ss_GetQueueLength :: "session_scheduler \<Rightarrow> nat" where
  "ss_GetQueueLength s = length (ph_queue (ss_queue s))"

text \<open>What a tick logs: nothing, a session placed on a host, one dropped, or one put back.\<close>

datatype tick_result = TickIdle | TickScheduled string nat | TickDropped string | TickRetry string

definition maxFailures :: int where
  "maxFailures = 10"

definition ss_processQueue ::
  "string list \<Rightarrow> time \<Rightarrow> host_allocator \<Rightarrow> session_scheduler \<Rightarrow> tick_result \<times> session_scheduler" where
  "ss_processQueue ks now alloc s =
     (case ph_pop qs_before (ss_queue s) of
        None \<Rightarrow> (TickIdle, s)
      | Some (queued, q) \<Rightarrow>
          let s = s\<lparr>ss_queue := q\<rparr>; request = qs_Request queued
          in case ha_AllocateHost ks now (rq_Type request) (rq_ResourceClass request) (rq_Region request)
                    (rq_GPURequired request) alloc of
               Inl err \<Rightarrow>
                 let queued = queued\<lparr>qs_FailedAttempts := qs_FailedAttempts queued + 1\<rparr>
                 in if qs_FailedAttempts queued \<ge> maxFailures then (TickDropped (qs_SessionID queued), s)
                    else let queued = queued\<lparr>qs_Priority := max (qs_Priority queued - 1) 0\<rparr>
                         in (TickRetry (qs_SessionID queued),
                             s\<lparr>ss_queue := ph_push qs_before queued (ss_queue s)\<rparr>)
             | Inr host \<Rightarrow> (TickScheduled (qs_SessionID queued) host, s))"

section \<open>Invariant\<close>

interpretation qs: data_order qs_before
  by unfold_locales (auto simp: qs_before_def)

abbreviation ss_bag :: "session_scheduler \<Rightarrow> queued_session multiset" where
  "ss_bag s \<equiv> ph_bag (ss_queue s)"

text \<open>The heap is well formed and no queued session has used up its attempts.\<close>

definition ss_inv :: "session_scheduler \<Rightarrow> bool" where
  "ss_inv s \<longleftrightarrow> ph_inv qs_before (ss_queue s) \<and>
     (\<forall>q \<in># ss_bag s. 0 \<le> qs_FailedAttempts q \<and> qs_FailedAttempts q < maxFailures \<and>
        0 \<le> qs_Priority q \<and> qs_Priority q \<le> 100)"

lemma calculatePriority_range: "0 \<le> calculatePriority r \<and> calculatePriority r \<le> 100"
  by (simp add: calculatePriority_def split: session_type.split)

lemma ss_inv_new: "ss_inv NewSessionScheduler"
  by (simp add: ss_inv_def NewSessionScheduler_def)

lemma ss_inv_Enqueue:
  assumes "ss_inv s"
  shows "ss_inv (ss_Enqueue i r now s)"
    and "size (ss_bag (ss_Enqueue i r now s)) = Suc (size (ss_bag s))"
  using assms qs.push_keeps [of "ss_queue s"] calculatePriority_range [of r]
  by (auto simp: ss_inv_def ss_Enqueue_def maxFailures_def)

lemma find_index_Some: "find_index p xs = Some i \<Longrightarrow> i < length xs \<and> p (xs ! i)"
  by (induction xs arbitrary: i) (auto split: if_splits)

lemma find_index_None: "find_index p xs = None \<longleftrightarrow> (\<forall>x \<in> set xs. \<not> p x)"
  by (induction xs) auto

lemma ss_inv_Dequeue:
  assumes "ss_inv s"
  shows "ss_inv (ss_Dequeue i s)"
proof (cases "find_index (\<lambda>h. qs_SessionID (ph_deref (ss_queue s) h) = i) (ph_queue (ss_queue s))")
  case (Some n)
  from find_index_Some [OF this] have "n < length (ph_queue (ss_queue s))" by simp
  with assms Some qs.remove_keeps [of "ss_queue s" n] show ?thesis
    by (auto simp: ss_inv_def ss_Dequeue_def)
qed (use assms in \<open>simp add: ss_Dequeue_def\<close>)

text \<open>
  A tick, seen on the bag of queued sessions: a first session leaves, or comes back with one more
  failure and a priority that is not higher.
\<close>

lemma ss_tick_cases:
  assumes inv: "ss_inv s"
  obtains (idle) "ss_bag s = {#}" "ss_processQueue ks now a s = (TickIdle, s)"
  | (leaves) q s' r where "q \<in># ss_bag s" "ss_bag s = add_mset q (ss_bag s')" "ss_inv s'"
      "ss_processQueue ks now a s = (r, s')" "\<forall>e \<in># ss_bag s. qs_Priority e \<le> qs_Priority q"
      "\<forall>x. r \<noteq> TickRetry x"
  | (retry) q s' b where "q \<in># ss_bag s" "ss_bag s = add_mset q b"
      "ss_bag s' = add_mset (q\<lparr>qs_FailedAttempts := qs_FailedAttempts q + 1,
                              qs_Priority := max (qs_Priority q - 1) 0\<rparr>) b"
      "ss_inv s'" "qs_FailedAttempts q + 1 < maxFailures"
      "ss_processQueue ks now a s = (TickRetry (qs_SessionID q), s')"
      "\<forall>e \<in># ss_bag s. qs_Priority e \<le> qs_Priority q"
proof (cases "ph_pop qs_before (ss_queue s)")
  case None
  then show thesis
    using inv qs.pq.pop_None [of "ss_queue s"] by (intro idle) (simp_all add: ss_inv_def ss_processQueue_def)
next
  case (Some qd)
  obtain q h where pop: "ph_pop qs_before (ss_queue s) = Some (q, h)" using Some by (cases qd) auto
  have ph: "ph_inv qs_before (ss_queue s)" using inv by (simp add: ss_inv_def)
  note keeps = qs.pop_keeps [OF ph pop]
  have first: "\<forall>e \<in># ss_bag s. qs_Priority e \<le> qs_Priority q"
    using keeps(3) by (fastforce simp: qs_before_def)
  have inv': "ss_inv (s\<lparr>ss_queue := h\<rparr>)" using inv keeps by (auto simp: ss_inv_def)
  have q: "q \<in># ss_bag s" using keeps(2) by simp
  let ?r = "qs_Request q"
  show thesis
  proof (cases "ha_AllocateHost ks now (rq_Type ?r) (rq_ResourceClass ?r) (rq_Region ?r) (rq_GPURequired ?r) a")
    case (Inr host)
    with pop keeps(2) inv' first q show thesis
      by (intro leaves [of q "s\<lparr>ss_queue := h\<rparr>" "TickScheduled (qs_SessionID q) host"])
        (simp_all add: ss_processQueue_def)
  next
    case (Inl e)
    let ?q = "q\<lparr>qs_FailedAttempts := qs_FailedAttempts q + 1, qs_Priority := max (qs_Priority q - 1) 0\<rparr>"
    show thesis
    proof (cases "qs_FailedAttempts q + 1 \<ge> maxFailures")
      case True
      with Inl pop keeps(2) inv' first q show thesis
        by (intro leaves [of q "s\<lparr>ss_queue := h\<rparr>" "TickDropped (qs_SessionID q)"])
          (simp_all add: ss_processQueue_def Let_def)
    next
      case False
      have back_in: "ph_bag (ph_push qs_before ?q h) = add_mset ?q (ph_bag h)"
        "ph_inv qs_before (ph_push qs_before ?q h)"
        using qs.push_keeps [OF keeps(1), of ?q] by simp_all
      have "ss_inv (s\<lparr>ss_queue := ph_push qs_before ?q h\<rparr>)"
        using inv' back_in False q inv by (auto simp: ss_inv_def)
      with False Inl pop keeps(2) back_in first q show thesis
        by (intro retry [of q "ph_bag h" "s\<lparr>ss_queue := ph_push qs_before ?q h\<rparr>"])
          (simp_all add: ss_processQueue_def Let_def)
    qed
  qed
qed
section \<open>Runs\<close>

datatype ss_call = SsEnqueue string create_request time | SsDequeue string
  | SsTick "string list" time host_allocator

definition ss_step :: "session_scheduler \<Rightarrow> ss_call \<Rightarrow> session_scheduler" where
  "ss_step s c = (case c of
     SsEnqueue i r now \<Rightarrow> ss_Enqueue i r now s
   | SsDequeue i \<Rightarrow> ss_Dequeue i s
   | SsTick ks now a \<Rightarrow> snd (ss_processQueue ks now a s))"

lemma ss_inv_tick:
  assumes "ss_inv s"
  shows "ss_inv (snd (ss_processQueue ks now a s))"
  using assms by (rule ss_tick_cases [of s ks now a]) (use assms in auto)

interpretation ss: component ss_step ss_inv
  by unfold_locales (auto simp: ss_step_def ss_inv_Enqueue ss_inv_Dequeue ss_inv_tick split: ss_call.split)

abbreviation ss_run :: "ss_call list \<Rightarrow> session_scheduler" where
  "ss_run cs \<equiv> foldl ss_step NewSessionScheduler cs"

lemmas ss_run_inv = ss.run_inv [OF ss_inv_new]

text \<open>The attempts that the queued sessions still have.\<close>

definition ss_attempts :: "session_scheduler \<Rightarrow> nat" where
  "ss_attempts s = (\<Sum>q \<in># ss_bag s. nat (maxFailures - qs_FailedAttempts q))"

lemma ss_attempts_le: "ss_inv s \<Longrightarrow> ss_attempts s \<le> 10 * size (ss_bag s)"
proof -
  assume inv: "ss_inv s"
  have "ss_attempts s \<le> (\<Sum>q \<in># ss_bag s. 10)"
    unfolding ss_attempts_def
    by (rule sum_mset_mono) (use inv in \<open>auto simp: ss_inv_def maxFailures_def\<close>)
  then show ?thesis by (simp add: mult.commute)
qed

lemma ss_attempts_zero: "ss_inv s \<Longrightarrow> ss_attempts s = 0 \<Longrightarrow> ss_bag s = {#}"
proof (rule ccontr)
  assume inv: "ss_inv s" and zero: "ss_attempts s = 0" and "ss_bag s \<noteq> {#}"
  then obtain q b where "ss_bag s = add_mset q b" by (meson multiset_cases)
  with inv zero show False by (auto simp: ss_attempts_def ss_inv_def)
qed

lemma ss_tick_attempts:
  assumes inv: "ss_inv s"
  shows "ss_attempts (snd (ss_processQueue ks now a s)) \<le> ss_attempts s - 1"
  using inv
proof (cases rule: ss_tick_cases [of s ks now a])
  case idle
  then show ?thesis by (simp add: ss_attempts_def)
next
  case (leaves q s' r)
  have "0 < nat (maxFailures - qs_FailedAttempts q)" using inv leaves(1) by (auto simp: ss_inv_def)
  with leaves show ?thesis by (simp add: ss_attempts_def)
next
  case (retry q s' b)
  then show ?thesis by (simp add: ss_attempts_def maxFailures_def)
qed

definition ss_ticks :: "(string list \<times> time \<times> host_allocator) list \<Rightarrow> session_scheduler \<Rightarrow> session_scheduler" where
  "ss_ticks ts s = foldl (\<lambda>s (ks, now, a). snd (ss_processQueue ks now a s)) s ts"

lemma ss_ticks_attempts:
  "ss_inv s \<Longrightarrow> ss_inv (ss_ticks ts s) \<and> ss_attempts (ss_ticks ts s) \<le> ss_attempts s - length ts"
proof (induction ts arbitrary: s)
  case (Cons t ts)
  obtain ks now a where t: "t = (ks, now, a)" by (cases t)
  let ?s = "snd (ss_processQueue ks now a s)"
  have "ss_inv (ss_ticks ts ?s) \<and> ss_attempts (ss_ticks ts ?s) \<le> ss_attempts ?s - length ts"
    by (rule Cons.IH [OF ss_inv_tick [OF Cons.prems]])
  moreover have "ss_attempts ?s \<le> ss_attempts s - 1" by (rule ss_tick_attempts [OF Cons.prems])
  moreover have "ss_ticks (t # ts) s = ss_ticks ts ?s" by (simp add: ss_ticks_def t)
  ultimately show ?case by auto
qed (simp add: ss_ticks_def)

section \<open>Properties\<close>

text \<open>
  C18: No session blocks the queue. Whatever the run so far, and whatever the host allocator answers
  from then on, once no session arrives the queue is empty after at most ten ticks for each queued
  session.
\<close>

theorem ss_queue_empties:
  assumes "10 * ss_GetQueueLength (ss_run cs) \<le> length ts"
  shows "ss_GetQueueLength (ss_ticks ts (ss_run cs)) = 0"
proof -
  let ?s = "ss_run cs"
  have inv: "ss_inv ?s" by (rule ss_run_inv)
  have "size (ss_bag ?s) = ss_GetQueueLength ?s" by (simp add: ph_bag_def ss_GetQueueLength_def)
  with ss_attempts_le [OF inv] assms have "ss_attempts ?s \<le> length ts" by simp
  with ss_ticks_attempts [OF inv, of ts] have "ss_bag (ss_ticks ts ?s) = {#}"
    by (intro ss_attempts_zero) auto
  then show ?thesis by (simp add: ph_bag_def ss_GetQueueLength_def)
qed

text \<open>
  C35: What a tick does to the queue, in every reachable state. An empty queue stays. Otherwise one
  session of the highest priority is tried; it leaves when a host is found for it or when this is its
  tenth failure, and else it stays with its failure counted and its priority lowered, not below zero.
  All other sessions stay as they are.
\<close>

theorem ss_tick_exact:
  fixes cs :: "ss_call list"
  defines "s \<equiv> ss_run cs"
  assumes tick: "ss_processQueue ks now a s = (r, s')" and nonempty: "0 < ss_GetQueueLength s"
  shows "\<exists>q b. ss_bag s = add_mset q b \<and> (\<forall>e \<in># ss_bag s. qs_Priority e \<le> qs_Priority q) \<and>
    (let req = qs_Request q in
     case ha_AllocateHost ks now (rq_Type req) (rq_ResourceClass req) (rq_Region req) (rq_GPURequired req) a of
       Inr host \<Rightarrow> r = TickScheduled (qs_SessionID q) host \<and> ss_bag s' = b
     | Inl e \<Rightarrow>
         if qs_FailedAttempts q = 9 then r = TickDropped (qs_SessionID q) \<and> ss_bag s' = b
         else r = TickRetry (qs_SessionID q) \<and>
           ss_bag s' = add_mset (q\<lparr>qs_FailedAttempts := qs_FailedAttempts q + 1,
                                  qs_Priority := max (qs_Priority q - 1) 0\<rparr>) b)"
proof -
  have inv: "ss_inv s" unfolding s_def by (rule ss_run_inv)
  then have ph: "ph_inv qs_before (ss_queue s)" by (simp add: ss_inv_def)
  have "ss_bag s \<noteq> {#}" using nonempty by (auto simp: ph_bag_def ss_GetQueueLength_def)
  then obtain q h where pop: "ph_pop qs_before (ss_queue s) = Some (q, h)"
    using qs.pq.pop_None [OF ph] by (cases "ph_pop qs_before (ss_queue s)") auto
  note keeps = qs.pop_keeps [OF ph pop]
  have first: "\<forall>e \<in># ss_bag s. qs_Priority e \<le> qs_Priority q"
    using keeps(3) by (fastforce simp: qs_before_def)
  have "qs_FailedAttempts q < 10" using inv keeps(2) by (simp add: ss_inv_def maxFailures_def)
  then have ten: "maxFailures \<le> qs_FailedAttempts q + 1 \<longleftrightarrow> qs_FailedAttempts q = 9"
    by (auto simp: maxFailures_def)
  let ?req = "qs_Request q"
  show ?thesis
    using tick pop ten keeps(2) first qs.push_keeps(2) [OF keeps(1)]
    by (intro exI [of _ q] exI [of _ "ph_bag h"])
      (cases "ha_AllocateHost ks now (rq_Type ?req) (rq_ResourceClass ?req) (rq_Region ?req)
          (rq_GPURequired ?req) a", auto simp: ss_processQueue_def Let_def split: if_splits)
qed

definition ex_sessions :: "ss_call list" where
  "ex_sessions = [SsEnqueue ''d'' (ex_request SessionTypeDesktop False) 1,
     SsEnqueue ''g'' (ex_request SessionTypeGaming False) 2, SsDequeue ''x'', SsTick [] 3 NewHostAllocator]"

theorem ss_queue_empties_witness:
  "ss_GetQueueLength (ss_run ex_sessions) = 2 \<and>
   ss_GetQueueLength (ss_ticks (replicate 20 ([], 4, NewHostAllocator)) (ss_run ex_sessions)) = 0"
proof -
  have two: "ss_GetQueueLength (ss_run ex_sessions) = 2" by code_simp
  then show ?thesis using ss_queue_empties [of ex_sessions "replicate 20 ([], 4, NewHostAllocator)"] by simp
qed

theorem ss_tick_exact_witness:
  "\<exists>q b. ss_bag (ss_run ex_sessions) = add_mset q b \<and>
    (\<forall>e \<in># ss_bag (ss_run ex_sessions). qs_Priority e \<le> qs_Priority q) \<and>
    (let req = qs_Request q; (r, s') = ss_processQueue [] 4 NewHostAllocator (ss_run ex_sessions) in
     case ha_AllocateHost [] 4 (rq_Type req) (rq_ResourceClass req) (rq_Region req) (rq_GPURequired req)
       NewHostAllocator of
       Inr host \<Rightarrow> r = TickScheduled (qs_SessionID q) host \<and> ss_bag s' = b
     | Inl e \<Rightarrow>
         if qs_FailedAttempts q = 9 then r = TickDropped (qs_SessionID q) \<and> ss_bag s' = b
         else r = TickRetry (qs_SessionID q) \<and>
           ss_bag s' = add_mset (q\<lparr>qs_FailedAttempts := qs_FailedAttempts q + 1,
                                  qs_Priority := max (qs_Priority q - 1) 0\<rparr>) b)"
proof -
  obtain r s' where t: "ss_processQueue [] 4 NewHostAllocator (ss_run ex_sessions) = (r, s')"
    by (cases "ss_processQueue [] 4 NewHostAllocator (ss_run ex_sessions)")
  have "0 < ss_GetQueueLength (ss_run ex_sessions)" by code_simp
  from ss_tick_exact [OF t this] show ?thesis unfolding t Let_def prod.case .
qed

end
