(* ===== verification/RateLimit.thy ===== *)
theory RateLimit
  imports Prelude
begin

text \<open>
  apps/gateway/internal/ratelimit/ratelimit.go: the token bucket of every client. Token counts are
  rational numbers, so the rounding of the source's floating-point numbers is not modelled. The
  goroutine \<open>sweepLoop\<close> is the operation \<open>rl_evict\<close>, which may come at any time. An operation is one step: the
  source reads the clock before it takes the lock of the bucket, and looks at a bucket and deletes it under
  different locks, so that a request which comes between these two is not followed.
\<close>

section \<open>State and operations\<close>

record tbucket =
  tb_tokens :: rat
  tb_lastSeen :: time

record limiter =
  li_rps :: rat
  li_burst :: rat
  li_items :: "string \<rightharpoonup> tbucket"

definition NewLimiter :: "int \<Rightarrow> int \<Rightarrow> limiter" where
  "NewLimiter rps burst =
     (let rps = (if rps \<le> 0 then 1 else rps);
          burst = (if burst \<le> 0 then 1 else burst)
      in \<lparr>li_rps = of_int rps, li_burst = of_int burst, li_items = Map.empty\<rparr>)"

text \<open>\<open>elapsed.Seconds()\<close>\<close>

definition seconds :: "duration \<Rightarrow> rat" where
  "seconds d = of_int d / of_int second"

definition rl_addToken :: "string \<Rightarrow> time \<Rightarrow> limiter \<Rightarrow> bool \<times> limiter" where
  "rl_addToken key now l =
     (let b = (case li_items l key of Some b \<Rightarrow> b | None \<Rightarrow> \<lparr>tb_tokens = li_burst l, tb_lastSeen = now\<rparr>);
          elapsed = now - tb_lastSeen b;
          tokens = tb_tokens b + li_rps l * seconds elapsed;
          tokens = (if tokens > li_burst l then li_burst l else tokens);
          store = (\<lambda>tokens. l\<lparr>li_items := (li_items l)(key \<mapsto> \<lparr>tb_tokens = tokens, tb_lastSeen = now\<rparr>)\<rparr>)
      in if tokens \<ge> 1 then (True, store (tokens - 1)) else (False, store tokens))"

definition rl_Allow :: "string \<Rightarrow> time \<Rightarrow> limiter \<Rightarrow> bool \<times> limiter" where
  "rl_Allow key now l = rl_addToken key now l"

definition rl_AllowUser :: "string \<Rightarrow> time \<Rightarrow> limiter \<Rightarrow> bool \<times> limiter" where
  "rl_AllowUser userID now l = rl_addToken (''user:'' @ userID) now l"

definition rl_evict :: "string list \<Rightarrow> time \<Rightarrow> limiter \<Rightarrow> limiter" where
  "rl_evict ks now l =
     (let cutoff = now - 60 * minute
      in foldl (\<lambda>l key. case li_items l key of
           Some b \<Rightarrow> if tb_lastSeen b < cutoff then l\<lparr>li_items := (li_items l)(key := None)\<rparr> else l
         | None \<Rightarrow> l) l ks)"

section \<open>What a client has left\<close>

datatype rl_event = RlRequest string | RlEvict "string list"

definition rl_step :: "limiter \<Rightarrow> time \<times> rl_event \<Rightarrow> bool \<times> limiter" where
  "rl_step l e = (case e of
     (now, RlRequest key) \<Rightarrow> rl_Allow key now l
   | (now, RlEvict ks) \<Rightarrow> (False, rl_evict ks now l))"

text \<open>The number of admitted requests of a client.\<close>

fun rl_admitted :: "string \<Rightarrow> limiter \<Rightarrow> (time \<times> rl_event) list \<Rightarrow> nat" where
  "rl_admitted key l [] = 0"
| "rl_admitted key l (e # es) =
     (let (ok, l') = rl_step l e in (if ok \<and> snd e = RlRequest key then 1 else 0) + rl_admitted key l' es)"

definition rl_run :: "limiter \<Rightarrow> (time \<times> rl_event) list \<Rightarrow> limiter" where
  "rl_run l es = foldl (\<lambda>l e. snd (rl_step l e)) l es"

text \<open>The tokens a client would have at time \<open>t\<close>.\<close>

definition rl_avail :: "limiter \<Rightarrow> string \<Rightarrow> time \<Rightarrow> rat" where
  "rl_avail l key t = (case li_items l key of None \<Rightarrow> li_burst l
     | Some b \<Rightarrow> min (li_burst l) (tb_tokens b + li_rps l * seconds (t - tb_lastSeen b)))"

definition rl_inv :: "time \<Rightarrow> limiter \<Rightarrow> bool" where
  "rl_inv t l \<longleftrightarrow> 1 \<le> li_rps l \<and> 1 \<le> li_burst l \<and>
     (\<forall>k b. li_items l k = Some b \<longrightarrow> 0 \<le> tb_tokens b \<and> tb_lastSeen b \<le> t)"

lemma seconds_add: "seconds (a + b) = seconds a + seconds b"
  by (simp add: seconds_def add_divide_distrib)

lemma seconds_nonneg: "0 \<le> d \<Longrightarrow> 0 \<le> seconds d"
  by (simp add: seconds_def second_def)

lemma seconds_mono: "d \<le> d' \<Longrightarrow> seconds d \<le> seconds d'"
  using seconds_nonneg [of "d' - d"] seconds_add [of d "d' - d"] by simp

lemma rl_inv_new: "rl_inv t (NewLimiter rps burst)"
  by (simp add: rl_inv_def NewLimiter_def Let_def)

lemma rl_evict_cases:
  "li_items (rl_evict ks now l) k = li_items l k \<or>
   (\<exists>b. li_items l k = Some b \<and> tb_lastSeen b < now - 60 * minute \<and> li_items (rl_evict ks now l) k = None)"
  "li_rps (rl_evict ks now l) = li_rps l" "li_burst (rl_evict ks now l) = li_burst l"
proof -
  let ?del = "\<lambda>l key. case li_items l key of
      Some b \<Rightarrow> if tb_lastSeen b < now - 60 * minute then l\<lparr>li_items := (li_items l)(key := None)\<rparr> else l
    | None \<Rightarrow> l"
  have "(li_items (foldl ?del l ks) k = li_items l k \<or>
     (\<exists>b. li_items l k = Some b \<and> tb_lastSeen b < now - 60 * minute \<and> li_items (foldl ?del l ks) k = None)) \<and>
     li_rps (foldl ?del l ks) = li_rps l \<and> li_burst (foldl ?del l ks) = li_burst l"
    by (induction ks rule: rev_induct) (auto split: option.splits)
  then show "li_items (rl_evict ks now l) k = li_items l k \<or>
   (\<exists>b. li_items l k = Some b \<and> tb_lastSeen b < now - 60 * minute \<and> li_items (rl_evict ks now l) k = None)"
  "li_rps (rl_evict ks now l) = li_rps l" "li_burst (rl_evict ks now l) = li_burst l"
    by (simp_all add: rl_evict_def Let_def)
qed

text \<open>
  What is admitted is paid for: a step at time \<open>t'\<close> admits at most what was there at time \<open>t\<close>, plus what
  comes in until \<open>t'\<close>, less what is left. An eviction costs nothing as long as an hour fills a bucket.
\<close>

lemma rl_avail_later:
  assumes "rl_inv t l" "t \<le> t'"
  shows "rl_avail l key t' \<le> rl_avail l key t + li_rps l * seconds (t' - t)"
proof (cases "li_items l key")
  case None
  with assms show ?thesis by (simp add: rl_avail_def rl_inv_def seconds_nonneg)
next
  case (Some b)
  have "seconds (t' - tb_lastSeen b) = seconds (t - tb_lastSeen b) + seconds (t' - t)"
    by (simp flip: seconds_add)
  moreover have "0 \<le> li_rps l * seconds (t' - t)"
    using assms by (simp add: rl_inv_def seconds_nonneg)
  ultimately show ?thesis using Some by (simp add: rl_avail_def distrib_left) 
qed

lemma rl_addToken_pays:
  assumes "rl_inv t l" "t \<le> t'" and step: "rl_addToken key t' l = (ok, l')"
  shows "rl_inv t' l'" "li_rps l' = li_rps l" "li_burst l' = li_burst l"
    "(if ok then 1 else 0) + rl_avail l' key t' = rl_avail l key t'"
    "k \<noteq> key \<Longrightarrow> rl_avail l' k t'' = rl_avail l k t''"
proof -
  define b where "b = (case li_items l key of Some b \<Rightarrow> b | None \<Rightarrow> \<lparr>tb_tokens = li_burst l, tb_lastSeen = t'\<rparr>)"
  define tokens where "tokens = min (li_burst l) (tb_tokens b + li_rps l * seconds (t' - tb_lastSeen b))"
  have avail: "rl_avail l key t' = tokens"
    by (simp add: rl_avail_def tokens_def b_def seconds_def split: option.split)
  have b0: "0 \<le> tb_tokens b" "tb_lastSeen b \<le> t'"
    using assms(1,2) by (fastforce simp: b_def rl_inv_def split: option.split)+
  have burst: "1 \<le> li_burst l" "1 \<le> li_rps l" using assms(1) by (auto simp: rl_inv_def)
  then have t0: "0 \<le> tokens" "tokens \<le> li_burst l"
    using b0 seconds_nonneg [of "t' - tb_lastSeen b"] by (auto simp: tokens_def)
  have sel: "tokens = (if tb_tokens b + li_rps l * seconds (t' - tb_lastSeen b) > li_burst l then li_burst l
      else tb_tokens b + li_rps l * seconds (t' - tb_lastSeen b))"
    by (simp add: tokens_def)
  have l': "l' = l\<lparr>li_items := (li_items l)(key \<mapsto> \<lparr>tb_tokens = (if ok then tokens - 1 else tokens), tb_lastSeen = t'\<rparr>)\<rparr>"
    and ok: "ok \<longleftrightarrow> 1 \<le> tokens"
    using step unfolding rl_addToken_def Let_def b_def [symmetric] sel [symmetric]
    by (auto split: if_splits)
  show "li_rps l' = li_rps l" "li_burst l' = li_burst l" by (simp_all add: l')
  show "rl_inv t' l'"
    using assms(1,2) t0 ok by (auto simp: rl_inv_def l' intro: order_trans)
  show "(if ok then 1 else 0) + rl_avail l' key t' = rl_avail l key t'"
    using t0 ok unfolding avail by (simp add: rl_avail_def l' seconds_def)
  show "k \<noteq> key \<Longrightarrow> rl_avail l' k t'' = rl_avail l k t''"
    by (simp add: rl_avail_def l' split: option.split)
qed

lemma rl_step_pays:
  assumes inv: "rl_inv t l" and le: "t \<le> t'" and hour: "li_burst l \<le> 3600 * li_rps l"
    and step: "rl_step l (t', ev) = (ok, l')"
  shows "rl_inv t' l' \<and> li_rps l' = li_rps l \<and> li_burst l' = li_burst l \<and>
    (if ok \<and> ev = RlRequest key then 1 else 0) + rl_avail l' key t'
      \<le> rl_avail l key t + li_rps l * seconds (t' - t)"
proof (cases ev)
  case (RlRequest k)
  then have "rl_addToken k t' l = (ok, l')" using step by (simp add: rl_step_def rl_Allow_def)
  note pays = rl_addToken_pays [OF inv le this]
  show ?thesis
    using pays(1-4) pays(5) [of key t'] rl_avail_later [OF inv le, of key] RlRequest
    by (cases "k = key") auto
next
  case (RlEvict ks)
  then have l': "l' = rl_evict ks t' l" using step by (simp add: rl_step_def)
  note ev = rl_evict_cases [of ks t' l, folded l']
  have "rl_inv t' l'"
    unfolding rl_inv_def
  proof (intro conjI allI impI)
    show "1 \<le> li_rps l'" "1 \<le> li_burst l'" using inv ev by (auto simp: rl_inv_def)
    fix k b assume "li_items l' k = Some b"
    then have "li_items l k = Some b" using rl_evict_cases(1) [of ks t' l k] l' by auto
    then show "0 \<le> tb_tokens b" "tb_lastSeen b \<le> t'" using inv le by (auto simp: rl_inv_def intro: order_trans)
  qed
  moreover have "rl_avail l' key t' \<le> rl_avail l key t'"
    using ev(1) [of key]
  proof
    assume "\<exists>b. li_items l key = Some b \<and> tb_lastSeen b < t' - 60 * minute \<and> li_items l' key = None"
    then obtain b where b: "li_items l key = Some b" "tb_lastSeen b < t' - 60 * minute" "li_items l' key = None"
      by blast
    have "seconds (60 * minute) \<le> seconds (t' - tb_lastSeen b)" using b(2) by (intro seconds_mono) simp
    then have "3600 \<le> seconds (t' - tb_lastSeen b)" by (simp add: seconds_def minute_def second_def)
    then have "li_rps l * 3600 \<le> li_rps l * seconds (t' - tb_lastSeen b)"
      using inv by (intro mult_left_mono) (auto simp: rl_inv_def)
    moreover have "0 \<le> tb_tokens b" using inv b(1) by (auto simp: rl_inv_def)
    ultimately have "li_burst l \<le> tb_tokens b + li_rps l * seconds (t' - tb_lastSeen b)"
      using hour by (simp add: mult.commute)
    with b ev(3) show ?thesis by (simp add: rl_avail_def)
  qed (use ev(2,3) in \<open>simp add: rl_avail_def split: option.split\<close>)
  ultimately show ?thesis
    using ev rl_avail_later [OF inv le, of key] RlEvict by auto
qed

lemma rl_admitted_pays:
  assumes "rl_inv t l" "li_burst l \<le> 3600 * li_rps l"
    and "sorted (t # map fst es)" "\<forall>e \<in> set es. fst e \<le> t1" "t \<le> t1"
  shows "of_nat (rl_admitted key l es) \<le> rl_avail l key t + li_rps l * seconds (t1 - t)"
  using assms
proof (induction es arbitrary: t l)
  case Nil
  have "0 \<le> rl_avail l key t"
    using Nil(1) by (auto simp: rl_avail_def rl_inv_def seconds_nonneg split: option.split)
  moreover have "0 \<le> li_rps l * seconds (t1 - t)" using Nil by (simp add: rl_inv_def seconds_nonneg)
  ultimately show ?case by simp
next
  case (Cons e es)
  obtain t' ev where e: "e = (t', ev)" by (cases e)
  obtain ok l' where step: "rl_step l e = (ok, l')" by (cases "rl_step l e")
  have le: "t \<le> t'" using Cons.prems(3) by (simp add: e)
  note pays = rl_step_pays [OF Cons.prems(1) le Cons.prems(2), of ev ok l' key] 
  have p: "rl_inv t' l'" "li_rps l' = li_rps l" "li_burst l' = li_burst l"
    "(if ok \<and> ev = RlRequest key then 1 else 0) + rl_avail l' key t'
      \<le> rl_avail l key t + li_rps l * seconds (t' - t)"
    using pays step e by auto
  have "of_nat (rl_admitted key l' es) \<le> rl_avail l' key t' + li_rps l' * seconds (t1 - t')"
    by (rule Cons.IH) (use Cons.prems p e in auto)
  moreover have "seconds (t1 - t) = seconds (t' - t) + seconds (t1 - t')" by (simp flip: seconds_add)
  ultimately show ?case
    using p step [unfolded e] by (cases "ok \<and> ev = RlRequest key") (auto simp: e distrib_left)
qed

lemma rl_run_inv:
  assumes "rl_inv t l" "li_burst l \<le> 3600 * li_rps l" "sorted (t # map fst es)"
  shows "rl_inv (last (t # map fst es)) (rl_run l es) \<and> li_rps (rl_run l es) = li_rps l \<and>
    li_burst (rl_run l es) = li_burst l"
  using assms
proof (induction es arbitrary: t l)
  case (Cons e es)
  obtain t' ev where e: "e = (t', ev)" by (cases e)
  obtain ok l' where step: "rl_step l e = (ok, l')" by (cases "rl_step l e")
  have "t \<le> t'" using Cons.prems(3) by (simp add: e)
  from rl_step_pays [OF Cons.prems(1) this Cons.prems(2), of ev ok l' key] step e
  have p: "rl_inv t' l'" "li_rps l' = li_rps l" "li_burst l' = li_burst l" by auto
  from Cons.IH [OF p(1)] Cons.prems p e step show ?case by (simp add: rl_run_def)
qed (simp add: rl_run_def)

section \<open>Properties\<close>

text \<open>
  C13: The rate is kept in every window of time. For a limiter whose bucket an hour can fill, in any run
  of requests of all clients and of sweeps, whatever came before the window, the limiter admits at most
  \<open>burst + rps * (length of the window in seconds)\<close> requests of a client within it.
\<close>

theorem rl_window_bound:
  assumes "sorted (map fst (before @ win))" "\<forall>e \<in> set win. t0 \<le> fst e \<and> fst e \<le> t1" "t0 \<le> t1"
    and "\<forall>e \<in> set before. fst e \<le> t0" and "0 < burst" "burst \<le> 3600 * rps"
  shows "of_nat (rl_admitted key (rl_run (NewLimiter rps burst) before) win)
    \<le> of_int burst + of_int rps * seconds (t1 - t0)"
proof -
  let ?l = "NewLimiter rps burst" and ?l' = "rl_run (NewLimiter rps burst) before"
  have rps: "0 < rps" using assms(5,6) by simp
  have "(of_int burst :: rat) \<le> of_int (3600 * rps)" using assms(6) by (simp only: of_int_le_iff)
  then have l: "li_rps ?l = of_int rps" "li_burst ?l = of_int burst" "li_burst ?l \<le> 3600 * li_rps ?l"
    using rps assms(5) by (simp_all add: NewLimiter_def)
  define t where "t = (case before of [] \<Rightarrow> t0 | e # es \<Rightarrow> fst e)"
  have sorted: "sorted (t # map fst before)"
    using assms(1) by (cases before) (auto simp: t_def sorted_append)
  note run = rl_run_inv [OF rl_inv_new [of t] l(3) sorted]
  have "last (t # map fst before) \<le> t0"
    using assms(4) by (auto simp: t_def last_map split: list.split)
  then have inv: "rl_inv t0 ?l'" using run by (auto simp: rl_inv_def intro: order_trans)
  have "sorted (t0 # map fst win)"
    using assms(1,2) by (auto simp: sorted_append)
  from rl_admitted_pays [OF inv _ this, of t1 key] assms(2,3) run l
  have "of_nat (rl_admitted key ?l' win) \<le> rl_avail ?l' key t0 + of_int rps * seconds (t1 - t0)" by auto
  moreover have "rl_avail ?l' key t0 \<le> of_int burst"
    using run l by (auto simp: rl_avail_def split: option.split)
  ultimately show ?thesis by simp
qed

theorem rl_window_bound_witness:
  "of_nat (rl_admitted ''a'' (rl_run (NewLimiter 1 2) [(0, RlRequest ''a'')])
      [(5, RlRequest ''a''), (6, RlRequest ''b''), (7, RlEvict [''a'']), (8, RlRequest ''a'')])
    \<le> of_int 2 + of_int 1 * seconds (8 - 1)"
  by (rule rl_window_bound) auto

end
