(* ===== verification/FileTransfer.thy ===== *)
theory FileTransfer
  imports Prelude
begin

text \<open>
  apps/gateway/internal/transfer/transfer.go: file transfers with their shared limiter of ten slots, and
  the clipboards of sessions. The limiter, a buffered channel, is the number of tokens in it. Random
  identifiers and clock readings are arguments.
\<close>

section \<open>State\<close>

definition maxFileSize :: int where
  "maxFileSize = 10 * 1024 * 1024 * 1024"

definition maxConcurrentTransfers :: nat where
  "maxConcurrentTransfers = 10"

datatype transfer_direction = TransferDirectionUpload | TransferDirectionDownload | OtherTransferDirection string
  | OtherDirection string

datatype transfer_state = TransferStatePending | TransferStateActive | TransferStateCompleted
  | TransferStateFailed | TransferStateCancelled

record file_transfer =
  ft_ID :: string
  ft_SessionID :: string
  ft_Direction :: transfer_direction
  ft_Filename :: string
  ft_Size :: int
  ft_ContentType :: string
  ft_State :: transfer_state
  ft_BytesTransferred :: int
  ft_StartedAt :: time
  ft_CompletedAt :: "time option"
  ft_Error :: string
  ft_Metadata :: "(string \<times> string) list"
  ft_limiterReleased :: bool

record chunk_request =
  cr_TransferID :: string
  cr_ChunkIndex :: int
  cr_ChunkSize :: int
  cr_Offset :: int
  cr_Data :: "nat list"
  cr_Checksum :: string

record chunk_response =
  cs_TransferID :: string
  cs_ChunkIndex :: int
  cs_Success :: bool
  cs_Error :: string

record transfer_manager =
  tm_transfers :: "string \<rightharpoonup> file_transfer"
  tm_limiter :: nat

definition NewTransferManager :: transfer_manager where
  "NewTransferManager = \<lparr>tm_transfers = Map.empty, tm_limiter = 0\<rparr>"

abbreviation tm_put :: "string \<Rightarrow> file_transfer \<Rightarrow> transfer_manager \<Rightarrow> transfer_manager" where
  "tm_put k t m \<equiv> m\<lparr>tm_transfers := (tm_transfers m)(k \<mapsto> t)\<rparr>"

section \<open>Operations\<close>

definition tm_CreateTransfer ::
  "string \<Rightarrow> string \<Rightarrow> transfer_direction \<Rightarrow> string \<Rightarrow> int \<Rightarrow> string \<Rightarrow> time \<Rightarrow> transfer_manager
     \<Rightarrow> (string + file_transfer) \<times> transfer_manager" where
  "tm_CreateTransfer ident sessionID direction filename sz contentType now m =
     (if sz > maxFileSize then (Inl ''file size exceeds maximum allowed'', m)
      else if sz < 0 then (Inl ''file size must be non-negative'', m)
      else if sz = 0 then
        (Inl ''file size must be greater than zero; use storage.Upload for empty files'', m)
      else if \<not> tm_limiter m < maxConcurrentTransfers then
        (Inl ''maximum concurrent transfers reached'', m)
      else
        let m = m\<lparr>tm_limiter := Suc (tm_limiter m)\<rparr>;
            transfer = \<lparr>ft_ID = ident, ft_SessionID = sessionID, ft_Direction = direction,
              ft_Filename = filename, ft_Size = sz, ft_ContentType = contentType,
              ft_State = TransferStatePending, ft_BytesTransferred = 0, ft_StartedAt = now,
              ft_CompletedAt = None, ft_Error = '''', ft_Metadata = [], ft_limiterReleased = False\<rparr>
        in (Inr transfer, tm_put ident transfer m))"

definition tm_GetTransfer :: "string \<Rightarrow> transfer_manager \<Rightarrow> string + file_transfer" where
  "tm_GetTransfer k m = (case tm_transfers m k of None \<Rightarrow> Inl ''transfer not found'' | Some t \<Rightarrow> Inr t)"

definition tm_StartTransfer :: "string \<Rightarrow> time \<Rightarrow> transfer_manager \<Rightarrow> (string + unit) \<times> transfer_manager" where
  "tm_StartTransfer k now m =
     (case tm_GetTransfer k m of
        Inl err \<Rightarrow> (Inl err, m)
      | Inr t \<Rightarrow>
          if ft_State t \<noteq> TransferStatePending then (Inl ''transfer is not in pending state'', m)
          else (Inr (), tm_put k (t\<lparr>ft_State := TransferStateActive, ft_StartedAt := now\<rparr>) m))"

text \<open>
  \<open>releaseLimiterLocked\<close>, on the transfer and the number of tokens: an empty channel is not read.
\<close>

definition releaseLimiterLocked :: "file_transfer \<times> nat \<Rightarrow> file_transfer \<times> nat" where
  "releaseLimiterLocked slot = (case slot of (t, n) \<Rightarrow>
     if ft_limiterReleased t then (t, n) else (t\<lparr>ft_limiterReleased := True\<rparr>, n - 1))"

definition tm_finish :: "string \<Rightarrow> file_transfer \<Rightarrow> transfer_manager \<Rightarrow> transfer_manager" where
  "tm_finish k t m =
     (let (t, n) = releaseLimiterLocked (t, tm_limiter m) in (tm_put k t m)\<lparr>tm_limiter := n\<rparr>)"

definition tm_UpdateProgress ::
  "string \<Rightarrow> int \<Rightarrow> time \<Rightarrow> transfer_manager \<Rightarrow> (string + unit) \<times> transfer_manager" where
  "tm_UpdateProgress k bytesTransferred now m =
     (case tm_GetTransfer k m of
        Inl err \<Rightarrow> (Inl err, m)
      | Inr t \<Rightarrow>
          let t = t\<lparr>ft_BytesTransferred := bytesTransferred\<rparr>
          in if ft_State t = TransferStateActive \<and> ft_Size t > 0 \<and> ft_BytesTransferred t \<ge> ft_Size t
             then (Inr (), tm_finish k (t\<lparr>ft_State := TransferStateCompleted, ft_CompletedAt := Some now\<rparr>) m)
             else (Inr (), tm_put k t m))"

definition tm_FailTransfer :: "string \<Rightarrow> string \<Rightarrow> transfer_manager \<Rightarrow> (string + unit) \<times> transfer_manager" where
  "tm_FailTransfer k errorMsg m =
     (case tm_GetTransfer k m of
        Inl err \<Rightarrow> (Inl err, m)
      | Inr t \<Rightarrow> (Inr (), tm_finish k (t\<lparr>ft_State := TransferStateFailed, ft_Error := errorMsg\<rparr>) m))"

definition tm_CancelTransfer :: "string \<Rightarrow> transfer_manager \<Rightarrow> (string + unit) \<times> transfer_manager" where
  "tm_CancelTransfer k m =
     (case tm_GetTransfer k m of
        Inl err \<Rightarrow> (Inl err, m)
      | Inr t \<Rightarrow> (Inr (), tm_finish k (t\<lparr>ft_State := TransferStateCancelled\<rparr>) m))"

definition tm_ProcessChunk ::
  "chunk_request \<Rightarrow> time \<Rightarrow> transfer_manager \<Rightarrow> chunk_response \<times> transfer_manager" where
  "tm_ProcessChunk chunk now m =
     (let answer = (\<lambda>ok err. \<lparr>cs_TransferID = cr_TransferID chunk, cs_ChunkIndex = cr_ChunkIndex chunk,
                              cs_Success = ok, cs_Error = err\<rparr>);
          k = cr_TransferID chunk
      in case tm_GetTransfer k m of
           Inl err \<Rightarrow> (answer False ''transfer not found'', m)
         | Inr t \<Rightarrow>
             if ft_State t \<noteq> TransferStateActive then (answer False ''transfer is not active'', m)
             else
               let newTotal = wrap64 (ft_BytesTransferred t + int (length (cr_Data chunk)))
               in if ft_Size t > 0 \<and> newTotal > ft_Size t
                  then (answer False ''chunk exceeds declared transfer size'', m)
                  else
                    let t = t\<lparr>ft_BytesTransferred := newTotal\<rparr>
                    in if ft_Size t > 0 \<and> ft_BytesTransferred t \<ge> ft_Size t \<and> ft_State t = TransferStateActive
                       then (answer True '''',
                             tm_finish k (t\<lparr>ft_State := TransferStateCompleted, ft_CompletedAt := Some now\<rparr>) m)
                       else (answer True '''', tm_put k t m))"

definition tm_GetSessionTransfers :: "string list \<Rightarrow> string \<Rightarrow> transfer_manager \<Rightarrow> file_transfer list" where
  "tm_GetSessionTransfers ks sessionID m =
     filter (\<lambda>t. ft_SessionID t = sessionID) (map_values (tm_transfers m) ks)"

text \<open>
  \<open>generateRandomString\<close>: \<open>random\<close> are the bytes that were read, or \<open>None\<close> when reading failed.
\<close>

definition charset :: string where
  "charset = ''abcdefghijklmnopqrstuvwxyzABCDEFGHIJKLMNOPQRSTUVWXYZ0123456789''"

definition generateRandomString :: "nat list option \<Rightarrow> int \<Rightarrow> nat \<Rightarrow> string" where
  "generateRandomString random nano len =
     (case random of
        None \<Rightarrow> map (\<lambda>i. charset ! nat ((wrap64 (nano + int i * 17) mod 2 ^ 63) mod int (length charset))) [0..<len]
      | Some bytes \<Rightarrow> map (\<lambda>b. charset ! (b mod length charset)) bytes)"

section \<open>Clipboards\<close>

record clipboard_data =
  cd_MimeType :: string
  cd_Data :: string
  cd_Timestamp :: time

record session_clipboard =
  sc_SessionID :: string
  sc_Enabled :: bool
  sc_ReadAllowed :: bool
  sc_WriteAllowed :: bool
  sc_Data :: "clipboard_data option"
  sc_History :: "clipboard_data list"
  sc_MaxHistory :: nat

type_synonym clipboards = "string \<rightharpoonup> session_clipboard"

definition cb_RegisterSession :: "string \<Rightarrow> bool \<Rightarrow> bool \<Rightarrow> clipboards \<Rightarrow> clipboards" where
  "cb_RegisterSession sessionID readAllowed writeAllowed m =
     m(sessionID \<mapsto> \<lparr>sc_SessionID = sessionID, sc_Enabled = True, sc_ReadAllowed = readAllowed,
       sc_WriteAllowed = writeAllowed, sc_Data = None, sc_History = [], sc_MaxHistory = 10\<rparr>)"

definition cb_UnregisterSession :: "string \<Rightarrow> clipboards \<Rightarrow> clipboards" where
  "cb_UnregisterSession sessionID m = (if m sessionID \<noteq> None then m(sessionID := None) else m)"

definition cb_GetSession :: "string \<Rightarrow> clipboards \<Rightarrow> string + session_clipboard" where
  "cb_GetSession sessionID m =
     (case m sessionID of None \<Rightarrow> Inl ''session clipboard not found'' | Some s \<Rightarrow> Inr s)"

definition cb_Write :: "string \<Rightarrow> string \<Rightarrow> string \<Rightarrow> time \<Rightarrow> clipboards \<Rightarrow> (string + unit) \<times> clipboards" where
  "cb_Write sessionID mimeType data now m =
     (case cb_GetSession sessionID m of
        Inl err \<Rightarrow> (Inl err, m)
      | Inr s \<Rightarrow>
          if \<not> sc_Enabled s \<or> \<not> sc_WriteAllowed s then (Inl ''clipboard write not allowed'', m)
          else
            let clipboardData = \<lparr>cd_MimeType = mimeType, cd_Data = data, cd_Timestamp = now\<rparr>;
                s = s\<lparr>sc_Data := Some clipboardData, sc_History := sc_History s @ [clipboardData]\<rparr>;
                s = (if length (sc_History s) > sc_MaxHistory s
                     then s\<lparr>sc_History := drop (length (sc_History s) - sc_MaxHistory s) (sc_History s)\<rparr> else s)
            in (Inr (), m(sessionID \<mapsto> s)))"

definition cb_Read :: "string \<Rightarrow> clipboards \<Rightarrow> string + clipboard_data" where
  "cb_Read sessionID m =
     (case cb_GetSession sessionID m of
        Inl err \<Rightarrow> Inl err
      | Inr s \<Rightarrow>
          if \<not> sc_Enabled s \<or> \<not> sc_ReadAllowed s then Inl ''clipboard read not allowed''
          else case sc_Data s of None \<Rightarrow> Inl ''no clipboard data available'' | Some d \<Rightarrow> Inr d)"

definition cb_Clear :: "string \<Rightarrow> clipboards \<Rightarrow> (string + unit) \<times> clipboards" where
  "cb_Clear sessionID m =
     (case cb_GetSession sessionID m of
        Inl err \<Rightarrow> (Inl err, m)
      | Inr s \<Rightarrow> (Inr (), m(sessionID \<mapsto> s\<lparr>sc_Data := None\<rparr>)))"

section \<open>Runs and the slot invariant\<close>

text \<open>A new transfer has a new random identifier.\<close>

datatype tm_call = TmCreate string string transfer_direction string int string time
  | TmStart string time | TmProgress string int time | TmFail string string | TmCancel string
  | TmChunk chunk_request time

definition tm_step :: "transfer_manager \<Rightarrow> tm_call \<Rightarrow> transfer_manager" where
  "tm_step m c = (case c of
     TmCreate i s d f n ct now \<Rightarrow>
       if tm_transfers m i \<noteq> None then m else snd (tm_CreateTransfer i s d f n ct now m)
   | TmStart k now \<Rightarrow> snd (tm_StartTransfer k now m)
   | TmProgress k b now \<Rightarrow> snd (tm_UpdateProgress k b now m)
   | TmFail k e \<Rightarrow> snd (tm_FailTransfer k e m)
   | TmCancel k \<Rightarrow> snd (tm_CancelTransfer k m)
   | TmChunk ch now \<Rightarrow> snd (tm_ProcessChunk ch now m))"

definition terminal :: "transfer_state \<Rightarrow> bool" where
  "terminal s \<longleftrightarrow> s \<in> {TransferStateCompleted, TransferStateFailed, TransferStateCancelled}"

definition tm_open :: "transfer_manager \<Rightarrow> string set" where
  "tm_open m = {k. \<exists>t. tm_transfers m k = Some t \<and> \<not> terminal (ft_State t)}"

definition ft_ok :: "file_transfer \<Rightarrow> bool" where
  "ft_ok t \<longleftrightarrow> (ft_limiterReleased t \<longleftrightarrow> terminal (ft_State t)) \<and> 0 < ft_Size t \<and> ft_Size t \<le> maxFileSize"

definition tm_inv :: "transfer_manager \<Rightarrow> bool" where
  "tm_inv m \<longleftrightarrow> finite (tm_open m) \<and> tm_limiter m = card (tm_open m) \<and>
     tm_limiter m \<le> maxConcurrentTransfers \<and> (\<forall>k t. tm_transfers m k = Some t \<longrightarrow> ft_ok t)"

lemma tm_open_put:
  "tm_open (tm_put k t m) = (if terminal (ft_State t) then tm_open m - {k} else insert k (tm_open m))"
  by (auto simp: tm_open_def)

lemma tm_open_take:
  "tm_open (m\<lparr>tm_limiter := n, tm_transfers := (tm_transfers m)(k \<mapsto> t)\<rparr>) =
     (if terminal (ft_State t) then tm_open m - {k} else insert k (tm_open m))"
  by (auto simp: tm_open_def)

lemma tm_open_limiter [simp]: "tm_open (m\<lparr>tm_limiter := n\<rparr>) = tm_open m"
  by (simp add: tm_open_def)

lemma tm_inv_put:
  assumes inv: "tm_inv m" and k: "tm_transfers m k = Some t0"
    and t: "ft_ok t" "terminal (ft_State t) \<longleftrightarrow> terminal (ft_State t0)"
  shows "tm_inv (tm_put k t m)"
proof -
  have "tm_open (tm_put k t m) = tm_open m"
    using k t(2) unfolding tm_open_put by (auto simp: tm_open_def)
  with inv t show ?thesis by (simp add: tm_inv_def)
qed

lemma tm_inv_finish:
  assumes inv: "tm_inv m" and k: "tm_transfers m k = Some t0"
    and t: "terminal (ft_State t)" "ft_limiterReleased t = ft_limiterReleased t0" "ft_Size t = ft_Size t0"
  shows "tm_inv (tm_finish k t m)"
proof -
  have ok: "ft_ok t0" using inv k by (auto simp: tm_inv_def)
  let ?t = "t\<lparr>ft_limiterReleased := True\<rparr>"
  have open': "tm_open (tm_put k ?t m) = tm_open m - {k}"
    using t(1) unfolding tm_open_put by simp
  show ?thesis
  proof (cases "ft_limiterReleased t0")
    case True
    with ok have "terminal (ft_State t0)" by (simp add: ft_ok_def)
    moreover have "tm_finish k t m = tm_put k t m"
      using True t(2) by (simp add: tm_finish_def releaseLimiterLocked_def)
    ultimately show ?thesis using True ok t by (simp add: tm_inv_put [OF inv k] ft_ok_def)
  next
    case False
    then have "k \<in> tm_open m" using k ok by (auto simp: tm_open_def ft_ok_def)
    then have "card (tm_open m - {k}) = card (tm_open m) - 1" by (rule card_Diff_singleton)
    moreover have "tm_finish k t m = (tm_put k ?t m)\<lparr>tm_limiter := tm_limiter m - 1\<rparr>"
      using False t(2) by (simp add: tm_finish_def releaseLimiterLocked_def)
    moreover have "ft_ok ?t" using ok t by (simp add: ft_ok_def)
    ultimately show ?thesis
      using inv by (auto simp: tm_inv_def open')
  qed
qed

lemma tm_inv_new: "tm_inv NewTransferManager"
  by (simp add: tm_inv_def NewTransferManager_def tm_open_def)

lemma tm_Get_Inr: "tm_GetTransfer k m = Inr t \<longleftrightarrow> tm_transfers m k = Some t"
  by (simp add: tm_GetTransfer_def split: option.split)

lemma tm_inv_Create:
  assumes inv: "tm_inv m" and fresh: "tm_transfers m i = None"
  shows "tm_inv (snd (tm_CreateTransfer i s d f n ct now m))"
proof -
  have "i \<notin> tm_open m" using fresh by (simp add: tm_open_def)
  then show ?thesis
    using inv by (auto simp: tm_CreateTransfer_def Let_def tm_inv_def tm_open_take terminal_def ft_ok_def)
qed

lemma tm_inv_Start: "tm_inv m \<Longrightarrow> tm_inv (snd (tm_StartTransfer k now m))"
proof (cases "tm_transfers m k")
  case (Some t)
  assume inv: "tm_inv m"
  then have "ft_ok t" using Some by (auto simp: tm_inv_def)
  then have "tm_inv (tm_put k (t\<lparr>ft_State := TransferStateActive, ft_StartedAt := now\<rparr>) m)"
    if "ft_State t = TransferStatePending"
    using that by (intro tm_inv_put [OF inv Some]) (simp_all add: ft_ok_def terminal_def)
  with Some inv show ?thesis by (simp add: tm_StartTransfer_def tm_GetTransfer_def)
qed (simp add: tm_StartTransfer_def tm_GetTransfer_def)

lemma tm_inv_Progress:
  assumes inv: "tm_inv m"
  shows "tm_inv (snd (tm_UpdateProgress k b now m))"
proof (cases "tm_GetTransfer k m")
  case (Inr t)
  then have k: "tm_transfers m k = Some t" by (simp add: tm_Get_Inr)
  have "ft_ok t" using inv k by (auto simp: tm_inv_def)
  then have "tm_inv (tm_put k (t\<lparr>ft_BytesTransferred := b\<rparr>) m)"
    by (intro tm_inv_put [OF inv k]) (simp_all add: ft_ok_def)
  moreover have "tm_inv (tm_finish k (t\<lparr>ft_BytesTransferred := b, ft_State := TransferStateCompleted,
      ft_CompletedAt := Some now\<rparr>) m)"
    by (rule tm_inv_finish [OF inv k]) (simp_all add: terminal_def)
  ultimately show ?thesis using Inr by (simp add: tm_UpdateProgress_def Let_def)
qed (use inv in \<open>simp add: tm_UpdateProgress_def\<close>)

lemma tm_inv_Fail: "tm_inv m \<Longrightarrow> tm_inv (snd (tm_FailTransfer k e m))"
  by (cases "tm_transfers m k")
    (auto simp: tm_FailTransfer_def tm_GetTransfer_def terminal_def intro!: tm_inv_finish)

lemma tm_inv_Cancel: "tm_inv m \<Longrightarrow> tm_inv (snd (tm_CancelTransfer k m))"
  by (cases "tm_transfers m k")
    (auto simp: tm_CancelTransfer_def tm_GetTransfer_def terminal_def intro!: tm_inv_finish)

lemma tm_inv_Chunk:
  assumes inv: "tm_inv m"
  shows "tm_inv (snd (tm_ProcessChunk c now m))"
proof (cases "tm_GetTransfer (cr_TransferID c) m")
  case (Inr t)
  then have k: "tm_transfers m (cr_TransferID c) = Some t" by (simp add: tm_Get_Inr)
  have "ft_ok t" using inv k by (auto simp: tm_inv_def)
  then have "tm_inv (tm_put (cr_TransferID c) (t\<lparr>ft_BytesTransferred := b\<rparr>) m)" for b
    by (intro tm_inv_put [OF inv k]) (simp_all add: ft_ok_def)
  moreover have "tm_inv (tm_finish (cr_TransferID c) (t\<lparr>ft_BytesTransferred := b,
      ft_State := TransferStateCompleted, ft_CompletedAt := Some now\<rparr>) m)" for b
    by (rule tm_inv_finish [OF inv k]) (simp_all add: terminal_def)
  ultimately show ?thesis using Inr inv by (simp add: tm_ProcessChunk_def Let_def)
qed (use inv in \<open>simp add: tm_ProcessChunk_def Let_def\<close>)

interpretation tm: component tm_step tm_inv
proof unfold_locales
  fix m c assume "tm_inv m"
  then show "tm_inv (tm_step m c)"
    by (cases c) (auto simp: tm_step_def intro: tm_inv_Create tm_inv_Start tm_inv_Progress tm_inv_Fail
        tm_inv_Cancel tm_inv_Chunk)
qed

abbreviation tm_run :: "tm_call list \<Rightarrow> transfer_manager" where
  "tm_run cs \<equiv> foldl tm_step NewTransferManager cs"

lemmas tm_run_inv = tm.run_inv [OF tm_inv_new]

section \<open>Chunks\<close>

text \<open>
  What chunks alone keep: the bytes counted stay within the declared size, and a transfer is complete
  only with all of them. A chunk is a slice in memory, so its length is far below \<open>2 ^ 62\<close>.
\<close>

definition ft_counted :: "file_transfer \<Rightarrow> bool" where
  "ft_counted t \<longleftrightarrow> 0 \<le> ft_BytesTransferred t \<and> ft_BytesTransferred t \<le> ft_Size t \<and>
     (ft_State t = TransferStateCompleted \<longrightarrow> ft_BytesTransferred t = ft_Size t)"

definition tm_counted :: "transfer_manager \<Rightarrow> bool" where
  "tm_counted m \<longleftrightarrow> (\<forall>k t. tm_transfers m k = Some t \<longrightarrow> ft_counted t)"

fun by_chunks :: "tm_call \<Rightarrow> bool" where
  "by_chunks (TmProgress k b now) = False"
| "by_chunks (TmChunk c now) = (int (length (cr_Data c)) < 2 ^ 62)"
| "by_chunks c = True"

lemma tm_counted_put: "tm_counted m \<Longrightarrow> ft_counted t \<Longrightarrow> tm_counted (tm_put k t m)"
  by (auto simp: tm_counted_def)

lemma tm_counted_finish: "tm_counted m \<Longrightarrow> ft_counted t \<Longrightarrow> tm_counted (tm_finish k t m)"
  by (auto simp: tm_counted_def tm_finish_def releaseLimiterLocked_def ft_counted_def)

lemma tm_counted_Chunk:
  assumes inv: "tm_inv m" "tm_counted m" and len: "int (length (cr_Data c)) < 2 ^ 62"
  shows "tm_counted (snd (tm_ProcessChunk c now m))"
proof (cases "tm_transfers m (cr_TransferID c)")
  case (Some t)
  let ?new = "wrap64 (ft_BytesTransferred t + int (length (cr_Data c)))"
  have t: "ft_ok t" "ft_counted t" using inv Some by (auto simp: tm_inv_def tm_counted_def)
  have new: "?new = ft_BytesTransferred t + int (length (cr_Data c))"
    using t len by (intro wrap64_id) (auto simp: in64_def ft_ok_def ft_counted_def maxFileSize_def)
  then have "0 \<le> ?new" "0 < ft_Size t" using t by (simp_all add: ft_counted_def ft_ok_def)
  moreover have "ft_counted (t\<lparr>ft_BytesTransferred := ?new, ft_State := TransferStateCompleted,
      ft_CompletedAt := Some now\<rparr>)" if "ft_Size t \<le> ?new" "?new \<le> ft_Size t"
    using t(2) that by (simp add: ft_counted_def)
  moreover have "ft_counted (t\<lparr>ft_BytesTransferred := ?new\<rparr>)" if "ft_State t = TransferStateActive"
    "?new \<le> ft_Size t" "0 \<le> ?new"
    using that by (simp add: ft_counted_def)
  ultimately show ?thesis
    using Some inv tm_counted_put [OF inv(2)] tm_counted_finish [OF inv(2)]
    by (simp add: tm_ProcessChunk_def tm_GetTransfer_def Let_def)
qed (use inv in \<open>simp add: tm_ProcessChunk_def tm_GetTransfer_def Let_def\<close>)

lemma tm_counted_step:
  assumes inv: "tm_inv m" "tm_counted m" and c: "by_chunks c"
  shows "tm_counted (tm_step m c)"
proof (cases c)
  case (TmCreate i s d f n ct now)
  with inv show ?thesis
    by (auto simp: tm_step_def tm_CreateTransfer_def Let_def tm_counted_def ft_counted_def)
next
  case (TmStart k now)
  with inv show ?thesis
    by (auto simp: tm_step_def tm_StartTransfer_def tm_GetTransfer_def tm_counted_def ft_counted_def
        split: option.split)
next
  case (TmChunk ch now)
  with inv c show ?thesis by (simp add: tm_step_def tm_counted_Chunk)
next
  case (TmFail k e)
  have "ft_counted (t\<lparr>ft_State := TransferStateFailed, ft_Error := e\<rparr>)" if "tm_transfers m k = Some t" for t
    using inv that by (auto simp: tm_counted_def ft_counted_def)
  with TmFail inv show ?thesis
    by (auto simp: tm_step_def tm_FailTransfer_def tm_GetTransfer_def tm_counted_finish split: option.split)
next
  case (TmCancel k)
  have "ft_counted (t\<lparr>ft_State := TransferStateCancelled\<rparr>)" if "tm_transfers m k = Some t" for t
    using inv that by (auto simp: tm_counted_def ft_counted_def)
  with TmCancel inv show ?thesis
    by (auto simp: tm_step_def tm_CancelTransfer_def tm_GetTransfer_def tm_counted_finish split: option.split)
qed (use c in simp)

lemma tm_counted_run: "\<forall>c \<in> set cs. by_chunks c \<Longrightarrow> tm_counted (tm_run cs)"
proof (induction cs rule: rev_induct)
  case (snoc c cs)
  then show ?case using tm_counted_step [OF tm_run_inv [of cs]] by simp
qed (simp add: tm_counted_def NewTransferManager_def)

section \<open>Random strings and clipboards\<close>

lemma generateRandomString_charset:
  "set (generateRandomString random nano n) \<subseteq> set charset"
proof -
  have len: "length charset = 62" by (simp add: charset_def)
  have "nat (x mod int (length charset)) < length charset" for x
    unfolding len by (simp add: nat_less_iff)
  moreover have "b mod length charset < length charset" for b unfolding len by simp
  ultimately show ?thesis by (auto simp: generateRandomString_def split: option.split)
qed

text \<open>A session reads back what was last written, and its history is the end of what was written.\<close>

definition cb_of :: "string \<times> string \<times> time \<Rightarrow> clipboard_data" where
  "cb_of d = (case d of (mime, s, now) \<Rightarrow> \<lparr>cd_MimeType = mime, cd_Data = s, cd_Timestamp = now\<rparr>)"

definition cb_write_all :: "string \<Rightarrow> (string \<times> string \<times> time) list \<Rightarrow> clipboards \<Rightarrow> clipboards" where
  "cb_write_all k ds m = foldl (\<lambda>m (mime, s, now). snd (cb_Write k mime s now m)) m ds"

lemma cb_Write_eq:
  "m k = Some s \<Longrightarrow> sc_Enabled s \<Longrightarrow> sc_WriteAllowed s \<Longrightarrow> snd (cb_Write k mime x now m) =
     m(k \<mapsto> s\<lparr>sc_Data := Some (cb_of (mime, x, now)),
              sc_History := keep_last (sc_MaxHistory s) (sc_History s @ [cb_of (mime, x, now)])\<rparr>)"
  by (simp add: cb_Write_def cb_GetSession_def Let_def cb_of_def keep_last_def)

lemma cb_write_all:
  "cb_write_all k ds (cb_RegisterSession k r True m) k =
     Some \<lparr>sc_SessionID = k, sc_Enabled = True, sc_ReadAllowed = r, sc_WriteAllowed = True,
       sc_Data = (if ds = [] then None else Some (cb_of (last ds))),
       sc_History = keep_last 10 (map cb_of ds), sc_MaxHistory = 10\<rparr>"
proof (induction ds rule: rev_induct)
  case (snoc d ds)
  obtain mime x now where d: "d = (mime, x, now)" by (cases d)
  have "cb_write_all k (ds @ [d]) m' = snd (cb_Write k mime x now (cb_write_all k ds m'))" for m'
    by (simp add: cb_write_all_def d)
  then show ?case
    by (simp add: cb_Write_eq [where m = "cb_write_all k ds (cb_RegisterSession k r True m)", OF snoc]
        keep_last_append d)
qed (simp add: cb_write_all_def cb_RegisterSession_def)

section \<open>Properties\<close>

text \<open>
  C14: No slot of the limiter leaks, in either direction. After any calls the number of slots taken is
  the number of transfers that are neither completed, failed nor cancelled; it is at most ten, and a
  transfer is accepted exactly when its size is positive, at most 10 GB, and fewer than ten are open.
\<close>

theorem tm_slots_exact:
  "let m = tm_run cs in
     tm_limiter m = card (tm_open m) \<and> card (tm_open m) \<le> 10 \<and>
     (isl (fst (tm_CreateTransfer i s d f n ct now m)) \<longleftrightarrow>
        \<not> (0 < n \<and> n \<le> maxFileSize \<and> card (tm_open m) < 10))"
  using tm_run_inv [of cs]
  by (auto simp: tm_inv_def tm_CreateTransfer_def Let_def maxConcurrentTransfers_def)

text \<open>
  Chunks never count more bytes than the declared size, and a transfer that is fed by chunks only
  is completed exactly with its last byte.
\<close>

theorem tm_chunks_within_size:
  assumes "\<forall>c \<in> set cs. by_chunks c" and "tm_transfers (tm_run cs) k = Some t"
  shows "0 \<le> ft_BytesTransferred t \<and> ft_BytesTransferred t \<le> ft_Size t \<and>
    (ft_State t = TransferStateCompleted \<longrightarrow> ft_BytesTransferred t = ft_Size t)"
  using tm_counted_run [OF assms(1)] assms(2) by (simp add: tm_counted_def ft_counted_def)

definition ex_chunk :: "nat \<Rightarrow> chunk_request" where
  "ex_chunk n = \<lparr>cr_TransferID = ''a'', cr_ChunkIndex = 0, cr_ChunkSize = int n, cr_Offset = 0,
     cr_Data = replicate n 7, cr_Checksum = ''''\<rparr>"

definition ex_calls :: "tm_call list" where
  "ex_calls = [TmCreate ''a'' ''s'' TransferDirectionUpload ''f'' 5 ''text'' 1, TmStart ''a'' 2,
     TmChunk (ex_chunk 3) 3, TmChunk (ex_chunk 4) 4, TmChunk (ex_chunk 2) 5]"

theorem tm_chunks_within_size_witness:
  "ft_State (the (tm_transfers (tm_run ex_calls) ''a'')) = TransferStateCompleted \<and>
   ft_BytesTransferred (the (tm_transfers (tm_run ex_calls) ''a'')) = 5"
proof -
  have "\<forall>c \<in> set ex_calls. by_chunks c" by (simp add: ex_calls_def ex_chunk_def)
  moreover have "tm_transfers (tm_run ex_calls) ''a'' \<noteq> None" by code_simp
  ultimately have "ft_State (the (tm_transfers (tm_run ex_calls) ''a'')) = TransferStateCompleted \<longrightarrow>
    ft_BytesTransferred (the (tm_transfers (tm_run ex_calls) ''a'')) =
    ft_Size (the (tm_transfers (tm_run ex_calls) ''a''))"
    using tm_chunks_within_size [of ex_calls "''a''" "the (tm_transfers (tm_run ex_calls) ''a'')"] by simp
  moreover have "ft_State (the (tm_transfers (tm_run ex_calls) ''a'')) = TransferStateCompleted" by code_simp
  moreover have "ft_Size (the (tm_transfers (tm_run ex_calls) ''a'')) = 5" by code_simp
  ultimately show ?thesis by simp
qed

end
