(* ===== verification/GoStrings.thy ===== *)
theory GoStrings
  imports Prelude
begin

text \<open>
  What the code uses of Go's \<open>strings\<close>, \<open>encoding/base64\<close> and \<open>encoding/hex\<close>. A string is a list of
  bytes, so case conversion and white space are those of ASCII; Go's treatment of other Unicode
  letters and spaces is not modelled.
\<close>

section \<open>Prefixes, trimming and case\<close>

definition has_prefix :: "string \<Rightarrow> string \<Rightarrow> bool" where
  "has_prefix s pre \<longleftrightarrow> take (length pre) s = pre"

definition trim_prefix :: "string \<Rightarrow> string \<Rightarrow> string" where
  "trim_prefix s pre = (if has_prefix s pre then drop (length pre) s else s)"

lemma has_prefix_append [simp]: "has_prefix (pre @ s) pre"
  by (simp add: has_prefix_def)

lemma has_prefix_iff: "has_prefix s pre \<longleftrightarrow> (\<exists>t. s = pre @ t)"
  by (metis append_take_drop_id has_prefix_append has_prefix_def)

lemma trim_prefix_append [simp]: "trim_prefix (pre @ s) pre = s"
  by (simp add: trim_prefix_def)

definition is_space :: "char \<Rightarrow> bool" where
  "is_space c \<longleftrightarrow> c = CHR '' '' \<or> c = CHR 0x09 \<or> c = CHR 0x0A \<or> c = CHR 0x0B \<or> c = CHR 0x0C \<or> c = CHR 0x0D"

definition trim_space :: "string \<Rightarrow> string" where
  "trim_space s = rev (dropWhile is_space (rev (dropWhile is_space s)))"

definition to_lower_char :: "char \<Rightarrow> char" where
  "to_lower_char c = (let n = of_char c :: nat in if 65 \<le> n \<and> n \<le> 90 then char_of (n + 32) else c)"

definition to_lower :: "string \<Rightarrow> string" where
  "to_lower s = map to_lower_char s"

lemma to_lower_char_idem [simp]: "to_lower_char (to_lower_char c) = to_lower_char c"
  by (auto simp: to_lower_char_def Let_def of_char_of)

lemma to_lower_idem [simp]: "to_lower (to_lower s) = to_lower s"
  by (simp add: to_lower_def)

lemma dropWhile_idem: "dropWhile P (dropWhile P xs) = dropWhile P xs"
  by (induction xs) auto

lemma trim_space_front: "trim_space s = [] \<or> \<not> is_space (hd (trim_space s))"
proof -
  have suffix: "\<exists>zs. dropWhile P xs @ zs = dropWhile P xs" for P and xs :: "'a list" by auto
  define d where "d = dropWhile is_space s"
  have hd_d: "d = [] \<or> \<not> is_space (hd d)" unfolding d_def by (metis hd_dropWhile)
  have "\<exists>zs. d = rev (dropWhile is_space (rev d)) @ zs"
    by (metis rev_append rev_rev_ident takeWhile_dropWhile_id)
  then obtain zs where "d = trim_space s @ zs" unfolding trim_space_def d_def by blast
  with hd_d show ?thesis by (cases "trim_space s") auto
qed

lemma trim_space_idem [simp]: "trim_space (trim_space s) = trim_space s"
proof -
  have "dropWhile is_space (trim_space s) = trim_space s"
    using trim_space_front [of s] by (cases "trim_space s") auto
  then have "trim_space (trim_space s) = rev (dropWhile is_space (rev (trim_space s)))"
    by (simp add: trim_space_def)
  also have "\<dots> = trim_space s" by (simp add: trim_space_def dropWhile_idem)
  finally show ?thesis .
qed

lemma is_space_to_lower [simp]: "is_space (to_lower_char c) \<longleftrightarrow> is_space c"
proof (cases "65 \<le> (of_char c :: nat) \<and> (of_char c :: nat) \<le> 90")
  case True
  then have "of_char (to_lower_char c) = (of_char c + 32 :: nat)"
    by (simp add: to_lower_char_def Let_def of_char_of)
  with True show ?thesis by (auto simp: is_space_def)
qed (auto simp: to_lower_char_def Let_def)

lemma dropWhile_to_lower: "dropWhile is_space (map to_lower_char s) = map to_lower_char (dropWhile is_space s)"
  by (induction s) auto

lemma trim_space_to_lower: "trim_space (to_lower s) = to_lower (trim_space s)"
  by (simp add: trim_space_def to_lower_def dropWhile_to_lower rev_map)

text \<open>The first segment of a path below a prefix: \<open>TrimPrefix\<close>, then up to the first slash.\<close>

definition path_id :: "string \<Rightarrow> string \<Rightarrow> string" where
  "path_id pre path = takeWhile (\<lambda>c. c \<noteq> CHR ''/'') (trim_prefix path pre)"

lemma path_id_no_slash: "CHR ''/'' \<notin> set (path_id pre path)"
  using set_takeWhileD [of "CHR ''/''" "\<lambda>c. c \<noteq> CHR ''/''" "trim_prefix path pre"] by (auto simp: path_id_def)

text \<open>\<open>strings.Contains\<close>\<close>

fun contains :: "string \<Rightarrow> string \<Rightarrow> bool" where
  "contains [] sub = has_prefix [] sub"
| "contains (c # s) sub = (has_prefix (c # s) sub \<or> contains s sub)"

text \<open>\<open>strings.Fields\<close>\<close>

fun fields_aux :: "string \<Rightarrow> string \<Rightarrow> string list" where
  "fields_aux acc [] = (if acc = [] then [] else [rev acc])"
| "fields_aux acc (c # s) =
     (if is_space c then (if acc = [] then fields_aux [] s else rev acc # fields_aux [] s)
      else fields_aux (c # acc) s)"

definition fields :: "string \<Rightarrow> string list" where
  "fields s = fields_aux [] s"

lemma fields_aux_words: "w \<in> set (fields_aux acc s) \<Longrightarrow> \<forall>c \<in> set acc. \<not> is_space c \<Longrightarrow>
  w \<noteq> [] \<and> (\<forall>c \<in> set w. \<not> is_space c)"
proof (induction acc s rule: fields_aux.induct)
  case (2 acc c s)
  show ?case
  proof (cases "is_space c \<and> acc \<noteq> []")
    case True
    with "2.prems" consider "w = rev acc" | "w \<in> set (fields_aux [] s)" by auto
    then show ?thesis
    proof cases
      case 2
      show ?thesis by (rule "2.IH"(2)) (use True 2 in auto)
    qed (use True "2.prems"(2) in auto)
  next
    case False
    show ?thesis
    proof (cases "is_space c")
      case True
      with False "2.prems" "2.IH"(1) show ?thesis by simp
    next
      case False
      with "2.prems" "2.IH"(3) show ?thesis by simp
    qed
  qed
qed (simp split: if_splits)

lemma fields_words: "w \<in> set (fields s) \<Longrightarrow> w \<noteq> [] \<and> (\<forall>c \<in> set w. \<not> is_space c)"
  unfolding fields_def by (erule fields_aux_words) simp

section \<open>Splitting, joining and numbers\<close>

text \<open>\<open>strings.Split\<close> at one character: there is always at least one part.\<close>

fun split_on :: "char \<Rightarrow> string \<Rightarrow> string list" where
  "split_on x [] = [[]]"
| "split_on x (c # s) =
     (if c = x then [] # split_on x s
      else (case split_on x s of [] \<Rightarrow> [[c]] | p # ps \<Rightarrow> (c # p) # ps))"

text \<open>\<open>strings.Join\<close>\<close>

fun join_with :: "string \<Rightarrow> string list \<Rightarrow> string" where
  "join_with sep [] = []"
| "join_with sep [s] = s"
| "join_with sep (s # t # ss) = s @ sep @ join_with sep (t # ss)"

lemma split_on_nonempty [simp]: "split_on x s \<noteq> []"
  by (cases s) (auto split: list.split)

lemma split_on_no_sep: "p \<in> set (split_on x s) \<Longrightarrow> x \<notin> set p"
  by (induction s arbitrary: p) (auto split: list.splits if_splits)

lemma join_split: "join_with [x] (split_on x s) = s"
proof (induction s)
  case (Cons c s)
  obtain p ps where sp: "split_on x s = p # ps" by (cases "split_on x s") auto
  with Cons show ?case by (cases ps) auto
qed simp

lemma split_on_plain: "x \<notin> set s \<Longrightarrow> split_on x s = [s]"
  by (induction s) auto

text \<open>\<open>strconv.Atoi\<close>: an optional sign and decimal digits; a value outside of 64 bits is an error.\<close>

definition is_digit :: "char \<Rightarrow> bool" where
  "is_digit c \<longleftrightarrow> (let n = of_char c :: nat in 48 \<le> n \<and> n \<le> 57)"

definition atoi :: "string \<Rightarrow> int option" where
  "atoi s =
     (let (neg, ds) = (case s of [] \<Rightarrow> (False, [])
        | c # cs \<Rightarrow> if c = CHR ''-'' then (True, cs) else if c = CHR ''+'' then (False, cs) else (False, s))
      in if ds = [] \<or> \<not> list_all is_digit ds then None
         else (let n = int (read_base 10 ds); v = (if neg then - n else n)
               in if in64 v then Some v else None))"

lemma digit_of_digit_char: "d < 10 \<Longrightarrow> is_digit (digit_char d)"
  by (simp add: is_digit_def digit_char_def Let_def of_char_of)

lemma show_base_digits: "list_all is_digit (show_base 10 n)"
proof (induction "10::nat" n rule: show_base.induct)
  case (1 n)
  then show ?case
    by (subst show_base.simps) (auto simp: digit_of_digit_char)
qed

lemma show_base_no_sign: "c \<in> set (show_base 10 n) \<Longrightarrow> c \<noteq> CHR ''-'' \<and> c \<noteq> CHR ''+''"
  using show_base_digits [of n] by (auto simp: list_all_iff is_digit_def Let_def)

text \<open>Printing a number and reading it back.\<close>

lemma atoi_fmt_d: "in64 n \<Longrightarrow> atoi (fmt_d n) = Some n"
proof -
  assume n: "in64 n"
  have pos: "atoi (show_base 10 m) = Some (int m)" if "in64 (int m)" for m
  proof -
    obtain c cs where s: "show_base 10 m = c # cs" by (cases "show_base 10 m") auto
    then have "c \<noteq> CHR ''-'' \<and> c \<noteq> CHR ''+''" using show_base_no_sign [of c m] by simp
    moreover have "int (read_base 10 (c # cs)) = int m" using read_show_base [of 10 m] s by simp
    ultimately show ?thesis using that show_base_digits [of m] by (simp add: atoi_def s)
  qed
  show ?thesis
  proof (cases "n < 0")
    case True
    then have v: "- int (read_base 10 (show_base 10 (nat (- n)))) = n" by (simp add: read_show_base)
    with True n show ?thesis
      using show_base_digits [of "nat (- n)"] by (simp add: fmt_d_def atoi_def)
  next
    case False
    with n pos [of "nat n"] show ?thesis by (simp add: fmt_d_def)
  qed
qed

section \<open>Hexadecimal and base64\<close>

definition hex_encode :: "nat list \<Rightarrow> string" where
  "hex_encode bs = concat (map (\<lambda>b. [digit_char (b div 16), digit_char (b mod 16)]) bs)"

definition bytes_of :: "string \<Rightarrow> nat list" where
  "bytes_of s = map of_char s"

definition b64_std :: string where
  "b64_std = ''ABCDEFGHIJKLMNOPQRSTUVWXYZabcdefghijklmnopqrstuvwxyz0123456789+/''"

definition b64_url :: string where
  "b64_url = ''ABCDEFGHIJKLMNOPQRSTUVWXYZabcdefghijklmnopqrstuvwxyz0123456789-_''"

text \<open>Encoding without padding, three bytes at a time.\<close>

fun b64_raw :: "string \<Rightarrow> nat list \<Rightarrow> string" where
  "b64_raw al (a # b # c # bs) =
     al ! (a div 4) # al ! (a mod 4 * 16 + b div 16) # al ! (b mod 16 * 4 + c div 64) # al ! (c mod 64)
       # b64_raw al bs"
| "b64_raw al [a, b] = [al ! (a div 4), al ! (a mod 4 * 16 + b div 16), al ! (b mod 16 * 4)]"
| "b64_raw al [a] = [al ! (a div 4), al ! (a mod 4 * 16)]"
| "b64_raw al [] = []"

lemma trim_space_same: "\<not> is_space (hd s) \<Longrightarrow> \<not> is_space (last s) \<Longrightarrow> trim_space s = s"
proof (cases "s = []")
  case False
  assume a: "\<not> is_space (hd s)" "\<not> is_space (last s)"
  with False have "dropWhile is_space s = s" by (cases s) auto
  moreover have "dropWhile is_space (rev s) = rev s"
    using a(2) False by (metis dropWhile_eq_self_iff hd_rev)
  ultimately show ?thesis by (simp add: trim_space_def)
qed (simp add: trim_space_def)

end
