(* ===== verification/Auth.thy ===== *)
theory Auth
  imports GoStrings "HOL-Library.AList"
begin

text \<open>
  apps/gateway/internal/auth/auth.go with the \<open>users\<close> table of apps/gateway/internal/database: accounts,
  login, access tokens, roles, and the middleware that guards the gateway's handlers. Parameters:
  \<open>mac\<close> (HMAC-SHA256 of a key and a message), \<open>check\<close> (\<open>bcrypt.CompareHashAndPassword\<close>) and \<open>valid_json\<close>.
  Random bytes, the hash of a new password, the clock and the outcome of a database call are in the
  environment \<open>au_env\<close> of a call. The runs \<open>au_run\<close> start from empty tables, as \<open>newAuthManager\<close> makes them;
  loading the accounts that a database already holds (\<open>am_loadFromDB\<close>) is modelled, but no run begins with it.
\<close>

section \<open>The users table\<close>

record user_row =
  ur_ID :: string
  ur_Email :: string
  ur_PasswordHash :: string
  ur_DisplayName :: string
  ur_AvatarURL :: string
  ur_TailscaleIP :: string
  ur_TailscaleCIDR :: string
  ur_TailscaleKey :: string
  ur_StorageUsed :: int
  ur_StorageQuota :: int
  ur_Credits :: int
  ur_Role :: string
  ur_Verified :: bool
  ur_Banned :: bool
  ur_Preferences :: string
  ur_CreatedAt :: time
  ur_UpdatedAt :: time

type_synonym users_table = "user_row list"

text \<open>
  Times are stored in RFC 3339, to the second. An \<open>INSERT\<close> fails on the primary key or the unique
  email; \<open>failure\<close> is any other failure of the database.
\<close>

definition rfc3339 :: "time \<Rightarrow> time" where
  "rfc3339 t = t div second * second"

definition db_CreateUser :: "string option \<Rightarrow> user_row \<Rightarrow> users_table \<Rightarrow> (string + unit) \<times> users_table" where
  "db_CreateUser failure u t =
     (case failure of
        Some e \<Rightarrow> (Inl e, t)
      | None \<Rightarrow>
          if list_ex (\<lambda>r. ur_ID r = ur_ID u \<or> ur_Email r = ur_Email u) t
          then (Inl ''UNIQUE constraint failed'', t)
          else (Inr (), t @ [u\<lparr>ur_Preferences := ''{}'', ur_CreatedAt := rfc3339 (ur_CreatedAt u),
                               ur_UpdatedAt := rfc3339 (ur_UpdatedAt u)\<rparr>]))"

text \<open>An \<open>UPDATE\<close> of the row with the id; it fails when another row has the email.\<close>

definition db_UpdateUser :: "string option \<Rightarrow> user_row \<Rightarrow> users_table \<Rightarrow> (string + unit) \<times> users_table" where
  "db_UpdateUser failure u t =
     (case failure of
        Some e \<Rightarrow> (Inl e, t)
      | None \<Rightarrow>
          if list_ex (\<lambda>r. ur_ID r = ur_ID u) t \<and> list_ex (\<lambda>r. ur_ID r \<noteq> ur_ID u \<and> ur_Email r = ur_Email u) t
          then (Inl ''UNIQUE constraint failed'', t)
          else (Inr (), map (\<lambda>r. if ur_ID r = ur_ID u
            then u\<lparr>ur_Preferences := ur_Preferences r, ur_CreatedAt := ur_CreatedAt r,
                   ur_UpdatedAt := rfc3339 (ur_UpdatedAt u)\<rparr> else r) t))"

definition db_SetUserRole ::
  "string option \<Rightarrow> string \<Rightarrow> string \<Rightarrow> time \<Rightarrow> users_table \<Rightarrow> (string + unit) \<times> users_table" where
  "db_SetUserRole failure userID role now t =
     (case failure of
        Some e \<Rightarrow> (Inl e, t)
      | None \<Rightarrow> (Inr (), map (\<lambda>r. if ur_ID r = userID
                               then r\<lparr>ur_Role := role, ur_UpdatedAt := rfc3339 now\<rparr> else r) t))"

definition db_SetUserPreferences ::
  "string option \<Rightarrow> string \<Rightarrow> string \<Rightarrow> time \<Rightarrow> users_table \<Rightarrow> (string + unit) \<times> users_table" where
  "db_SetUserPreferences failure userID blob now t =
     (case failure of
        Some e \<Rightarrow> (Inl e, t)
      | None \<Rightarrow> (Inr (), map (\<lambda>r. if ur_ID r = userID
                               then r\<lparr>ur_Preferences := blob, ur_UpdatedAt := rfc3339 now\<rparr> else r) t))"

section \<open>Users and roles\<close>

datatype auth_error = ErrUserExists | ErrUserNotFound | ErrInvalidPassword | ErrInvalidToken
  | ErrQuotaExceeded | AuthError string

record user =
  us_ID :: string
  us_Email :: string
  us_PasswordHash :: string
  us_DisplayName :: string
  us_Verified :: bool
  us_Credits :: int
  us_StorageUsed :: int
  us_StorageQuota :: int
  us_TailscaleIP :: string
  us_TailscaleProxy :: string
  us_Preferences :: "string option"
  us_Role :: string
  us_CreatedAt :: time
  us_UpdatedAt :: time

definition RoleUser :: int where "RoleUser = 0"
definition RoleModerator :: int where "RoleModerator = 1"
definition RoleAdmin :: int where "RoleAdmin = 2"

definition roleLevel :: "string \<Rightarrow> int" where
  "roleLevel role =
     (let r = to_lower (trim_space role)
      in if r = ''admin'' then RoleAdmin else if r = ''moderator'' then RoleModerator else RoleUser)"

definition normal_email :: "string \<Rightarrow> string" where
  "normal_email email = to_lower (trim_space email)"

record token_pair =
  tp_AccessToken :: string
  tp_RefreshToken :: string
  tp_ExpiresAt :: time

record auth_manager =
  am_users :: "string \<rightharpoonup> user"
  am_emails :: "string \<rightharpoonup> string"
  am_tokens :: "string \<rightharpoonup> string"
  am_refreshTokens :: "string \<rightharpoonup> string"
  am_tokenExpiry :: "string \<rightharpoonup> time"
  am_validationCount :: int
  am_jwtSecret :: "nat list"
  am_db :: "users_table option"

record au_env =
  au_now :: time
  au_randUser :: "nat list option"
  au_randRefresh :: "nat list option"
  au_hash :: "string + string"
  au_dbFailure :: "string option"

section \<open>Construction and loading\<close>

definition newAuthManager :: "nat list \<Rightarrow> users_table option \<Rightarrow> auth_manager" where
  "newAuthManager secret db =
     \<lparr>am_users = Map.empty, am_emails = Map.empty, am_tokens = Map.empty, am_refreshTokens = Map.empty,
      am_tokenExpiry = Map.empty, am_validationCount = 0, am_jwtSecret = secret, am_db = db\<rparr>"

definition user_of_row :: "user_row \<Rightarrow> user" where
  "user_of_row row =
     \<lparr>us_ID = ur_ID row, us_Email = ur_Email row, us_PasswordHash = ur_PasswordHash row,
      us_DisplayName = ur_DisplayName row, us_Verified = ur_Verified row, us_Credits = ur_Credits row,
      us_StorageUsed = ur_StorageUsed row, us_StorageQuota = ur_StorageQuota row,
      us_TailscaleIP = ur_TailscaleIP row, us_TailscaleProxy = '''',
      us_Preferences = Some (ur_Preferences row), us_Role = ur_Role row,
      us_CreatedAt = ur_CreatedAt row, us_UpdatedAt = ur_UpdatedAt row\<rparr>"

text \<open>\<open>rows\<close> is the answer of \<open>ListUsers\<close>, which sorts by the time of creation, or \<open>None\<close> for its error.\<close>

definition am_loadFromDB :: "user_row list option \<Rightarrow> auth_manager \<Rightarrow> auth_manager" where
  "am_loadFromDB rows m =
     (case am_db m of
        None \<Rightarrow> m
      | Some _ \<Rightarrow>
          (case rows of
             None \<Rightarrow> m
           | Some rows \<Rightarrow>
               foldl (\<lambda>m row. let u = user_of_row row
                 in m\<lparr>am_users := (am_users m)(us_ID u \<mapsto> u), am_emails := (am_emails m)(us_Email u \<mapsto> us_ID u)\<rparr>)
                 m rows))"

section \<open>Tokens\<close>

definition unix :: "time \<Rightarrow> int" where
  "unix t = t div second"

definition quoted :: "string \<Rightarrow> string" where
  "quoted s = CHR 0x22 # s @ [CHR 0x22]"

definition generateJWT ::
  "(nat list \<Rightarrow> string \<Rightarrow> nat list) \<Rightarrow> string \<Rightarrow> nat list \<Rightarrow> time \<Rightarrow> time \<Rightarrow> string" where
  "generateJWT mac userID secret expiresAt now =
     (let header = b64_raw b64_url (bytes_of (
            ''{'' @ quoted ''alg'' @ '':'' @ quoted ''HS256'' @ '','' @ quoted ''typ'' @ '':'' @ quoted ''JWT'' @ ''}''));
          payload = b64_raw b64_url (bytes_of (
            ''{'' @ quoted ''sub'' @ '':'' @ quoted userID @ '','' @ quoted ''exp'' @ '':'' @ fmt_d (unix expiresAt)
              @ '','' @ quoted ''iat'' @ '':'' @ fmt_d (unix now) @ ''}''));
          sig = b64_raw b64_url (mac secret (header @ ''.'' @ payload))
      in header @ ''.'' @ payload @ ''.'' @ sig)"

definition generateID :: "string \<Rightarrow> nat list option \<Rightarrow> time \<Rightarrow> string" where
  "generateID pre rand now =
     (case rand of None \<Rightarrow> pre @ fmt_d now | Some bs \<Rightarrow> pre @ hex_encode bs)"

text \<open>
  \<open>cleanup\<close> deletes the entries of every expired token; the order of the iteration does not matter.
\<close>

definition am_cleanup :: "time \<Rightarrow> auth_manager \<Rightarrow> auth_manager" where
  "am_cleanup now m =
     (let expired = (\<lambda>token. case am_tokenExpiry m token of None \<Rightarrow> False | Some e \<Rightarrow> now > e)
      in m\<lparr>am_tokens := (\<lambda>k. if expired k then None else am_tokens m k),
           am_refreshTokens := (\<lambda>k. if expired k then None else am_refreshTokens m k),
           am_tokenExpiry := (\<lambda>k. if expired k then None else am_tokenExpiry m k)\<rparr>)"

definition am_generateTokens ::
  "(nat list \<Rightarrow> string \<Rightarrow> nat list) \<Rightarrow> au_env \<Rightarrow> string \<Rightarrow> auth_manager \<Rightarrow> token_pair \<times> auth_manager" where
  "am_generateTokens mac env userID m =
     (let expiresAt = au_now env + 24 * 60 * minute;
          accessToken = generateJWT mac userID (am_jwtSecret m) expiresAt (au_now env);
          refreshToken = generateID ''ref_'' (au_randRefresh env) (au_now env)
      in (\<lparr>tp_AccessToken = accessToken, tp_RefreshToken = refreshToken, tp_ExpiresAt = expiresAt\<rparr>,
          m\<lparr>am_tokens := (am_tokens m)(accessToken \<mapsto> userID),
            am_refreshTokens := (am_refreshTokens m)(refreshToken \<mapsto> userID),
            am_tokenExpiry := (am_tokenExpiry m)(accessToken \<mapsto> expiresAt, refreshToken \<mapsto> expiresAt)\<rparr>))"

definition am_ValidateToken :: "string \<Rightarrow> time \<Rightarrow> auth_manager \<Rightarrow> (auth_error + user) \<times> auth_manager" where
  "am_ValidateToken token now m =
     (case am_tokens m token of
        None \<Rightarrow> (Inl ErrInvalidToken, m)
      | Some userID \<Rightarrow>
          if (case am_tokenExpiry m token of None \<Rightarrow> False | Some e \<Rightarrow> now > e)
          then (Inl ErrInvalidToken,
                m\<lparr>am_tokens := (am_tokens m)(token := None),
                  am_refreshTokens := (am_refreshTokens m)(token := None),
                  am_tokenExpiry := (am_tokenExpiry m)(token := None)\<rparr>)
          else
            case am_users m userID of
              None \<Rightarrow> (Inl ErrUserNotFound, m)
            | Some u \<Rightarrow>
                let m = m\<lparr>am_validationCount := wrap64 (am_validationCount m + 1)\<rparr>
                in (Inr u, if am_validationCount m mod 1000 = 0 then am_cleanup now m else m))"

section \<open>Accounts\<close>

definition am_Register ::
  "(nat list \<Rightarrow> string \<Rightarrow> nat list) \<Rightarrow> au_env \<Rightarrow> string \<Rightarrow> string \<Rightarrow> string \<Rightarrow> auth_manager
     \<Rightarrow> (auth_error + user \<times> token_pair) \<times> auth_manager" where
  "am_Register mac env email0 password displayName m =
     (let email = to_lower (trim_space email0)
      in if am_emails m email \<noteq> None then (Inl ErrUserExists, m)
         else case au_hash env of
           Inl e \<Rightarrow> (Inl (AuthError (''hash password: '' @ e)), m)
         | Inr hash \<Rightarrow>
             let userID = generateID ''user_'' (au_randUser env) (au_now env);
                 quota = 10 * 1024 * 1024 * 1024;
                 user = \<lparr>us_ID = userID, us_Email = email, us_PasswordHash = hash,
                   us_DisplayName = displayName, us_Verified = True, us_Credits = 0, us_StorageUsed = 0,
                   us_StorageQuota = quota, us_TailscaleIP = '''', us_TailscaleProxy = '''',
                   us_Preferences = None, us_Role = '''', us_CreatedAt = au_now env, us_UpdatedAt = au_now env\<rparr>;
                 row = \<lparr>ur_ID = userID, ur_Email = email, ur_PasswordHash = hash,
                   ur_DisplayName = displayName, ur_AvatarURL = '''', ur_TailscaleIP = '''',
                   ur_TailscaleCIDR = '''', ur_TailscaleKey = '''', ur_StorageUsed = 0,
                   ur_StorageQuota = quota, ur_Credits = 0, ur_Role = us_Role user, ur_Verified = True,
                   ur_Banned = False, ur_Preferences = '''', ur_CreatedAt = au_now env,
                   ur_UpdatedAt = au_now env\<rparr>;
                 (saved, db) = (case am_db m of
                     None \<Rightarrow> (Inr (), None)
                   | Some t \<Rightarrow> (let (r, t') = db_CreateUser (au_dbFailure env) row t in (r, Some t')))
             in case saved of
                  Inl e \<Rightarrow> (Inl (AuthError (''persist user: '' @ e)), m\<lparr>am_db := db\<rparr>)
                | Inr _ \<Rightarrow>
                    let m = m\<lparr>am_db := db, am_users := (am_users m)(userID \<mapsto> user),
                              am_emails := (am_emails m)(email \<mapsto> userID)\<rparr>;
                        (tokens, m) = am_generateTokens mac env userID (am_cleanup (au_now env) m)
                    in (Inr (user, tokens), m))"

definition am_Login ::
  "(nat list \<Rightarrow> string \<Rightarrow> nat list) \<Rightarrow> (string \<Rightarrow> string \<Rightarrow> bool) \<Rightarrow> au_env \<Rightarrow> string \<Rightarrow> string \<Rightarrow>
     auth_manager \<Rightarrow> (auth_error + user \<times> token_pair) \<times> auth_manager" where
  "am_Login mac check env email0 password m =
     (let email = to_lower (trim_space email0)
      in case am_emails m email of
           None \<Rightarrow> (Inl ErrUserNotFound, m)
         | Some userID \<Rightarrow>
             case am_users m userID of
               None \<Rightarrow> (Inl ErrUserNotFound, m\<lparr>am_emails := (am_emails m)(email := None)\<rparr>)
             | Some user \<Rightarrow>
                 let m = am_cleanup (au_now env) m
                 in if \<not> check (us_PasswordHash user) password then (Inl ErrInvalidPassword, m)
                    else let (tokens, m) = am_generateTokens mac env userID m in (Inr (user, tokens), m))"

definition am_GetUser :: "string \<Rightarrow> auth_manager \<Rightarrow> auth_error + user" where
  "am_GetUser userID m = (case am_users m userID of None \<Rightarrow> Inl ErrUserNotFound | Some u \<Rightarrow> Inr u)"

text \<open>\<open>persistUser\<close> writes the whole row; an error is only logged.\<close>

definition am_persistUser :: "au_env \<Rightarrow> user \<Rightarrow> auth_manager \<Rightarrow> auth_manager" where
  "am_persistUser env u m =
     (case am_db m of
        None \<Rightarrow> m
      | Some t \<Rightarrow>
          m\<lparr>am_db := Some (snd (db_UpdateUser (au_dbFailure env)
             \<lparr>ur_ID = us_ID u, ur_Email = us_Email u, ur_PasswordHash = us_PasswordHash u,
              ur_DisplayName = us_DisplayName u, ur_AvatarURL = '''', ur_TailscaleIP = us_TailscaleIP u,
              ur_TailscaleCIDR = '''', ur_TailscaleKey = '''', ur_StorageUsed = us_StorageUsed u,
              ur_StorageQuota = us_StorageQuota u, ur_Credits = us_Credits u, ur_Role = us_Role u,
              ur_Verified = us_Verified u, ur_Banned = False, ur_Preferences = '''', ur_CreatedAt = 0,
              ur_UpdatedAt = us_UpdatedAt u\<rparr> t))\<rparr>)"

definition am_UpdateUser ::
  "au_env \<Rightarrow> string \<Rightarrow> (user \<Rightarrow> user) \<Rightarrow> auth_manager \<Rightarrow> (auth_error + unit) \<times> auth_manager" where
  "am_UpdateUser env userID update m =
     (case am_users m userID of
        None \<Rightarrow> (Inl ErrUserNotFound, m)
      | Some u \<Rightarrow>
          let u = (update u)\<lparr>us_UpdatedAt := au_now env\<rparr>
          in (Inr (), am_persistUser env u (m\<lparr>am_users := (am_users m)(userID \<mapsto> u)\<rparr>)))"

text \<open>The octets come from \<open>au_randUser\<close>, or from the clock when reading random bytes fails.\<close>

definition am_AllocateTailscaleIP :: "au_env \<Rightarrow> string \<Rightarrow> auth_manager \<Rightarrow> string \<times> auth_manager" where
  "am_AllocateTailscaleIP env userID m =
     (case am_users m userID of
        None \<Rightarrow> ('''', m)
      | Some u \<Rightarrow>
          if us_TailscaleIP u \<noteq> '''' then (us_TailscaleIP u, m)
          else
            let now = au_now env;
                octets = (case au_randUser env of
                    Some bs \<Rightarrow> map int (take 3 bs)
                  | None \<Rightarrow> [now mod 256, now div 256 mod 256, now div 65536 mod 256]);
                ip = ''100.'' @ fmt_d (octets ! 0 mod 255) @ ''.'' @ fmt_d (octets ! 1 mod 255) @ ''.''
                  @ fmt_d (octets ! 2 mod 255);
                u = u\<lparr>us_TailscaleIP := ip, us_TailscaleProxy := ''relay'', us_UpdatedAt := now\<rparr>
            in (ip, am_persistUser env u (m\<lparr>am_users := (am_users m)(userID \<mapsto> u)\<rparr>)))"

definition am_CheckStorageQuota :: "string \<Rightarrow> int \<Rightarrow> auth_manager \<Rightarrow> auth_error + unit" where
  "am_CheckStorageQuota userID additionalBytes m =
     (case am_users m userID of
        None \<Rightarrow> Inl ErrUserNotFound
      | Some u \<Rightarrow>
          if wrap64 (us_StorageUsed u + additionalBytes) > us_StorageQuota u then Inl ErrQuotaExceeded
          else Inr ())"

definition am_AddStorageUsed :: "au_env \<Rightarrow> string \<Rightarrow> int \<Rightarrow> auth_manager \<Rightarrow> auth_manager" where
  "am_AddStorageUsed env userID bytes m =
     (case am_users m userID of
        None \<Rightarrow> m
      | Some u \<Rightarrow>
          let u = u\<lparr>us_StorageUsed := wrap64 (us_StorageUsed u + bytes)\<rparr>;
              u = (if us_StorageUsed u < 0 then u\<lparr>us_StorageUsed := 0\<rparr> else u);
              u = u\<lparr>us_UpdatedAt := au_now env\<rparr>
          in am_persistUser env u (m\<lparr>am_users := (am_users m)(userID \<mapsto> u)\<rparr>))"

definition am_DeleteUser :: "string \<Rightarrow> auth_manager \<Rightarrow> (auth_error + unit) \<times> auth_manager" where
  "am_DeleteUser userID m =
     (case am_users m userID of
        None \<Rightarrow> (Inl ErrUserNotFound, m)
      | Some u \<Rightarrow>
          (Inr (), m\<lparr>am_emails := (am_emails m)(us_Email u := None),
                     am_users := (am_users m)(userID := None)\<rparr>))"

definition am_GetPreferences :: "string \<Rightarrow> auth_manager \<Rightarrow> auth_error + string" where
  "am_GetPreferences userID m =
     (case am_GetUser userID m of
        Inl e \<Rightarrow> Inl e
      | Inr u \<Rightarrow> (case us_Preferences u of None \<Rightarrow> Inr ''{}'' | Some p \<Rightarrow> Inr p))"

definition am_SavePreferences ::
  "(string \<Rightarrow> bool) \<Rightarrow> au_env \<Rightarrow> string \<Rightarrow> string \<Rightarrow> auth_manager \<Rightarrow> (auth_error + unit) \<times> auth_manager" where
  "am_SavePreferences valid_json env userID blob m =
     (if \<not> valid_json blob then (Inl (AuthError ''invalid preferences json''), m)
      else if length blob > 64 * 1024 then (Inl (AuthError ''preferences exceed 64 KB''), m)
      else case am_users m userID of
        None \<Rightarrow> (Inl ErrUserNotFound, m)
      | Some u \<Rightarrow>
          let u = u\<lparr>us_Preferences := Some blob, us_UpdatedAt := au_now env\<rparr>;
              m = m\<lparr>am_users := (am_users m)(userID \<mapsto> u)\<rparr>
          in case am_db m of
               None \<Rightarrow> (Inr (), m)
             | Some t \<Rightarrow>
                 let (r, t') = db_SetUserPreferences (au_dbFailure env) userID blob (au_now env) t
                 in (case r of Inl e \<Rightarrow> Inl (AuthError e) | Inr _ \<Rightarrow> Inr (), m\<lparr>am_db := Some t'\<rparr>))"

definition am_SetRole ::
  "au_env \<Rightarrow> string \<Rightarrow> string \<Rightarrow> auth_manager \<Rightarrow> (auth_error + unit) \<times> auth_manager" where
  "am_SetRole env userID role0 m =
     (let role = to_lower (trim_space role0)
      in if role \<notin> {''user'', ''moderator'', ''admin''} then (Inl (AuthError (''invalid role: '' @ role)), m)
         else case am_users m userID of
           None \<Rightarrow> (Inl ErrUserNotFound, m)
         | Some u \<Rightarrow>
             let u = u\<lparr>us_Role := role, us_UpdatedAt := au_now env\<rparr>;
                 m = m\<lparr>am_users := (am_users m)(userID \<mapsto> u)\<rparr>
             in case am_db m of
                  None \<Rightarrow> (Inr (), m)
                | Some t \<Rightarrow>
                    let (r, t') = db_SetUserRole (au_dbFailure env) userID role (au_now env) t
                    in (case r of Inl e \<Rightarrow> Inl (AuthError e) | Inr _ \<Rightarrow> Inr (), m\<lparr>am_db := Some t'\<rparr>))"

section \<open>Middleware and handlers\<close>

definition bearerToken :: "string \<Rightarrow> string" where
  "bearerToken header =
     (if \<not> has_prefix header ''Bearer '' then '''' else trim_space (trim_prefix header ''Bearer ''))"

text \<open>
  A handler takes the user in the request's context, if any, and the state; the middleware takes the
  value of the \<open>Authorization\<close> header. Bodies are the error texts or what the handler answers.
\<close>

datatype 'b auth_body = AuthFailure string | AuthOk 'b

type_synonym 'b user_handler = "user option \<Rightarrow> auth_manager \<Rightarrow> 'b auth_body answer \<times> auth_manager"

definition AuthMiddleware :: "'b user_handler \<Rightarrow> string \<Rightarrow> time \<Rightarrow> auth_manager \<Rightarrow> 'b auth_body answer \<times> auth_manager" where
  "AuthMiddleware nxt header now m =
     (let token = bearerToken header
      in if token \<noteq> '''' then
           let (r, m) = am_ValidateToken token now m
           in nxt (case r of Inl _ \<Rightarrow> None | Inr u \<Rightarrow> Some u) m
         else nxt None m)"

definition RequireAuth :: "'b user_handler \<Rightarrow> string \<Rightarrow> time \<Rightarrow> auth_manager \<Rightarrow> 'b auth_body answer \<times> auth_manager" where
  "RequireAuth nxt header now m =
     (let token = bearerToken header
      in if token = '''' then (Answer 401 (AuthFailure ''missing authorization header''), m)
         else let (r, m) = am_ValidateToken token now m
              in case r of
                   Inl _ \<Rightarrow> (Answer 401 (AuthFailure ''invalid token''), m)
                 | Inr u \<Rightarrow> nxt (Some u) m)"

definition RequireRole ::
  "int \<Rightarrow> 'b user_handler \<Rightarrow> string \<Rightarrow> time \<Rightarrow> auth_manager \<Rightarrow> 'b auth_body answer \<times> auth_manager" where
  "RequireRole min_level nxt header now m =
     (let token = bearerToken header
      in if token = '''' then (Answer 401 (AuthFailure ''unauthorized''), m)
         else let (r, m) = am_ValidateToken token now m
              in case r of
                   Inl _ \<Rightarrow> (Answer 401 (AuthFailure ''invalid token''), m)
                 | Inr u \<Rightarrow>
                     if roleLevel (us_Role u) < min_level then (Answer 403 (AuthFailure ''forbidden''), m)
                     else nxt (Some u) m)"

text \<open>The request body is decoded JSON; \<open>None\<close> is a decoding error.\<close>

definition au_HandleRegister ::
  "(nat list \<Rightarrow> string \<Rightarrow> nat list) \<Rightarrow> au_env \<Rightarrow> (string \<times> string \<times> string) option \<Rightarrow> auth_manager
     \<Rightarrow> (user \<times> token_pair) auth_body answer \<times> auth_manager" where
  "au_HandleRegister mac env req m =
     (case req of
        None \<Rightarrow> (Answer 400 (AuthFailure ''invalid request''), m)
      | Some (email, password, displayName) \<Rightarrow>
          if email = '''' \<or> password = '''' then (Answer 400 (AuthFailure ''email and password required''), m)
          else if length password < 8 then
            (Answer 400 (AuthFailure ''password must be at least 8 characters''), m)
          else if length email > 254 \<or> \<not> contains email ''@'' then (Answer 400 (AuthFailure ''invalid email''), m)
          else case am_Register mac env email password displayName m of
            (Inl e, m) \<Rightarrow> (if e = ErrUserExists then Answer 409 (AuthFailure ''email already registered'')
                          else Answer 500 (AuthFailure ''registration failed''), m)
          | (Inr r, m) \<Rightarrow> (Answer 201 (AuthOk r), m))"

definition au_HandleLogin ::
  "(nat list \<Rightarrow> string \<Rightarrow> nat list) \<Rightarrow> (string \<Rightarrow> string \<Rightarrow> bool) \<Rightarrow> au_env \<Rightarrow> (string \<times> string) option \<Rightarrow>
     auth_manager \<Rightarrow> (user \<times> token_pair) auth_body answer \<times> auth_manager" where
  "au_HandleLogin mac check env req m =
     (case req of
        None \<Rightarrow> (Answer 400 (AuthFailure ''invalid request''), m)
      | Some (email, password) \<Rightarrow>
          case am_Login mac check env email password m of
            (Inl e, m) \<Rightarrow> (Answer 401 (AuthFailure ''invalid credentials''), m)
          | (Inr r, m) \<Rightarrow> (Answer 200 (AuthOk r), m))"

definition au_HandlePreferences ::
  "(string \<Rightarrow> bool) \<Rightarrow> au_env \<Rightarrow> http_method \<Rightarrow> string option \<Rightarrow> string user_handler" where
  "au_HandlePreferences valid_json env meth req caller m =
     (case caller of
        None \<Rightarrow> (Answer 401 (AuthFailure ''unauthorized''), m)
      | Some user \<Rightarrow>
          if meth = GET then
            (case am_GetPreferences (us_ID user) m of
               Inl _ \<Rightarrow> (Answer 500 (AuthFailure ''could not load preferences''), m)
             | Inr prefs \<Rightarrow> (Answer 200 (AuthOk prefs), m))
          else if meth = PUT then
            (case req of
               None \<Rightarrow> (Answer 400 (AuthFailure ''invalid request''), m)
             | Some blob \<Rightarrow>
                 case am_SavePreferences valid_json env (us_ID user) blob m of
                   (Inl e, m) \<Rightarrow> (if e = ErrUserNotFound then Answer 404 (AuthFailure ''user not found'')
                                 else Answer 500 (AuthFailure ''could not save preferences''), m)
                 | (Inr _, m) \<Rightarrow> (Answer 200 (AuthOk ''ok''), m))
          else (Answer 405 (AuthFailure ''method not allowed''), m))"

section \<open>Runs\<close>

text \<open>
  The calls that change the state. A new user gets a new random id. \<open>AuSeedAdmin\<close> is the one use of
  \<open>UpdateUser\<close> in the repository (apps/gateway/internal/admin).
\<close>

datatype au_call = AuRegister au_env string string string | AuLogin au_env string string
  | AuValidate string time | AuSeedAdmin au_env string string | AuAllocateIP au_env string
  | AuAddStorage au_env string int | AuDelete string | AuSavePrefs bool au_env string string
  | AuSetRole au_env string string

definition seed_admin :: "string \<Rightarrow> user \<Rightarrow> user" where
  "seed_admin role u = u\<lparr>us_Verified := True, us_Role := role, us_StorageQuota := 1024 * 1024 * 1024 * 1024,
     us_TailscaleIP := ''100.0.0.1'', us_TailscaleProxy := ''admin''\<rparr>"

text \<open>A call's new token with its user and expiry, if it makes one, and the state it leaves.\<close>

definition granted :: "auth_error + user \<times> token_pair \<Rightarrow> (string \<times> string \<times> time) list" where
  "granted r = (case r of Inl _ \<Rightarrow> [] | Inr (u, tp) \<Rightarrow> [(tp_AccessToken tp, us_ID u, tp_ExpiresAt tp)])"

definition au_exec ::
  "(nat list \<Rightarrow> string \<Rightarrow> nat list) \<Rightarrow> (string \<Rightarrow> string \<Rightarrow> bool) \<Rightarrow> auth_manager \<Rightarrow> au_call
     \<Rightarrow> (string \<times> string \<times> time) list \<times> auth_manager" where
  "au_exec mac check m c = (case c of
     AuRegister env e p d \<Rightarrow>
       if am_users m (generateID ''user_'' (au_randUser env) (au_now env)) \<noteq> None then ([], m)
       else (let (r, m') = am_Register mac env e p d m in (granted r, m'))
   | AuLogin env e p \<Rightarrow> (let (r, m') = am_Login mac check env e p m in (granted r, m'))
   | AuValidate tok now \<Rightarrow> ([], snd (am_ValidateToken tok now m))
   | AuSeedAdmin env k role \<Rightarrow> ([], snd (am_UpdateUser env k (seed_admin role) m))
   | AuAllocateIP env k \<Rightarrow> ([], snd (am_AllocateTailscaleIP env k m))
   | AuAddStorage env k n \<Rightarrow> ([], am_AddStorageUsed env k n m)
   | AuDelete k \<Rightarrow> ([], snd (am_DeleteUser k m))
   | AuSavePrefs ok env k blob \<Rightarrow> ([], snd (am_SavePreferences (\<lambda>_. ok) env k blob m))
   | AuSetRole env k role \<Rightarrow> ([], snd (am_SetRole env k role m)))"

definition au_step ::
  "(nat list \<Rightarrow> string \<Rightarrow> nat list) \<Rightarrow> (string \<Rightarrow> string \<Rightarrow> bool) \<Rightarrow>
     (string \<times> string \<times> time) list \<times> auth_manager \<Rightarrow> au_call \<Rightarrow> (string \<times> string \<times> time) list \<times> auth_manager" where
  "au_step mac check s c = (case s of (issued, m) \<Rightarrow>
     let (new, m') = au_exec mac check m c in (issued @ new, m'))"

section \<open>Invariants\<close>

text \<open>Every live access token was issued to its user with the expiry on record.\<close>

definition tokens_ok :: "(string \<times> string \<times> time) list \<Rightarrow> auth_manager \<Rightarrow> bool" where
  "tokens_ok issued m \<longleftrightarrow> (\<forall>tok k. am_tokens m tok = Some k \<longrightarrow> (\<exists>r. tok = CHR ''e'' # r) \<and>
     (\<exists>e. am_tokenExpiry m tok = Some e \<and> (tok, k, e) \<in> set issued))"

text \<open>The two account tables mirror each other, and addresses are in normal form.\<close>

definition accounts_ok :: "auth_manager \<Rightarrow> bool" where
  "accounts_ok m \<longleftrightarrow>
     (\<forall>k u. am_users m k = Some u \<longrightarrow> us_ID u = k \<and> am_emails m (us_Email u) = Some k \<and>
        normal_email (us_Email u) = us_Email u) \<and>
     (\<forall>e k. am_emails m e = Some k \<longrightarrow> (\<exists>u. am_users m k = Some u \<and> us_Email u = e))"

definition au_inv :: "(string \<times> string \<times> time) list \<times> auth_manager \<Rightarrow> bool" where
  "au_inv s \<longleftrightarrow> tokens_ok (fst s) (snd s) \<and> accounts_ok (snd s)"

lemma normal_email_idem [simp]: "normal_email (normal_email e) = normal_email e"
  by (simp add: normal_email_def trim_space_to_lower)

lemma jwt_shape: "\<exists>r. generateJWT mac k secret e now = CHR ''e'' # r"
proof -
  have "b64_raw b64_url (bytes_of (''{'' @ quoted ''alg'' @ '':'' @ quoted ''HS256'' @ '','' @
      quoted ''typ'' @ '':'' @ quoted ''JWT'' @ ''}'')) = ''eyJhbGciOiJIUzI1NiIsInR5cCI6IkpXVCJ9''"
    by code_simp
  then show ?thesis by (simp add: generateJWT_def Let_def)
qed

lemma ref_shape: "\<exists>r. generateID ''ref_'' rand now = CHR ''r'' # r"
  by (simp add: generateID_def split: option.split)

lemma tokens_ok_more: "tokens_ok issued m \<Longrightarrow> tokens_ok (issued @ new) m"
  by (fastforce simp: tokens_ok_def)

lemma tokens_ok_cong:
  "tokens_ok issued m \<Longrightarrow> am_tokens m' = am_tokens m \<Longrightarrow> am_tokenExpiry m' = am_tokenExpiry m \<Longrightarrow>
   tokens_ok issued m'"
  by (simp add: tokens_ok_def)

lemma accounts_ok_cong:
  "accounts_ok m \<Longrightarrow> am_users m' = am_users m \<Longrightarrow> am_emails m' = am_emails m \<Longrightarrow> accounts_ok m'"
  by (simp add: accounts_ok_def)

lemma cleanup_sel [simp]:
  "am_users (am_cleanup now m) = am_users m" "am_emails (am_cleanup now m) = am_emails m"
  "am_db (am_cleanup now m) = am_db m" "am_jwtSecret (am_cleanup now m) = am_jwtSecret m"
  by (simp_all add: am_cleanup_def Let_def)

lemma tokens_ok_cleanup: "tokens_ok issued m \<Longrightarrow> tokens_ok issued (am_cleanup now m)"
  by (auto simp: tokens_ok_def am_cleanup_def Let_def split: if_splits option.splits)

lemma persist_sel [simp]:
  "am_users (am_persistUser env u m) = am_users m" "am_emails (am_persistUser env u m) = am_emails m"
  "am_tokens (am_persistUser env u m) = am_tokens m"
  "am_tokenExpiry (am_persistUser env u m) = am_tokenExpiry m"
  by (simp_all add: am_persistUser_def split: option.split)

lemma generateTokens_ok:
  assumes "tokens_ok issued m" "am_generateTokens mac env k m = (tp, m')"
  shows "tokens_ok (issued @ [(tp_AccessToken tp, k, tp_ExpiresAt tp)]) m'"
    and "am_users m' = am_users m" "am_emails m' = am_emails m"
proof -
  let ?e = "au_now env + 24 * 60 * minute"
  let ?a = "generateJWT mac k (am_jwtSecret m) ?e (au_now env)"
  obtain r1 r2 where shapes: "?a = CHR ''e'' # r1" "generateID ''ref_'' (au_randRefresh env) (au_now env) = CHR ''r'' # r2"
    using jwt_shape ref_shape by metis
  have tp: "tp_AccessToken tp = ?a" "tp_ExpiresAt tp = ?e"
    and m': "am_tokens m' = (am_tokens m)(?a \<mapsto> k)" "am_users m' = am_users m" "am_emails m' = am_emails m"
      "am_tokenExpiry m' = (am_tokenExpiry m)(?a \<mapsto> ?e, CHR ''r'' # r2 \<mapsto> ?e)"
    using assms(2) by (auto simp: am_generateTokens_def Let_def shapes(2))
  show "tokens_ok (issued @ [(tp_AccessToken tp, k, tp_ExpiresAt tp)]) m'"
    using assms(1) unfolding tokens_ok_def tp m' shapes(1) by auto
  show "am_users m' = am_users m" "am_emails m' = am_emails m" by fact+
qed

lemma au_inv_new: "au_inv ([], newAuthManager secret db)"
  by (simp add: au_inv_def tokens_ok_def accounts_ok_def newAuthManager_def)

text \<open>An operation that rewrites one user, keeping its id and address.\<close>

lemma au_inv_write:
  assumes "au_inv (issued, m)" "am_users m k = Some u" "am_users m' = (am_users m)(k \<mapsto> u')"
    and "us_ID u' = us_ID u" "us_Email u' = us_Email u" "am_emails m' = am_emails m"
    and "am_tokens m' = am_tokens m" "am_tokenExpiry m' = am_tokenExpiry m"
  shows "au_inv (issued, m')"
proof -
  have acc: "accounts_ok m" using assms(1) by (simp add: au_inv_def)
  have "accounts_ok m'"
    unfolding accounts_ok_def assms(3,6)
  proof (intro conjI allI impI)
    fix k' v assume v: "((am_users m)(k \<mapsto> u')) k' = Some v"
    then obtain w where "am_users m k' = Some w" "us_ID w = us_ID v" "us_Email w = us_Email v"
      using assms(2,4,5) by (cases "k' = k") auto
    with acc show "us_ID v = k'" "am_emails m (us_Email v) = Some k'" "normal_email (us_Email v) = us_Email v"
      unfolding accounts_ok_def by (metis, metis, metis)
  next
    fix e k' assume "am_emails m e = Some k'"
    then obtain w where "am_users m k' = Some w" "us_Email w = e" using acc unfolding accounts_ok_def by blast
    then show "\<exists>v. ((am_users m)(k \<mapsto> u')) k' = Some v \<and> us_Email v = e"
      using assms(2,5) by (cases "k' = k") auto
  qed
  moreover have "tokens_ok issued m'"
    using assms(1,7,8) by (auto simp: au_inv_def intro: tokens_ok_cong)
  ultimately show ?thesis by (simp add: au_inv_def)
qed

lemma au_inv_Register:
  assumes inv: "au_inv (issued, m)"
    and fresh: "am_users m (generateID ''user_'' (au_randUser env) (au_now env)) = None"
    and step: "am_Register mac env e p d m = (r, m')"
  shows "au_inv (issued @ granted r, m')"
proof -
  let ?k = "generateID ''user_'' (au_randUser env) (au_now env)"
  let ?email = "to_lower (trim_space e)"
  have tok: "tokens_ok issued m" and acc: "accounts_ok m" using inv by (simp_all add: au_inv_def)
  have keep: "au_inv (issued @ [], m\<lparr>am_db := db\<rparr>)" for db
    using inv by (simp add: au_inv_def tokens_ok_def accounts_ok_def)
  have keep': "au_inv (issued @ [], m)" using inv by simp
  show ?thesis
  proof (cases r)
    case (Inl err)
    then have "m' = m \<or> (\<exists>db. m' = m\<lparr>am_db := db\<rparr>)"
      using step by (auto simp: am_Register_def Let_def split: if_splits sum.splits prod.splits option.splits)
    with keep keep' Inl show ?thesis by (auto simp: granted_def)
  next
    case (Inr ut)
    obtain u tp where ut: "ut = (u, tp)" by (cases ut)
    from step Inr ut obtain db where u: "us_ID u = ?k" "us_Email u = ?email" and free: "am_emails m ?email = None"
      and gen: "am_generateTokens mac env ?k (am_cleanup (au_now env)
        (m\<lparr>am_db := db, am_users := (am_users m)(?k \<mapsto> u), am_emails := (am_emails m)(?email \<mapsto> ?k)\<rparr>)) = (tp, m')"
      by (auto simp: am_Register_def Let_def split: if_splits sum.splits prod.splits option.splits)
    let ?m = "m\<lparr>am_db := db, am_users := (am_users m)(?k \<mapsto> u), am_emails := (am_emails m)(?email \<mapsto> ?k)\<rparr>"
    have "tokens_ok issued (am_cleanup (au_now env) ?m)"
      by (rule tokens_ok_cleanup, rule tokens_ok_cong [OF tok]) simp_all
    note g = generateTokens_ok [OF this gen]
    have "accounts_ok ?m"
      unfolding accounts_ok_def
    proof (intro conjI allI impI)
      fix k v assume "am_users ?m k = Some v"
      then consider "k = ?k" "v = u" | "k \<noteq> ?k" "am_users m k = Some v" by (auto split: if_splits)
      then have "us_ID v = k \<and> am_emails ?m (us_Email v) = Some k \<and> normal_email (us_Email v) = us_Email v"
      proof cases
        case 1
        then show ?thesis using u by (simp add: normal_email_def trim_space_to_lower)
      next
        case 2
        with acc have v: "us_ID v = k" "am_emails m (us_Email v) = Some k" "normal_email (us_Email v) = us_Email v"
          by (auto simp: accounts_ok_def)
        with free have "us_Email v \<noteq> ?email" by auto
        with v show ?thesis by simp
      qed
      then show "us_ID v = k" "am_emails ?m (us_Email v) = Some k" "normal_email (us_Email v) = us_Email v" by auto
    next
      fix a k assume "am_emails ?m a = Some k"
      then consider "a = ?email" "k = ?k" | "a \<noteq> ?email" "am_emails m a = Some k" by (auto split: if_splits)
      then show "\<exists>v. am_users ?m k = Some v \<and> us_Email v = a"
      proof cases
        case 1
        then show ?thesis using u by simp
      next
        case 2
        with acc obtain v where "am_users m k = Some v" "us_Email v = a" unfolding accounts_ok_def by blast
        moreover then have "k \<noteq> ?k" using fresh by auto
        ultimately show ?thesis by simp
      qed
    qed
    then have "accounts_ok m'" using g(2,3) by (intro accounts_ok_cong [of ?m m']) simp_all
    with g(1) Inr ut u(1) show ?thesis by (simp add: au_inv_def granted_def)
  qed
qed

lemma au_inv_Login:
  assumes inv: "au_inv (issued, m)" and step: "am_Login mac check env e p m = (r, m')"
  shows "au_inv (issued @ granted r, m')"
proof -
  let ?email = "to_lower (trim_space e)"
  have tok: "tokens_ok issued m" and acc: "accounts_ok m" using inv by (simp_all add: au_inv_def)
  have clean: "au_inv (issued, am_cleanup now m)" for now
    using tokens_ok_cleanup [OF tok] accounts_ok_cong [OF acc] by (simp add: au_inv_def)
  show ?thesis
  proof (cases "am_emails m ?email")
    case None
    with step inv show ?thesis by (auto simp: am_Login_def Let_def granted_def)
  next
    case (Some k)
    with acc obtain u where u: "am_users m k = Some u" "us_ID u = k" unfolding accounts_ok_def by blast
    show ?thesis
    proof (cases "check (us_PasswordHash u) p")
      case False
      with step Some u clean show ?thesis by (auto simp: am_Login_def Let_def granted_def)
    next
      case True
      obtain tp m2 where gen: "am_generateTokens mac env k (am_cleanup (au_now env) m) = (tp, m2)"
        by (cases "am_generateTokens mac env k (am_cleanup (au_now env) m)")
      have r: "r = Inr (u, tp)" "m' = m2"
        using step Some u True gen by (auto simp: am_Login_def Let_def)
      note g = generateTokens_ok [OF tokens_ok_cleanup [OF tok] gen]
      have "accounts_ok m2" using g(2,3) by (intro accounts_ok_cong [OF acc]) simp_all
      with g(1) r u(2) show ?thesis by (simp add: au_inv_def granted_def)
    qed
  qed
qed

lemma au_inv_Validate: "au_inv (issued, m) \<Longrightarrow> au_inv (issued, snd (am_ValidateToken tok now m))"
proof -
  assume inv: "au_inv (issued, m)"
  have clean: "au_inv (issued, am_cleanup now (m\<lparr>am_validationCount := n\<rparr>))"
    and count: "au_inv (issued, m\<lparr>am_validationCount := n\<rparr>)" for n
  proof -
    show "au_inv (issued, m\<lparr>am_validationCount := n\<rparr>)"
      using inv by (simp add: au_inv_def tokens_ok_def accounts_ok_def)
    then show "au_inv (issued, am_cleanup now (m\<lparr>am_validationCount := n\<rparr>))"
      by (auto simp: au_inv_def intro: tokens_ok_cleanup accounts_ok_cong)
  qed
  have del: "au_inv (issued, m\<lparr>am_tokens := (am_tokens m)(tok := None), am_refreshTokens := R,
      am_tokenExpiry := (am_tokenExpiry m)(tok := None)\<rparr>)" for R
    using inv by (auto simp: au_inv_def tokens_ok_def accounts_ok_def)
  show ?thesis
    using inv clean count del
    by (auto simp: am_ValidateToken_def Let_def split: option.split)
qed

lemma au_inv_Delete: "au_inv (issued, m) \<Longrightarrow> au_inv (issued, snd (am_DeleteUser k m))"
proof -
  assume inv: "au_inv (issued, m)"
  have acc: "accounts_ok m" using inv by (simp add: au_inv_def)
  show ?thesis
  proof (cases "am_users m k")
    case (Some u)
    let ?m = "m\<lparr>am_emails := (am_emails m)(us_Email u := None), am_users := (am_users m)(k := None)\<rparr>"
    have mail: "am_emails m (us_Email u) = Some k" using acc Some by (simp add: accounts_ok_def)
    have "accounts_ok ?m"
      unfolding accounts_ok_def
    proof (intro conjI allI impI)
      fix k' v assume "am_users ?m k' = Some v"
      then have v: "k' \<noteq> k" "am_users m k' = Some v" by (auto split: if_splits)
      then have a: "us_ID v = k'" "am_emails m (us_Email v) = Some k'" "normal_email (us_Email v) = us_Email v"
        using acc by (auto simp: accounts_ok_def)
      with v mail have "us_Email v \<noteq> us_Email u" by auto
      with a show "us_ID v = k'" "am_emails ?m (us_Email v) = Some k'" "normal_email (us_Email v) = us_Email v"
        by auto
    next
      fix a k' assume a: "am_emails ?m a = Some k'"
      then have b: "a \<noteq> us_Email u" "am_emails m a = Some k'" by (auto split: if_splits)
      with acc obtain v where v: "am_users m k' = Some v" "us_Email v = a" unfolding accounts_ok_def by blast
      moreover have "k' \<noteq> k" using v b Some by auto
      ultimately show "\<exists>v. am_users ?m k' = Some v \<and> us_Email v = a" by simp
    qed
    moreover have "tokens_ok issued ?m" using inv by (auto simp: au_inv_def intro: tokens_ok_cong)
    ultimately show ?thesis using Some by (simp add: am_DeleteUser_def au_inv_def)
  qed (use inv in \<open>simp add: am_DeleteUser_def\<close>)
qed

lemma au_inv_others:
  assumes inv: "au_inv (issued, m)"
  shows "au_inv (issued, snd (am_UpdateUser env k (seed_admin role) m))"
    and "au_inv (issued, snd (am_AllocateTailscaleIP env k m))"
    and "au_inv (issued, am_AddStorageUsed env k n m)"
    and "au_inv (issued, snd (am_SavePreferences v env k blob m))"
    and "au_inv (issued, snd (am_SetRole env k role m))"
proof -
  note w = au_inv_write [OF inv]
  show "au_inv (issued, snd (am_UpdateUser env k (seed_admin role) m))"
    using inv by (cases "am_users m k") (auto simp: am_UpdateUser_def Let_def seed_admin_def intro!: w)
  show "au_inv (issued, snd (am_AllocateTailscaleIP env k m))"
    using inv by (cases "am_users m k") (auto simp: am_AllocateTailscaleIP_def Let_def intro!: w)
  show "au_inv (issued, am_AddStorageUsed env k n m)"
    using inv by (cases "am_users m k") (auto simp: am_AddStorageUsed_def Let_def intro!: w)
  show "au_inv (issued, snd (am_SavePreferences v env k blob m))"
    using inv by (cases "am_users m k"; cases "am_db m")
      (auto simp: am_SavePreferences_def Let_def split: prod.split intro!: w)
  show "au_inv (issued, snd (am_SetRole env k role m))"
    using inv by (cases "am_users m k"; cases "am_db m")
      (auto simp: am_SetRole_def Let_def split: prod.split intro!: w)
qed

interpretation au: component "au_step mac check" au_inv for mac check
proof unfold_locales
  fix s c assume "au_inv s"
  obtain issued m where s: "s = (issued, m)" by (cases s)
  with \<open>au_inv s\<close> have inv: "au_inv (issued, m)" by simp
  show "au_inv (au_step mac check s c)"
  proof (cases c)
    case (AuRegister env e p d)
    with s inv show ?thesis
      by (auto simp: au_step_def au_exec_def Let_def split: prod.split intro: au_inv_Register)
  next
    case (AuLogin env e p)
    with s inv show ?thesis
      by (auto simp: au_step_def au_exec_def Let_def split: prod.split intro: au_inv_Login)
  qed (simp_all add: s au_step_def au_exec_def au_inv_Validate [OF inv] au_inv_Delete [OF inv]
        au_inv_others [OF inv])
qed

abbreviation au_run ::
  "(nat list \<Rightarrow> string \<Rightarrow> nat list) \<Rightarrow> (string \<Rightarrow> string \<Rightarrow> bool) \<Rightarrow> nat list \<Rightarrow> users_table option \<Rightarrow>
     au_call list \<Rightarrow> (string \<times> string \<times> time) list \<times> auth_manager" where
  "au_run mac check secret db cs \<equiv> foldl (au_step mac check) ([], newAuthManager secret db) cs"

lemma au_run_inv: "au_inv (au_run mac check secret db cs)"
  by (rule au.run_inv [OF au_inv_new])

section \<open>Properties\<close>

text \<open>What a token stands for, in every run.\<close>

lemma au_token_issued:
  assumes "au_run mac check secret db cs = (issued, m)" "fst (am_ValidateToken tok now m) = Inr u"
  shows "\<exists>e. (tok, us_ID u, e) \<in> set issued \<and> now \<le> e" and "am_users m (us_ID u) = Some u"
proof -
  have inv: "tokens_ok issued m" "accounts_ok m"
    using au_run_inv [of mac check secret db cs] assms(1) by (simp_all add: au_inv_def)
  from assms(2) obtain k where k: "am_tokens m tok = Some k" "am_users m k = Some u"
    and live: "\<not> (case am_tokenExpiry m tok of None \<Rightarrow> False | Some e \<Rightarrow> now > e)"
    by (auto simp: am_ValidateToken_def Let_def split: option.splits if_splits)
  from inv(2) k(2) have u: "us_ID u = k" by (simp add: accounts_ok_def)
  from inv(1) k(1) obtain e where "am_tokenExpiry m tok = Some e" "(tok, k, e) \<in> set issued"
    unfolding tokens_ok_def by blast
  with live u k(2) show "\<exists>e. (tok, us_ID u, e) \<in> set issued \<and> now \<le> e" "am_users m (us_ID u) = Some u"
    by auto
qed

text \<open>
  C2: The role gate. In every run of the account manager, a handler behind \<open>RequireRole\<close> is entered only
  with a bearer token that was issued to an account by a registration or login, whose expiry has not
  passed, and only while that account exists with at least the required role.
\<close>

theorem role_gate_sound:
  assumes "au_run mac check secret db cs = (issued, m)"
    and "ans_body (fst (RequireRole lvl (\<lambda>caller m. (Answer 200 (AuthOk caller), m)) header now m)) = AuthOk (Some u)"
  shows "(\<exists>e. (bearerToken header, us_ID u, e) \<in> set issued \<and> now \<le> e) \<and>
    am_users m (us_ID u) = Some u \<and> lvl \<le> roleLevel (us_Role u)"
proof -
  let ?r = "fst (am_ValidateToken (bearerToken header) now m)"
  have "?r = Inr u \<and> lvl \<le> roleLevel (us_Role u)"
    using assms(2) by (auto simp: RequireRole_def Let_def split: if_splits sum.splits prod.splits)
  with au_token_issued [OF assms(1)] show ?thesis by blast
qed

text \<open>
  C22: One account for an address. In every run two accounts never share an email up to case and
  surrounding space, and registering an address that an account has is refused and changes nothing.
\<close>

theorem au_one_account_per_email:
  assumes "au_run mac check secret db cs = (issued, m)" and "am_users m k = Some u"
  shows "(am_users m k' = Some u' \<and> normal_email (us_Email u') = normal_email (us_Email u) \<longrightarrow> k' = k) \<and>
    (normal_email e = us_Email u \<longrightarrow> am_Register mac env e p d m = (Inl ErrUserExists, m))"
proof -
  have acc: "accounts_ok m" using au_run_inv [of mac check secret db cs] assms(1) by (simp add: au_inv_def)
  have u: "am_emails m (us_Email u) = Some k" "normal_email (us_Email u) = us_Email u"
    using acc assms(2) by (auto simp: accounts_ok_def)
  have "k' = k" if "am_users m k' = Some u'" "normal_email (us_Email u') = normal_email (us_Email u)"
  proof -
    have "am_emails m (us_Email u') = Some k'" "normal_email (us_Email u') = us_Email u'"
      using acc that(1) by (auto simp: accounts_ok_def)
    with that(2) u show ?thesis by simp
  qed
  moreover have "am_Register mac env e p d m = (Inl ErrUserExists, m)" if "normal_email e = us_Email u"
    using that u(1) by (simp add: am_Register_def Let_def normal_email_def)
  ultimately show ?thesis by blast
qed

text \<open>
  Deleting an account does not reach the database. After a deletion and a restart that loads the
  stored rows, the account is back and its password logs in.
\<close>

theorem au_deleted_account_returns:
  assumes "am_db m = Some t" "row \<in> set t" "distinct (map ur_ID t)" "distinct (map ur_Email t)"
    and "normal_email e = ur_Email row" "check (ur_PasswordHash row) p" "mset rows = mset t"
  shows "let m' = snd (am_DeleteUser (ur_ID row) m);
             m'' = am_loadFromDB (Some rows) (newAuthManager secret (am_db m'))
         in am_users m' (ur_ID row) = None \<and> am_users m'' (ur_ID row) = Some (user_of_row row) \<and>
            (\<exists>tp. fst (am_Login mac check env e p m'') = Inr (user_of_row row, tp))"
proof -
  have rows: "row \<in> set rows" "distinct (map ur_ID rows)" "distinct (map ur_Email rows)"
    using assms(2-4,7) by (metis mset_eq_setD, metis mset_map mset_eq_imp_distinct_iff, metis mset_map mset_eq_imp_distinct_iff)
  define ld where "ld = (\<lambda>(m :: auth_manager) r. let u = user_of_row r in
    m\<lparr>am_users := (am_users m)(us_ID u \<mapsto> u), am_emails := (am_emails m)(us_Email u \<mapsto> us_ID u)\<rparr>)"
  have load: "am_users (foldl ld m0 rs) (ur_ID r) = Some (user_of_row r) \<and>
      am_emails (foldl ld m0 rs) (ur_Email r) = Some (ur_ID r)"
    if "r \<in> set rs" "distinct (map ur_ID rs)" "distinct (map ur_Email rs)" for r rs and m0 :: auth_manager
    using that
  proof (induction rs rule: rev_induct)
    case (snoc x xs)
    then show ?case by (cases "r = x") (auto simp: ld_def Let_def user_of_row_def image_iff)
  qed simp
  have db: "am_db (snd (am_DeleteUser (ur_ID row) m)) = Some t"
    using assms(1) by (simp add: am_DeleteUser_def split: option.split)
  let ?m = "am_loadFromDB (Some rows) (newAuthManager secret (Some t))"
  have "?m = foldl ld (newAuthManager secret (Some t)) rows"
    by (simp add: am_loadFromDB_def newAuthManager_def ld_def [symmetric])
  with load [OF rows, of "newAuthManager secret (Some t)"]
  have m: "am_users ?m (ur_ID row) = Some (user_of_row row)" "am_emails ?m (ur_Email row) = Some (ur_ID row)"
    by simp_all
  have "\<exists>tp. fst (am_Login mac check env e p ?m) = Inr (user_of_row row, tp)"
  proof -
    have "to_lower (trim_space e) = ur_Email row" using assms(5) by (simp add: normal_email_def)
    then show ?thesis
      using m assms(6) by (auto simp: am_Login_def Let_def user_of_row_def split: prod.split)
  qed
  moreover have "am_users (snd (am_DeleteUser (ur_ID row) m)) (ur_ID row) = None"
    by (simp add: am_DeleteUser_def split: option.split)
  ultimately show ?thesis unfolding Let_def db using m by blast
qed

text \<open>
  When the database refuses a change of role, the caller gets the error but the role in memory, on
  which every later check depends, has changed.
\<close>

theorem au_failed_role_change_applies:
  assumes "am_users m k = Some u" "am_db m = Some t" "au_dbFailure env = Some e"
    and "to_lower (trim_space role) = ''admin''"
  shows "fst (am_SetRole env k role m) = Inl (AuthError e) \<and> am_db (snd (am_SetRole env k role m)) = Some t \<and>
    (\<exists>u'. am_users (snd (am_SetRole env k role m)) k = Some u' \<and> roleLevel (us_Role u') = RoleAdmin)"
proof -
  have "roleLevel ''admin'' = RoleAdmin" by code_simp
  with assms show ?thesis by (simp add: am_SetRole_def Let_def db_SetUserRole_def)
qed

section \<open>Examples\<close>

definition ex_au_env :: "time \<Rightarrow> au_env" where
  "ex_au_env now = \<lparr>au_now = now, au_randUser = Some [2, 3, 4], au_randRefresh = Some [4, 5],
     au_hash = Inr ''secret12'', au_dbFailure = None\<rparr>"

definition ex_accounts :: "au_call list" where
  "ex_accounts = [AuRegister (ex_au_env 5) '' A@X.org'' ''secret12'' ''Ann'',
     AuSetRole (ex_au_env 6) ''user_020304'' '' Admin ''
     ]"

abbreviation ex_mac :: "nat list \<Rightarrow> string \<Rightarrow> nat list" where
  "ex_mac k s \<equiv> [0]"

abbreviation ex_auth :: "(string \<times> string \<times> time) list \<times> auth_manager" where
  "ex_auth \<equiv> au_run ex_mac (=) [9] (Some []) ex_accounts"

definition ex_tok :: string where
  "ex_tok = generateJWT ex_mac ''user_020304'' [9] (5 + 24 * 60 * minute) 5"

definition ex_ann :: user where
  "ex_ann = \<lparr>us_ID = ''user_020304'', us_Email = ''a@x.org'', us_PasswordHash = ''secret12'',
     us_DisplayName = ''Ann'', us_Verified = True, us_Credits = 0, us_StorageUsed = 0,
     us_StorageQuota = 10737418240, us_TailscaleIP = '''', us_TailscaleProxy = '''', us_Preferences = None,
     us_Role = ''admin'', us_CreatedAt = 5, us_UpdatedAt = 6\<rparr>"

definition ex_row :: user_row where
  "ex_row = \<lparr>ur_ID = ''user_020304'', ur_Email = ''a@x.org'', ur_PasswordHash = ''secret12'',
     ur_DisplayName = ''Ann'', ur_AvatarURL = '''', ur_TailscaleIP = '''', ur_TailscaleCIDR = '''',
     ur_TailscaleKey = '''', ur_StorageUsed = 0, ur_StorageQuota = 10737418240, ur_Credits = 0,
     ur_Role = ''admin'', ur_Verified = True, ur_Banned = False, ur_Preferences = ''{}'',
     ur_CreatedAt = 0, ur_UpdatedAt = 0\<rparr>"

lemma ex_strings:
  "to_lower (trim_space '' A@X.org'') = ''a@x.org''" "to_lower (trim_space ''a@x.ORG '') = ''a@x.org''"
  "to_lower (trim_space ''a@x.org'') = ''a@x.org''"
  "to_lower (trim_space '' Admin '') = ''admin''" "to_lower (trim_space ''ADMIN'') = ''admin''"
  "generateID ''user_'' (Some [2, 3, 4]) t = ''user_020304''"
  "generateID ''ref_'' (Some [4, 5]) t = ''ref_0405''"
  "rfc3339 5 = 0" "rfc3339 6 = 0"
  by code_simp+

lemma ex_tok: "trim_space ex_tok = ex_tok" "ex_tok \<noteq> ''ref_0405''" "ex_tok \<noteq> ''''"
proof -
  obtain r where e: "ex_tok = CHR ''e'' # r" using jwt_shape unfolding ex_tok_def by blast
  show "ex_tok \<noteq> ''ref_0405''" "ex_tok \<noteq> ''''" unfolding e by simp_all
  have "last ex_tok = CHR ''A''" by (simp add: ex_tok_def generateJWT_def Let_def b64_url_def)
  moreover have "hd ex_tok = CHR ''e''" unfolding e by simp
  ultimately show "trim_space ex_tok = ex_tok" by (intro trim_space_same) (simp_all add: is_space_def)
qed

lemma ex_auth_eq: "ex_auth = ([(ex_tok, ''user_020304'', 5 + 24 * 60 * minute)],
   \<lparr>am_users = [''user_020304'' \<mapsto> ex_ann], am_emails = [''a@x.org'' \<mapsto> ''user_020304''],
    am_tokens = [ex_tok \<mapsto> ''user_020304''], am_refreshTokens = [''ref_0405'' \<mapsto> ''user_020304''],
    am_tokenExpiry = [ex_tok \<mapsto> 5 + 24 * 60 * minute, ''ref_0405'' \<mapsto> 5 + 24 * 60 * minute],
    am_validationCount = 0, am_jwtSecret = [9], am_db = Some [ex_row]\<rparr>)"
  by (simp add: ex_accounts_def au_step_def au_exec_def am_Register_def am_SetRole_def newAuthManager_def
      ex_au_env_def ex_strings db_CreateUser_def db_SetUserRole_def am_cleanup_def am_generateTokens_def
      granted_def Let_def ex_ann_def ex_row_def ex_tok_def)

theorem role_gate_sound_witness:
  "(\<exists>e. (bearerToken (''Bearer '' @ ex_tok), us_ID ex_ann, e) \<in> set (fst ex_auth) \<and> 7 \<le> e) \<and>
    am_users (snd ex_auth) (us_ID ex_ann) = Some ex_ann \<and> RoleAdmin \<le> roleLevel (us_Role ex_ann)"
proof (rule role_gate_sound)
  show "ex_auth = (fst ex_auth, snd ex_auth)" by simp
  have b: "bearerToken (''Bearer '' @ ex_tok) = ex_tok"
    unfolding bearerToken_def trim_prefix_append ex_tok(1) using has_prefix_append [of "''Bearer ''" ex_tok]
    by (simp del: append.simps)
  have r: "roleLevel (us_Role ex_ann) = RoleAdmin" by code_simp
  show "ans_body (fst (RequireRole RoleAdmin (\<lambda>caller m. (Answer 200 (AuthOk caller), m)) (''Bearer '' @ ex_tok)
      7 (snd ex_auth))) = AuthOk (Some ex_ann)"
    unfolding RequireRole_def b Let_def ex_auth_eq snd_conv am_ValidateToken_def
    by (simp add: ex_tok r minute_def second_def)
qed

theorem au_one_account_per_email_witness:
  "am_Register ex_mac (ex_au_env 8) ''a@x.ORG '' ''other'' '''' (snd ex_auth) = (Inl ErrUserExists, snd ex_auth)"
proof -
  have "am_users (snd ex_auth) ''user_020304'' = Some ex_ann" by (simp add: ex_auth_eq)
  from au_one_account_per_email [of ex_mac "(=)" "[9]" "Some []" ex_accounts "fst ex_auth" "snd ex_auth",
      OF _ this, of _ _ "''a@x.ORG ''"]
  have "normal_email ''a@x.ORG '' = us_Email ex_ann \<longrightarrow>
    am_Register ex_mac (ex_au_env 8) ''a@x.ORG '' ''other'' '''' (snd ex_auth) = (Inl ErrUserExists, snd ex_auth)"
    by (simp del: foldl.simps)
  then show ?thesis by (simp add: normal_email_def ex_strings ex_ann_def del: foldl.simps)
qed

theorem au_deleted_account_returns_witness:
  "let m' = snd (am_DeleteUser (ur_ID ex_row) (snd ex_auth));
       m'' = am_loadFromDB (Some [ex_row]) (newAuthManager [8] (am_db m'))
   in am_users m' (ur_ID ex_row) = None \<and> am_users m'' (ur_ID ex_row) = Some (user_of_row ex_row) \<and>
      (\<exists>tp. fst (am_Login ex_mac (=) (ex_au_env 9) ''a@x.org'' ''secret12'' m'') = Inr (user_of_row ex_row, tp))"
proof (rule au_deleted_account_returns)
  show "am_db (snd ex_auth) = Some [ex_row]" by (simp add: ex_auth_eq)
  show "normal_email ''a@x.org'' = ur_Email ex_row" by (simp add: normal_email_def ex_strings ex_row_def)
qed (simp_all add: ex_row_def)

theorem au_failed_role_change_applies_witness:
  "fst (am_SetRole (ex_au_env 9\<lparr>au_dbFailure := Some ''disk full''\<rparr>) ''user_020304'' ''ADMIN'' (snd ex_auth))
     = Inl (AuthError ''disk full'')"
proof -
  have "am_users (snd ex_auth) ''user_020304'' = Some ex_ann" "am_db (snd ex_auth) = Some [ex_row]"
    by (simp_all add: ex_auth_eq)
  from au_failed_role_change_applies [OF this, of "ex_au_env 9\<lparr>au_dbFailure := Some ''disk full''\<rparr>"]
  show ?thesis by (simp add: ex_strings)
qed

end
