(* ===== verification/Firewall.thy ===== *)
theory Firewall
  imports Auth GoSort
begin

text \<open>
  apps/gateway/internal/firewall/firewall.go: firewall rules, security groups, the rules in force for a
  virtual machine, and the HTTP handlers. Directions, protocols and actions are strings, since clients
  send them. A rule in the table and the rule a call returns are one pointer; here the call returns the
  rule as it is after the call. Both clock readings of a creation are one argument.
\<close>

section \<open>State\<close>

record fw_rule =
  fr_ID :: string
  fr_UserID :: string
  fr_Name :: string
  fr_Description :: string
  fr_Direction :: string
  fr_Protocol :: string
  fr_FromPort :: int
  fr_ToPort :: int
  fr_CIDR :: string
  fr_Action :: string
  fr_Priority :: int
  fr_Enabled :: bool
  fr_CreatedAt :: time
  fr_UpdatedAt :: time

record security_group =
  sg_ID :: string
  sg_UserID :: string
  sg_Name :: string
  sg_Description :: string
  sg_Rules :: "string list"
  sg_VMIDs :: "string list"
  sg_CreatedAt :: time
  sg_UpdatedAt :: time

record fw_manager =
  fm_rules :: "string \<rightharpoonup> fw_rule"
  fm_groups :: "string \<rightharpoonup> security_group"
  fm_nextID :: int

definition default_rule :: "time \<Rightarrow> string \<Rightarrow> string \<Rightarrow> string \<Rightarrow> string \<Rightarrow> int \<Rightarrow> int \<Rightarrow> string \<Rightarrow> int \<Rightarrow> fw_rule" where
  "default_rule now rid name desc proto from to action prio =
     \<lparr>fr_ID = rid, fr_UserID = '''', fr_Name = name, fr_Description = desc, fr_Direction = ''inbound'',
      fr_Protocol = proto, fr_FromPort = from, fr_ToPort = to, fr_CIDR = ''0.0.0.0/0'', fr_Action = action,
      fr_Priority = prio, fr_Enabled = True, fr_CreatedAt = now, fr_UpdatedAt = now\<rparr>"

definition default_rules :: "time \<Rightarrow> fw_rule list" where
  "default_rules now =
     [default_rule now ''rule_default_allow_ssh'' ''Allow SSH'' ''Allow SSH access from anywhere'' ''tcp'' 22 22 ''allow'' 100,
      default_rule now ''rule_default_allow_http'' ''Allow HTTP'' ''Allow HTTP access from anywhere'' ''tcp'' 80 80 ''allow'' 100,
      default_rule now ''rule_default_allow_https'' ''Allow HTTPS'' ''Allow HTTPS access from anywhere'' ''tcp'' 443 443 ''allow'' 100,
      default_rule now ''rule_default_allow_webrtc'' ''Allow WebRTC'' ''Allow WebRTC UDP range'' ''udp'' 49152 65535 ''allow'' 100,
      default_rule now ''rule_default_deny_all'' ''Deny All Inbound'' ''Default deny all inbound traffic'' ''any'' 0 0 ''deny'' 9999]"

definition fw_NewManager :: "time \<Rightarrow> fw_manager" where
  "fw_NewManager now =
     \<lparr>fm_rules = foldl (\<lambda>m r. m(fr_ID r \<mapsto> r)) Map.empty (default_rules now),
      fm_groups = [''sg_default'' \<mapsto>
        \<lparr>sg_ID = ''sg_default'', sg_UserID = '''', sg_Name = ''Default'',
         sg_Description = ''Default security group with basic rules'',
         sg_Rules = map fr_ID (default_rules now), sg_VMIDs = [], sg_CreatedAt = now, sg_UpdatedAt = now\<rparr>],
      fm_nextID = 1\<rparr>"

section \<open>Rules\<close>

definition or_default :: "string \<Rightarrow> string \<Rightarrow> string" where
  "or_default s d = (if s = '''' then d else s)"

definition fw_CreateRule :: "time \<Rightarrow> fw_rule \<Rightarrow> fw_manager \<Rightarrow> fw_rule \<times> fw_manager" where
  "fw_CreateRule now r m =
     (let rid = numbered_id ''rule_'' (fm_nextID m) now;
          r = r\<lparr>fr_ID := rid,
                fr_Direction := or_default (fr_Direction r) ''inbound'',
                fr_Protocol := or_default (fr_Protocol r) ''tcp'',
                fr_CIDR := or_default (fr_CIDR r) ''0.0.0.0/0'',
                fr_Action := or_default (fr_Action r) ''allow'',
                fr_Priority := (if fr_Priority r = 0 then 500 else fr_Priority r),
                fr_CreatedAt := now, fr_UpdatedAt := now\<rparr>
      in (r, m\<lparr>fm_rules := (fm_rules m)(rid \<mapsto> r), fm_nextID := fm_nextID m + 1\<rparr>))"

definition visible_to :: "string \<Rightarrow> string \<Rightarrow> bool" where
  "visible_to userID owner \<longleftrightarrow> userID = '''' \<or> owner = '''' \<or> owner = userID"

definition fw_ListRules :: "string list \<Rightarrow> string \<Rightarrow> fw_manager \<Rightarrow> fw_rule list" where
  "fw_ListRules ks userID m = filter (\<lambda>r. visible_to userID (fr_UserID r)) (map_values (fm_rules m) ks)"

definition fw_GetRule :: "string \<Rightarrow> fw_manager \<Rightarrow> fw_rule option" where
  "fw_GetRule rid m = fm_rules m rid"

datatype fw_error = RuleNotFound | NotAuthorized | InvalidAction string | GroupNotFound

type_synonym updates = "string \<rightharpoonup> json"

definition upd_string :: "updates \<Rightarrow> string \<Rightarrow> string option" where
  "upd_string u k = (case u k of Some (JStr v) \<Rightarrow> Some v | _ \<Rightarrow> None)"

definition upd_bool :: "updates \<Rightarrow> string \<Rightarrow> bool option" where
  "upd_bool u k = (case u k of Some (JBool v) \<Rightarrow> Some v | _ \<Rightarrow> None)"

definition upd_num :: "updates \<Rightarrow> string \<Rightarrow> rat option" where
  "upd_num u k = (case u k of Some (JNum v) \<Rightarrow> Some v | _ \<Rightarrow> None)"

definition maybe :: "('a \<Rightarrow> 'b \<Rightarrow> 'b) \<Rightarrow> 'a option \<Rightarrow> 'b \<Rightarrow> 'b" where
  "maybe f v x = (case v of Some a \<Rightarrow> f a x | None \<Rightarrow> x)"

text \<open>
  The update changes the shared rule field by field; an invalid action stops it after the name, the
  description and the enabled flag have been changed.
\<close>

definition fw_UpdateRule ::
  "time \<Rightarrow> string \<Rightarrow> updates \<Rightarrow> string \<Rightarrow> bool \<Rightarrow> fw_manager \<Rightarrow> (fw_error + fw_rule) \<times> fw_manager" where
  "fw_UpdateRule now rid updates callerID isAdmin m = (case fm_rules m rid of
     None \<Rightarrow> (Inl RuleNotFound, m)
   | Some rule \<Rightarrow>
       if \<not> isAdmin \<and> fr_UserID rule \<noteq> callerID then (Inl NotAuthorized, m)
       else
         (let rule = maybe (\<lambda>v r. r\<lparr>fr_Name := v\<rparr>) (upd_string updates ''name'') rule;
              rule = maybe (\<lambda>v r. r\<lparr>fr_Description := v\<rparr>) (upd_string updates ''description'') rule;
              rule = maybe (\<lambda>v r. r\<lparr>fr_Enabled := v\<rparr>) (upd_bool updates ''enabled'') rule;
              store = (\<lambda>r. m\<lparr>fm_rules := (fm_rules m)(rid \<mapsto> r)\<rparr>)
          in case upd_string updates ''action'' of
               Some a \<Rightarrow>
                 if a \<noteq> ''allow'' \<and> a \<noteq> ''deny'' then (Inl (InvalidAction a), store rule)
                 else
                   (let rule = rule\<lparr>fr_Action := a\<rparr>;
                        rule = maybe (\<lambda>v r. r\<lparr>fr_CIDR := v\<rparr>) (upd_string updates ''cidr'') rule;
                        rule = maybe (\<lambda>v r. r\<lparr>fr_Priority := int_of_float v\<rparr>) (upd_num updates ''priority'') rule;
                        rule = rule\<lparr>fr_UpdatedAt := now\<rparr>
                    in (Inr rule, store rule))
             | None \<Rightarrow>
                 (let rule = maybe (\<lambda>v r. r\<lparr>fr_CIDR := v\<rparr>) (upd_string updates ''cidr'') rule;
                      rule = maybe (\<lambda>v r. r\<lparr>fr_Priority := int_of_float v\<rparr>) (upd_num updates ''priority'') rule;
                      rule = rule\<lparr>fr_UpdatedAt := now\<rparr>
                  in (Inr rule, store rule))))"

text \<open>Deleting a rule takes its first occurrence out of every group.\<close>

definition fw_DeleteRule :: "string \<Rightarrow> string \<Rightarrow> bool \<Rightarrow> fw_manager \<Rightarrow> fw_error option \<times> fw_manager" where
  "fw_DeleteRule rid callerID isAdmin m = (case fm_rules m rid of
     None \<Rightarrow> (Some RuleNotFound, m)
   | Some rule \<Rightarrow>
       if \<not> isAdmin \<and> fr_UserID rule \<noteq> callerID then (Some NotAuthorized, m)
       else (None, m\<lparr>fm_rules := (fm_rules m)(rid := None),
                fm_groups := (\<lambda>g. map_option (\<lambda>g. g\<lparr>sg_Rules := remove_first (\<lambda>x. x = rid) (sg_Rules g)\<rparr>) (fm_groups m g))\<rparr>))"

section \<open>Groups\<close>

definition fw_CreateGroup :: "time \<Rightarrow> security_group \<Rightarrow> fw_manager \<Rightarrow> security_group \<times> fw_manager" where
  "fw_CreateGroup now g m =
     (let gid = numbered_id ''sg_'' (fm_nextID m) now;
          g = g\<lparr>sg_ID := gid, sg_CreatedAt := now, sg_UpdatedAt := now\<rparr>
      in (g, m\<lparr>fm_groups := (fm_groups m)(gid \<mapsto> g), fm_nextID := fm_nextID m + 1\<rparr>))"

definition fw_ListGroups :: "string list \<Rightarrow> string \<Rightarrow> fw_manager \<Rightarrow> security_group list" where
  "fw_ListGroups ks userID m = filter (\<lambda>g. visible_to userID (sg_UserID g)) (map_values (fm_groups m) ks)"

definition fw_AssignGroupToVM :: "time \<Rightarrow> string \<Rightarrow> string \<Rightarrow> fw_manager \<Rightarrow> fw_error option \<times> fw_manager" where
  "fw_AssignGroupToVM now gid vm m = (case fm_groups m gid of
     None \<Rightarrow> (Some GroupNotFound, m)
   | Some g \<Rightarrow>
       if vm \<in> set (sg_VMIDs g) then (None, m)
       else (None, m\<lparr>fm_groups := (fm_groups m)(gid \<mapsto> g\<lparr>sg_VMIDs := sg_VMIDs g @ [vm], sg_UpdatedAt := now\<rparr>)\<rparr>))"

definition fw_RemoveGroupFromVM :: "time \<Rightarrow> string \<Rightarrow> string \<Rightarrow> fw_manager \<Rightarrow> fw_error option \<times> fw_manager" where
  "fw_RemoveGroupFromVM now gid vm m = (case fm_groups m gid of
     None \<Rightarrow> (Some GroupNotFound, m)
   | Some g \<Rightarrow>
       if vm \<in> set (sg_VMIDs g)
       then (None, m\<lparr>fm_groups := (fm_groups m)(gid \<mapsto>
              g\<lparr>sg_VMIDs := remove_first (\<lambda>v. v = vm) (sg_VMIDs g), sg_UpdatedAt := now\<rparr>)\<rparr>)
       else (None, m))"

text \<open>
  The rules in force for a machine: for each group (in the order \<open>gs\<close>) and each time the group lists the
  machine, the enabled rules of the group; then \<open>sort.Slice\<close> by priority.
\<close>

definition fw_collect :: "string list \<Rightarrow> string \<Rightarrow> fw_manager \<Rightarrow> fw_rule list" where
  "fw_collect gs vm m =
     concat (map (\<lambda>g. concat (map (\<lambda>v. if v = vm
         then filter fr_Enabled (List.map_filter (fm_rules m) (sg_Rules g)) else []) (sg_VMIDs g)))
       (map_values (fm_groups m) gs))"

definition sortRules :: "fw_rule list \<Rightarrow> fw_rule list" where
  "sortRules rs = sort_slice (\<lambda>x y. fr_Priority x < fr_Priority y) rs"

definition fw_Evaluate :: "string list \<Rightarrow> string \<Rightarrow> fw_manager \<Rightarrow> fw_rule list" where
  "fw_Evaluate gs vm m = sortRules (fw_collect gs vm m)"

section \<open>Handlers\<close>

datatype fw_body = FwError string | FwRules "fw_rule list" nat | FwRule fw_rule | FwStatus string
  | FwGroups "security_group list" nat | FwGroup security_group

definition is_admin :: "user \<Rightarrow> bool" where
  "is_admin u \<longleftrightarrow> roleLevel (us_Role u) \<ge> RoleAdmin"

fun fw_error_text :: "fw_error \<Rightarrow> string" where
  "fw_error_text RuleNotFound = ''rule not found''"
| "fw_error_text NotAuthorized = ''not authorized''"
| "fw_error_text (InvalidAction a) = ''invalid action: '' @ a"
| "fw_error_text GroupNotFound = ''group not found''"

definition fw_error_answer :: "fw_error \<Rightarrow> fw_body answer" where
  "fw_error_answer e = Answer (if fw_error_text e = ''not authorized'' then 403 else 404) (FwError (fw_error_text e))"

definition fw_HandleRules ::
  "time \<Rightarrow> string list \<Rightarrow> user option \<Rightarrow> http_method \<Rightarrow> fw_rule option \<Rightarrow> fw_manager \<Rightarrow> fw_body answer \<times> fw_manager" where
  "fw_HandleRules now ks user meth body m = (case user of
     None \<Rightarrow> (Answer 401 (FwError ''unauthorized''), m)
   | Some u \<Rightarrow>
       (case meth of
          GET \<Rightarrow> (let rules = fw_ListRules ks (if is_admin u then '''' else us_ID u) m
                  in (Answer 200 (FwRules rules (length rules)), m))
        | POST \<Rightarrow> (case body of
            None \<Rightarrow> (Answer 400 (FwError ''invalid json''), m)
          | Some rule \<Rightarrow> (let (r, m) = fw_CreateRule now (rule\<lparr>fr_UserID := us_ID u\<rparr>) m in (Answer 201 (FwRule r), m)))
        | _ \<Rightarrow> (Answer 405 (FwError ''method not allowed''), m)))"

definition fw_HandleRuleOps ::
  "time \<Rightarrow> user option \<Rightarrow> http_method \<Rightarrow> string \<Rightarrow> updates option \<Rightarrow> fw_manager \<Rightarrow> fw_body answer \<times> fw_manager" where
  "fw_HandleRuleOps now user meth path body m = (case user of
     None \<Rightarrow> (Answer 401 (FwError ''unauthorized''), m)
   | Some u \<Rightarrow>
       (let rid = path_id ''/firewall/rules/'' path
        in case meth of
          GET \<Rightarrow> (case fw_GetRule rid m of
            None \<Rightarrow> (Answer 404 (FwError ''rule not found''), m)
          | Some rule \<Rightarrow>
              if \<not> is_admin u \<and> fr_UserID rule \<noteq> '''' \<and> fr_UserID rule \<noteq> us_ID u
              then (Answer 404 (FwError ''rule not found''), m)
              else (Answer 200 (FwRule rule), m))
        | PUT \<Rightarrow> (case body of
            None \<Rightarrow> (Answer 400 (FwError ''invalid json''), m)
          | Some updates \<Rightarrow>
              (case fw_UpdateRule now rid updates (us_ID u) (is_admin u) m of
                 (Inl e, m) \<Rightarrow> (fw_error_answer e, m)
               | (Inr r, m) \<Rightarrow> (Answer 200 (FwRule r), m)))
        | DELETE \<Rightarrow> (case fw_DeleteRule rid (us_ID u) (is_admin u) m of
            (Some e, m) \<Rightarrow> (fw_error_answer e, m)
          | (None, m) \<Rightarrow> (Answer 200 (FwStatus ''deleted''), m))
        | _ \<Rightarrow> (Answer 405 (FwError ''method not allowed''), m)))"

definition fw_HandleGroups ::
  "time \<Rightarrow> string list \<Rightarrow> user option \<Rightarrow> http_method \<Rightarrow> security_group option \<Rightarrow> fw_manager \<Rightarrow> fw_body answer \<times> fw_manager" where
  "fw_HandleGroups now ks user meth body m = (case user of
     None \<Rightarrow> (Answer 401 (FwError ''unauthorized''), m)
   | Some u \<Rightarrow>
       (case meth of
          GET \<Rightarrow> (let groups = fw_ListGroups ks (if is_admin u then '''' else us_ID u) m
                  in (Answer 200 (FwGroups groups (length groups)), m))
        | POST \<Rightarrow> (case body of
            None \<Rightarrow> (Answer 400 (FwError ''invalid json''), m)
          | Some g \<Rightarrow>
              (let g = (if \<not> is_admin u \<or> sg_UserID g = '''' then g\<lparr>sg_UserID := us_ID u\<rparr> else g);
                   (g, m) = fw_CreateGroup now g m
               in (Answer 201 (FwGroup g), m)))
        | _ \<Rightarrow> (Answer 405 (FwError ''method not allowed''), m)))"

text \<open>The handler does not look at who asks.\<close>

definition fw_HandleGroupAssign ::
  "time \<Rightarrow> user option \<Rightarrow> http_method \<Rightarrow> (string \<times> string) option \<Rightarrow> fw_manager \<Rightarrow> fw_body answer \<times> fw_manager" where
  "fw_HandleGroupAssign now user meth body m =
     (if meth \<noteq> POST then (Answer 405 (FwError ''method not allowed''), m)
      else case body of
        None \<Rightarrow> (Answer 400 (FwError ''invalid json''), m)
      | Some (gid, vm) \<Rightarrow>
          (case fw_AssignGroupToVM now gid vm m of
             (Some e, m) \<Rightarrow> (Answer 404 (FwError (fw_error_text e)), m)
           | (None, m) \<Rightarrow> (Answer 200 (FwStatus ''assigned''), m)))"

section \<open>Requests in any order\<close>

datatype fw_request =
    OnRules time "string list" "user option" http_method "fw_rule option"
  | OnRule time "user option" http_method string "updates option"
  | OnGroups time "string list" "user option" http_method "security_group option"
  | OnAssign time "user option" http_method "(string \<times> string) option"

fun fw_handle :: "fw_request \<Rightarrow> fw_manager \<Rightarrow> fw_body answer \<times> fw_manager" where
  "fw_handle (OnRules now ks u meth b) m = fw_HandleRules now ks u meth b m"
| "fw_handle (OnRule now u meth path b) m = fw_HandleRuleOps now u meth path b m"
| "fw_handle (OnGroups now ks u meth b) m = fw_HandleGroups now ks u meth b m"
| "fw_handle (OnAssign now u meth b) m = fw_HandleGroupAssign now u meth b m"

fun fw_caller :: "fw_request \<Rightarrow> user option" where
  "fw_caller (OnRules now ks u meth b) = u"
| "fw_caller (OnRule now u meth path b) = u"
| "fw_caller (OnGroups now ks u meth b) = u"
| "fw_caller (OnAssign now u meth b) = u"

definition fw_step :: "fw_manager \<Rightarrow> fw_request \<Rightarrow> fw_manager" where
  "fw_step m req = snd (fw_handle req m)"

text \<open>The ids that were handed out have smaller numbers than the next one.\<close>

definition old_id :: "string \<Rightarrow> int \<Rightarrow> string \<Rightarrow> bool" where
  "old_id pre n k \<longleftrightarrow> (\<forall>j now. n \<le> j \<longrightarrow> k \<noteq> numbered_id pre j now)"

definition fw_inv :: "fw_manager \<Rightarrow> bool" where
  "fw_inv m \<longleftrightarrow> (\<forall>k. fm_rules m k \<noteq> None \<longrightarrow> old_id ''rule_'' (fm_nextID m) k) \<and>
     (\<forall>k. fm_groups m k \<noteq> None \<longrightarrow> old_id ''sg_'' (fm_nextID m) k)"

lemma old_id_mono: "old_id pre n k \<Longrightarrow> n \<le> n' \<Longrightarrow> old_id pre n' k"
  by (auto simp: old_id_def)

lemma old_id_Suc: "old_id pre n k \<Longrightarrow> old_id pre (n + 1) k"
  by (erule old_id_mono) simp

lemma old_id_new: "old_id pre (n + 1) (numbered_id pre n now)"
  by (auto simp: old_id_def dest: numbered_id_inj)

lemma old_id_not_next: "old_id pre n k \<Longrightarrow> k \<noteq> numbered_id pre n now"
  by (auto simp: old_id_def)

lemma fmt_d_head: "fmt_d n \<noteq> [] \<and> hd (fmt_d n) \<noteq> CHR ''d''"
proof -
  have "hd (show_base 10 k) \<noteq> CHR ''d''" for k
    using show_base_digits [of k] by (cases "show_base 10 k") (auto simp: is_digit_def Let_def)
  then show ?thesis by (simp add: fmt_d_def)
qed

lemma default_old: "old_id ''rule_'' 1 (''rule_d'' @ s)" "old_id ''sg_'' 1 (''sg_d'' @ s)"
proof -
  have "''d'' @ s \<noteq> fmt_d j @ t" for j t using fmt_d_head [of j] by (cases "fmt_d j") auto
  then show "old_id ''rule_'' 1 (''rule_d'' @ s)" "old_id ''sg_'' 1 (''sg_d'' @ s)"
    by (auto simp: old_id_def numbered_id_def)
qed

lemma fw_inv_new: "fw_inv (fw_NewManager now)"
proof -
  have "fm_rules (fw_NewManager now) k \<noteq> None \<Longrightarrow> \<exists>s. k = ''rule_d'' @ s" for k
    by (auto simp: fw_NewManager_def default_rules_def default_rule_def split: if_splits)
  moreover have "fm_groups (fw_NewManager now) k \<noteq> None \<Longrightarrow> \<exists>s. k = ''sg_d'' @ s" for k
    by (auto simp: fw_NewManager_def split: if_splits)
  moreover have "fm_nextID (fw_NewManager now) = 1" by (simp add: fw_NewManager_def)
  ultimately show ?thesis unfolding fw_inv_def using default_old by metis
qed

text \<open>What a request can do to the tables.\<close>

lemma fw_CreateRule_eq:
  "fw_CreateRule now r m = (r', m') \<Longrightarrow> fr_ID r' = numbered_id ''rule_'' (fm_nextID m) now \<and> fr_UserID r' = fr_UserID r \<and>
     fr_Enabled r' = fr_Enabled r \<and> fm_rules m' = (fm_rules m)(fr_ID r' \<mapsto> r') \<and> fm_groups m' = fm_groups m \<and>
     fm_nextID m' = fm_nextID m + 1"
  by (auto simp: fw_CreateRule_def Let_def)

lemma fw_CreateGroup_eq:
  "fw_CreateGroup now g m = (g', m') \<Longrightarrow> sg_ID g' = numbered_id ''sg_'' (fm_nextID m) now \<and> sg_Rules g' = sg_Rules g \<and>
     sg_VMIDs g' = sg_VMIDs g \<and> fm_groups m' = (fm_groups m)(sg_ID g' \<mapsto> g') \<and> fm_rules m' = fm_rules m \<and>
     fm_nextID m' = fm_nextID m + 1"
  by (auto simp: fw_CreateGroup_def Let_def)

lemma fw_UpdateRule_eq:
  "fw_UpdateRule now rid upd c adm m = (x, m') \<Longrightarrow>
     m' = m \<and> (\<exists>e. x = Inl e) \<or> (\<exists>rule r'. fm_rules m rid = Some rule \<and> (adm \<or> fr_UserID rule = c) \<and>
       m' = m\<lparr>fm_rules := (fm_rules m)(rid \<mapsto> r')\<rparr> \<and> fr_UserID r' = fr_UserID rule \<and> (\<forall>r. x = Inr r \<longrightarrow> r = r'))"
  by (auto simp: fw_UpdateRule_def Let_def maybe_def split: option.splits if_splits)

lemma fw_DeleteRule_eq:
  "fw_DeleteRule rid c adm m = (x, m') \<Longrightarrow>
     m' = m \<or> (\<exists>rule. fm_rules m rid = Some rule \<and> (adm \<or> fr_UserID rule = c) \<and> fm_rules m' = (fm_rules m)(rid := None) \<and>
       (\<forall>k. fm_groups m' k = None \<longleftrightarrow> fm_groups m k = None) \<and> fm_nextID m' = fm_nextID m)"
  by (auto simp: fw_DeleteRule_def split: option.splits if_splits)

lemma fw_Assign_eq:
  "fw_AssignGroupToVM now g vm m = (x, m') \<Longrightarrow>
     fm_rules m' = fm_rules m \<and> fm_nextID m' = fm_nextID m \<and> (\<forall>k. fm_groups m' k = None \<longleftrightarrow> fm_groups m k = None)"
  by (auto simp: fw_AssignGroupToVM_def split: option.splits if_splits)

text \<open>
  A request leaves the tables alone, creates an entry under a new id, or changes or deletes one rule on
  behalf of its owner or an administrator.
\<close>

lemma fw_step_cases:
  obtains "fw_step m req = m"
  | "fm_rules (fw_step m req) = fm_rules m" "fm_nextID (fw_step m req) = fm_nextID m"
    "\<forall>k. fm_groups (fw_step m req) k = None \<longleftrightarrow> fm_groups m k = None"
  | now r where "fm_rules (fw_step m req) = (fm_rules m)(numbered_id ''rule_'' (fm_nextID m) now \<mapsto> r)"
    "fm_groups (fw_step m req) = fm_groups m" "fm_nextID (fw_step m req) = fm_nextID m + 1"
  | now g where "fm_groups (fw_step m req) = (fm_groups m)(numbered_id ''sg_'' (fm_nextID m) now \<mapsto> g)"
    "fm_rules (fw_step m req) = fm_rules m" "fm_nextID (fw_step m req) = fm_nextID m + 1"
  | rid rule v u where "fm_rules m rid = Some rule" "fw_caller req = Some u" "is_admin u \<or> fr_UserID rule = us_ID u"
    "fm_rules (fw_step m req) = (fm_rules m)(rid := v)" "fm_nextID (fw_step m req) = fm_nextID m"
    "\<forall>k. fm_groups (fw_step m req) k = None \<longleftrightarrow> fm_groups m k = None"
proof (cases req)
  case (OnRules now ks u meth b)
  show ?thesis
  proof (cases "fw_step m req = m")
    case False
    then obtain w r where w: "u = Some w" "meth = POST" "b = Some r"
      by (auto simp: fw_step_def OnRules fw_HandleRules_def Let_def split: option.splits http_method.splits)
    obtain r' m' where c: "fw_CreateRule now (r\<lparr>fr_UserID := us_ID w\<rparr>) m = (r', m')"
      by (cases "fw_CreateRule now (r\<lparr>fr_UserID := us_ID w\<rparr>) m")
    from w c have s: "fw_step m req = m'" by (simp add: fw_step_def OnRules fw_HandleRules_def)
    note e = fw_CreateRule_eq [OF c]
    show ?thesis by (rule that(3) [of now r']) (use e s in simp_all)
  qed (rule that(1))
next
  case (OnGroups now ks u meth b)
  show ?thesis
  proof (cases "fw_step m req = m")
    case False
    then obtain w g where w: "u = Some w" "meth = POST" "b = Some g"
      by (auto simp: fw_step_def OnGroups fw_HandleGroups_def Let_def split: option.splits http_method.splits)
    define g0 where "g0 = (if \<not> is_admin w \<or> sg_UserID g = '''' then g\<lparr>sg_UserID := us_ID w\<rparr> else g)"
    obtain g' m' where c: "fw_CreateGroup now g0 m = (g', m')" by (cases "fw_CreateGroup now g0 m")
    from w c have s: "fw_step m req = m'" by (simp add: fw_step_def OnGroups fw_HandleGroups_def g0_def Let_def split: if_splits)
    note e = fw_CreateGroup_eq [OF c]
    show ?thesis by (rule that(4) [of now g']) (use e s in simp_all)
  qed (rule that(1))
next
  case (OnAssign now u meth b)
  show ?thesis
  proof (cases "fw_step m req = m")
    case False
    then obtain g vm where w: "meth = POST" "b = Some (g, vm)"
      by (auto simp: fw_step_def OnAssign fw_HandleGroupAssign_def split: option.splits if_splits)
    obtain x m' where c: "fw_AssignGroupToVM now g vm m = (x, m')" by (cases "fw_AssignGroupToVM now g vm m")
    from w c have s: "fw_step m req = m'"
      by (cases x) (simp_all add: fw_step_def OnAssign fw_HandleGroupAssign_def)
    show ?thesis by (rule that(2)) (use fw_Assign_eq [OF c] s in simp_all)
  qed (rule that(1))
next
  case (OnRule now u meth path b)
  show ?thesis
  proof (cases "fw_step m req = m")
    case changed: False
    then obtain w where w: "u = Some w" by (cases u) (auto simp: fw_step_def OnRule fw_HandleRuleOps_def)
    let ?rid = "path_id ''/firewall/rules/'' path"
    show ?thesis
    proof (cases meth)
      case PUT
      with changed w obtain upd where upd: "b = Some upd"
        by (cases b) (auto simp: fw_step_def OnRule fw_HandleRuleOps_def)
      obtain x m' where c: "fw_UpdateRule now ?rid upd (us_ID w) (is_admin w) m = (x, m')"
        by (cases "fw_UpdateRule now ?rid upd (us_ID w) (is_admin w) m")
      with PUT w upd have s: "fw_step m req = m'"
        by (cases x) (simp_all add: fw_step_def OnRule fw_HandleRuleOps_def)
      from fw_UpdateRule_eq [OF c] changed s obtain rule r' where "fm_rules m ?rid = Some rule"
        "is_admin w \<or> fr_UserID rule = us_ID w" "m' = m\<lparr>fm_rules := (fm_rules m)(?rid \<mapsto> r')\<rparr>" by auto
      then show ?thesis using s w by (intro that(5) [of ?rid rule w "Some r'"]) (simp_all add: OnRule)
    next
      case DELETE
      obtain x m' where c: "fw_DeleteRule ?rid (us_ID w) (is_admin w) m = (x, m')"
        by (cases "fw_DeleteRule ?rid (us_ID w) (is_admin w) m")
      with DELETE w have s: "fw_step m req = m'"
        by (cases x) (simp_all add: fw_step_def OnRule fw_HandleRuleOps_def)
      from fw_DeleteRule_eq [OF c] changed s obtain rule where "fm_rules m ?rid = Some rule"
        "is_admin w \<or> fr_UserID rule = us_ID w" "fm_rules m' = (fm_rules m)(?rid := None)"
        "\<forall>k. fm_groups m' k = None \<longleftrightarrow> fm_groups m k = None" "fm_nextID m' = fm_nextID m" by auto
      then show ?thesis using s w by (intro that(5) [of ?rid rule w None]) (simp_all add: OnRule)
    qed (use changed w in \<open>auto simp: fw_step_def OnRule fw_HandleRuleOps_def Let_def split: option.splits if_splits\<close>)
  qed (rule that(1))
qed

interpretation fw: component fw_step fw_inv
proof
  fix m req assume inv: "fw_inv m"
  show "fw_inv (fw_step m req)"
  proof (cases rule: fw_step_cases [of m req])
    case (3 now r)
    with inv show ?thesis unfolding fw_inv_def
      by (auto simp: old_id_new old_id_Suc split: if_splits)
  next
    case (4 now g)
    with inv show ?thesis unfolding fw_inv_def
      by (auto simp: old_id_new old_id_Suc split: if_splits)
  next
    case (5 rid rule v u)
    have "fm_rules m k \<noteq> None" if "fm_rules (fw_step m req) k \<noteq> None" for k
      using that 5 by (cases "k = rid") auto
    with inv 5 show ?thesis unfolding fw_inv_def by auto
  qed (use inv in \<open>auto simp: fw_inv_def\<close>)
qed

section \<open>Properties\<close>

fun answer_rules :: "fw_body answer \<Rightarrow> fw_rule list" where
  "answer_rules (Answer st (FwRules rs n)) = rs"
| "answer_rules (Answer st (FwRule r)) = [r]"
| "answer_rules _ = []"

lemma fw_foreign_rule_kept:
  assumes inv: "fw_inv m" and r: "fm_rules m k = Some r"
    and "\<And>u. fw_caller req = Some u \<Longrightarrow> \<not> is_admin u \<and> us_ID u \<noteq> fr_UserID r"
  shows "fm_rules (fw_step m req) k = Some r"
proof (cases rule: fw_step_cases [of m req])
  case (3 now r')
  have "k \<noteq> numbered_id ''rule_'' (fm_nextID m) now" using inv r old_id_not_next by (auto simp: fw_inv_def)
  with 3 r show ?thesis by simp
next
  case (5 rid rule v u)
  have "k \<noteq> rid" using 5(1-3) r assms(3) [OF 5(2)] by auto
  with 5 r show ?thesis by simp
qed (use r in simp_all)

lemma fw_answer_visible:
  assumes "x \<in> set (answer_rules (fst (fw_handle req m)))"
  shows "\<exists>u. fw_caller req = Some u \<and> (is_admin u \<or> us_ID u = '''' \<or> fr_UserID x = '''' \<or> fr_UserID x = us_ID u)"
proof (cases req)
  case (OnRules now ks u meth b)
  show ?thesis
  proof (cases u)
    case (Some w)
    show ?thesis
    proof (cases meth)
      case POST
      with assms OnRules Some obtain r where b: "b = Some r" by (cases b) (auto simp: fw_HandleRules_def)
      obtain r' m' where c: "fw_CreateRule now (r\<lparr>fr_UserID := us_ID w\<rparr>) m = (r', m')"
        by (cases "fw_CreateRule now (r\<lparr>fr_UserID := us_ID w\<rparr>) m")
      with assms OnRules Some POST b have "x = r'" by (simp add: fw_HandleRules_def)
      with fw_CreateRule_eq [OF c] OnRules Some show ?thesis by auto
    qed (use assms OnRules Some in \<open>auto simp: fw_HandleRules_def fw_ListRules_def visible_to_def Let_def split: if_splits\<close>)
  qed (use assms OnRules in \<open>auto simp: fw_HandleRules_def\<close>)
next
  case (OnRule now u meth path b)
  show ?thesis
  proof (cases u)
    case (Some w)
    let ?rid = "path_id ''/firewall/rules/'' path"
    show ?thesis
    proof (cases meth)
      case PUT
      with assms OnRule Some obtain upd where b: "b = Some upd" by (cases b) (auto simp: fw_HandleRuleOps_def Let_def)
      obtain y m' where c: "fw_UpdateRule now ?rid upd (us_ID w) (is_admin w) m = (y, m')"
        by (cases "fw_UpdateRule now ?rid upd (us_ID w) (is_admin w) m")
      with assms OnRule Some PUT b have "y = Inr x"
        by (cases y) (auto simp: fw_HandleRuleOps_def fw_error_answer_def Let_def)
      with fw_UpdateRule_eq [OF c] OnRule Some show ?thesis by auto
    next
      case DELETE
      obtain y m' where c: "fw_DeleteRule ?rid (us_ID w) (is_admin w) m = (y, m')"
        by (cases "fw_DeleteRule ?rid (us_ID w) (is_admin w) m")
      with assms OnRule Some DELETE show ?thesis
        by (cases y) (auto simp: fw_HandleRuleOps_def fw_error_answer_def Let_def)
    qed (use assms OnRule Some in \<open>auto simp: fw_HandleRuleOps_def Let_def split: option.splits if_splits\<close>)
  qed (use assms OnRule in \<open>auto simp: fw_HandleRuleOps_def\<close>)
next
  case (OnGroups now ks u meth b)
  with assms show ?thesis
    by (auto simp: fw_HandleGroups_def Let_def split_beta split: option.splits http_method.splits)
next
  case (OnAssign now u meth b)
  with assms show ?thesis
    by (auto simp: fw_HandleGroupAssign_def split: option.splits if_splits prod.splits)
qed

text \<open>
  C15: Firewall rules are separated by owner. In every state that requests can reach, a request by somebody who
  is neither the owner of a rule nor an administrator (or by nobody) leaves that rule as it is, the shared
  defaults included, and an answer shows a caller who is not an administrator only the shared rules and the
  caller's own.
\<close>

theorem fw_tenant_isolation:
  assumes "fm_rules (foldl fw_step (fw_NewManager t) reqs) k = Some r"
    and "fw_caller req = None \<or> (\<exists>u. fw_caller req = Some u \<and> \<not> is_admin u \<and> us_ID u \<noteq> '''' \<and> us_ID u \<noteq> fr_UserID r)"
  shows "fm_rules (fw_step (foldl fw_step (fw_NewManager t) reqs) req) k = Some r \<and>
    (fr_UserID r = '''' \<or> r \<notin> set (answer_rules (fst (fw_handle req (foldl fw_step (fw_NewManager t) reqs)))))"
proof -
  let ?m = "foldl fw_step (fw_NewManager t) reqs"
  have inv: "fw_inv ?m" using fw_inv_new by (rule fw.run_inv)
  have "fm_rules (fw_step ?m req) k = Some r"
    by (rule fw_foreign_rule_kept [OF inv assms(1)]) (use assms(2) in auto)
  moreover have "fr_UserID r = ''''" if x: "r \<in> set (answer_rules (fst (fw_handle req ?m)))"
    using fw_answer_visible [OF x] assms(2) by auto
  ultimately show ?thesis by blast
qed

definition ex_user :: "string \<Rightarrow> string \<Rightarrow> user" where
  "ex_user i role = \<lparr>us_ID = i, us_Email = i @ ''@x'', us_PasswordHash = '''', us_DisplayName = i, us_Verified = True,
     us_Credits = 0, us_StorageUsed = 0, us_StorageQuota = 0, us_TailscaleIP = '''', us_TailscaleProxy = '''',
     us_Preferences = None, us_Role = role, us_CreatedAt = 0, us_UpdatedAt = 0\<rparr>"

lemma set_map_filter: "set (List.map_filter f xs) = {y. \<exists>x \<in> set xs. f x = Some y}"
  by (force simp: List.map_filter_def)

lemma fw_evaluate_exact_facts:
  assumes "map_order (fm_groups m) gs"
  shows "set (fw_Evaluate gs vm m) = {r. fr_Enabled r \<and> (\<exists>gid g rid. fm_groups m gid = Some g \<and> vm \<in> set (sg_VMIDs g) \<and>
      rid \<in> set (sg_Rules g) \<and> fm_rules m rid = Some r)}"
    and "sorted (map fr_Priority (fw_Evaluate gs vm m))"
proof -
  have "set (fw_collect gs vm m) = {r. fr_Enabled r \<and> (\<exists>gid g rid. fm_groups m gid = Some g \<and> vm \<in> set (sg_VMIDs g) \<and>
      rid \<in> set (sg_Rules g) \<and> fm_rules m rid = Some r)}"
    using set_map_values [OF assms] by (auto simp: fw_collect_def set_map_filter ran_def split: if_splits)
  then show "set (fw_Evaluate gs vm m) = {r. fr_Enabled r \<and> (\<exists>gid g rid. fm_groups m gid = Some g \<and> vm \<in> set (sg_VMIDs g) \<and>
      rid \<in> set (sg_Rules g) \<and> fm_rules m rid = Some r)}"
    by (simp add: fw_Evaluate_def sortRules_def insertion.set_srt)
  have "sorted_wrt (\<lambda>x y. \<not> fr_Priority y < fr_Priority x) (fw_Evaluate gs vm m)"
    unfolding fw_Evaluate_def sortRules_def by (rule insertion.sorted_srt) (rule strict_weak_on_key)
  then show "sorted (map fr_Priority (fw_Evaluate gs vm m))"
    by (simp add: sorted_map not_less)
qed

text \<open>
  What the firewall enforces for a machine is exactly the enabled rules that exist among those listed by
  the groups assigned to it, in the order of their priorities, whatever the iteration order.
\<close>

theorem fw_evaluate_exact:
  assumes "map_order (fm_groups m) gs"
  shows "set (fw_Evaluate gs vm m) = {r. fr_Enabled r \<and> (\<exists>gid g rid. fm_groups m gid = Some g \<and> vm \<in> set (sg_VMIDs g) \<and>
      rid \<in> set (sg_Rules g) \<and> fm_rules m rid = Some r)} \<and>
    sorted (map fr_Priority (fw_Evaluate gs vm m))"
  using fw_evaluate_exact_facts [OF assms] by blast

text \<open>
  Assigning a group to a machine is not tied to its owner. The handlers accept from any signed-in user an enabled rule,
  a group of their own that lists it, and the assignment of the group to anybody's machine (the assignment does not look at
  the caller at all); the rule is then among those enforced for that machine.
\<close>

theorem fw_assign_unchecked:
  assumes "fr_Enabled rule" "sg_Rules grp = [numbered_id ''rule_'' (fm_nextID m) now]"
    and "snd (fw_handle (OnRules now ks (Some u) POST (Some rule)) m) = m1"
    and "snd (fw_handle (OnGroups now ks (Some u) POST (Some grp)) m1) = m2"
    and "fw_handle (OnAssign now c POST (Some (numbered_id ''sg_'' (fm_nextID m + 1) now, vm))) m2 = (a, m3)"
    and "map_order (fm_groups m3) gs"
  shows "a = Answer 200 (FwStatus ''assigned'') \<and> (\<exists>r \<in> set (fw_Evaluate gs vm m3). fr_UserID r = us_ID u)"
proof -
  obtain r where c1: "fw_CreateRule now (rule\<lparr>fr_UserID := us_ID u\<rparr>) m = (r, m1)"
    using assms(3) by (cases "fw_CreateRule now (rule\<lparr>fr_UserID := us_ID u\<rparr>) m") (simp add: fw_HandleRules_def)
  note e1 = fw_CreateRule_eq [OF c1]
  define g0 where "g0 = (if \<not> is_admin u \<or> sg_UserID grp = '''' then grp\<lparr>sg_UserID := us_ID u\<rparr> else grp)"
  obtain g where c2: "fw_CreateGroup now g0 m1 = (g, m2)"
    using assms(4) by (cases "fw_CreateGroup now g0 m1") (simp add: fw_HandleGroups_def g0_def Let_def split: if_splits)
  note e2 = fw_CreateGroup_eq [OF c2]
  have gr: "sg_Rules g = [fr_ID r]" using e1 e2 assms(2) by (simp add: g0_def)
  let ?gid = "numbered_id ''sg_'' (fm_nextID m + 1) now"
  have g2: "fm_groups m2 ?gid = Some g" using e1 e2 by simp
  obtain x where as: "fw_AssignGroupToVM now ?gid vm m2 = (x, m3)" and ax: "x = None"
    "a = Answer 200 (FwStatus ''assigned'')"
    using assms(5) g2 by (auto simp: fw_HandleGroupAssign_def fw_AssignGroupToVM_def split: if_splits)
  then obtain g3 where g3: "fm_groups m3 ?gid = Some g3" "vm \<in> set (sg_VMIDs g3)" "sg_Rules g3 = sg_Rules g"
    using g2 by (auto simp: fw_AssignGroupToVM_def split: if_splits)
  have "fm_rules m3 (fr_ID r) = Some r" using fw_Assign_eq [OF as] e1 e2 by simp
  moreover have "fr_Enabled r" using e1 assms(1) by simp
  moreover have "set (fw_collect gs vm m3) = {r. fr_Enabled r \<and> (\<exists>gid g rid. fm_groups m3 gid = Some g \<and> vm \<in> set (sg_VMIDs g) \<and>
      rid \<in> set (sg_Rules g) \<and> fm_rules m3 rid = Some r)}"
    using set_map_values [OF assms(6)] by (auto simp: fw_collect_def set_map_filter ran_def split: if_splits)
  ultimately have "r \<in> set (fw_Evaluate gs vm m3)"
    using g3 gr by (force simp: fw_Evaluate_def sortRules_def insertion.set_srt)
  with e1 ax show ?thesis by auto
qed

definition ex_rule :: fw_rule where
  "ex_rule = \<lparr>fr_ID = '''', fr_UserID = ''boss'', fr_Name = ''open'', fr_Description = '''', fr_Direction = '''', fr_Protocol = '''',
     fr_FromPort = 0, fr_ToPort = 0, fr_CIDR = '''', fr_Action = '''', fr_Priority = 1, fr_Enabled = True,
     fr_CreatedAt = 0, fr_UpdatedAt = 0\<rparr>"

lemma mod_not_admin: "\<not> is_admin (ex_user i ''moderator'')"
proof -
  have "roleLevel ''moderator'' < RoleAdmin" by code_simp
  then show ?thesis by (simp add: is_admin_def ex_user_def)
qed

text \<open>A rule of one moderator; another one tries to delete it.\<close>

theorem fw_tenant_isolation_witness:
  "\<exists>r. fm_rules (foldl fw_step (fw_NewManager 0) [OnRules 5 [] (Some (ex_user ''ann'' ''moderator'')) POST (Some ex_rule)]) (numbered_id ''rule_'' 1 5) = Some r \<and>
    fm_rules (fw_step (foldl fw_step (fw_NewManager 0) [OnRules 5 [] (Some (ex_user ''ann'' ''moderator'')) POST (Some ex_rule)])
      (OnRule 6 (Some (ex_user ''mal'' ''moderator'')) DELETE (''/firewall/rules/'' @ numbered_id ''rule_'' 1 5) None))
      (numbered_id ''rule_'' 1 5) = Some r"
proof -
  let ?reqs = "[OnRules 5 [] (Some (ex_user ''ann'' ''moderator'')) POST (Some ex_rule)]"
  obtain r m' where c: "fw_CreateRule 5 (ex_rule\<lparr>fr_UserID := ''ann''\<rparr>) (fw_NewManager 0) = (r, m')"
    by (cases "fw_CreateRule 5 (ex_rule\<lparr>fr_UserID := ''ann''\<rparr>) (fw_NewManager 0)")
  have "foldl fw_step (fw_NewManager 0) ?reqs = m'"
    using c by (simp add: fw_step_def fw_HandleRules_def ex_user_def)
  moreover have "fm_nextID (fw_NewManager 0) = 1" by (simp add: fw_NewManager_def)
  ultimately have r: "fm_rules (foldl fw_step (fw_NewManager 0) ?reqs) (numbered_id ''rule_'' 1 5) = Some r"
    and u: "fr_UserID r = ''ann''" using fw_CreateRule_eq [OF c] by simp_all
  have "fw_caller (OnRule 6 (Some (ex_user ''mal'' ''moderator'')) DELETE (''/firewall/rules/'' @ numbered_id ''rule_'' 1 5) None)
      = Some (ex_user ''mal'' ''moderator'')" by simp
  with fw_tenant_isolation [OF r, of "OnRule 6 (Some (ex_user ''mal'' ''moderator'')) DELETE (''/firewall/rules/'' @ numbered_id ''rule_'' 1 5) None"]
    mod_not_admin [of "''mal''"] u r show ?thesis by (simp add: ex_user_def)
qed

theorem fw_evaluate_exact_witness:
  "set (fw_Evaluate [''sg_default''] ''vm'' (fw_NewManager 0)) = {r. fr_Enabled r \<and> (\<exists>gid g rid. fm_groups (fw_NewManager 0) gid = Some g \<and>
     ''vm'' \<in> set (sg_VMIDs g) \<and> rid \<in> set (sg_Rules g) \<and> fm_rules (fw_NewManager 0) rid = Some r)}"
  by (rule fw_evaluate_exact [THEN conjunct1]) (auto simp: map_order_def fw_NewManager_def)

definition ex_group :: "string \<Rightarrow> security_group" where
  "ex_group rid = \<lparr>sg_ID = '''', sg_UserID = '''', sg_Name = ''g'', sg_Description = '''', sg_Rules = [rid], sg_VMIDs = [],
     sg_CreatedAt = 0, sg_UpdatedAt = 0\<rparr>"

theorem fw_assign_unchecked_witness:
  "\<exists>m3 gs. \<exists>r \<in> set (fw_Evaluate gs ''victim'' m3). fr_UserID r = ''mal''"
proof -
  let ?mal = "ex_user ''mal'' ''moderator''"
  define m where "m = fw_NewManager 0"
  have n: "fm_nextID m = 1" by (simp add: m_def fw_NewManager_def)
  define m1 where "m1 = snd (fw_handle (OnRules 5 [] (Some ?mal) POST (Some ex_rule)) m)"
  define m2 where "m2 = snd (fw_handle (OnGroups 5 [] (Some ?mal) POST (Some (ex_group (numbered_id ''rule_'' (fm_nextID m) 5)))) m1)"
  let ?gid = "numbered_id ''sg_'' (fm_nextID m + 1) 5"
  obtain a m3 where h: "fw_handle (OnAssign 5 None POST (Some (?gid, ''victim''))) m2 = (a, m3)"
    by (cases "fw_handle (OnAssign 5 None POST (Some (?gid, ''victim''))) m2")
  have "fm_groups m1 = fm_groups m" "fm_nextID m1 = fm_nextID m + 1"
    by (simp_all add: m1_def fw_HandleRules_def fw_CreateRule_def Let_def)
  moreover have "\<not> is_admin ?mal" by (rule mod_not_admin)
  ultimately have g2: "dom (fm_groups m2) = {?gid, ''sg_default''}"
    by (auto simp: m2_def fw_HandleGroups_def fw_CreateGroup_def Let_def m_def fw_NewManager_def)
  obtain y where as: "fw_AssignGroupToVM 5 ?gid ''victim'' m2 = (y, m3)"
    using h by (cases "fw_AssignGroupToVM 5 ?gid ''victim'' m2") (auto simp: fw_HandleGroupAssign_def split: option.splits)
  have "dom (fm_groups m3) = {?gid, ''sg_default''}"
    unfolding g2 [symmetric] dom_def using fw_Assign_eq [OF as] by (simp only:)
  moreover have "?gid \<noteq> ''sg_default''" using old_id_not_next [OF old_id_mono, of "''sg_''" 1 "''sg_default''" 2 5]
    default_old(2) [of "''efault''"] n by auto
  ultimately have "map_order (fm_groups m3) [?gid, ''sg_default'']" by (simp add: map_order_def)
  from fw_assign_unchecked [OF _ _ m1_def [symmetric] m2_def [symmetric] h this]
  have "\<exists>r \<in> set (fw_Evaluate [?gid, ''sg_default''] ''victim'' m3). fr_UserID r = us_ID ?mal"
    by (simp add: ex_rule_def ex_group_def)
  then show ?thesis by (auto simp: ex_user_def)
qed

end
