(* ===== verification/GoHttp.thy ===== *)
theory GoHttp
  imports GoStrings
begin

text \<open>
  What the code uses of Go's \<open>net/http\<close>: header maps with their canonical keys, requests, responses,
  and a handler as the list of actions it performs on its \<open>ResponseWriter\<close>.
\<close>

section \<open>Headers\<close>

text \<open>\<open>textproto.CanonicalMIMEHeaderKey\<close>: letters after the start or a hyphen become upper case, the
  others lower case; a key with a character that no header name has is left alone.\<close>

definition is_letter :: "char \<Rightarrow> bool" where
  "is_letter c \<longleftrightarrow> (let n = of_char c :: nat in 65 \<le> n \<and> n \<le> 90 \<or> 97 \<le> n \<and> n \<le> 122)"

definition is_token_char :: "char \<Rightarrow> bool" where
  "is_token_char c \<longleftrightarrow> is_letter c \<or> is_digit c \<or> c \<in> set ''!#$%&*+-.^_`|~'' \<or> c = CHR 0x27"

definition to_upper_char :: "char \<Rightarrow> char" where
  "to_upper_char c = (let n = of_char c :: nat in if 97 \<le> n \<and> n \<le> 122 then char_of (n - 32) else c)"

fun canonical_aux :: "bool \<Rightarrow> string \<Rightarrow> string" where
  "canonical_aux up [] = []"
| "canonical_aux up (c # s) =
     (if up then to_upper_char c else to_lower_char c) # canonical_aux (c = CHR ''-'') s"

definition canonical_key :: "string \<Rightarrow> string" where
  "canonical_key k = (if list_all is_token_char k then canonical_aux True k else k)"

type_synonym header = "string \<rightharpoonup> string list"

definition hdr_get :: "header \<Rightarrow> string \<Rightarrow> string" where
  "hdr_get h k = (case h (canonical_key k) of Some (v # _) \<Rightarrow> v | _ \<Rightarrow> '''')"

definition hdr_values :: "header \<Rightarrow> string \<Rightarrow> string list" where
  "hdr_values h k = (case h k of None \<Rightarrow> [] | Some vs \<Rightarrow> vs)"

definition hdr_set :: "string \<Rightarrow> string \<Rightarrow> header \<Rightarrow> header" where
  "hdr_set k v h = h(canonical_key k \<mapsto> [v])"

definition hdr_add :: "string \<Rightarrow> string \<Rightarrow> header \<Rightarrow> header" where
  "hdr_add k v h = h(canonical_key k \<mapsto> hdr_values h (canonical_key k) @ [v])"

text \<open>
  The loop \<open>for k, vs := range src { for v in vs { dst[k] = append(dst[k], v) } }\<close>. Each key of the
  source is touched once, so the order of the iteration does not matter; a key without values is not
  created.
\<close>

definition hdr_append_all :: "header \<Rightarrow> header \<Rightarrow> header" where
  "hdr_append_all src dst = (\<lambda>k. case src k of
     None \<Rightarrow> dst k
   | Some vs \<Rightarrow> if vs = [] then dst k else Some (hdr_values dst k @ vs))"

definition hdr_append_in :: "header \<Rightarrow> string list \<Rightarrow> header \<Rightarrow> header" where
  "hdr_append_in src ks dst =
     foldl (\<lambda>dst k. foldl (\<lambda>dst v. dst(k \<mapsto> hdr_values dst k @ [v])) dst (hdr_values src k)) dst ks"

lemma hdr_values_upd [simp]: "hdr_values (h(k \<mapsto> vs)) k' = (if k' = k then vs else hdr_values h k')"
  by (simp add: hdr_values_def)

lemma hdr_append_values:
  "foldl (\<lambda>dst v. dst(k \<mapsto> hdr_values dst k @ [v])) dst vs =
     (if vs = [] then dst else dst(k \<mapsto> hdr_values dst k @ vs))"
  by (induction vs arbitrary: dst) auto

lemma hdr_append_in_snoc:
  "hdr_append_in src (ks @ [k]) dst =
     (let d = hdr_append_in src ks dst in
      if hdr_values src k = [] then d else d(k \<mapsto> hdr_values d k @ hdr_values src k))"
  by (simp add: hdr_append_in_def hdr_append_values Let_def)

lemma hdr_append_in_all: "map_order src ks \<Longrightarrow> hdr_append_in src ks dst = hdr_append_all src dst"
proof -
  assume ord: "map_order src ks"
  have "hdr_append_in src ks dst = (\<lambda>k. if k \<in> set ks then hdr_append_all src dst k else dst k)"
    using map_order_distinct [OF ord] map_order_set [OF ord, THEN equalityD1]
  proof (induction ks rule: rev_induct)
    case (snoc k ks)
    then have IH: "hdr_append_in src ks dst = (\<lambda>k. if k \<in> set ks then hdr_append_all src dst k else dst k)"
      by simp
    have k: "k \<notin> set ks" using snoc.prems by simp
    obtain vs where vs: "src k = Some vs" using snoc.prems by auto
    have "hdr_values src k = vs" using vs by (simp add: hdr_values_def)
    moreover have "hdr_values (hdr_append_in src ks dst) k = hdr_values dst k"
      using IH k by (simp add: hdr_values_def)
    ultimately show ?case
      unfolding hdr_append_in_snoc Let_def IH using k vs by (auto simp: hdr_append_all_def fun_eq_iff)
  qed (simp add: hdr_append_in_def)
  moreover have "hdr_append_all src dst k = dst k" if "k \<notin> set ks" for k
    using that map_order_set [OF ord] by (auto simp: hdr_append_all_def domIff split: option.split)
  ultimately show ?thesis by auto
qed

section \<open>Requests and responses\<close>

record request =
  rq_Method :: string
  rq_Host :: string
  rq_Path :: string
  rq_URL :: string
  rq_Query :: "(string \<times> string list) list"
  rq_Header :: header
  rq_RemoteAddr :: string

text \<open>
  What has reached the client: the header map being built, the status and header snapshot once the
  status line is sent, and the body. Later changes of the header map are not sent.
\<close>

record writer =
  w_Header :: header
  w_Sent :: "(int \<times> header) option"
  w_Body :: string

definition new_writer :: writer where
  "new_writer = \<lparr>w_Header = Map.empty, w_Sent = None, w_Body = []\<rparr>"

definition w_WriteHeader :: "int \<Rightarrow> writer \<Rightarrow> writer" where
  "w_WriteHeader code w = (if w_Sent w = None then w\<lparr>w_Sent := Some (code, w_Header w)\<rparr> else w)"

definition w_Write :: "string \<Rightarrow> writer \<Rightarrow> writer" where
  "w_Write b w = (let w = w_WriteHeader 200 w in w\<lparr>w_Body := w_Body w @ b\<rparr>)"

definition w_edit :: "(header \<Rightarrow> header) \<Rightarrow> writer \<Rightarrow> writer" where
  "w_edit f w = w\<lparr>w_Header := f (w_Header w)\<rparr>"

lemmas writer_defs = new_writer_def w_WriteHeader_def w_Write_def w_edit_def

text \<open>A handler performs actions on its writer.\<close>

datatype w_action = SetHeader string string | AddHeader string string | SendStatus int | SendBody string

end
