(* ===== verification/TunnelCache.thy ===== *)
theory TunnelCache
  imports GoHttp "HOL-Library.Char_ord" "HOL-Library.List_Lexorder"
begin

text \<open>
  apps/gateway/internal/tunnel/cache.go: the response cache (a map and a \<open>container/list\<close> in order of
  use), its cache keys, the parsing of \<open>Cache-Control\<close>, and the handler that answers from the cache.
  An element of the list is identified by the number it got when it was pushed; the map's items point
  to their elements by it. SHA-256 is an argument. The ticker goroutine \<open>cleanupLoop\<close> is the operation
  \<open>lc_cleanup\<close>. The hit and miss counters count without wrapping.
\<close>

section \<open>State\<close>

definition cacheDefaultCapacity :: int where "cacheDefaultCapacity = 10000"
definition cacheDefaultTTL :: duration where "cacheDefaultTTL = 5 * minute"
definition cacheMaxBodyBytes :: nat where "cacheMaxBodyBytes = 1048576"

record cache_entry =
  ce_StatusCode :: int
  ce_Headers :: header
  ce_Body :: string
  ce_CreatedAt :: time
  ce_ExpiresAt :: time
  ce_ETag :: string

record cache_item =
  it_key :: string
  it_entry :: cache_entry
  it_elem :: nat

record lcache =
  lc_maxSize :: int
  lc_defaultTTL :: duration
  lc_entries :: "string \<rightharpoonup> cache_item"
  lc_lru :: "cache_item list"
  lc_next :: nat
  lc_hits :: int
  lc_misses :: int

definition NewCache :: "int \<Rightarrow> duration \<Rightarrow> lcache" where
  "NewCache maxSize defaultTTL =
     \<lparr>lc_maxSize = (if maxSize \<le> 0 then cacheDefaultCapacity else maxSize),
      lc_defaultTTL = (if defaultTTL \<le> 0 then cacheDefaultTTL else defaultTTL),
      lc_entries = Map.empty, lc_lru = [], lc_next = 0, lc_hits = 0, lc_misses = 0\<rparr>"

section \<open>Operations\<close>

text \<open>\<open>list.Remove\<close> and \<open>list.MoveToFront\<close>\<close>

definition elem_remove :: "nat \<Rightarrow> cache_item list \<Rightarrow> cache_item list" where
  "elem_remove e xs = remove_first (\<lambda>it. it_elem it = e) xs"

definition elem_to_front :: "nat \<Rightarrow> cache_item list \<Rightarrow> cache_item list" where
  "elem_to_front e xs = (case find (\<lambda>it. it_elem it = e) xs of None \<Rightarrow> xs | Some it \<Rightarrow> it # elem_remove e xs)"

definition lc_removeLocked :: "string \<Rightarrow> lcache \<Rightarrow> lcache" where
  "lc_removeLocked key c = (case lc_entries c key of
     None \<Rightarrow> c
   | Some item \<Rightarrow> c\<lparr>lc_lru := elem_remove (it_elem item) (lc_lru c), lc_entries := (lc_entries c)(key := None)\<rparr>)"

definition lc_Get :: "string \<Rightarrow> time \<Rightarrow> lcache \<Rightarrow> cache_entry option \<times> lcache" where
  "lc_Get key now c = (case lc_entries c key of
     None \<Rightarrow> (None, c\<lparr>lc_misses := lc_misses c + 1\<rparr>)
   | Some item \<Rightarrow>
       if now > ce_ExpiresAt (it_entry item)
       then (let c = lc_removeLocked key c in (None, c\<lparr>lc_misses := lc_misses c + 1\<rparr>))
       else (Some (it_entry item),
             c\<lparr>lc_lru := elem_to_front (it_elem item) (lc_lru c), lc_hits := lc_hits c + 1\<rparr>))"

text \<open>The loop that makes room: it need not end when an element of the list is not in the map.\<close>

partial_function (option) lc_shrink :: "lcache \<Rightarrow> lcache option" where
  "lc_shrink c =
     (if int (length (lc_lru c)) \<ge> lc_maxSize c
      then (if lc_lru c = [] then Some c else lc_shrink (lc_removeLocked (it_key (last (lc_lru c))) c))
      else Some c)"

definition lc_Set :: "string \<Rightarrow> cache_entry \<Rightarrow> lcache \<Rightarrow> lcache option" where
  "lc_Set key entry c =
     (if length (ce_Body entry) > cacheMaxBodyBytes then Some c
      else (let c = (case lc_entries c key of
              None \<Rightarrow> c
            | Some existing \<Rightarrow> c\<lparr>lc_lru := elem_remove (it_elem existing) (lc_lru c),
                lc_entries := (lc_entries c)(key := None)\<rparr>)
            in case lc_shrink c of
              None \<Rightarrow> None
            | Some c \<Rightarrow>
                let item = \<lparr>it_key = key, it_entry = entry, it_elem = lc_next c\<rparr>
                in Some (c\<lparr>lc_lru := item # lc_lru c, lc_next := lc_next c + 1,
                           lc_entries := (lc_entries c)(key \<mapsto> item)\<rparr>)))"

definition lc_Delete :: "string \<Rightarrow> lcache \<Rightarrow> lcache" where
  "lc_Delete key c = lc_removeLocked key c"

text \<open>One tick of the cleanup loop; \<open>ks\<close> is the order of the iteration over the map.\<close>

definition lc_cleanup :: "string list \<Rightarrow> time \<Rightarrow> lcache \<Rightarrow> lcache" where
  "lc_cleanup ks now c = foldl (\<lambda>c key. case lc_entries c key of
     None \<Rightarrow> c
   | Some item \<Rightarrow> if now > ce_ExpiresAt (it_entry item) then lc_removeLocked key c else c) c ks"

record cache_stats =
  cs_Size :: nat
  cs_Capacity :: int
  cs_Hits :: int
  cs_Misses :: int
  cs_HitRatio :: rat

definition lc_Stats :: "string list \<Rightarrow> lcache \<Rightarrow> cache_stats" where
  "lc_Stats ks c =
     (let total = lc_hits c + lc_misses c
      in \<lparr>cs_Size = length ks, cs_Capacity = lc_maxSize c, cs_Hits = lc_hits c, cs_Misses = lc_misses c,
          cs_HitRatio = (if total > 0 then of_int (lc_hits c) / of_int total else 0)\<rparr>)"

section \<open>Refinement of a bounded list in order of use\<close>

text \<open>
  The specification: a list of keys and entries, the most recently used first, with room for \<open>n\<close>.
\<close>

datatype cache_call = CGet string time | CSet string cache_entry | CDelete string | CCleanup time

type_synonym lru_spec = "nat \<times> (string \<times> cache_entry) list"

definition lru_without :: "string \<Rightarrow> (string \<times> cache_entry) list \<Rightarrow> (string \<times> cache_entry) list" where
  "lru_without key l = filter (\<lambda>(k, e). k \<noteq> key) l"

fun lru_step :: "lru_spec \<Rightarrow> cache_call \<Rightarrow> cache_entry option \<times> lru_spec" where
  "lru_step (n, l) (CGet key now) = (case map_of l key of
     None \<Rightarrow> (None, n, l)
   | Some e \<Rightarrow> if now > ce_ExpiresAt e then (None, n, lru_without key l)
       else (Some e, n, (key, e) # lru_without key l))"
| "lru_step (n, l) (CSet key e) =
     (if length (ce_Body e) > cacheMaxBodyBytes then (None, n, l)
      else (None, n, (key, e) # take (n - 1) (lru_without key l)))"
| "lru_step (n, l) (CDelete key) = (None, n, lru_without key l)"
| "lru_step (n, l) (CCleanup now) = (None, n, filter (\<lambda>(k, e). \<not> now > ce_ExpiresAt e) l)"

inductive lc_step :: "lcache \<Rightarrow> cache_call \<Rightarrow> cache_entry option \<Rightarrow> lcache \<Rightarrow> bool" where
  step_Get: "lc_Get key now c = (r, c') \<Longrightarrow> lc_step c (CGet key now) r c'"
| step_Set: "lc_Set key e c = Some c' \<Longrightarrow> lc_step c (CSet key e) None c'"
| step_Delete: "lc_step c (CDelete key) None (lc_Delete key c)"
| step_Cleanup: "map_order (lc_entries c) ks \<Longrightarrow> lc_step c (CCleanup now) None (lc_cleanup ks now c)"

inductive_cases lc_stepE: "lc_step c call r c'"

definition lc_abs :: "lcache \<Rightarrow> lru_spec" where
  "lc_abs c = (nat (lc_maxSize c), map (\<lambda>it. (it_key it, it_entry it)) (lc_lru c))"

text \<open>The list and the map hold the same items, and the elements have different numbers.\<close>

definition lc_wf :: "lcache \<Rightarrow> bool" where
  "lc_wf c \<longleftrightarrow> 0 < lc_maxSize c \<and>
     distinct (map it_key (lc_lru c)) \<and> distinct (map it_elem (lc_lru c)) \<and>
     (\<forall>it \<in> set (lc_lru c). it_elem it < lc_next c) \<and>
     (\<forall>k it. lc_entries c k = Some it \<longleftrightarrow> it \<in> set (lc_lru c) \<and> it_key it = k)"

definition lc_inv :: "lcache \<Rightarrow> bool" where
  "lc_inv c \<longleftrightarrow> lc_wf c \<and> int (length (lc_lru c)) \<le> lc_maxSize c"

lemma lc_inv_wf: "lc_inv c \<Longrightarrow> lc_wf c"
  by (simp add: lc_inv_def)

lemma lc_wf_entry: "lc_wf c \<Longrightarrow> lc_entries c k = Some it \<Longrightarrow> it \<in> set (lc_lru c) \<and> it_key it = k"
  by (simp add: lc_wf_def)

lemma lc_wf_item: "lc_wf c \<Longrightarrow> it \<in> set (lc_lru c) \<Longrightarrow> lc_entries c (it_key it) = Some it"
  by (simp add: lc_wf_def)

lemma lc_wf_inj: "lc_wf c \<Longrightarrow> x \<in> set (lc_lru c) \<Longrightarrow> y \<in> set (lc_lru c) \<Longrightarrow>
  (it_elem x = it_elem y \<longleftrightarrow> x = y) \<and> (it_key x = it_key y \<longleftrightarrow> x = y)"
  unfolding lc_wf_def by (metis distinct_map inj_on_contraD)

lemma lc_wf_None: "lc_wf c \<Longrightarrow> lc_entries c k = None \<Longrightarrow> \<forall>y \<in> set (lc_lru c). it_key y \<noteq> k"
  by (metis lc_wf_item option.distinct(1))

lemma remove_first_filter:
  "distinct (map f xs) \<Longrightarrow> remove_first (\<lambda>y. f y = e) xs = filter (\<lambda>y. f y \<noteq> e) xs"
proof (induction xs)
  case (Cons x xs)
  show ?case
  proof (cases "f x = e")
    case True
    with Cons.prems have "\<forall>y \<in> set xs. f y \<noteq> e" by (auto simp: image_iff)
    with True show ?thesis by simp
  qed (use Cons in simp)
qed simp

lemma elem_remove_key:
  assumes "lc_wf c" "lc_entries c k = Some it"
  shows "elem_remove (it_elem it) (lc_lru c) = filter (\<lambda>y. it_key y \<noteq> k) (lc_lru c)"
proof -
  from assms have it: "it \<in> set (lc_lru c)" "it_key it = k" by (auto dest: lc_wf_entry)
  have "elem_remove (it_elem it) (lc_lru c) = filter (\<lambda>y. it_elem y \<noteq> it_elem it) (lc_lru c)"
    using assms(1) by (simp add: elem_remove_def remove_first_filter lc_wf_def)
  also have "\<dots> = filter (\<lambda>y. it_key y \<noteq> k) (lc_lru c)"
    using lc_wf_inj [OF assms(1) _ it(1)] it(2) by (intro filter_cong) auto
  finally show ?thesis .
qed

lemma elem_to_front_key:
  assumes "lc_wf c" "lc_entries c k = Some it"
  shows "elem_to_front (it_elem it) (lc_lru c) = it # filter (\<lambda>y. it_key y \<noteq> k) (lc_lru c)"
proof -
  from assms have it: "it \<in> set (lc_lru c)" by (auto dest: lc_wf_entry)
  have "find (\<lambda>y. it_elem y = it_elem it) (lc_lru c) = Some it"
  proof (cases "find (\<lambda>y. it_elem y = it_elem it) (lc_lru c)")
    case None
    with it show ?thesis by (auto simp: find_None_iff)
  next
    case (Some y)
    then have "y \<in> set (lc_lru c)" "it_elem y = it_elem it" by (auto simp: find_Some_iff)
    with lc_wf_inj [OF assms(1) _ it] Some show ?thesis by auto
  qed
  with elem_remove_key [OF assms] show ?thesis by (simp add: elem_to_front_def)
qed

text \<open>Removing a key filters it out of the list and the map.\<close>

lemma lc_removeLocked_eq:
  "lc_wf c \<Longrightarrow> lc_removeLocked key c =
     c\<lparr>lc_lru := filter (\<lambda>y. it_key y \<noteq> key) (lc_lru c), lc_entries := (lc_entries c)(key := None)\<rparr>"
proof (cases "lc_entries c key")
  case None
  assume wf: "lc_wf c"
  have "filter (\<lambda>y. it_key y \<noteq> key) (lc_lru c) = lc_lru c"
    using lc_wf_None [OF wf None] by simp
  with None show ?thesis by (simp add: lc_removeLocked_def fun_upd_idem)
qed (simp add: lc_removeLocked_def elem_remove_key)

lemma distinct_map_filter': "distinct (map f xs) \<Longrightarrow> distinct (map f (filter P xs))"
  by (induction xs) auto

lemma lc_wf_filtered:
  assumes "lc_wf c"
  shows "lc_wf (c\<lparr>lc_lru := filter (\<lambda>y. it_key y \<noteq> key) (lc_lru c), lc_entries := (lc_entries c)(key := None)\<rparr>)"
  using assms by (auto simp: lc_wf_def distinct_map_filter')

lemma lc_wf_removeLocked: "lc_wf c \<Longrightarrow> lc_wf (lc_removeLocked key c)"
  by (simp add: lc_removeLocked_eq lc_wf_filtered)

lemma lc_inv_removeLocked: "lc_inv c \<Longrightarrow> lc_inv (lc_removeLocked key c)"
  using length_filter_le [of "\<lambda>y. it_key y \<noteq> key" "lc_lru c"]
  by (simp add: lc_inv_def lc_wf_removeLocked)
    (simp add: lc_removeLocked_eq, meson length_filter_le of_nat_mono order_trans)

lemma lru_without_map:
  "lru_without key (map (\<lambda>it. (it_key it, it_entry it)) xs) =
     map (\<lambda>it. (it_key it, it_entry it)) (filter (\<lambda>y. it_key y \<noteq> key) xs)"
  by (induction xs) (auto simp: lru_without_def)

lemma lc_abs_removeLocked:
  "lc_wf c \<Longrightarrow> lc_abs (lc_removeLocked key c) = (fst (lc_abs c), lru_without key (snd (lc_abs c)))"
  by (simp add: lc_removeLocked_eq lc_abs_def lru_without_map)

lemma map_of_abs: "lc_wf c \<Longrightarrow> map_of (snd (lc_abs c)) key = map_option it_entry (lc_entries c key)"
proof (cases "lc_entries c key")
  case None
  assume wf: "lc_wf c"
  have "key \<notin> fst ` set (snd (lc_abs c))" using lc_wf_None [OF wf None] by (auto simp: lc_abs_def)
  with None show ?thesis by (simp add: map_of_eq_None_iff)
next
  case (Some it)
  assume wf: "lc_wf c"
  have "distinct (map fst (snd (lc_abs c)))" using wf by (simp add: lc_wf_def lc_abs_def comp_def)
  moreover have "(key, it_entry it) \<in> set (snd (lc_abs c))"
    using lc_wf_entry [OF wf Some] by (force simp: lc_abs_def)
  ultimately show ?thesis using Some by simp
qed

text \<open>The loop of \<open>Set\<close> ends, having kept the most recent elements.\<close>

lemma lc_shrink_take:
  "lc_wf c \<Longrightarrow> \<exists>es. lc_shrink c = Some (c\<lparr>lc_lru := take (nat (lc_maxSize c) - 1) (lc_lru c), lc_entries := es\<rparr>) \<and>
     lc_wf (c\<lparr>lc_lru := take (nat (lc_maxSize c) - 1) (lc_lru c), lc_entries := es\<rparr>)"
proof (induction "length (lc_lru c)" arbitrary: c rule: less_induct)
  case (less c)
  show ?case
  proof (cases "int (length (lc_lru c)) \<ge> lc_maxSize c")
    case False
    then have "take (nat (lc_maxSize c) - 1) (lc_lru c) = lc_lru c" by simp
    with False less.prems show ?thesis
      by (intro exI [of _ "lc_entries c"]) (simp add: lc_shrink.simps [of c])
  next
    case True
    have pos: "0 < lc_maxSize c" using less.prems by (simp add: lc_wf_def)
    obtain ys y where lru: "lc_lru c = ys @ [y]"
      using True pos by (cases "lc_lru c" rule: rev_cases) auto
    define c' where "c' = lc_removeLocked (it_key y) c"
    have "\<forall>z \<in> set ys. it_key z \<noteq> it_key y"
      using less.prems by (auto simp: lc_wf_def lru image_iff)
    then have c': "c' = c\<lparr>lc_lru := ys, lc_entries := (lc_entries c)(it_key y := None)\<rparr>"
      using less.prems by (simp add: c'_def lc_removeLocked_eq lru)
    have sh: "lc_shrink c = lc_shrink c'"
      using True by (simp add: lc_shrink.simps [of c] lru c'_def)
    have len: "length (lc_lru c') < length (lc_lru c)" by (simp add: lru c')
    have wf': "lc_wf c'" using less.prems by (simp add: c'_def lc_wf_removeLocked)
    obtain es where es: "lc_shrink c' = Some (c'\<lparr>lc_lru := take (nat (lc_maxSize c') - 1) (lc_lru c'), lc_entries := es\<rparr>)"
      "lc_wf (c'\<lparr>lc_lru := take (nat (lc_maxSize c') - 1) (lc_lru c'), lc_entries := es\<rparr>)"
      using less.hyps [OF len wf'] by blast
    have "take (nat (lc_maxSize c) - 1) ys = take (nat (lc_maxSize c) - 1) (lc_lru c)"
      using True pos by (simp add: lru)
    with es show ?thesis unfolding sh by (intro exI [of _ es]) (simp add: c')
  qed
qed

lemma lc_wf_push:
  assumes wf: "lc_wf c" and new: "lc_entries c key = None"
    and item: "item = \<lparr>it_key = key, it_entry = e, it_elem = lc_next c\<rparr>"
  shows "lc_wf (c\<lparr>lc_lru := item # lc_lru c, lc_next := lc_next c + 1, lc_entries := (lc_entries c)(key \<mapsto> item)\<rparr>)"
  using wf lc_wf_None [OF wf new]
  by (fastforce simp: lc_wf_def item)

text \<open>\<open>Set\<close> always returns, and does what the specification does.\<close>

lemma lc_Set_sim:
  assumes inv: "lc_inv c"
  shows "\<exists>c'. lc_Set key e c = Some c' \<and> lc_inv c' \<and> lru_step (lc_abs c) (CSet key e) = (None, lc_abs c')"
proof (cases "length (ce_Body e) > cacheMaxBodyBytes")
  case True
  with inv show ?thesis by (simp add: lc_Set_def lc_abs_def)
next
  case False
  define d where "d = lc_removeLocked key c"
  have d: "(case lc_entries c key of None \<Rightarrow> c
      | Some existing \<Rightarrow> c\<lparr>lc_lru := elem_remove (it_elem existing) (lc_lru c), lc_entries := (lc_entries c)(key := None)\<rparr>) = d"
    by (simp add: d_def lc_removeLocked_def)
  have wf: "lc_wf d" using inv by (simp add: d_def lc_inv_wf lc_wf_removeLocked)
  define l where "l = take (nat (lc_maxSize d) - 1) (lc_lru d)"
  from lc_shrink_take [OF wf] obtain es where es: "lc_shrink d = Some (d\<lparr>lc_lru := l, lc_entries := es\<rparr>)"
    "lc_wf (d\<lparr>lc_lru := l, lc_entries := es\<rparr>)" unfolding l_def by blast
  define item where "item = \<lparr>it_key = key, it_entry = e, it_elem = lc_next d\<rparr>"
  define c' where "c' = d\<lparr>lc_lru := item # l, lc_next := lc_next d + 1, lc_entries := es(key \<mapsto> item)\<rparr>"
  have set: "lc_Set key e c = Some c'"
    using False unfolding lc_Set_def d Let_def es(1) by (simp add: c'_def item_def)
  have lru_d: "lc_lru d = filter (\<lambda>y. it_key y \<noteq> key) (lc_lru c)" "lc_maxSize d = lc_maxSize c"
    using inv by (simp_all add: d_def lc_removeLocked_eq lc_inv_wf)
  have "es key = None"
  proof (rule ccontr)
    assume "es key \<noteq> None"
    then obtain it where it: "es key = Some it" by blast
    then have "it \<in> set l" "it_key it = key" using lc_wf_entry [OF es(2)] by auto
    then show False using lru_d by (auto simp: l_def dest: in_set_takeD)
  qed
  then have "lc_wf c'"
    using lc_wf_push [OF es(2), of key item e] by (simp add: c'_def item_def)
  moreover have "0 < lc_maxSize c" using inv by (simp add: lc_inv_def lc_wf_def)
  ultimately have "lc_inv c'" by (simp add: lc_inv_def c'_def l_def lru_d)
  moreover have "lru_step (lc_abs c) (CSet key e) = (None, lc_abs c')"
    using False by (simp add: lc_abs_def c'_def l_def item_def lru_d lru_without_map take_map)
  ultimately show ?thesis using set by blast
qed

lemma lc_Get_sim:
  assumes inv: "lc_inv c" and get: "lc_Get key now c = (r, c')"
  shows "lc_inv c' \<and> lru_step (lc_abs c) (CGet key now) = (r, lc_abs c')"
proof -
  have wf: "lc_wf c" using inv by (rule lc_inv_wf)
  obtain n l where nl: "lc_abs c = (n, l)" by (cases "lc_abs c")
  have mo: "map_of l key = map_option it_entry (lc_entries c key)"
    using map_of_abs [OF wf, of key] by (simp add: nl)
  have upd: "lc_inv (s\<lparr>lc_misses := m\<rparr>) = lc_inv s" "lc_inv (s\<lparr>lc_hits := m\<rparr>) = lc_inv s"
    "lc_abs (s\<lparr>lc_misses := m\<rparr>) = lc_abs s" "lc_abs (s\<lparr>lc_hits := m\<rparr>) = lc_abs s" for s m
    by (simp_all add: lc_inv_def lc_wf_def lc_abs_def)
  show ?thesis
  proof (cases "lc_entries c key")
    case None
    with get have "r = None" "c' = c\<lparr>lc_misses := lc_misses c + 1\<rparr>" by (auto simp: lc_Get_def)
    with None inv mo show ?thesis by (simp add: upd nl)
  next
    case (Some it)
    show ?thesis
    proof (cases "now > ce_ExpiresAt (it_entry it)")
      case True
      with get Some have "r = None" "c' = (lc_removeLocked key c)\<lparr>lc_misses := lc_misses (lc_removeLocked key c) + 1\<rparr>"
        by (auto simp: lc_Get_def Let_def)
      with True Some inv mo show ?thesis
        by (simp add: upd lc_inv_removeLocked lc_abs_removeLocked [OF wf] nl)
    next
      case False
      define d where "d = c\<lparr>lc_lru := it # filter (\<lambda>y. it_key y \<noteq> key) (lc_lru c)\<rparr>"
      have c': "r = Some (it_entry it)" "c' = d\<lparr>lc_hits := lc_hits c + 1\<rparr>"
        using get Some False by (auto simp: lc_Get_def Let_def elem_to_front_key [OF wf Some] d_def)
      have it: "it \<in> set (lc_lru c)" "it_key it = key" using lc_wf_entry [OF wf Some] by auto
      obtain us vs where lru: "lc_lru c = us @ it # vs" using it(1) by (meson split_list)
      have "\<forall>y \<in> set us \<union> set vs. it_key y \<noteq> key"
        using wf it(2) by (auto simp: lc_wf_def lru image_iff)
      then have lru_d: "lc_lru d = it # us @ vs" by (simp add: d_def lru it(2))
      have "lc_inv d"
        using inv by (auto simp: lc_inv_def lc_wf_def lru_d lru) (auto simp: d_def lru)
      with c' False Some mo show ?thesis
        using nl it(2) by (auto simp: upd lc_abs_def d_def lru_without_map)
    qed
  qed
qed


lemma lc_cleanup_sim:
  assumes inv: "lc_inv c" and ord: "map_order (lc_entries c) ks"
  shows "lc_inv (lc_cleanup ks now c) \<and>
    lru_step (lc_abs c) (CCleanup now) = (None, lc_abs (lc_cleanup ks now c))"
proof -
  let ?go = "\<lambda>c key. case lc_entries c key of None \<Rightarrow> c
     | Some item \<Rightarrow> if now > ce_ExpiresAt (it_entry item) then lc_removeLocked key c else c"
  have go: "lc_inv (foldl ?go c ks) \<and> lc_maxSize (foldl ?go c ks) = lc_maxSize c \<and>
    lc_lru (foldl ?go c ks) = filter (\<lambda>it. \<not> (it_key it \<in> set ks \<and> now > ce_ExpiresAt (it_entry it))) (lc_lru c)" for ks
  proof (induction ks rule: rev_induct)
    case (snoc k ks)
    define d where "d = foldl ?go c ks"
    note IH = snoc [folded d_def]
    then have wf: "lc_wf d" by (simp add: lc_inv_wf)
    have lru: "set (lc_lru d) \<subseteq> set (lc_lru c)" using IH by auto
    show ?case
    proof (cases "lc_entries d k")
      case None
      have "\<forall>it \<in> set (lc_lru d). it_key it \<noteq> k" using lc_wf_None [OF wf None] by simp
      then have "lc_lru d = filter (\<lambda>it. \<not> (it_key it = k \<and> now > ce_ExpiresAt (it_entry it))) (lc_lru d)"
        by (intro filter_True [symmetric]) auto
      also have "\<dots> = filter (\<lambda>it. \<not> (it_key it \<in> set (ks @ [k]) \<and> now > ce_ExpiresAt (it_entry it))) (lc_lru c)"
        using IH by (auto intro!: filter_cong)
      finally show ?thesis using IH None by (simp add: d_def [symmetric])
    next
      case (Some it)
      have it: "it \<in> set (lc_lru d)" "it_key it = k" using lc_wf_entry [OF wf Some] by auto
      have same: "y = it" if "y \<in> set (lc_lru d)" "it_key y = k" for y
        using lc_wf_inj [OF wf that(1) it(1)] that it by auto
      have "lc_lru (?go d k) = filter (\<lambda>y. \<not> (it_key y = k \<and> now > ce_ExpiresAt (it_entry y))) (lc_lru d)"
        using Some same by (auto simp: lc_removeLocked_eq [OF wf] intro!: filter_cong filter_True [symmetric])
      moreover have "lc_inv (?go d k)" using IH Some by (simp add: lc_inv_removeLocked)
      moreover have "lc_maxSize (?go d k) = lc_maxSize d" using Some by (simp add: lc_removeLocked_eq [OF wf])
      ultimately show ?thesis using IH
        by (simp add: d_def [symmetric]) (auto intro!: filter_cong)
    qed
  qed (simp add: inv)
  have "filter (\<lambda>it. \<not> (it_key it \<in> set ks \<and> now > ce_ExpiresAt (it_entry it))) (lc_lru c) =
    filter (\<lambda>it. \<not> now > ce_ExpiresAt (it_entry it)) (lc_lru c)"
    using lc_wf_item [OF lc_inv_wf [OF inv]] map_order_set [OF ord] by (intro filter_cong) auto
  with go [of ks] show ?thesis
    by (simp add: lc_cleanup_def lc_abs_def filter_map comp_def)
qed

lemma lc_sim: "lc_inv c \<Longrightarrow> lc_step c call r c' \<Longrightarrow> lc_inv c' \<and> lru_step (lc_abs c) call = (r, lc_abs c')"
proof (erule lc_stepE)
  fix key now assume "lc_inv c" "call = CGet key now" "lc_Get key now c = (r, c')"
  then show ?thesis using lc_Get_sim by simp
next
  fix key e assume "lc_inv c" "call = CSet key e" "r = None" "lc_Set key e c = Some c'"
  then show ?thesis using lc_Set_sim [of c key e] by auto
next
  fix key assume a: "lc_inv c" "call = CDelete key" "r = None" "c' = lc_Delete key c"
  obtain n l where "lc_abs c = (n, l)" by (cases "lc_abs c")
  with a show ?thesis
    by (simp add: lc_Delete_def lc_inv_removeLocked lc_abs_removeLocked lc_inv_wf)
next
  fix ks now assume "lc_inv c" "call = CCleanup now" "r = None" "c' = lc_cleanup ks now c" "map_order (lc_entries c) ks"
  then show ?thesis using lc_cleanup_sim by simp
qed

interpretation lc: simulation lc_step lc_inv lc_abs lru_step
  by unfold_locales (simp_all add: lc_sim)

lemma lc_inv_new: "lc_inv (NewCache n ttl)"
  by (simp add: lc_inv_def lc_wf_def NewCache_def cacheDefaultCapacity_def)

lemma lc_Set_Get:
  assumes inv: "lc_inv c" and len: "length (ce_Body e) \<le> cacheMaxBodyBytes"
  shows "\<exists>c'. lc_Set key e c = Some c' \<and> lc_inv c' \<and>
    (\<forall>now. now \<le> ce_ExpiresAt e \<longrightarrow> fst (lc_Get key now c') = Some e)"
proof -
  from lc_Set_sim [OF inv] obtain c' where c': "lc_Set key e c = Some c'" "lc_inv c'"
    "lru_step (lc_abs c) (CSet key e) = (None, lc_abs c')" by blast
  obtain m l where "lc_abs c = (m, l)" by (cases "lc_abs c")
  with c'(3) len have abs': "lc_abs c' = (m, (key, e) # take (m - 1) (lru_without key l))" by simp
  have "fst (lc_Get key now c') = Some e" if "now \<le> ce_ExpiresAt e" for now
  proof -
    obtain r c'' where get: "lc_Get key now c' = (r, c'')" by (cases "lc_Get key now c'")
    with lc_Get_sim [OF c'(2) get] that abs' show ?thesis by simp
  qed
  with c' show ?thesis by blast
qed

section \<open>Properties of the cache\<close>

text \<open>
  C3: Refinement. In every run of lookups, stores, deletions and cleanups (in any iteration order) from
  an empty cache, the map and the linked list together return exactly what a bounded list in order of use
  returns, and end in the state it ends in: a lookup finds the entry stored last for its key unless it
  expired, was deleted or was pushed out by more recently used keys.
\<close>

theorem cache_refines_lru:
  assumes "runs lc_step (NewCache n ttl) tr c"
  shows "spec_run lru_step (lc_abs (NewCache n ttl)) (map fst tr) = (map snd tr, lc_abs c)"
  using assms lc_inv_new by (rule lc.runs_refine)

definition ex_entry :: "string \<Rightarrow> time \<Rightarrow> cache_entry" where
  "ex_entry b expiry = \<lparr>ce_StatusCode = 200, ce_Headers = Map.empty, ce_Body = b, ce_CreatedAt = 0,
     ce_ExpiresAt = expiry, ce_ETag = ''''\<rparr>"

text \<open>
  C36: Storing always returns. The loop that makes room ends in every reachable state, the new entry is
  found by the next lookup, and the cache holds at most its capacity.
\<close>

theorem cache_set_returns:
  assumes "runs lc_step (NewCache n ttl) tr c" "length (ce_Body e) \<le> cacheMaxBodyBytes" "now \<le> ce_ExpiresAt e"
  shows "\<exists>c'. lc_Set key e c = Some c' \<and> fst (lc_Get key now c') = Some e \<and>
    int (length (lc_lru c')) \<le> lc_maxSize c'"
  using lc_Set_Get [OF lc.runs_keep [OF assms(1) lc_inv_new] assms(2)] assms(3)
  by (auto simp: lc_inv_def)


text \<open>A run that fills a cache of two entries, uses the older one and pushes out the other.\<close>

lemma ex_lc_run:
  "\<exists>c. runs lc_step (NewCache 2 60)
     [(CSet ''a'' (ex_entry ''x'' 100), None), (CSet ''b'' (ex_entry ''y'' 100), None),
      (CGet ''a'' 5, Some (ex_entry ''x'' 100)), (CSet ''c'' (ex_entry ''z'' 50), None)] c"
proof -
  have a0: "lc_abs (NewCache 2 60) = (2, [])" by (simp add: lc_abs_def NewCache_def)
  note ev = lru_without_def ex_entry_def cacheMaxBodyBytes_def
  obtain c1 where s1: "lc_Set ''a'' (ex_entry ''x'' 100) (NewCache 2 60) = Some c1" "lc_inv c1"
    "lru_step (2, []) (CSet ''a'' (ex_entry ''x'' 100)) = (None, lc_abs c1)"
    using lc_Set_sim [OF lc_inv_new] unfolding a0 [symmetric] by blast
  then have a1: "lc_abs c1 = (2, [(''a'', ex_entry ''x'' 100)])" by (simp add: ev)
  obtain c2 where s2: "lc_Set ''b'' (ex_entry ''y'' 100) c1 = Some c2" "lc_inv c2"
    "lru_step (lc_abs c1) (CSet ''b'' (ex_entry ''y'' 100)) = (None, lc_abs c2)"
    using lc_Set_sim [OF s1(2)] by blast
  then have a2: "lc_abs c2 = (2, [(''b'', ex_entry ''y'' 100), (''a'', ex_entry ''x'' 100)])"
    by (simp add: a1 ev)
  obtain r c3 where g3: "lc_Get ''a'' 5 c2 = (r, c3)" by (cases "lc_Get ''a'' 5 c2")
  have s3: "lc_Get ''a'' 5 c2 = (Some (ex_entry ''x'' 100), c3)" "lc_inv c3"
    using lc_Get_sim [OF s2(2) g3] g3 by (simp_all add: a2 ev)
  obtain c4 where s4: "lc_Set ''c'' (ex_entry ''z'' 50) c3 = Some c4"
    using lc_Set_sim [OF s3(2)] by blast
  show ?thesis
    by (rule exI, rule runs_Cons, rule step_Set, rule s1(1), rule runs_Cons, rule step_Set, rule s2(1),
      rule runs_Cons, rule step_Get, rule s3(1), rule runs_Cons, rule step_Set, rule s4, rule runs_Nil)
qed

theorem cache_refines_lru_witness:
  "\<exists>c::lcache. spec_run lru_step (lc_abs (NewCache 2 60))
     [CSet ''a'' (ex_entry ''x'' 100), CSet ''b'' (ex_entry ''y'' 100), CGet ''a'' 5, CSet ''c'' (ex_entry ''z'' 50)]
     = ([None, None, Some (ex_entry ''x'' 100), None], lc_abs c) \<and>
     map fst (snd (lc_abs c)) = [''c'', ''a'']"
proof -
  obtain c where c: "runs lc_step (NewCache 2 60)
     [(CSet ''a'' (ex_entry ''x'' 100), None), (CSet ''b'' (ex_entry ''y'' 100), None),
      (CGet ''a'' 5, Some (ex_entry ''x'' 100)), (CSet ''c'' (ex_entry ''z'' 50), None)] c"
    using ex_lc_run by blast
  from cache_refines_lru [OF c]
  have r: "spec_run lru_step (lc_abs (NewCache 2 60))
     [CSet ''a'' (ex_entry ''x'' 100), CSet ''b'' (ex_entry ''y'' 100), CGet ''a'' 5, CSet ''c'' (ex_entry ''z'' 50)]
     = ([None, None, Some (ex_entry ''x'' 100), None], lc_abs c)" by simp
  have "lc_abs c = (2, [(''c'', ex_entry ''z'' 50), (''a'', ex_entry ''x'' 100)])"
    using r by (simp add: spec_run_def lc_abs_def NewCache_def lru_without_def ex_entry_def cacheMaxBodyBytes_def)
  then have keys: "map fst (snd (lc_abs c)) = [''c'', ''a'']" by simp
  show ?thesis by (rule exI, rule conjI, rule r, rule keys)
qed

theorem cache_set_returns_witness:
  "\<exists>c c'. lc_Set ''d'' (ex_entry ''w'' 9) c = Some c' \<and> fst (lc_Get ''d'' 7 c') = Some (ex_entry ''w'' 9) \<and>
    int (length (lc_lru c')) \<le> lc_maxSize c'"
proof -
  from ex_lc_run obtain tr c where "runs lc_step (NewCache 2 60) tr c" by blast
  from cache_set_returns [OF this, of "ex_entry ''w'' 9" 7 "''d''"] show ?thesis
    by (auto simp: ex_entry_def cacheMaxBodyBytes_def)
qed


section \<open>Cache keys\<close>

text \<open>The bytes that are hashed.\<close>

definition key_params :: "(string \<times> string list) list \<Rightarrow> string" where
  "key_params params = concat (map (\<lambda>k. k @ ''='' @
     join_with '','' (case map_of params k of Some vs \<Rightarrow> vs | None \<Rightarrow> []) @ [CHR 0x00]) (sort (map fst params)))"

definition key_input :: "request \<Rightarrow> string" where
  "key_input r =
     rq_Method r @ [CHR 0x00] @ rq_Host r @ [CHR 0x00] @ rq_Path r @ [CHR 0x00] @
     (if length (rq_Query r) > 0 then key_params (rq_Query r) else []) @
     (let vary = hdr_get (rq_Header r) ''Vary''
      in if vary = '''' then []
         else concat (map (\<lambda>field.
           if to_lower (trim_space field) = to_lower ''Accept-Encoding''
           then hdr_get (rq_Header r) ''Accept-Encoding'' @ [CHR 0x00] else []) (split_on (CHR '','') vary)))"

definition CacheKeyFromRequest :: "(string \<Rightarrow> nat list) \<Rightarrow> request \<Rightarrow> string" where
  "CacheKeyFromRequest sha r = hex_encode (take 16 (sha (key_input r)))"

text \<open>The order in which the query parameters are iterated over does not matter for the cache key.\<close>

lemma key_input_order:
  assumes "distinct (map fst ps)" "distinct (map fst qs)" "set ps = set qs"
  shows "key_input (r\<lparr>rq_Query := ps\<rparr>) = key_input (r\<lparr>rq_Query := qs\<rparr>)"
proof -
  have m: "mset ps = mset qs"
    using assms by (simp add: set_eq_iff_mset_eq_distinct [symmetric] distinct_map)
  have "sort (map fst ps) = sort (map fst qs)"
    by (rule properties_for_sort) (simp_all add: m)
  moreover have "map_of ps = map_of qs" using assms by (simp add: map_of_inject_set)
  moreover have "length ps = length qs" using m by (rule mset_eq_length)
  ultimately show ?thesis by (simp add: key_input_def key_params_def Let_def cong: if_cong)
qed

section \<open>Cache-Control\<close>

record cache_control =
  cc_Public :: bool
  cc_Private :: bool
  cc_NoCache :: bool
  cc_NoStore :: bool
  cc_Immutable :: bool
  cc_MaxAge :: duration
  cc_SMaxAge :: duration
  cc_MustRevalidate :: bool
  cc_ProxyRevalidate :: bool

definition no_cache_control :: cache_control where
  "no_cache_control = \<lparr>cc_Public = False, cc_Private = False, cc_NoCache = False, cc_NoStore = False,
     cc_Immutable = False, cc_MaxAge = 0, cc_SMaxAge = 0, cc_MustRevalidate = False, cc_ProxyRevalidate = False\<rparr>"

definition cc_seconds :: "string \<Rightarrow> string \<Rightarrow> duration option" where
  "cc_seconds pre d = (case atoi (trim_prefix d pre) of
     Some s \<Rightarrow> if s \<ge> 0 then Some (wrap64 (s * second)) else None
   | None \<Rightarrow> None)"

definition cc_directive :: "cache_control \<Rightarrow> string \<Rightarrow> cache_control" where
  "cc_directive cc directive =
     (let d = trim_space (to_lower directive)
      in if d = ''public'' then cc\<lparr>cc_Public := True\<rparr>
         else if d = ''private'' then cc\<lparr>cc_Private := True\<rparr>
         else if d = ''no-cache'' then cc\<lparr>cc_NoCache := True\<rparr>
         else if d = ''no-store'' then cc\<lparr>cc_NoStore := True\<rparr>
         else if d = ''immutable'' then cc\<lparr>cc_Immutable := True\<rparr>
         else if d = ''must-revalidate'' then cc\<lparr>cc_MustRevalidate := True\<rparr>
         else if d = ''proxy-revalidate'' then cc\<lparr>cc_ProxyRevalidate := True\<rparr>
         else if has_prefix d ''max-age='' then
           (case cc_seconds ''max-age='' d of Some s \<Rightarrow> cc\<lparr>cc_MaxAge := s\<rparr> | None \<Rightarrow> cc)
         else if has_prefix d ''s-maxage='' then
           (case cc_seconds ''s-maxage='' d of Some s \<Rightarrow> cc\<lparr>cc_SMaxAge := s\<rparr> | None \<Rightarrow> cc)
         else cc)"

definition ParseCacheControl :: "string \<Rightarrow> cache_control" where
  "ParseCacheControl header =
     (if header = '''' then no_cache_control
      else foldl cc_directive no_cache_control (split_on (CHR '','') header))"

definition isCacheableMethod :: "string \<Rightarrow> bool" where
  "isCacheableMethod method \<longleftrightarrow> method = ''GET'' \<or> method = ''HEAD''"

definition year :: duration where
  "year = 365 * 24 * 60 * minute"

definition responseTTL :: "cache_control \<Rightarrow> cache_control \<Rightarrow> duration \<Rightarrow> duration \<times> bool" where
  "responseTTL respCC reqCC defaultTTL =
     (if cc_NoStore respCC \<or> cc_Private respCC then (0, False)
      else if cc_SMaxAge respCC > 0 then (cc_SMaxAge respCC, True)
      else if cc_MaxAge respCC > 0 then (cc_MaxAge respCC, True)
      else if cc_Immutable respCC then (year, True)
      else if cc_NoCache respCC then (0, False)
      else if cc_NoCache reqCC then (0, False)
      else (defaultTTL, True))"

definition cacheableResponse :: "int \<Rightarrow> bool" where
  "cacheableResponse status \<longleftrightarrow> status \<in> {200, 204, 301, 302, 304}"

definition isCacheBypassPath :: "string \<Rightarrow> bool" where
  "isCacheBypassPath path \<longleftrightarrow> has_prefix path ''/proxy/'' \<or> has_prefix path ''/ws/'' \<or>
     has_prefix path ''/connect/'' \<or> has_prefix path ''/agent/'' \<or> has_prefix path ''/signal/''"

section \<open>The caching handler\<close>

text \<open>The writer that the wrapped handler gets: it keeps a copy of what it passes on.\<close>

record crw =
  crw_w :: writer
  crw_statusCode :: int
  crw_header :: header
  crw_body :: string
  crw_captured :: bool

definition crw_WriteHeader :: "int \<Rightarrow> crw \<Rightarrow> crw" where
  "crw_WriteHeader code x =
     (if crw_captured x then x
      else x\<lparr>crw_captured := True, crw_statusCode := code, crw_header := w_Header (crw_w x),
             crw_w := w_WriteHeader code (crw_w x)\<rparr>)"

definition crw_Write :: "string \<Rightarrow> crw \<Rightarrow> crw" where
  "crw_Write b x =
     (let x = (if crw_captured x then x else crw_WriteHeader 200 x);
          x = (if length (crw_body x) + length b \<le> cacheMaxBodyBytes
               then x\<lparr>crw_body := crw_body x @ b\<rparr> else x)
      in x\<lparr>crw_w := w_Write b (crw_w x)\<rparr>)"

fun plain_act :: "writer \<Rightarrow> w_action \<Rightarrow> writer" where
  "plain_act w (SetHeader k v) = w_edit (hdr_set k v) w"
| "plain_act w (AddHeader k v) = w_edit (hdr_add k v) w"
| "plain_act w (SendStatus code) = w_WriteHeader code w"
| "plain_act w (SendBody b) = w_Write b w"

fun crw_act :: "crw \<Rightarrow> w_action \<Rightarrow> crw" where
  "crw_act x (SendStatus code) = crw_WriteHeader code x"
| "crw_act x (SendBody b) = crw_Write b x"
| "crw_act x a = x\<lparr>crw_w := plain_act (crw_w x) a\<rparr>"

text \<open>
  \<open>nxt\<close> is the wrapped handler, \<open>t\<close> the time of the lookup, \<open>u\<close> the time at which the entry is made. The
  lock of the cache is free while the wrapped handler runs: \<open>other\<close> is what other requests do to the cache
  meanwhile. The result is \<open>None\<close> when storing the entry does not return.
\<close>

definition CacheHandler ::
  "(request \<Rightarrow> w_action list) \<Rightarrow> (lcache \<Rightarrow> lcache) \<Rightarrow> (string \<Rightarrow> nat list) \<Rightarrow> time \<Rightarrow> time \<Rightarrow> request \<Rightarrow> lcache \<Rightarrow> writer \<Rightarrow>
   (writer \<times> lcache) option" where
  "CacheHandler nxt other sha t u r c w =
     (if \<not> isCacheableMethod (rq_Method r) then Some (foldl plain_act w (nxt r), other c)
      else let reqCC = ParseCacheControl (hdr_get (rq_Header r) ''Cache-Control'')
      in if cc_NoStore reqCC then Some (foldl plain_act w (nxt r), other c)
      else let key = CacheKeyFromRequest sha r;
               (hit, c) = (if cc_NoCache reqCC then (None, c) else lc_Get key t c)
      in case hit of
        Some entry \<Rightarrow>
          (let w = w_edit (hdr_append_all (ce_Headers entry)) w;
               w = w_edit (hdr_set ''X-Cache-Key'' key) (w_edit (hdr_set ''X-Cache'' ''HIT'') w)
           in Some (w_Write (ce_Body entry) (w_WriteHeader (ce_StatusCode entry) w), c))
      | None \<Rightarrow>
          (let x = foldl crw_act \<lparr>crw_w = w, crw_statusCode = 200, crw_header = Map.empty, crw_body = [],
                     crw_captured = False\<rparr> (nxt r);
               c = other c;
               respCC = ParseCacheControl (hdr_get (w_Header (crw_w x)) ''Cache-Control'');
               (ttl, ok) = responseTTL respCC reqCC (lc_defaultTTL c);
               stored =
                 (if crw_captured x then
                    (if ok \<and> cacheableResponse (crw_statusCode x) then
                       lc_Set key \<lparr>ce_StatusCode = crw_statusCode x, ce_Headers = crw_header x,
                         ce_Body = crw_body x, ce_CreatedAt = u, ce_ExpiresAt = u + ttl,
                         ce_ETag = hdr_get (crw_header x) ''ETag''\<rparr> c
                     else Some c)
                  else if cc_Immutable respCC then
                    lc_Set key \<lparr>ce_StatusCode = 200, ce_Headers = w_Header (crw_w x), ce_Body = [],
                      ce_CreatedAt = u, ce_ExpiresAt = u + year, ce_ETag = ''''\<rparr> c
                  else Some c)
           in case stored of None \<Rightarrow> None
              | Some c \<Rightarrow> Some (w_edit (hdr_set ''X-Cache'' ''MISS'') (crw_w x), c)))"

text \<open>What is passed on is what a plain writer sends; the copy agrees with it while it is small.\<close>

definition crw_ok :: "crw \<Rightarrow> bool" where
  "crw_ok x \<longleftrightarrow> (crw_captured x \<longleftrightarrow> w_Sent (crw_w x) \<noteq> None) \<and>
     (crw_captured x \<longrightarrow> w_Sent (crw_w x) = Some (crw_statusCode x, crw_header x)) \<and>
     (\<not> crw_captured x \<longrightarrow> w_Body (crw_w x) = []) \<and>
     (length (w_Body (crw_w x)) \<le> cacheMaxBodyBytes \<longrightarrow> crw_body x = w_Body (crw_w x))"

lemma crw_act_ok: "crw_ok x \<Longrightarrow> crw_ok (crw_act x a) \<and> crw_w (crw_act x a) = plain_act (crw_w x) a"
  by (cases a; cases "crw_captured x")
    (auto simp: crw_ok_def crw_WriteHeader_def crw_Write_def writer_defs Let_def)

lemma crw_run_ok:
  "crw_ok x \<Longrightarrow> crw_ok (foldl crw_act x as) \<and> crw_w (foldl crw_act x as) = foldl plain_act (crw_w x) as"
  by (induction as arbitrary: x) (auto simp: crw_act_ok)

lemma crw_ok_new:
  "crw_ok \<lparr>crw_w = new_writer, crw_statusCode = 200, crw_header = Map.empty, crw_body = [], crw_captured = False\<rparr>"
  by (simp add: crw_ok_def new_writer_def)


section \<open>Properties of the handler\<close>

lemma canonical_names [simp]:
  "canonical_key ''X-Cache'' = ''X-Cache''" "canonical_key ''X-Cache-Key'' = ''X-Cache-Key''"
  "canonical_key ''Cache-Control'' = ''Cache-Control''"
  by code_simp+

lemma hdr_get_set [simp]: "hdr_get (hdr_set k v h) k' = (if canonical_key k' = canonical_key k then v else hdr_get h k')"
  by (simp add: hdr_get_def hdr_set_def)

lemma hdr_values_empty [simp]: "hdr_values Map.empty k = []"
  by (simp add: hdr_values_def)

lemma hdr_values_append_all [simp]:
  "hdr_values (hdr_append_all src dst) k = hdr_values dst k @ hdr_values src k"
  by (simp add: hdr_append_all_def hdr_values_def split: option.split)

lemma hdr_values_set [simp]:
  "hdr_values (hdr_set k v h) k' = (if k' = canonical_key k then [v] else hdr_values h k')"
  by (simp add: hdr_set_def)

text \<open>What a lookup that hits sends, and what a miss stores.\<close>

definition hit_writer :: "string \<Rightarrow> cache_entry \<Rightarrow> writer" where
  "hit_writer key entry =
     (let h = hdr_set ''X-Cache-Key'' key (hdr_set ''X-Cache'' ''HIT'' (hdr_append_all (ce_Headers entry) Map.empty))
      in \<lparr>w_Header = h, w_Sent = Some (ce_StatusCode entry, h), w_Body = ce_Body entry\<rparr>)"

lemma handler_hit:
  assumes "isCacheableMethod (rq_Method r)" "\<not> cc_NoStore (ParseCacheControl (hdr_get (rq_Header r) ''Cache-Control''))"
    "\<not> cc_NoCache (ParseCacheControl (hdr_get (rq_Header r) ''Cache-Control''))"
    and "fst (lc_Get (CacheKeyFromRequest sha r) t c) = Some entry"
  shows "\<exists>c'. CacheHandler nxt other sha t u r c new_writer = Some (hit_writer (CacheKeyFromRequest sha r) entry, c')"
  using assms by (auto simp: CacheHandler_def Let_def split_beta hit_writer_def writer_defs)

text \<open>Whatever other requests do to the cache is a run of its operations.\<close>

definition cache_activity :: "(lcache \<Rightarrow> lcache) \<Rightarrow> bool" where
  "cache_activity other \<longleftrightarrow> (\<forall>d. lc_inv d \<longrightarrow> (\<exists>tr. runs lc_step d tr (other d)))"

lemma cache_activity_id: "cache_activity (\<lambda>c. c)"
  unfolding cache_activity_def by (blast intro: runs_Nil)

lemma cache_keeps_settings:
  "lc_step c call r c' \<Longrightarrow> lc_inv c \<Longrightarrow> lc_maxSize c' = lc_maxSize c \<and> lc_defaultTTL c' = lc_defaultTTL c"
proof -
  have removed: "lc_maxSize (lc_removeLocked k c) = lc_maxSize c \<and> lc_defaultTTL (lc_removeLocked k c) = lc_defaultTTL c" for k c
    by (simp add: lc_removeLocked_def split: option.split)
  have cleaned: "lc_maxSize (lc_cleanup ks now c) = lc_maxSize c \<and> lc_defaultTTL (lc_cleanup ks now c) = lc_defaultTTL c" for ks now c
    unfolding lc_cleanup_def by (induction ks rule: rev_induct) (simp_all add: removed split: option.split)
  assume step: "lc_step c call r c'" and inv: "lc_inv c"
  have set: "lc_maxSize c' = lc_maxSize c \<and> lc_defaultTTL c' = lc_defaultTTL c" if "lc_Set key e c = Some c'" for key e
  proof -
    define d where "d = (case lc_entries c key of None \<Rightarrow> c
      | Some existing \<Rightarrow> c\<lparr>lc_lru := elem_remove (it_elem existing) (lc_lru c), lc_entries := (lc_entries c)(key := None)\<rparr>)"
    have d: "d = lc_removeLocked key c" by (simp add: d_def lc_removeLocked_def)
    then have "lc_wf d" using inv by (simp add: lc_inv_wf lc_wf_removeLocked)
    then obtain es where "lc_shrink d = Some (d\<lparr>lc_lru := take (nat (lc_maxSize d) - 1) (lc_lru d), lc_entries := es\<rparr>)"
      using lc_shrink_take by blast
    with that removed [of key c] d show ?thesis
      unfolding lc_Set_def d_def [symmetric] by (auto simp: Let_def split: if_splits)
  qed
  from step show ?thesis
    by (rule lc_stepE) (auto simp: lc_Get_def Let_def removed lc_Delete_def cleaned set split: option.splits if_splits)
qed

lemma cache_settings_run:
  "runs lc_step c tr c' \<Longrightarrow> lc_inv c \<Longrightarrow> lc_maxSize c' = lc_maxSize c \<and> lc_defaultTTL c' = lc_defaultTTL c"
proof (induction rule: runs.induct)
  case (runs_snoc s tr s' call r s'')
  then show ?case using cache_keeps_settings [OF runs_snoc(2) lc.runs_keep [OF runs_snoc(1)]] by simp
qed simp

lemma cache_activity_D:
  assumes "cache_activity other" "lc_inv d"
  shows "lc_inv (other d)" "lc_maxSize (other d) = lc_maxSize d" "lc_defaultTTL (other d) = lc_defaultTTL d"
proof -
  obtain tr where tr: "runs lc_step d tr (other d)" using assms unfolding cache_activity_def by blast
  show "lc_inv (other d)" using tr assms(2) by (rule lc.runs_keep)
  show "lc_maxSize (other d) = lc_maxSize d" "lc_defaultTTL (other d) = lc_defaultTTL d"
    using cache_settings_run [OF tr assms(2)] by simp_all
qed

text \<open>The entry of a miss is stored at the front of the list.\<close>

lemma handler_miss:
  assumes m: "isCacheableMethod (rq_Method r)" and reqCC: "reqCC = ParseCacheControl (hdr_get (rq_Header r) ''Cache-Control'')"
    and ns: "\<not> cc_NoStore reqCC" and inv: "lc_inv c" and other: "cache_activity other"
    and miss: "cc_NoCache reqCC \<or> fst (lc_Get (CacheKeyFromRequest sha r) t c) = None"
    and w: "w = foldl plain_act new_writer (nxt r)" and sent: "w_Sent w = Some (st, h)"
    and body: "length b \<le> cacheMaxBodyBytes"
      "b = crw_body (foldl crw_act \<lparr>crw_w = new_writer, crw_statusCode = 200, crw_header = Map.empty,
         crw_body = [], crw_captured = False\<rparr> (nxt r))"
    and st: "cacheableResponse st"
    and ttl: "responseTTL (ParseCacheControl (hdr_get (w_Header w) ''Cache-Control'')) reqCC (lc_defaultTTL c) = (ttl, True)"
    and e: "e = \<lparr>ce_StatusCode = st, ce_Headers = h, ce_Body = b, ce_CreatedAt = u, ce_ExpiresAt = u + ttl,
        ce_ETag = hdr_get h ''ETag''\<rparr>"
  shows "\<exists>c' l. CacheHandler nxt other sha t u r c new_writer = Some (w_edit (hdr_set ''X-Cache'' ''MISS'') w, c') \<and>
    lc_inv c' \<and> lc_maxSize c' = lc_maxSize c \<and>
    lc_abs c' = (nat (lc_maxSize c), (CacheKeyFromRequest sha r, e) # l) \<and>
    (\<forall>now \<le> u + ttl. fst (lc_Get (CacheKeyFromRequest sha r) now c') = Some e)"
proof -
  let ?key = "CacheKeyFromRequest sha r"
  define x where "x = foldl crw_act \<lparr>crw_w = new_writer, crw_statusCode = 200, crw_header = Map.empty,
     crw_body = [], crw_captured = False\<rparr> (nxt r)"
  have x: "crw_ok x" "crw_w x = w"
    using crw_run_ok [OF crw_ok_new, of "nxt r"] by (simp_all add: x_def w)
  then have cap: "crw_captured x" "crw_statusCode x = st" "crw_header x = h" "crw_body x = b"
    using sent body(2) by (auto simp: crw_ok_def x_def)
  define d where "d = (if cc_NoCache reqCC then c else snd (lc_Get ?key t c))"
  have d: "(if cc_NoCache reqCC then (None, c) else lc_Get ?key t c) = (None, d)"
    using miss by (cases "lc_Get ?key t c") (auto simp: d_def)
  have d2: "lc_inv d" "lc_maxSize d = lc_maxSize c" "lc_defaultTTL d = lc_defaultTTL c"
    using inv lc_Get_sim [OF inv prod.collapse [symmetric], of ?key t]
      cache_keeps_settings [OF step_Get [OF prod.collapse [symmetric]] inv, of ?key t]
    by (simp_all add: d_def)
  note d3 = cache_activity_D [OF other d2(1)]
  from lc_Set_Get [OF d3(1), of e ?key] body(1) obtain c' where c': "lc_Set ?key e (other d) = Some c'" "lc_inv c'"
    "\<forall>now \<le> u + ttl. fst (lc_Get ?key now c') = Some e" by (auto simp: e)
  have size: "lc_maxSize c' = lc_maxSize c"
    using cache_keeps_settings [OF step_Set [OF c'(1)] d3(1)] d3(2) d2(2) by simp
  have "\<exists>l. lc_abs c' = (nat (lc_maxSize c), (?key, e) # l)"
    using lc_Set_sim [OF d3(1), of ?key e] c'(1) body(1) size by (cases "lc_abs (other d)") (auto simp: e lc_abs_def d3(2) d2(2))
  moreover have "CacheHandler nxt other sha t u r c new_writer = Some (w_edit (hdr_set ''X-Cache'' ''MISS'') w, c')"
    using m ns by (simp add: CacheHandler_def reqCC [symmetric] d x_def [symmetric] x(2) cap d2 d3 ttl st c'(1) e [symmetric])
  ultimately show ?thesis using c' size by blast
qed

section \<open>How long an entry stays\<close>













definition ex_get :: request where
  "ex_get = \<lparr>rq_Method = ''GET'', rq_Host = ''h'', rq_Path = ''/'', rq_URL = ''/'', rq_Query = [],
     rq_Header = Map.empty, rq_RemoteAddr = ''10.0.0.1:99''\<rparr>"

lemma ex_get_plain: "ParseCacheControl (hdr_get (rq_Header ex_get) ''Cache-Control'') = no_cache_control"
  "isCacheableMethod (rq_Method ex_get)"
  by (simp_all add: ex_get_def hdr_get_def ParseCacheControl_def isCacheableMethod_def)


text \<open>
  A large answer written in parts is cached without its end. When the handler writes a part that fits and
  one that exceeds the limit, the client gets both, but the entry holds the first alone, and every later
  request is answered with the shortened body and status 200 until it expires.
\<close>

theorem cache_truncates_large_answer:
  assumes "isCacheableMethod (rq_Method r)"
    and "ParseCacheControl (hdr_get (rq_Header r) ''Cache-Control'') = no_cache_control"
    and "length b1 \<le> cacheMaxBodyBytes" "length (b1 @ b2) > cacheMaxBodyBytes"
    and "t2 \<le> u + lc_defaultTTL (NewCache n ttl)"
  shows "\<exists>w1 c1 w2 c2 h2.
    CacheHandler (\<lambda>r. [SendBody b1, SendBody b2]) (\<lambda>c. c) sha t u r (NewCache n ttl) new_writer = Some (w1, c1) \<and>
    w_Body w1 = b1 @ b2 \<and>
    CacheHandler nxt2 (\<lambda>c. c) sha t2 u2 r c1 new_writer = Some (w2, c2) \<and> w_Sent w2 = Some (200, h2) \<and> w_Body w2 = b1"
proof -
  let ?nxt = "\<lambda>r::request. [SendBody b1, SendBody b2]"
  have w: "w_Write b2 (w_Write b1 new_writer) = \<lparr>w_Header = Map.empty, w_Sent = Some (200, Map.empty), w_Body = b1 @ b2\<rparr>"
    by (simp add: writer_defs Let_def)
  have cc: "ParseCacheControl (hdr_get Map.empty ''Cache-Control'') = no_cache_control"
    by (simp add: hdr_get_def ParseCacheControl_def)
  have b: "b1 = crw_body (foldl crw_act \<lparr>crw_w = new_writer, crw_statusCode = 200, crw_header = Map.empty,
         crw_body = [], crw_captured = False\<rparr> (?nxt r))"
    using assms(3,4) by (simp add: crw_WriteHeader_def crw_Write_def writer_defs Let_def)
  have ttl: "responseTTL (ParseCacheControl (hdr_get Map.empty ''Cache-Control''))
     (ParseCacheControl (hdr_get (rq_Header r) ''Cache-Control'')) (lc_defaultTTL (NewCache n ttl))
     = (lc_defaultTTL (NewCache n ttl), True)"
    by (simp add: cc assms(2) responseTTL_def no_cache_control_def)
  have new: "fst (lc_Get k t (NewCache n ttl)) = None" for k t by (simp add: NewCache_def lc_Get_def)
  obtain c1 where c1: "CacheHandler ?nxt (\<lambda>c. c) sha t u r (NewCache n ttl) new_writer =
      Some (\<lparr>w_Header = hdr_set ''X-Cache'' ''MISS'' Map.empty, w_Sent = Some (200, Map.empty), w_Body = b1 @ b2\<rparr>, c1)"
    "\<exists>e. fst (lc_Get (CacheKeyFromRequest sha r) t2 c1) = Some e \<and> ce_Body e = b1 \<and> ce_StatusCode e = 200"
    using handler_miss [where r = r and nxt = ?nxt and st = 200 and h = Map.empty
        and ttl = "lc_defaultTTL (NewCache n ttl)" and t = t and u = u and sha = sha,
        OF assms(1) refl _ lc_inv_new cache_activity_id disjI2 [OF new] refl _ assms(3) b _ _ refl] ttl assms(5)
    by (auto simp: w assms(2) no_cache_control_def cacheableResponse_def w_edit_def)
  then obtain e where e: "fst (lc_Get (CacheKeyFromRequest sha r) t2 c1) = Some e" "ce_Body e = b1" "ce_StatusCode e = 200"
    by blast
  from handler_hit [OF assms(1) _ _ e(1), of nxt2 "\<lambda>c. c" u2] assms(2) obtain c2
    where "CacheHandler nxt2 (\<lambda>c. c) sha t2 u2 r c1 new_writer = Some (hit_writer (CacheKeyFromRequest sha r) e, c2)"
    by (auto simp: no_cache_control_def)
  with c1(1) e(2,3) show ?thesis by (auto simp: hit_writer_def Let_def)
qed

theorem cache_truncates_large_answer_witness:
  "\<exists>w1 c1 w2 c2 h2.
    CacheHandler (\<lambda>r. [SendBody (replicate 1048576 CHR ''x''), SendBody ''y'']) (\<lambda>c. c) bytes_of 1 2 ex_get (NewCache 2 60) new_writer = Some (w1, c1) \<and>
    w_Body w1 = replicate 1048576 CHR ''x'' @ ''y'' \<and>
    CacheHandler (\<lambda>r. []) (\<lambda>c. c) bytes_of 3 4 ex_get c1 new_writer = Some (w2, c2) \<and>
    w_Sent w2 = Some (200, h2) \<and> w_Body w2 = replicate 1048576 CHR ''x''"
  by (rule cache_truncates_large_answer)
    (simp_all only: ex_get_plain length_append length_replicate list.size cacheMaxBodyBytes_def NewCache_def, simp_all)

text \<open>
  Two values of one query parameter and one value with a comma in it share a cache key: the second
  request is answered with what was stored for the first.
\<close>

lemma cache_key_confuses_values:
  "CacheKeyFromRequest sha (r\<lparr>rq_Query := [(k, [x, y])]\<rparr>) =
   CacheKeyFromRequest sha (r\<lparr>rq_Query := [(k, [x @ '','' @ y])]\<rparr>)"
  by (simp add: CacheKeyFromRequest_def key_input_def key_params_def Let_def cong: if_cong)


end
