(* ===== verification/TunnelRoutes.thy ===== *)
theory TunnelRoutes
  imports GoHttp
begin

text \<open>
  apps/gateway/internal/tunnel/config.go (routes, their validation, and the readers of environment
  variables) and routes.go (the registry). The parser of URLs is an argument that returns the scheme
  and the host; \<open>net.SplitHostPort\<close> is written out.
\<close>

section \<open>Host and port\<close>

definition last_colon :: "string \<Rightarrow> nat option" where
  "last_colon s = (let r = takeWhile (\<lambda>c. c \<noteq> CHR '':'') (rev s)
                   in if length r = length s then None else Some (length s - 1 - length r))"

definition index_of :: "char \<Rightarrow> string \<Rightarrow> nat option" where
  "index_of x s = (let r = takeWhile (\<lambda>c. c \<noteq> x) s in if length r = length s then None else Some (length r))"

definition split_host_port :: "string \<Rightarrow> (string \<times> string) option" where
  "split_host_port s = (case last_colon s of
     None \<Rightarrow> None
   | Some i \<Rightarrow>
       let parts =
         (if s \<noteq> [] \<and> hd s = CHR ''['' then
            (case index_of (CHR '']'') s of
               None \<Rightarrow> None
             | Some e \<Rightarrow> if e + 1 = length s then None
                 else if e + 1 = i then Some (take (e - 1) (drop 1 s), 1, e + 1)
                 else None)
          else if CHR '':'' \<in> set (take i s) then None
          else Some (take i s, 0, 0))
       in case parts of
         None \<Rightarrow> None
       | Some (host, j, k) \<Rightarrow>
           if CHR ''['' \<in> set (drop j s) \<or> CHR '']'' \<in> set (drop k s) then None
           else Some (host, drop (i + 1) s))"

lemma takeWhile_neq_all: "x \<notin> set xs \<Longrightarrow> takeWhile (\<lambda>c. c \<noteq> x) xs = xs"
  by (rule takeWhile_eq_all_conv [THEN iffD2]) auto

lemma last_colon_plain: "CHR '':'' \<notin> set p \<Longrightarrow> last_colon (h @ CHR '':'' # p) = Some (length h)"
  by (simp add: last_colon_def takeWhile_append takeWhile_neq_all)

lemma split_host_port_plain:
  assumes "set h \<inter> {CHR '':'', CHR ''['', CHR '']''} = {}" "set p \<inter> {CHR '':'', CHR ''['', CHR '']''} = {}"
  shows "split_host_port (h @ '':'' @ p) = Some (h, p)"
proof -
  have "last_colon (h @ '':'' @ p) = Some (length h)" using assms by (simp add: last_colon_plain)
  moreover have "hd (h @ '':'' @ p) \<noteq> CHR ''[''" using assms by (cases h) auto
  ultimately show ?thesis using assms by (auto simp: split_host_port_def)
qed

section \<open>Routes\<close>

record cache_config =
  cg_TTLSeconds :: int
  cg_MaxSizeMB :: int
  cg_CacheControl :: string

record route_config =
  rt_ID :: string
  rt_Protocol :: string
  rt_Listen :: string
  rt_Target :: string
  rt_IdleTimeoutSeconds :: int
  rt_RequireAuth :: "bool option"
  rt_BrowsingMode :: string
  rt_Cache :: "cache_config option"
  rt_QoS :: "int option"

definition agentTarget :: string where "agentTarget = ''agent''"
definition defaultIdleSeconds :: int where "defaultIdleSeconds = 120"

datatype route_error = RouteIdRequired | TargetNotURL string | TargetNotHostPort string
  | UnsupportedProtocol string | ListenNotHostPort string | DuplicateRoute string

text \<open>
  \<open>url\<close> stands for \<open>url.Parse\<close>: the scheme and host of a target that parses. The accepted schemes and
  what they are rewritten to are the code's.
\<close>

definition parseProxyTarget :: "(string \<Rightarrow> (string \<times> string) option) \<Rightarrow> string \<Rightarrow> (string \<times> string) option" where
  "parseProxyTarget url target = (case url target of
     None \<Rightarrow> None
   | Some (scheme, host) \<Rightarrow>
       if scheme = '''' \<or> host = '''' then None
       else if scheme = ''http'' \<or> scheme = ''https'' then Some (scheme, host)
       else if scheme = ''ws'' then Some (''http'', host)
       else if scheme = ''wss'' then Some (''https'', host)
       else None)"

definition route_target_error :: "(string \<Rightarrow> (string \<times> string) option) \<Rightarrow> route_config \<Rightarrow> route_error option" where
  "route_target_error url r =
     (if rt_Protocol r \<in> {''http'', ''https'', ''websocket''} then
        (if parseProxyTarget url (rt_Target r) = None then Some (TargetNotURL (rt_ID r)) else None)
      else if rt_Protocol r \<in> {''tcp'', ''ssh''} then
        (if rt_Target r = agentTarget then None
         else if split_host_port (rt_Target r) = None then Some (TargetNotHostPort (rt_ID r)) else None)
      else if rt_Protocol r = ''udp'' then
        (if split_host_port (rt_Target r) = None then Some (TargetNotHostPort (rt_ID r)) else None)
      else Some (UnsupportedProtocol (rt_ID r)))"

text \<open>The protocols \<open>webrtc\<close> and \<open>p2p\<close> return before the listen address is looked at.\<close>

definition rt_Validate :: "(string \<Rightarrow> (string \<times> string) option) \<Rightarrow> route_config \<Rightarrow> route_error option" where
  "rt_Validate url r =
     (if trim_space (rt_ID r) = '''' then Some RouteIdRequired
      else if rt_Protocol r \<in> {''webrtc'', ''p2p''} then None
      else case route_target_error url r of
        Some e \<Rightarrow> Some e
      | None \<Rightarrow> if rt_Listen r \<noteq> '''' \<and> split_host_port (rt_Listen r) = None
                then Some (ListenNotHostPort (rt_ID r)) else None)"

definition rt_IdleTimeout :: "route_config \<Rightarrow> duration" where
  "rt_IdleTimeout r =
     (if rt_IdleTimeoutSeconds r \<le> 0 then defaultIdleSeconds * second
      else wrap64 (rt_IdleTimeoutSeconds r * second))"

definition rt_AuthRequired :: "string \<Rightarrow> route_config \<Rightarrow> bool" where
  "rt_AuthRequired globalToken r =
     (case rt_RequireAuth r of Some b \<Rightarrow> b | None \<Rightarrow> globalToken \<noteq> '''')"

definition rt_UsesAgentTunnel :: "route_config \<Rightarrow> bool" where
  "rt_UsesAgentTunnel r \<longleftrightarrow> (rt_Protocol r = ''tcp'' \<or> rt_Protocol r = ''ssh'') \<and> rt_Target r = agentTarget"

section \<open>Environment variables\<close>

definition valueOrDefault :: "string \<Rightarrow> string \<Rightarrow> string" where
  "valueOrDefault v fallback = (if trim_space v = '''' then fallback else v)"

definition intFromEnv :: "string \<Rightarrow> int \<Rightarrow> int" where
  "intFromEnv env fallback =
     (let raw = trim_space env
      in if raw = '''' then fallback
         else case atoi raw of None \<Rightarrow> fallback | Some n \<Rightarrow> if n \<le> 0 then fallback else n)"

definition secondsFromEnv :: "string \<Rightarrow> int \<Rightarrow> duration" where
  "secondsFromEnv env fallback =
     (let raw = trim_space env
      in if raw = '''' then fallback * second
         else case atoi raw of None \<Rightarrow> fallback * second
              | Some n \<Rightarrow> if n \<le> 0 then fallback * second else wrap64 (n * second))"

definition millisecondsFromEnv :: "string \<Rightarrow> int \<Rightarrow> duration" where
  "millisecondsFromEnv env fallback =
     (let raw = trim_space env
      in if raw = '''' then fallback * (second div 1000)
         else case atoi raw of None \<Rightarrow> fallback * (second div 1000)
              | Some n \<Rightarrow> wrap64 (n * (second div 1000)))"

lemma intFromEnv_pos: "0 < fallback \<Longrightarrow> 0 < intFromEnv env fallback"
  by (simp add: intFromEnv_def Let_def split: option.split)

section \<open>The registry\<close>

record proute =
  pr_config :: route_config
  pr_target :: "(string \<times> string) option"

record public_route =
  pub_ID :: string
  pub_Protocol :: string
  pub_Listen :: string
  pub_Target :: string

type_synonym registry = "string \<rightharpoonup> proute"

definition registry_add ::
  "(string \<Rightarrow> (string \<times> string) option) \<Rightarrow> route_config \<Rightarrow> registry \<Rightarrow> route_error + registry" where
  "registry_add url cfg reg = (case rt_Validate url cfg of
     Some e \<Rightarrow> Inl e
   | None \<Rightarrow>
       if reg (rt_ID cfg) \<noteq> None then Inl (DuplicateRoute (rt_ID cfg))
       else if rt_Protocol cfg \<in> {''http'', ''https'', ''websocket''} then
         (case parseProxyTarget url (rt_Target cfg) of
            None \<Rightarrow> Inl (TargetNotURL (rt_ID cfg))
          | Some t \<Rightarrow> Inr (reg(rt_ID cfg \<mapsto> \<lparr>pr_config = cfg, pr_target = Some t\<rparr>)))
       else Inr (reg(rt_ID cfg \<mapsto> \<lparr>pr_config = cfg, pr_target = None\<rparr>)))"

fun registry_fill ::
  "(string \<Rightarrow> (string \<times> string) option) \<Rightarrow> route_config list \<Rightarrow> registry \<Rightarrow> route_error + registry" where
  "registry_fill url [] reg = Inr reg"
| "registry_fill url (cfg # cfgs) reg = (case registry_add url cfg reg of
     Inl e \<Rightarrow> Inl e
   | Inr reg' \<Rightarrow> registry_fill url cfgs reg')"

definition NewRegistry ::
  "(string \<Rightarrow> (string \<times> string) option) \<Rightarrow> route_config list \<Rightarrow> route_error + registry" where
  "NewRegistry url configs = registry_fill url configs Map.empty"

definition reg_Get :: "string \<Rightarrow> registry \<Rightarrow> proute option" where
  "reg_Get rid reg = reg rid"

definition reg_All :: "string list \<Rightarrow> registry \<Rightarrow> proute list" where
  "reg_All ks reg = map_values reg ks"

definition reg_PublicRoutes :: "string list \<Rightarrow> registry \<Rightarrow> public_route list" where
  "reg_PublicRoutes ks reg = map (\<lambda>p. \<lparr>pub_ID = rt_ID (pr_config p), pub_Protocol = rt_Protocol (pr_config p),
     pub_Listen = rt_Listen (pr_config p), pub_Target = rt_Target (pr_config p)\<rparr>) (map_values reg ks)"

lemma registry_add_Inr:
  "registry_add url cfg reg = Inr reg' \<Longrightarrow>
     rt_Validate url cfg = None \<and> reg (rt_ID cfg) = None \<and>
     (\<exists>p. reg' = reg(rt_ID cfg \<mapsto> p) \<and> pr_config p = cfg \<and>
       (rt_Protocol cfg \<in> {''http'', ''https'', ''websocket''} \<longrightarrow> pr_target p = parseProxyTarget url (rt_Target cfg) \<and> pr_target p \<noteq> None))"
  by (auto simp: registry_add_def split: option.splits if_splits)

lemma registry_add_ok:
  "rt_Validate url cfg = None \<Longrightarrow> reg (rt_ID cfg) = None \<Longrightarrow> \<exists>reg'. registry_add url cfg reg = Inr reg'"
  by (auto simp: registry_add_def rt_Validate_def route_target_error_def split: option.splits if_splits)

lemma registry_fill_exact:
  "(\<exists>reg'. registry_fill url cfgs reg = Inr reg') \<longleftrightarrow>
     (\<forall>c \<in> set cfgs. rt_Validate url c = None) \<and> distinct (map rt_ID cfgs) \<and> (\<forall>c \<in> set cfgs. reg (rt_ID c) = None)"
proof (induction cfgs arbitrary: reg)
  case (Cons c cs)
  show ?case
  proof (cases "registry_add url c reg")
    case (Inl e)
    then show ?thesis using registry_add_ok [of url c reg] by auto
  next
    case (Inr reg')
    note i = registry_add_Inr [OF Inr]
    then obtain p where p: "reg' = reg(rt_ID c \<mapsto> p)" by blast
    have "(\<forall>x \<in> set cs. reg' (rt_ID x) = None) \<longleftrightarrow> rt_ID c \<notin> rt_ID ` set cs \<and> (\<forall>x \<in> set cs. reg (rt_ID x) = None)"
      unfolding p by (auto simp: image_iff)
    with Inr i Cons.IH [of reg'] show ?thesis by auto
  qed
qed simp

lemma registry_fill_Get:
  "registry_fill url cfgs reg = Inr reg' \<Longrightarrow>
     (\<forall>rid. (rid \<notin> rt_ID ` set cfgs \<longrightarrow> reg' rid = reg rid)) \<and>
     (\<forall>c \<in> set cfgs. \<exists>p. reg' (rt_ID c) = Some p \<and> pr_config p = c \<and>
       (rt_Protocol c \<in> {''http'', ''https'', ''websocket''} \<longrightarrow> pr_target p \<noteq> None))"
proof (induction cfgs arbitrary: reg)
  case (Cons c cs)
  obtain reg1 where r1: "registry_add url c reg = Inr reg1" "registry_fill url cs reg1 = Inr reg'"
    using Cons.prems by (auto split: sum.splits)
  note i = registry_add_Inr [OF r1(1)]
  then obtain p where p: "reg1 = reg(rt_ID c \<mapsto> p)" "pr_config p = c"
    "rt_Protocol c \<in> {''http'', ''https'', ''websocket''} \<longrightarrow> pr_target p \<noteq> None" by auto
  have "\<forall>x \<in> set cs. reg1 (rt_ID x) = None" using r1(2) registry_fill_exact [of url cs reg1] by auto
  then have "rt_ID c \<notin> rt_ID ` set cs" using p(1) by auto
  with Cons.IH [OF r1(2)] p show ?case by auto
qed simp

lemma registry_exact_facts:
  "(\<exists>reg. NewRegistry url cfgs = Inr reg) = (list_all (\<lambda>c. rt_Validate url c = None) cfgs \<and> distinct (map rt_ID cfgs))"
  "NewRegistry url cfgs = Inr reg \<Longrightarrow> (\<exists>p. reg_Get rid reg = Some p \<and> pr_config p = c) = (c \<in> set cfgs \<and> rt_ID c = rid)"
  "NewRegistry url cfgs = Inr reg \<Longrightarrow> reg_Get rid reg = Some p \<Longrightarrow>
     rt_Protocol (pr_config p) \<in> {''http'', ''https'', ''websocket''} \<Longrightarrow> pr_target p \<noteq> None"
proof -
  show "(\<exists>reg. NewRegistry url cfgs = Inr reg) = (list_all (\<lambda>c. rt_Validate url c = None) cfgs \<and> distinct (map rt_ID cfgs))"
    by (simp add: NewRegistry_def registry_fill_exact list_all_iff)
  assume reg: "NewRegistry url cfgs = Inr reg"
  note g = registry_fill_Get [OF reg [unfolded NewRegistry_def]]
  have found: "\<exists>c \<in> set cfgs. rt_ID c = rid \<and> pr_config p = c \<and>
      (rt_Protocol c \<in> {''http'', ''https'', ''websocket''} \<longrightarrow> pr_target p \<noteq> None)" if "reg rid = Some p" for rid p
    using g that by (cases "rid \<in> rt_ID ` set cfgs") fastforce+
  show "(\<exists>p. reg_Get rid reg = Some p \<and> pr_config p = c) = (c \<in> set cfgs \<and> rt_ID c = rid)"
    using found g unfolding reg_Get_def by blast
  show "reg_Get rid reg = Some p \<Longrightarrow> rt_Protocol (pr_config p) \<in> {''http'', ''https'', ''websocket''} \<Longrightarrow> pr_target p \<noteq> None"
    using found unfolding reg_Get_def by blast
qed

text \<open>
  The registry accepts a configuration exactly when every route is valid and no id occurs twice. Then
  it finds every configured route under its id with a parsed target where the protocol needs one, and
  nothing else.
\<close>

theorem registry_exact:
  "((\<exists>reg. NewRegistry url cfgs = Inr reg) = (list_all (\<lambda>c. rt_Validate url c = None) cfgs \<and> distinct (map rt_ID cfgs))) \<and>
   (NewRegistry url cfgs = Inr reg \<longrightarrow> (\<exists>p. reg_Get rid reg = Some p \<and> pr_config p = c) = (c \<in> set cfgs \<and> rt_ID c = rid)) \<and>
   (NewRegistry url cfgs = Inr reg \<longrightarrow> reg_Get rid reg = Some p \<longrightarrow>
     rt_Protocol (pr_config p) \<in> {''http'', ''https'', ''websocket''} \<longrightarrow> pr_target p \<noteq> None)"
  by (intro conjI impI registry_exact_facts)

definition ex_route :: "string \<Rightarrow> route_config" where
  "ex_route rid = \<lparr>rt_ID = rid, rt_Protocol = ''tcp'', rt_Listen = '':22'', rt_Target = ''agent'',
     rt_IdleTimeoutSeconds = 0, rt_RequireAuth = None, rt_BrowsingMode = '''', rt_Cache = None, rt_QoS = None\<rparr>"

theorem registry_exact_witness:
  "\<exists>reg p. NewRegistry (\<lambda>t. None) [ex_route ''a'', ex_route ''b''] = Inr reg \<and>
     reg_Get ''b'' reg = Some p \<and> pr_config p = ex_route ''b''"
proof -
  have ok: "list_all (\<lambda>c. rt_Validate (\<lambda>t. None) c = None) [ex_route ''a'', ex_route ''b''] \<and>
    distinct (map rt_ID [ex_route ''a'', ex_route ''b''])" by code_simp
  then obtain reg where reg: "NewRegistry (\<lambda>t. None) [ex_route ''a'', ex_route ''b''] = Inr reg"
    using registry_exact [THEN conjunct1, of "\<lambda>t. None" "[ex_route ''a'', ex_route ''b'']"] by blast
  have "rt_ID (ex_route ''b'') = ''b''" by (simp add: ex_route_def)
  then have "\<exists>p. reg_Get ''b'' reg = Some p \<and> pr_config p = ex_route ''b''"
    using registry_exact [THEN conjunct2, THEN conjunct1, rule_format, OF reg, of "''b''" "ex_route ''b''"] by simp
  with reg show ?thesis by blast
qed

end
