(* ===== verification/ProxyCache.thy ===== *)
theory ProxyCache
  imports TunnelRoutes
begin

text \<open>
  apps/gateway/internal/tunnel/proxy_cache.go: the cache of proxied answers and its list of keys in
  order of use, which keeps an index of positions. A nil dereference or an index out of range ends a
  call in a panic: the value \<open>None\<close>. SHA-256 and the parser of RFC 1123 dates are arguments.
\<close>

section \<open>The list of keys in order of use\<close>

record lru_cache =
  lr_cap :: int
  lr_list :: "string list"
  lr_index :: "string \<rightharpoonup> nat"

definition newLRUCache :: "int \<Rightarrow> lru_cache" where
  "newLRUCache cap = \<lparr>lr_cap = cap, lr_list = [], lr_index = Map.empty\<rparr>"

text \<open>The loop \<open>for i, k := range c.list { c.index[k] = i }\<close>\<close>

definition reindex :: "string list \<Rightarrow> (string \<rightharpoonup> nat) \<Rightarrow> string \<rightharpoonup> nat" where
  "reindex xs m = foldl (\<lambda>m (i, k). m(k \<mapsto> i)) m (enumerate 0 xs)"

text \<open>The slice expression \<open>append(l[:i], l[i+1:]...)\<close>\<close>

definition cut_at :: "nat \<Rightarrow> 'a list \<Rightarrow> 'a list option" where
  "cut_at i xs = (if i < length xs then Some (take i xs @ drop (i + 1) xs) else None)"

definition lru_touch :: "string \<Rightarrow> lru_cache \<Rightarrow> lru_cache option" where
  "lru_touch key c = (case lr_index c key of
     None \<Rightarrow> Some c
   | Some idx \<Rightarrow>
       if idx > 0 then
         (case cut_at idx (lr_list c) of
            None \<Rightarrow> None
          | Some l \<Rightarrow> Some (c\<lparr>lr_list := key # l, lr_index := reindex (key # l) (lr_index c)\<rparr>))
       else Some c)"

definition lru_add :: "string \<Rightarrow> lru_cache \<Rightarrow> lru_cache option" where
  "lru_add key c =
     (if lr_index c key \<noteq> None then lru_touch key c
      else
        (case (if int (length (lr_list c)) \<ge> lr_cap c
               then (if lr_list c = [] then None
                     else Some (c\<lparr>lr_index := (lr_index c)(last (lr_list c) := None), lr_list := butlast (lr_list c)\<rparr>))
               else Some c) of
           None \<Rightarrow> None
         | Some c \<Rightarrow> Some (c\<lparr>lr_list := key # lr_list c, lr_index := reindex (key # lr_list c) (lr_index c)\<rparr>)))"

definition lru_remove :: "string \<Rightarrow> lru_cache \<Rightarrow> lru_cache option" where
  "lru_remove key c = (case lr_index c key of
     None \<Rightarrow> Some c
   | Some idx \<Rightarrow>
       (case cut_at idx (lr_list c) of
          None \<Rightarrow> None
        | Some l \<Rightarrow> Some (c\<lparr>lr_list := l, lr_index := reindex l ((lr_index c)(key := None))\<rparr>)))"

text \<open>The index is the inverse of the list; the specification is the list alone.\<close>

definition lru_inv :: "lru_cache \<Rightarrow> bool" where
  "lru_inv c \<longleftrightarrow> 0 < lr_cap c \<and> int (length (lr_list c)) \<le> lr_cap c \<and> distinct (lr_list c) \<and>
     (\<forall>k i. lr_index c k = Some i \<longleftrightarrow> i < length (lr_list c) \<and> lr_list c ! i = k)"

datatype key_call = KTouch string | KAdd string | KRemove string

fun keys_step :: "nat \<times> string list \<Rightarrow> key_call \<Rightarrow> unit \<times> (nat \<times> string list)" where
  "keys_step (n, l) (KTouch k) = ((), n, if k \<in> set l then k # remove1 k l else l)"
| "keys_step (n, l) (KAdd k) = ((), n, if k \<in> set l then k # remove1 k l else k # take (n - 1) l)"
| "keys_step (n, l) (KRemove k) = ((), n, remove1 k l)"

fun lru_call :: "key_call \<Rightarrow> lru_cache \<Rightarrow> lru_cache option" where
  "lru_call (KTouch k) c = lru_touch k c"
| "lru_call (KAdd k) c = lru_add k c"
| "lru_call (KRemove k) c = lru_remove k c"

inductive lru_trans :: "lru_cache \<Rightarrow> key_call \<Rightarrow> unit \<Rightarrow> lru_cache \<Rightarrow> bool" where
  lru_trans: "lru_call call c = Some c' \<Longrightarrow> lru_trans c call () c'"

inductive_simps lru_trans_simps: "lru_trans c call r c'"

definition lru_abs :: "lru_cache \<Rightarrow> nat \<times> string list" where
  "lru_abs c = (nat (lr_cap c), lr_list c)"

lemma reindex_append: "reindex (xs @ [x]) m = (reindex xs m)(x \<mapsto> length xs)"
  by (simp add: reindex_def enumerate_append_eq)

lemma reindex_exact:
  "distinct xs \<Longrightarrow> reindex xs m k = (if k \<in> set xs then Some (THE i. i < length xs \<and> xs ! i = k) else m k)"
proof (induction xs rule: rev_induct)
  case (snoc x xs)
  then have IH: "reindex xs m k = (if k \<in> set xs then Some (THE i. i < length xs \<and> xs ! i = k) else m k)" by simp
  show ?case
  proof (cases "k = x")
    case True
    have "(THE i. i < length (xs @ [x]) \<and> (xs @ [x]) ! i = k) = length xs"
      by (rule the_equality) (use True snoc.prems in \<open>auto simp: nth_append less_Suc_eq split: if_splits\<close>)
    with True show ?thesis by (simp add: reindex_append)
  next
    case False
    then have "(\<lambda>i. i < length (xs @ [x]) \<and> (xs @ [x]) ! i = k) = (\<lambda>i. i < length xs \<and> xs ! i = k)"
      by (auto simp: fun_eq_iff nth_append less_Suc_eq)
    with False IH show ?thesis by (simp add: reindex_append)
  qed
qed (simp add: reindex_def)

lemma reindex_iff:
  assumes "distinct xs" "\<forall>j. k \<notin> set xs \<longrightarrow> m k \<noteq> Some j"
  shows "reindex xs m k = Some i \<longleftrightarrow> i < length xs \<and> xs ! i = k"
proof (cases "k \<in> set xs")
  case True
  then obtain j where j: "j < length xs" "xs ! j = k" by (auto simp: in_set_conv_nth)
  then have "(THE i. i < length xs \<and> xs ! i = k) = j"
    using assms(1) by (intro the_equality) (auto simp: nth_eq_iff_index_eq)
  with True j assms(1) show ?thesis by (auto simp: reindex_exact nth_eq_iff_index_eq)
next
  case False
  with assms show ?thesis by (auto simp: reindex_exact)
qed

lemma cut_at_remove1:
  "distinct xs \<Longrightarrow> i < length xs \<Longrightarrow> cut_at i xs = Some (remove1 (xs ! i) xs)"
proof -
  assume d: "distinct xs" "i < length xs"
  have "xs = take i xs @ xs ! i # drop (i + 1) xs" using d(2) by (simp add: id_take_nth_drop)
  moreover from d have "xs ! i \<notin> set (take i xs)"
    by (auto simp: in_set_conv_nth nth_eq_iff_index_eq)
  ultimately have "remove1 (xs ! i) xs = take i xs @ drop (i + 1) xs"
    by (metis remove1_append remove1.simps(2))
  with d show ?thesis by (simp add: cut_at_def)
qed

lemma lru_index_mem: "lru_inv c \<Longrightarrow> (lr_index c k = None) = (k \<notin> set (lr_list c))"
proof -
  assume "lru_inv c"
  then have i: "\<And>i. lr_index c k = Some i \<longleftrightarrow> i < length (lr_list c) \<and> lr_list c ! i = k" by (simp add: lru_inv_def)
  show ?thesis using i by (cases "lr_index c k") (auto simp: in_set_conv_nth)
qed

lemma lru_inv_reindexed:
  assumes "distinct l" "int (length l) \<le> lr_cap c" "0 < lr_cap c" "\<And>k. k \<notin> set l \<Longrightarrow> m k = None"
  shows "lru_inv (c\<lparr>lr_list := l, lr_index := reindex l m\<rparr>)"
  using assms by (auto simp: lru_inv_def reindex_iff)

lemma lru_touch_sim:
  assumes inv: "lru_inv c"
  shows "\<exists>c'. lru_touch k c = Some c' \<and> lru_inv c' \<and> lr_cap c' = lr_cap c \<and>
    lr_list c' = (if k \<in> set (lr_list c) then k # remove1 k (lr_list c) else lr_list c)"
proof (cases "lr_index c k")
  case None
  with inv lru_index_mem [OF inv, of k] show ?thesis by (simp add: lru_touch_def)
next
  case (Some i)
  then have i: "i < length (lr_list c)" "lr_list c ! i = k" using inv by (auto simp: lru_inv_def)
  then have mem: "k \<in> set (lr_list c)" by auto
  have d: "distinct (lr_list c)" using inv by (simp add: lru_inv_def)
  show ?thesis
  proof (cases "i = 0")
    case True
    then have "lr_list c = k # remove1 k (lr_list c)" using i by (cases "lr_list c") auto
    with True Some inv mem show ?thesis by (simp add: lru_touch_def)
  next
    case False
    have l: "distinct (k # remove1 k (lr_list c))" "int (length (k # remove1 k (lr_list c))) \<le> lr_cap c" "0 < lr_cap c"
      using d inv mem by (auto simp: lru_inv_def length_remove1 Suc_diff_le)
    have "lru_inv (c\<lparr>lr_list := k # remove1 k (lr_list c), lr_index := reindex (k # remove1 k (lr_list c)) (lr_index c)\<rparr>)"
      by (rule lru_inv_reindexed [OF l]) (use d in \<open>auto simp: lru_index_mem [OF inv]\<close>)
    moreover have "lru_touch k c = Some (c\<lparr>lr_list := k # remove1 k (lr_list c), lr_index := reindex (k # remove1 k (lr_list c)) (lr_index c)\<rparr>)"
      using Some False cut_at_remove1 [OF d i(1)] i(2) by (simp add: lru_touch_def)
    ultimately show ?thesis using mem by simp
  qed
qed

lemma lru_remove_sim:
  assumes inv: "lru_inv c"
  shows "\<exists>c'. lru_remove k c = Some c' \<and> lru_inv c' \<and> lr_cap c' = lr_cap c \<and> lr_list c' = remove1 k (lr_list c)"
proof (cases "lr_index c k")
  case None
  with inv lru_index_mem [OF inv, of k] show ?thesis by (simp add: lru_remove_def remove1_idem)
next
  case (Some i)
  then have i: "i < length (lr_list c)" "lr_list c ! i = k" using inv by (auto simp: lru_inv_def)
  have d: "distinct (lr_list c)" using inv by (simp add: lru_inv_def)
  have l: "distinct (remove1 k (lr_list c))" "int (length (remove1 k (lr_list c))) \<le> lr_cap c" "0 < lr_cap c"
    using d inv by (auto simp: lru_inv_def length_remove1)
  have "lru_inv (c\<lparr>lr_list := remove1 k (lr_list c), lr_index := reindex (remove1 k (lr_list c)) ((lr_index c)(k := None))\<rparr>)"
    by (rule lru_inv_reindexed [OF l]) (use d in \<open>auto simp: lru_index_mem [OF inv]\<close>)
  moreover have "lru_remove k c = Some (c\<lparr>lr_list := remove1 k (lr_list c), lr_index := reindex (remove1 k (lr_list c)) ((lr_index c)(k := None))\<rparr>)"
    using Some cut_at_remove1 [OF d i(1)] i(2) by (simp add: lru_remove_def)
  ultimately show ?thesis by simp
qed

lemma lru_add_sim:
  assumes inv: "lru_inv c"
  shows "\<exists>c'. lru_add k c = Some c' \<and> lru_inv c' \<and> lr_cap c' = lr_cap c \<and>
    lr_list c' = (if k \<in> set (lr_list c) then k # remove1 k (lr_list c) else k # take (nat (lr_cap c) - 1) (lr_list c))"
proof (cases "k \<in> set (lr_list c)")
  case True
  with lru_touch_sim [OF inv, of k] show ?thesis by (simp add: lru_add_def lru_index_mem [OF inv])
next
  case False
  have pos: "0 < lr_cap c" and d: "distinct (lr_list c)" using inv by (auto simp: lru_inv_def)
  show ?thesis
  proof (cases "int (length (lr_list c)) \<ge> lr_cap c")
    case True
    then have len: "int (length (lr_list c)) = lr_cap c" using inv by (simp add: lru_inv_def)
    then have ne: "lr_list c \<noteq> []" using pos by auto
    have bl: "butlast (lr_list c) = take (nat (lr_cap c) - 1) (lr_list c)"
      using len by (simp add: butlast_conv_take flip: len)
    let ?l = "k # butlast (lr_list c)" and ?m = "(lr_index c)(last (lr_list c) := None)"
    have l: "distinct ?l" "int (length ?l) \<le> lr_cap c"
      using d False len ne by (auto simp: distinct_butlast dest: in_set_butlastD)
    have mem: "x \<in> set (butlast (lr_list c)) \<or> x = last (lr_list c)" if "x \<in> set (lr_list c)" for x
      using that ne by (metis append_butlast_last_id in_set_conv_decomp list.set_intros(1) rotate1.simps(2) set_ConsD set_rotate1)
    have "lru_inv (c\<lparr>lr_list := ?l, lr_index := reindex ?l ?m\<rparr>)"
      by (rule lru_inv_reindexed [OF l pos]) (use mem in \<open>auto simp: lru_index_mem [OF inv]\<close>)
    moreover have "lru_add k c = Some (c\<lparr>lr_list := ?l, lr_index := reindex ?l ?m\<rparr>)"
      using True ne False by (simp add: lru_add_def lru_index_mem [OF inv])
    ultimately show ?thesis using False bl by simp
  next
    case False': False
    let ?l = "k # lr_list c"
    have t: "take (nat (lr_cap c) - 1) (lr_list c) = lr_list c" using False' by simp
    have "lru_inv (c\<lparr>lr_list := ?l, lr_index := reindex ?l (lr_index c)\<rparr>)"
      by (rule lru_inv_reindexed) (use d False False' pos in \<open>auto simp: lru_index_mem [OF inv]\<close>)
    moreover have "lru_add k c = Some (c\<lparr>lr_list := ?l, lr_index := reindex ?l (lr_index c)\<rparr>)"
      using False' False by (simp add: lru_add_def lru_index_mem [OF inv])
    ultimately show ?thesis using False t by simp
  qed
qed

lemma lru_call_sim:
  assumes "lru_inv c"
  shows "\<exists>c'. lru_call call c = Some c' \<and> lru_inv c' \<and> keys_step (lru_abs c) call = ((), lru_abs c')"
proof (cases call)
  case (KTouch k)
  with lru_touch_sim [OF assms, of k] show ?thesis by (auto simp: lru_abs_def)
next
  case (KAdd k)
  with lru_add_sim [OF assms, of k] show ?thesis by (auto simp: lru_abs_def)
next
  case (KRemove k)
  with lru_remove_sim [OF assms, of k] show ?thesis by (auto simp: lru_abs_def)
qed

interpretation lru: simulation lru_trans lru_inv lru_abs keys_step
proof
  fix s c r s' assume a: "lru_inv s" "lru_trans s c r s'"
  then have "lru_call c s = Some s'" by (simp add: lru_trans_simps)
  with lru_call_sim [OF a(1), of c] show "lru_inv s'" "keys_step (lru_abs s) c = (r, lru_abs s')" by auto
qed

lemma lru_inv_new: "0 < n \<Longrightarrow> lru_inv (newLRUCache n)"
  by (simp add: lru_inv_def newLRUCache_def)

section \<open>The cache\<close>

definition defaultProxyCacheTTL :: int where "defaultProxyCacheTTL = 300"
definition defaultProxyCacheMaxSize :: int where "defaultProxyCacheMaxSize = 512"
definition proxyCacheMaxEntrySize :: int where "proxyCacheMaxEntrySize = 10 * 1024 * 1024"

record proxy_entry =
  pe_data :: string
  pe_contentType :: string
  pe_statusCode :: int
  pe_headers :: header
  pe_timestamp :: time
  pe_ttl :: duration
  pe_size :: int

record proxy_cache =
  pc_entries :: "string \<rightharpoonup> proxy_entry"
  pc_lru :: lru_cache
  pc_maxSize :: int
  pc_usedSize :: int

definition pe_expired :: "time \<Rightarrow> proxy_entry \<Rightarrow> bool" where
  "pe_expired now e = (if pe_ttl e \<le> 0 then False else now - pe_timestamp e > pe_ttl e)"

definition NewProxyCache :: "int \<Rightarrow> proxy_cache" where
  "NewProxyCache maxSizeMB =
     (let maxSize = wrap64 (maxSizeMB * 1024 * 1024);
          maxSize = (if maxSize \<le> 0 then defaultProxyCacheMaxSize * 1024 * 1024 else maxSize);
          cap = (if maxSize > 0 then (let c = quot maxSize (64 * 1024) in if c > 65536 then 65536 else c) else 1024)
      in \<lparr>pc_entries = Map.empty, pc_lru = newLRUCache cap, pc_maxSize = maxSize, pc_usedSize = 0\<rparr>)"

definition pc_key :: "(string \<Rightarrow> nat list) \<Rightarrow> route_config option \<Rightarrow> request \<Rightarrow> string" where
  "pc_key sha route r =
     hex_encode (sha (case route of Some rt \<Rightarrow> rt_ID rt @ '':'' @ rq_URL r | None \<Rightarrow> rq_URL r))"

text \<open>The entry is a pointer: the headers of a nil entry cannot be read.\<close>

definition pc_shouldBypassCache :: "proxy_entry option \<Rightarrow> request \<Rightarrow> bool option" where
  "pc_shouldBypassCache entry r =
     (if rq_Method r \<in> {''POST'', ''PUT'', ''DELETE'', ''PATCH''} then Some True
      else case entry of
        None \<Rightarrow> None
      | Some e \<Rightarrow>
          let cacheControl = hdr_get (pe_headers e) ''Cache-Control''
          in if contains cacheControl ''no-store'' \<or> contains cacheControl ''private'' then Some True
             else if hdr_get (rq_Header r) ''Authorization'' \<noteq> '''' then Some True
             else Some False)"

definition pc_Invalidate ::
  "(string \<Rightarrow> nat list) \<Rightarrow> route_config option \<Rightarrow> request \<Rightarrow> proxy_cache \<Rightarrow> proxy_cache option" where
  "pc_Invalidate sha route r c =
     (let key = pc_key sha route r;
          c = (case pc_entries c key of
            Some entry \<Rightarrow> c\<lparr>pc_usedSize := pc_usedSize c - pe_size entry\<rparr>
          | None \<Rightarrow> c)
      in case lru_remove key (pc_lru c) of
           None \<Rightarrow> None
         | Some l \<Rightarrow> Some (c\<lparr>pc_lru := l, pc_entries := (pc_entries c)(key := None)\<rparr>))"

definition pc_set_if :: "string \<Rightarrow> string \<Rightarrow> header \<Rightarrow> header" where
  "pc_set_if k v h = (if v \<noteq> '''' then hdr_set k v h else h)"

text \<open>\<open>ks\<close> is the order in which the headers of the entry are iterated over.\<close>

definition hdr_add_in :: "header \<Rightarrow> string list \<Rightarrow> header \<Rightarrow> header" where
  "hdr_add_in src ks dst =
     foldl (\<lambda>dst k. foldl (\<lambda>dst v. hdr_add k v dst) dst (hdr_values src k)) dst ks"

definition pc_ServeCached ::
  "(string \<Rightarrow> nat list) \<Rightarrow> string list \<Rightarrow> time \<Rightarrow> writer \<Rightarrow> request \<Rightarrow> route_config option \<Rightarrow> proxy_cache
     \<Rightarrow> (bool \<times> writer \<times> proxy_cache) option" where
  "pc_ServeCached sha ks now w r route c = (case pc_entries c (pc_key sha route r) of
     None \<Rightarrow> Some (False, w, c)
   | Some entry \<Rightarrow>
       if pe_expired now entry then
         (case pc_Invalidate sha route r c of None \<Rightarrow> None | Some c \<Rightarrow> Some (False, w, c))
       else (case pc_shouldBypassCache (Some entry) r of
         None \<Rightarrow> None
       | Some bypass \<Rightarrow>
           if bypass then Some (False, w, c)
           else (case lru_touch (pc_key sha route r) (pc_lru c) of
             None \<Rightarrow> None
           | Some l \<Rightarrow>
               let w = w_edit (hdr_set ''X-Cache'' ''HIT'') w;
                   w = w_edit (hdr_add_in (pe_headers entry) ks) w;
                   w = w_edit (pc_set_if ''Content-Type'' (pe_contentType entry)) w;
                   w = w_edit (pc_set_if ''ETag'' (hdr_get (pe_headers entry) ''ETag'')) w;
                   w = w_edit (pc_set_if ''Last-Modified'' (hdr_get (pe_headers entry) ''Last-Modified'')) w
               in Some (True, w_Write (pe_data entry) (w_WriteHeader (pe_statusCode entry) w), c\<lparr>pc_lru := l\<rparr>))))"

text \<open>The number that \<open>fmt.Sscanf\<close> reads with \<open>%d\<close>: what follows the digits is ignored.\<close>

definition parsePositiveInt :: "string \<Rightarrow> int option" where
  "parsePositiveInt s =
     (let s = trim_space s;
          (sign, cs) = (case s of [] \<Rightarrow> ('''', [])
            | c # cs \<Rightarrow> if c = CHR ''-'' \<or> c = CHR ''+'' then ([c], cs) else ('''', s))
      in atoi (sign @ takeWhile is_digit cs))"

fun max_age_of :: "string list \<Rightarrow> duration" where
  "max_age_of [] = 0"
| "max_age_of (part # parts) =
     (let part = trim_space part
      in if has_prefix part ''max-age='' then
           (case parsePositiveInt (trim_prefix part ''max-age='') of
              Some s \<Rightarrow> wrap64 (s * second)
            | None \<Rightarrow> max_age_of parts)
         else max_age_of parts)"

definition parseMaxAge :: "string \<Rightarrow> duration" where
  "parseMaxAge cacheControl = max_age_of (split_on (CHR '','') cacheControl)"

text \<open>\<open>date\<close> stands for \<open>time.Parse(time.RFC1123, _)\<close>.\<close>

definition pc_getTTL :: "(string \<Rightarrow> time option) \<Rightarrow> time \<Rightarrow> route_config option \<Rightarrow> header \<Rightarrow> duration" where
  "pc_getTTL date now route h =
     (let cfg = (case route of Some rt \<Rightarrow> rt_Cache rt | None \<Rightarrow> None);
          cacheControl = hdr_get h ''Cache-Control'';
          maxAge = parseMaxAge cacheControl;
          expires = hdr_get h ''Expires'';
          until = (if expires \<noteq> '''' then (case date expires of Some t \<Rightarrow> t - now | None \<Rightarrow> 0) else 0)
      in case cfg of
           Some g \<Rightarrow>
             if cg_TTLSeconds g > 0 then wrap64 (cg_TTLSeconds g * second)
             else if cg_MaxSizeMB g > 0 then defaultProxyCacheTTL * second
             else if contains cacheControl ''no-cache'' \<or> contains cacheControl ''no-store'' \<or> contains cacheControl ''private'' then 0
             else if maxAge > 0 then maxAge
             else if 0 < until \<and> until < 24 * 60 * minute then until
             else defaultProxyCacheTTL * second
         | None \<Rightarrow>
             if contains cacheControl ''no-cache'' \<or> contains cacheControl ''no-store'' \<or> contains cacheControl ''private'' then 0
             else if maxAge > 0 then maxAge
             else if 0 < until \<and> until < 24 * 60 * minute then until
             else defaultProxyCacheTTL * second)"

partial_function (option) pc_evictLocked :: "int \<Rightarrow> nat \<Rightarrow> proxy_cache \<Rightarrow> proxy_cache option" where
  "pc_evictLocked needed n c =
     (if pc_usedSize c + needed > pc_maxSize c \<and> n > 0 then
        (if lr_list (pc_lru c) = [] then Some c
         else
           (let evictKey = last (lr_list (pc_lru c))
            in case lru_remove evictKey (pc_lru c) of
                 None \<Rightarrow> None
               | Some l \<Rightarrow>
                   (case pc_entries c evictKey of
                      Some entry \<Rightarrow> pc_evictLocked needed (n - 1)
                        (c\<lparr>pc_usedSize := pc_usedSize c - pe_size entry,
                           pc_entries := (pc_entries c)(evictKey := None), pc_lru := l\<rparr>)
                    | None \<Rightarrow> pc_evictLocked needed n (c\<lparr>pc_lru := l\<rparr>))))
      else Some c)"

text \<open>A request or a response with its status and headers; the request may be nil.\<close>

definition pc_Store ::
  "(string \<Rightarrow> nat list) \<Rightarrow> (string \<Rightarrow> time option) \<Rightarrow> time \<Rightarrow> nat \<Rightarrow> route_config option \<Rightarrow> request option
     \<Rightarrow> int \<Rightarrow> header \<Rightarrow> string \<Rightarrow> proxy_cache \<Rightarrow> proxy_cache option" where
  "pc_Store sha date now n route req status h body c = (case req of
     None \<Rightarrow> None
   | Some r \<Rightarrow>
       if rq_Method r \<noteq> ''GET'' \<and> rq_Method r \<noteq> ''HEAD'' then Some c
       else if status < 200 \<or> status \<ge> 400 then Some c
       else if int (length body) > proxyCacheMaxEntrySize then Some c
       else (case pc_shouldBypassCache None r of
         None \<Rightarrow> None
       | Some True \<Rightarrow> Some c
       | Some False \<Rightarrow>
           let ttl = pc_getTTL date now route h;
               key = pc_key sha route r;
               size = int (length body)
           in if ttl \<le> 0 then Some c
              else Option.bind
                (case pc_entries c key of
                   Some existing \<Rightarrow> (case lru_remove key (pc_lru c) of
                       None \<Rightarrow> None
                     | Some l \<Rightarrow> Some (c\<lparr>pc_usedSize := pc_usedSize c - pe_size existing, pc_lru := l,
                         pc_entries := (pc_entries c)(key := None)\<rparr>, n - 1))
                 | None \<Rightarrow> Some (c, n))
                (\<lambda>(c, n). Option.bind
                  (if pc_usedSize c + size > pc_maxSize c then pc_evictLocked size n c else Some c)
                  (\<lambda>c. Option.bind (lru_add key (pc_lru c))
                    (\<lambda>l. Some (c\<lparr>pc_entries := (pc_entries c)(key \<mapsto>
                        \<lparr>pe_data = body, pe_contentType = hdr_get h ''Content-Type'', pe_statusCode = status,
                         pe_headers = h, pe_timestamp = now, pe_ttl = ttl, pe_size = size\<rparr>),
                      pc_lru := l, pc_usedSize := pc_usedSize c + size\<rparr>))))))"

definition pc_Sweep :: "string list \<Rightarrow> time \<Rightarrow> proxy_cache \<Rightarrow> proxy_cache option" where
  "pc_Sweep ks now c = foldl (\<lambda>oc key. Option.bind oc (\<lambda>c.
     case pc_entries c key of
       None \<Rightarrow> Some c
     | Some entry \<Rightarrow>
         if pe_expired now entry then
           (case lru_remove key (pc_lru c) of
              None \<Rightarrow> None
            | Some l \<Rightarrow> Some (c\<lparr>pc_usedSize := pc_usedSize c - pe_size entry, pc_lru := l,
                pc_entries := (pc_entries c)(key := None)\<rparr>))
         else Some c)) (Some c) ks"

text \<open>\<open>Stats\<close>: entries, size, capacity in megabytes and the number of expired entries.\<close>

definition pc_Stats :: "string list \<Rightarrow> time \<Rightarrow> proxy_cache \<Rightarrow> nat \<times> rat \<times> rat \<times> nat" where
  "pc_Stats ks now c = (length ks, of_int (pc_usedSize c) / (1024 * 1024), of_int (pc_maxSize c) / (1024 * 1024),
     length (filter (\<lambda>k. case pc_entries c k of Some e \<Rightarrow> pe_expired now e | None \<Rightarrow> False) ks))"

section \<open>The caching transport\<close>

record caching_writer =
  cw_statusCode :: int
  cw_headers :: header
  cw_body :: string
  cw_committed :: bool

definition newCachingWriter :: caching_writer where
  "newCachingWriter = \<lparr>cw_statusCode = 0, cw_headers = Map.empty, cw_body = [], cw_committed = False\<rparr>"

definition cw_WriteHeader :: "int \<Rightarrow> caching_writer \<Rightarrow> caching_writer" where
  "cw_WriteHeader status cw =
     (if cw_committed cw then cw else cw\<lparr>cw_statusCode := status, cw_committed := True\<rparr>)"

definition cw_Write :: "string \<Rightarrow> caching_writer \<Rightarrow> caching_writer" where
  "cw_Write p cw =
     (let cw = (if cw_committed cw then cw else cw_WriteHeader 200 cw) in cw\<lparr>cw_body := cw_body cw @ p\<rparr>)"

definition cw_writeTo :: "string list \<Rightarrow> caching_writer \<Rightarrow> writer \<Rightarrow> writer" where
  "cw_writeTo ks cw w =
     (let cw = (if cw_committed cw then cw else cw_WriteHeader 200 cw);
          w = w_edit (hdr_add_in (cw_headers cw) ks) w
      in w_Write (cw_body cw) (w_WriteHeader (cw_statusCode cw) w))"

text \<open>\<open>commit\<close> passes nil for the request.\<close>

definition cw_commit ::
  "(string \<Rightarrow> nat list) \<Rightarrow> (string \<Rightarrow> time option) \<Rightarrow> time \<Rightarrow> nat \<Rightarrow> route_config option \<Rightarrow> caching_writer
     \<Rightarrow> proxy_cache \<Rightarrow> proxy_cache option" where
  "cw_commit sha date now n route cw c =
     (let cw = (if cw_committed cw then cw else cw_WriteHeader 200 cw)
      in if cw_statusCode cw \<ge> 200 \<and> cw_statusCode cw < 400
         then pc_Store sha date now n route None (cw_statusCode cw) (cw_headers cw) (cw_body cw) c
         else Some c)"

text \<open>An answer of the transport below: an error, or status, headers and body.\<close>

type_synonym trip = "(int \<times> header \<times> string) option"

definition copyResponse :: "string list \<Rightarrow> trip \<Rightarrow> caching_writer \<Rightarrow> caching_writer option" where
  "copyResponse ks answer dst = (case answer of
     None \<Rightarrow> None
   | Some (status, h, body) \<Rightarrow>
       let dst = dst\<lparr>cw_headers := hdr_set ''X-Cache'' ''MISS'' (hdr_add_in h ks (cw_headers dst))\<rparr>
       in Some (cw_Write body (cw_WriteHeader status dst)))"

definition ct_RoundTrip ::
  "(request \<Rightarrow> trip) \<Rightarrow> (string \<Rightarrow> nat list) \<Rightarrow> (string \<Rightarrow> time option) \<Rightarrow> time \<Rightarrow> nat \<Rightarrow> string list
     \<Rightarrow> route_config option \<Rightarrow> request \<Rightarrow> proxy_cache \<Rightarrow> (trip \<times> proxy_cache) option" where
  "ct_RoundTrip base sha date now n ks route r c =
     (if rq_Method r \<noteq> ''GET'' \<and> rq_Method r \<noteq> ''HEAD'' then Some (base r, c)
      else case copyResponse ks (base r) newCachingWriter of
        None \<Rightarrow> Some (None, c)
      | Some cw \<Rightarrow>
          (case cw_commit sha date now n route cw c of
             None \<Rightarrow> None
           | Some c \<Rightarrow> Some (Some (cw_statusCode cw, cw_headers cw, cw_body cw), c)))"

section \<open>Nothing is ever stored\<close>

lemma pc_Store_unchanged: "pc_Store sha date now n route req status h body c = Some c' \<Longrightarrow> c' = c"
  by (auto simp: pc_Store_def pc_shouldBypassCache_def split: option.splits if_splits)

lemma pc_Store_panics:
  "rq_Method r \<in> {''GET'', ''HEAD''} \<Longrightarrow> 200 \<le> status \<Longrightarrow> status < 400 \<Longrightarrow>
   int (length body) \<le> proxyCacheMaxEntrySize \<Longrightarrow> pc_Store sha date now n route (Some r) status h body c = None"
  by (auto simp: pc_Store_def pc_shouldBypassCache_def)

text \<open>The calls on the cache that return.\<close>

inductive pc_reach :: "(string \<Rightarrow> nat list) \<Rightarrow> (string \<Rightarrow> time option) \<Rightarrow> proxy_cache \<Rightarrow> bool" for sha date where
  pc_new: "pc_reach sha date (NewProxyCache m)"
| pc_store: "pc_reach sha date c \<Longrightarrow> pc_Store sha date now n route req status h body c = Some c' \<Longrightarrow> pc_reach sha date c'"
| pc_serve: "pc_reach sha date c \<Longrightarrow> pc_ServeCached sha ks now w r route c = Some (b, w', c') \<Longrightarrow> pc_reach sha date c'"
| pc_inval: "pc_reach sha date c \<Longrightarrow> pc_Invalidate sha route r c = Some c' \<Longrightarrow> pc_reach sha date c'"
| pc_sweep: "pc_reach sha date c \<Longrightarrow> pc_Sweep ks now c = Some c' \<Longrightarrow> pc_reach sha date c'"
| pc_trip: "pc_reach sha date c \<Longrightarrow> ct_RoundTrip base sha date now n ks route r c = Some (resp, c') \<Longrightarrow> pc_reach sha date c'"

lemma pc_Sweep_empty: "pc_entries c = Map.empty \<Longrightarrow> pc_Sweep ks now c = Some c"
  unfolding pc_Sweep_def by (induction ks rule: rev_induct) auto

lemma cw_commit_unchanged: "cw_commit sha date now n route cw c = Some c' \<Longrightarrow> c' = c"
  by (auto simp: cw_commit_def Let_def split: if_splits dest: pc_Store_unchanged)

lemma pc_reach_empty: "pc_reach sha date c \<Longrightarrow> pc_entries c = Map.empty"
proof (induction rule: pc_reach.induct)
  case (pc_new m)
  show ?case by (simp add: NewProxyCache_def Let_def)
next
  case (pc_trip c base now n ks route r resp c')
  then have "c' = c" by (auto simp: ct_RoundTrip_def split: if_splits option.splits dest: cw_commit_unchanged)
  with pc_trip show ?case by simp
qed (auto simp: pc_Sweep_empty pc_ServeCached_def pc_Invalidate_def Let_def dest: pc_Store_unchanged split: option.splits)

lemma proxy_cache_never_filled_facts:
  "rq_Method r \<in> {''GET'', ''HEAD''} \<Longrightarrow> 200 \<le> status \<Longrightarrow> status < 400 \<Longrightarrow>
     int (length body) \<le> proxyCacheMaxEntrySize \<Longrightarrow> pc_Store sha date now n route (Some r) status h body c = None"
  "rq_Method r \<in> {''GET'', ''HEAD''} \<Longrightarrow> 200 \<le> status \<Longrightarrow> status < 400 \<Longrightarrow>
     base r = Some (status, h, body) \<Longrightarrow> ct_RoundTrip base sha date now n ks route r c = None"
  "pc_reach sha date c \<Longrightarrow> pc_ServeCached sha ks now w r route c = Some (False, w, c)"
  using pc_Store_panics pc_reach_empty
  by (auto simp: ct_RoundTrip_def copyResponse_def cw_commit_def pc_Store_def cw_Write_def cw_WriteHeader_def
      newCachingWriter_def pc_ServeCached_def Let_def)

text \<open>
  The proxy cache never holds anything. Storing an answer to a GET or HEAD request that may be cached
  reads the headers of a nil entry and panics; so does the caching transport, which passes a nil request.
  Hence in every state that calls which return can reach, the cache is empty and no request is served from it.
\<close>

theorem proxy_cache_never_filled:
  "(rq_Method r \<in> {''GET'', ''HEAD''} \<longrightarrow> 200 \<le> status \<longrightarrow> status < 400 \<longrightarrow>
     int (length body) \<le> proxyCacheMaxEntrySize \<longrightarrow> pc_Store sha date now n route (Some r) status h body c = None) \<and>
   (rq_Method r \<in> {''GET'', ''HEAD''} \<longrightarrow> 200 \<le> status \<longrightarrow> status < 400 \<longrightarrow>
     base r = Some (status, h, body) \<longrightarrow> ct_RoundTrip base sha date now n ks route r c = None) \<and>
   (pc_reach sha date c \<longrightarrow> pc_ServeCached sha ks now w r route c = Some (False, w, c))"
  by (intro conjI impI proxy_cache_never_filled_facts)

theorem proxy_cache_never_filled_witness:
  "ct_RoundTrip (\<lambda>r. Some (200, Map.empty, ''hello'')) bytes_of (\<lambda>s. None) 0 0 [] None
     \<lparr>rq_Method = ''GET'', rq_Host = ''h'', rq_Path = ''/'', rq_URL = ''/'', rq_Query = [], rq_Header = Map.empty, rq_RemoteAddr = ''''\<rparr>
     (NewProxyCache 64) = None \<and>
   pc_ServeCached bytes_of [] 5 new_writer
     \<lparr>rq_Method = ''GET'', rq_Host = ''h'', rq_Path = ''/'', rq_URL = ''/'', rq_Query = [], rq_Header = Map.empty, rq_RemoteAddr = ''''\<rparr>
     None (NewProxyCache 64) = Some (False, new_writer, NewProxyCache 64)"
  by (intro conjI proxy_cache_never_filled [THEN conjunct2, THEN conjunct1, rule_format, where status = 200 and body = "''hello''" and h = Map.empty]
    proxy_cache_never_filled [THEN conjunct2, THEN conjunct2, rule_format, where date = "\<lambda>s. None"] pc_new) simp_all

text \<open>
  The list of keys itself does what a list moved to the front does: no call panics, and the index always
  tells the positions.
\<close>

lemma lru_refines_list:
  assumes "0 < n" "runs lru_trans (newLRUCache n) tr c"
  shows "spec_run keys_step (nat n, []) (map fst tr) = (map snd tr, lru_abs c)"
    and "\<exists>c'. lru_call call c = Some c'"
proof -
  show "spec_run keys_step (nat n, []) (map fst tr) = (map snd tr, lru_abs c)"
    using lru.runs_refine [OF assms(2) lru_inv_new [OF assms(1)]] by (simp add: lru_abs_def newLRUCache_def)
  show "\<exists>c'. lru_call call c = Some c'"
    using lru_call_sim [OF lru.runs_keep [OF assms(2) lru_inv_new [OF assms(1)]]] by blast
qed


end
