(* ===== verification/AgentPool.thy ===== *)
theory AgentPool
  imports Prelude
begin

text \<open>
  apps/gateway/internal/tunnel/agent_pool.go: agents offer connections for a route, proxied clients take
  them. The parts that run under the lock are functions on the pool; the goroutines that run them are a
  step relation, so that every interleaving of adding, taking, giving up and disconnecting is covered.
  The channel of a waiter has a buffer of one and a single sender, so the send after the unlock does not
  block and belongs to the step that picks the waiter. Whether a connection is alive when it is probed
  is left to the environment.
\<close>

section \<open>The pool\<close>

record aconn =
  ac_num :: nat
  ac_route :: string

text \<open>Idle connections of a route in the order they came, and the channels of the waiting takers.\<close>

record agent_pool =
  ap_idle :: "string \<rightharpoonup> aconn list"
  ap_waiters :: "string \<rightharpoonup> nat list"

definition newAgentPool :: agent_pool where
  "newAgentPool = \<lparr>ap_idle = Map.empty, ap_waiters = Map.empty\<rparr>"

definition idle_of :: "string \<Rightarrow> agent_pool \<Rightarrow> aconn list" where
  "idle_of r p = (case ap_idle p r of None \<Rightarrow> [] | Some l \<Rightarrow> l)"

definition waiters_of :: "string \<Rightarrow> agent_pool \<Rightarrow> nat list" where
  "waiters_of r p = (case ap_waiters p r of None \<Rightarrow> [] | Some ws \<Rightarrow> ws)"

text \<open>
  \<open>add\<close>: the connection goes to a waiter if there is one, whichever the iteration over the map yields
  first (\<open>pick\<close>), otherwise to the end of the idle list.
\<close>

definition ap_add :: "aconn \<Rightarrow> nat \<Rightarrow> agent_pool \<Rightarrow> nat option \<times> agent_pool" where
  "ap_add c pick p =
     (let ws = waiters_of (ac_route c) p
      in if ws \<noteq> [] then (Some pick, p\<lparr>ap_waiters := (ap_waiters p)(ac_route c \<mapsto> remove1 pick ws)\<rparr>)
         else (None, p\<lparr>ap_idle := (ap_idle p)(ac_route c \<mapsto> idle_of (ac_route c) p @ [c])\<rparr>))"

text \<open>One turn of the loop of \<open>take\<close>: the first idle connection, or a new waiter \<open>w\<close>.\<close>

definition ap_take :: "string \<Rightarrow> nat \<Rightarrow> agent_pool \<Rightarrow> aconn option \<times> agent_pool" where
  "ap_take r w p = (case idle_of r p of
     c # l \<Rightarrow> (Some c, p\<lparr>ap_idle := (ap_idle p)(r \<mapsto> l)\<rparr>)
   | [] \<Rightarrow> (None, p\<lparr>ap_waiters := (ap_waiters p)(r \<mapsto> waiters_of r p @ [w])\<rparr>))"

definition ap_removeIdle :: "aconn \<Rightarrow> agent_pool \<Rightarrow> bool \<times> agent_pool" where
  "ap_removeIdle c p = (case ap_idle p (ac_route c) of
     None \<Rightarrow> (False, p)
   | Some l \<Rightarrow>
       if c \<in> set l then
         (True, p\<lparr>ap_idle := (ap_idle p)(ac_route c := (if remove1 c l = [] then None else Some (remove1 c l)))\<rparr>)
       else (False, p))"

definition ap_removeWaiter :: "string \<Rightarrow> nat \<Rightarrow> agent_pool \<Rightarrow> agent_pool" where
  "ap_removeWaiter r w p = (case ap_waiters p r of
     None \<Rightarrow> p
   | Some ws \<Rightarrow>
       if w \<in> set ws then
         p\<lparr>ap_waiters := (ap_waiters p)(r := (if remove1 w ws = [] then None else Some (remove1 w ws)))\<rparr>
       else p)"

section \<open>The goroutines\<close>

text \<open>Where a call of \<open>take\<close> stands.\<close>

datatype taker = Looping string | Probing string aconn | Waiting string nat

record ap_sys =
  sy_pool :: agent_pool
  sy_box :: "nat \<rightharpoonup> aconn"
  sy_takers :: "nat \<rightharpoonup> taker"
  sy_added :: "aconn set"
  sy_taken :: "aconn set"
  sy_closed :: "aconn set"
  sy_fresh :: nat

definition ap_start :: ap_sys where
  "ap_start = \<lparr>sy_pool = newAgentPool, sy_box = Map.empty, sy_takers = Map.empty, sy_added = {}, sy_taken = {},
     sy_closed = {}, sy_fresh = 0\<rparr>"

inductive ap_step :: "ap_sys \<Rightarrow> ap_sys \<Rightarrow> bool" where
  ap_add_wait: "c \<notin> sy_added s \<Longrightarrow> pick \<in> set (waiters_of (ac_route c) (sy_pool s)) \<Longrightarrow>
     ap_add c pick (sy_pool s) = (Some w, p') \<Longrightarrow>
     ap_step s (s\<lparr>sy_pool := p', sy_box := (sy_box s)(w \<mapsto> c), sy_added := insert c (sy_added s)\<rparr>)"
| ap_add_idle: "c \<notin> sy_added s \<Longrightarrow> ap_add c pick (sy_pool s) = (None, p') \<Longrightarrow>
     ap_step s (s\<lparr>sy_pool := p', sy_added := insert c (sy_added s)\<rparr>)"
| ap_call: "sy_takers s t = None \<Longrightarrow> ap_step s (s\<lparr>sy_takers := (sy_takers s)(t \<mapsto> Looping r)\<rparr>)"
| ap_turn_idle: "sy_takers s t = Some (Looping r) \<Longrightarrow> ap_take r (sy_fresh s) (sy_pool s) = (Some c, p') \<Longrightarrow>
     ap_step s (s\<lparr>sy_pool := p', sy_takers := (sy_takers s)(t \<mapsto> Probing r c)\<rparr>)"
| ap_turn_wait: "sy_takers s t = Some (Looping r) \<Longrightarrow> ap_take r (sy_fresh s) (sy_pool s) = (None, p') \<Longrightarrow>
     ap_step s (s\<lparr>sy_pool := p', sy_takers := (sy_takers s)(t \<mapsto> Waiting r (sy_fresh s)), sy_fresh := Suc (sy_fresh s)\<rparr>)"
| ap_alive: "sy_takers s t = Some (Probing r c) \<Longrightarrow>
     ap_step s (s\<lparr>sy_takers := (sy_takers s)(t := None), sy_taken := insert c (sy_taken s)\<rparr>)"
| ap_dead: "sy_takers s t = Some (Probing r c) \<Longrightarrow>
     ap_step s (s\<lparr>sy_takers := (sy_takers s)(t \<mapsto> Looping r), sy_closed := insert c (sy_closed s)\<rparr>)"
| ap_receive: "sy_takers s t = Some (Waiting r w) \<Longrightarrow> sy_box s w = Some c \<Longrightarrow>
     ap_step s (s\<lparr>sy_box := (sy_box s)(w := None), sy_takers := (sy_takers s)(t \<mapsto> Probing r c)\<rparr>)"
| ap_cancel: "sy_takers s t = Some (Waiting r w) \<Longrightarrow>
     ap_step s (s\<lparr>sy_pool := ap_removeWaiter r w (sy_pool s), sy_takers := (sy_takers s)(t := None)\<rparr>)"
| ap_gone: "c \<in> sy_added s \<Longrightarrow> ap_removeIdle c (sy_pool s) = (True, p') \<Longrightarrow>
     ap_step s (s\<lparr>sy_pool := p', sy_closed := insert c (sy_closed s)\<rparr>)"

inductive_cases ap_stepE: "ap_step s s'"

abbreviation ap_reachable :: "ap_sys \<Rightarrow> bool" where
  "ap_reachable s \<equiv> ap_step\<^sup>*\<^sup>* ap_start s"

text \<open>Where a connection is.\<close>

datatype conn_place = InIdle | InBox nat | InProbe nat | InTaken | InClosed

fun is_at :: "ap_sys \<Rightarrow> aconn \<Rightarrow> conn_place \<Rightarrow> bool" where
  "is_at s c InIdle \<longleftrightarrow> c \<in> set (idle_of (ac_route c) (sy_pool s))"
| "is_at s c (InBox w) \<longleftrightarrow> sy_box s w = Some c"
| "is_at s c (InProbe t) \<longleftrightarrow> (\<exists>r. sy_takers s t = Some (Probing r c))"
| "is_at s c InTaken \<longleftrightarrow> c \<in> sy_taken s"
| "is_at s c InClosed \<longleftrightarrow> c \<in> sy_closed s"

text \<open>
  The invariant: the idle lists have no duplicates and only connections of their route, a connection is
  somewhere exactly when it was added, and only in one place; the waiting channels of a route are those
  of the waiting takers that got nothing yet, and they exist only while no connection is idle.
\<close>

definition ap_lists :: "ap_sys \<Rightarrow> bool" where
  "ap_lists s \<longleftrightarrow> (\<forall>r. distinct (idle_of r (sy_pool s)) \<and> (\<forall>c \<in> set (idle_of r (sy_pool s)). ac_route c = r))"

definition ap_placed :: "ap_sys \<Rightarrow> bool" where
  "ap_placed s \<longleftrightarrow> (\<forall>c. c \<in> sy_added s \<longleftrightarrow> (\<exists>p. is_at s c p)) \<and>
     (\<forall>c p q. is_at s c p \<longrightarrow> is_at s c q \<longrightarrow> p = q)"

definition ap_waits :: "ap_sys \<Rightarrow> bool" where
  "ap_waits s \<longleftrightarrow>
     (\<forall>r. distinct (waiters_of r (sy_pool s))) \<and>
     (\<forall>r w. w \<in> set (waiters_of r (sy_pool s)) \<longleftrightarrow> (\<exists>t. sy_takers s t = Some (Waiting r w)) \<and> sy_box s w = None) \<and>
     (\<forall>t r w. sy_takers s t = Some (Waiting r w) \<longrightarrow> w < sy_fresh s) \<and>
     (\<forall>w c. sy_box s w = Some c \<longrightarrow> w < sy_fresh s) \<and>
     (\<forall>t t' r r' w. sy_takers s t = Some (Waiting r w) \<longrightarrow> sy_takers s t' = Some (Waiting r' w) \<longrightarrow> t = t' \<and> r = r') \<and>
     (\<forall>r. waiters_of r (sy_pool s) \<noteq> [] \<longrightarrow> idle_of r (sy_pool s) = [])"

definition ap_inv :: "ap_sys \<Rightarrow> bool" where
  "ap_inv s \<longleftrightarrow> ap_lists s \<and> ap_placed s \<and> ap_waits s"

lemma idle_upd [simp]: "idle_of r (p\<lparr>ap_idle := (ap_idle p)(r' := v)\<rparr>) = (if r = r' then (case v of None \<Rightarrow> [] | Some l \<Rightarrow> l) else idle_of r p)"
  "idle_of r (p\<lparr>ap_waiters := ws\<rparr>) = idle_of r p"
  by (simp_all add: idle_of_def)

lemma waiters_upd [simp]: "waiters_of r (p\<lparr>ap_waiters := (ap_waiters p)(r' := v)\<rparr>) = (if r = r' then (case v of None \<Rightarrow> [] | Some l \<Rightarrow> l) else waiters_of r p)"
  "waiters_of r (p\<lparr>ap_idle := ws\<rparr>) = waiters_of r p"
  by (simp_all add: waiters_of_def)

lemma removeIdle_eq:
  "ap_removeIdle c p = (b, p') \<Longrightarrow> b = (c \<in> set (idle_of (ac_route c) p)) \<and>
     waiters_of r p' = waiters_of r p \<and>
     idle_of r p' = (if r = ac_route c then remove1 c (idle_of r p) else idle_of r p)"
  by (auto simp: ap_removeIdle_def idle_of_def waiters_of_def remove1_idem split: option.splits if_splits)

lemma removeWaiter_eq:
  "waiters_of r (ap_removeWaiter r' w p) = (if r = r' then remove1 w (waiters_of r p) else waiters_of r p)"
  "idle_of r (ap_removeWaiter r' w p) = idle_of r p"
  by (auto simp: ap_removeWaiter_def idle_of_def waiters_of_def remove1_idem split: option.splits if_splits)

lemma ap_add_eq:
  "ap_add c pick p = (Some w, p') \<Longrightarrow> w = pick \<and> waiters_of (ac_route c) p \<noteq> [] \<and>
     waiters_of r p' = (if r = ac_route c then remove1 pick (waiters_of r p) else waiters_of r p) \<and> idle_of r p' = idle_of r p"
  "ap_add c pick p = (None, p') \<Longrightarrow> waiters_of (ac_route c) p = [] \<and> waiters_of r p' = waiters_of r p \<and>
     idle_of r p' = (if r = ac_route c then idle_of r p @ [c] else idle_of r p)"
  by (auto simp: ap_add_def Let_def split: if_splits)

lemma ap_take_eq:
  "ap_take r0 w p = (Some c, p') \<Longrightarrow> idle_of r0 p = c # idle_of r0 p' \<and> waiters_of r p' = waiters_of r p \<and>
     (r \<noteq> r0 \<longrightarrow> idle_of r p' = idle_of r p)"
  "ap_take r0 w p = (None, p') \<Longrightarrow> idle_of r0 p = [] \<and> idle_of r p' = idle_of r p \<and>
     waiters_of r p' = (if r = r0 then waiters_of r p @ [w] else waiters_of r p)"
  by (auto simp: ap_take_def split: list.splits)

lemma placed_only: "ap_placed s \<Longrightarrow> is_at s c p \<Longrightarrow> is_at s c q \<longleftrightarrow> q = p"
  unfolding ap_placed_def by blast

lemma placed_new: "ap_placed s \<Longrightarrow> c \<notin> sy_added s \<Longrightarrow> \<not> is_at s c q"
  unfolding ap_placed_def by blast

text \<open>Moving one connection keeps the others in their places.\<close>

lemma placed_move:
  assumes "ap_placed s" "sy_added s' = insert c (sy_added s)"
    and "\<And>c' q. is_at s' c' q \<longleftrightarrow> (if c' = c then q = p else is_at s c' q)"
  shows "ap_placed s'"
  using assms(1) unfolding ap_placed_def assms(2,3) by auto

lemma placed_same:
  assumes "ap_placed s" "sy_added s' = sy_added s" and "\<And>c' q. is_at s' c' q \<longleftrightarrow> is_at s c' q"
  shows "ap_placed s'"
  using assms(1) unfolding ap_placed_def assms(2,3) by auto

lemma placed_added: "ap_placed s \<Longrightarrow> is_at s c p \<Longrightarrow> insert c (sy_added s) = sy_added s"
  unfolding ap_placed_def by blast

lemma step_lists: "ap_lists s \<Longrightarrow> ap_placed s \<Longrightarrow> ap_step s s' \<Longrightarrow> ap_lists s'"
proof (erule ap_stepE)
  fix c pick w p' assume a: "ap_lists s" "s' = s\<lparr>sy_pool := p', sy_box := (sy_box s)(w \<mapsto> c), sy_added := insert c (sy_added s)\<rparr>"
    "ap_add c pick (sy_pool s) = (Some w, p')"
  then show ?thesis using ap_add_eq(1) [OF a(3)] by (simp add: ap_lists_def)
next
  fix c pick p' assume a: "ap_lists s" "ap_placed s" "s' = s\<lparr>sy_pool := p', sy_added := insert c (sy_added s)\<rparr>"
    "c \<notin> sy_added s" "ap_add c pick (sy_pool s) = (None, p')"
  then have "c \<notin> set (idle_of (ac_route c) (sy_pool s))" using placed_new [OF a(2,4), of InIdle] by simp
  with a(1,3) show ?thesis using ap_add_eq(2) [OF a(5)] by (auto simp: ap_lists_def)
next
  fix t r c p' assume a: "ap_lists s" "s' = s\<lparr>sy_pool := p', sy_takers := (sy_takers s)(t \<mapsto> Probing r c)\<rparr>"
    "ap_take r (sy_fresh s) (sy_pool s) = (Some c, p')"
  have "distinct (idle_of r' p') \<and> (\<forall>c \<in> set (idle_of r' p'). ac_route c = r')" for r'
  proof (cases "r' = r")
    case True
    have "distinct (c # idle_of r p') \<and> (\<forall>x \<in> set (c # idle_of r p'). ac_route x = r)"
      using a(1) ap_take_eq(1) [OF a(3)] unfolding ap_lists_def by metis
    with True show ?thesis by simp
  next
    case False
    with a(1) ap_take_eq(1) [OF a(3), of r'] show ?thesis by (simp add: ap_lists_def)
  qed
  with a(2) show ?thesis by (simp add: ap_lists_def)
next
  fix t r p' assume a: "ap_lists s" "ap_take r (sy_fresh s) (sy_pool s) = (None, p')"
    "s' = s\<lparr>sy_pool := p', sy_takers := (sy_takers s)(t \<mapsto> Waiting r (sy_fresh s)), sy_fresh := Suc (sy_fresh s)\<rparr>"
  then show ?thesis using ap_take_eq(2) [OF a(2)] by (simp add: ap_lists_def)
next
  fix c p' assume a: "ap_lists s" "s' = s\<lparr>sy_pool := p', sy_closed := insert c (sy_closed s)\<rparr>" "ap_removeIdle c (sy_pool s) = (True, p')"
  then show ?thesis using removeIdle_eq [OF a(3)] by (auto simp: ap_lists_def dest: notin_set_remove1)
qed (simp_all add: ap_lists_def removeWaiter_eq)

lemma step_placed:
  assumes l: "ap_lists s" and p: "ap_placed s" and w: "ap_waits s" and step: "ap_step s s'"
  shows "ap_placed s'"
  using step
proof (rule ap_stepE)
  fix c pick w p' assume a: "s' = s\<lparr>sy_pool := p', sy_box := (sy_box s)(w \<mapsto> c), sy_added := insert c (sy_added s)\<rparr>"
    "c \<notin> sy_added s" "pick \<in> set (waiters_of (ac_route c) (sy_pool s))" "ap_add c pick (sy_pool s) = (Some w, p')"
  have "sy_box s w = None" using w a(3) ap_add_eq(1) [OF a(4)] unfolding ap_waits_def by blast
  show ?thesis
  proof (rule placed_move [OF p, of s' c "InBox w"])
    fix c' q
    show "is_at s' c' q \<longleftrightarrow> (if c' = c then q = InBox w else is_at s c' q)"
      using placed_new [OF p a(2), of q] ap_add_eq(1) [OF a(4)] \<open>sy_box s w = None\<close>
      by (cases q) (auto simp: a(1))
  qed (simp add: a(1))
next
  fix c pick p' assume a: "s' = s\<lparr>sy_pool := p', sy_added := insert c (sy_added s)\<rparr>"
    "c \<notin> sy_added s" "ap_add c pick (sy_pool s) = (None, p')"
  show ?thesis
  proof (rule placed_move [OF p, of s' c InIdle])
    fix c' q
    show "is_at s' c' q \<longleftrightarrow> (if c' = c then q = InIdle else is_at s c' q)"
      using placed_new [OF p a(2), of q] ap_add_eq(2) [OF a(3), of "ac_route c'"]
      by (cases q) (auto simp: a(1))
  qed (simp add: a(1))
next
  fix t r assume "s' = s\<lparr>sy_takers := (sy_takers s)(t \<mapsto> Looping r)\<rparr>" "sy_takers s t = None"
  then show ?thesis
    by (intro placed_same [OF p]) (simp, rename_tac c' q, case_tac q, auto)
next
  fix t r c p' assume a: "s' = s\<lparr>sy_pool := p', sy_takers := (sy_takers s)(t \<mapsto> Probing r c)\<rparr>"
    "sy_takers s t = Some (Looping r)" "ap_take r (sy_fresh s) (sy_pool s) = (Some c, p')"
  have idle: "idle_of r (sy_pool s) = c # idle_of r p'" "\<And>r'. r' \<noteq> r \<Longrightarrow> idle_of r' p' = idle_of r' (sy_pool s)"
    using ap_take_eq(1) [OF a(3)] by auto
  have c: "ac_route c = r" "c \<notin> set (idle_of r p')" using l idle(1) unfolding ap_lists_def
    by (metis list.set_intros(1)) (metis l ap_lists_def distinct.simps(2) idle(1))
  then have at: "is_at s c InIdle" using idle by simp
  show ?thesis
  proof (rule placed_move [OF p, of s' c "InProbe t"])
    show "sy_added s' = insert c (sy_added s)" using placed_added [OF p at] by (simp add: a(1))
    fix c' q
    show "is_at s' c' q \<longleftrightarrow> (if c' = c then q = InProbe t else is_at s c' q)"
      using placed_only [OF p at, of q] a(2) c idle by (cases q; cases "ac_route c' = r") (auto simp: a(1))
  qed
next
  fix t r p' assume a: "s' = s\<lparr>sy_pool := p', sy_takers := (sy_takers s)(t \<mapsto> Waiting r (sy_fresh s)), sy_fresh := Suc (sy_fresh s)\<rparr>"
    "sy_takers s t = Some (Looping r)" "ap_take r (sy_fresh s) (sy_pool s) = (None, p')"
  then show ?thesis using ap_take_eq(2) [OF a(3)]
    by (intro placed_same [OF p]) (simp, rename_tac c' q, case_tac q, auto)
next
  fix t r c assume a: "s' = s\<lparr>sy_takers := (sy_takers s)(t := None), sy_taken := insert c (sy_taken s)\<rparr>"
    "sy_takers s t = Some (Probing r c)"
  have at: "is_at s c (InProbe t)" using a(2) by simp
  show ?thesis
  proof (rule placed_move [OF p, of s' c InTaken])
    show "sy_added s' = insert c (sy_added s)" using placed_added [OF p at] by (simp add: a(1))
    fix c' q
    show "is_at s' c' q \<longleftrightarrow> (if c' = c then q = InTaken else is_at s c' q)"
      using placed_only [OF p at, of q] a(2) by (cases q) (auto simp: a(1))
  qed
next
  fix t r c assume a: "s' = s\<lparr>sy_takers := (sy_takers s)(t \<mapsto> Looping r), sy_closed := insert c (sy_closed s)\<rparr>"
    "sy_takers s t = Some (Probing r c)"
  have at: "is_at s c (InProbe t)" using a(2) by simp
  show ?thesis
  proof (rule placed_move [OF p, of s' c InClosed])
    show "sy_added s' = insert c (sy_added s)" using placed_added [OF p at] by (simp add: a(1))
    fix c' q
    show "is_at s' c' q \<longleftrightarrow> (if c' = c then q = InClosed else is_at s c' q)"
      using placed_only [OF p at, of q] a(2) by (cases q) (auto simp: a(1))
  qed
next
  fix t r w c assume a: "s' = s\<lparr>sy_box := (sy_box s)(w := None), sy_takers := (sy_takers s)(t \<mapsto> Probing r c)\<rparr>"
    "sy_takers s t = Some (Waiting r w)" "sy_box s w = Some c"
  have at: "is_at s c (InBox w)" using a(3) by simp
  show ?thesis
  proof (rule placed_move [OF p, of s' c "InProbe t"])
    show "sy_added s' = insert c (sy_added s)" using placed_added [OF p at] by (simp add: a(1))
    fix c' q
    show "is_at s' c' q \<longleftrightarrow> (if c' = c then q = InProbe t else is_at s c' q)"
      using placed_only [OF p at, of q] a(2,3) by (cases q) (auto simp: a(1))
  qed
next
  fix t r w assume "s' = s\<lparr>sy_pool := ap_removeWaiter r w (sy_pool s), sy_takers := (sy_takers s)(t := None)\<rparr>"
    "sy_takers s t = Some (Waiting r w)"
  then show ?thesis
    by (intro placed_same [OF p]) (simp, rename_tac c' q, case_tac q, auto simp: removeWaiter_eq)
next
  fix c p' assume a: "s' = s\<lparr>sy_pool := p', sy_closed := insert c (sy_closed s)\<rparr>" "c \<in> sy_added s"
    "ap_removeIdle c (sy_pool s) = (True, p')"
  have at: "is_at s c InIdle" using removeIdle_eq [OF a(3)] by simp
  have d: "distinct (idle_of r (sy_pool s))" for r using l by (simp add: ap_lists_def)
  show ?thesis
  proof (rule placed_move [OF p, of s' c InClosed])
    show "sy_added s' = insert c (sy_added s)" using placed_added [OF p at] by (simp add: a(1))
    fix c' q
    show "is_at s' c' q \<longleftrightarrow> (if c' = c then q = InClosed else is_at s c' q)"
      using placed_only [OF p at, of q] removeIdle_eq [OF a(3), of "ac_route c'"] d
      by (cases q) (auto simp: a(1))
  qed
qed


lemma waitsD:
  assumes "ap_waits s"
  shows "distinct (waiters_of r (sy_pool s))"
    "w \<in> set (waiters_of r (sy_pool s)) \<longleftrightarrow> (\<exists>t. sy_takers s t = Some (Waiting r w)) \<and> sy_box s w = None"
    "sy_takers s t = Some (Waiting r w) \<Longrightarrow> w < sy_fresh s"
    "sy_box s w = Some c \<Longrightarrow> w < sy_fresh s"
    "sy_takers s t = Some (Waiting r w) \<Longrightarrow> sy_takers s t' = Some (Waiting r' w) \<Longrightarrow> t = t' \<and> r = r'"
    "waiters_of r (sy_pool s) \<noteq> [] \<Longrightarrow> idle_of r (sy_pool s) = []"
  using assms unfolding ap_waits_def by blast+

lemma waitsI:
  assumes "\<And>r. distinct (waiters_of r (sy_pool s))"
    "\<And>r w. w \<in> set (waiters_of r (sy_pool s)) \<longleftrightarrow> (\<exists>t. sy_takers s t = Some (Waiting r w)) \<and> sy_box s w = None"
    "\<And>t r w. sy_takers s t = Some (Waiting r w) \<Longrightarrow> w < sy_fresh s"
    "\<And>w c. sy_box s w = Some c \<Longrightarrow> w < sy_fresh s"
    "\<And>t t' r r' w. sy_takers s t = Some (Waiting r w) \<Longrightarrow> sy_takers s t' = Some (Waiting r' w) \<Longrightarrow> t = t' \<and> r = r'"
    "\<And>r. waiters_of r (sy_pool s) \<noteq> [] \<Longrightarrow> idle_of r (sy_pool s) = []"
  shows "ap_waits s"
  using assms unfolding ap_waits_def by blast

lemma step_waits:
  assumes w: "ap_waits s" and step: "ap_step s s'"
  shows "ap_waits s'"
  using step
proof (rule ap_stepE)
  fix c pick v p' assume a: "s' = s\<lparr>sy_pool := p', sy_box := (sy_box s)(v \<mapsto> c), sy_added := insert c (sy_added s)\<rparr>"
    "pick \<in> set (waiters_of (ac_route c) (sy_pool s))" "ap_add c pick (sy_pool s) = (Some v, p')"
  note e = ap_add_eq(1) [OF a(3)]
  have v: "v = pick" using e by blast
  obtain t where t: "sy_takers s t = Some (Waiting (ac_route c) v)" using waitsD(2) [OF w] a(2) v by blast
  show ?thesis
  proof (rule waitsI)
    fix r u
    show "distinct (waiters_of r (sy_pool s'))" using e [of r] waitsD(1) [OF w, of r] by (auto simp: a(1))
    have nv: "r \<noteq> ac_route c \<Longrightarrow> v \<notin> set (waiters_of r (sy_pool s))"
      using waitsD(2) [OF w, of v r] waitsD(5) [OF w t, of _ r] by blast
    have "u \<in> set (waiters_of r p') \<longleftrightarrow> u \<noteq> v \<and> u \<in> set (waiters_of r (sy_pool s))"
      using e [of r] waitsD(1) [OF w, of r] nv by (cases "r = ac_route c") auto
    then show "u \<in> set (waiters_of r (sy_pool s')) \<longleftrightarrow> (\<exists>t. sy_takers s' t = Some (Waiting r u)) \<and> sy_box s' u = None"
      using waitsD(2) [OF w, of u r] by (auto simp: a(1))
    show "waiters_of r (sy_pool s') \<noteq> [] \<Longrightarrow> idle_of r (sy_pool s') = []"
      using e [of r] waitsD(6) [OF w, of r] by (cases "r = ac_route c") (auto simp: a(1))
    fix d assume "sy_box s' u = Some d"
    then show "u < sy_fresh s'"
      using waitsD(4) [OF w, of u d] waitsD(3) [OF w t] by (cases "u = v") (simp_all add: a(1))
  next
    fix t r u assume "sy_takers s' t = Some (Waiting r u)"
    then show "u < sy_fresh s'" using waitsD(3) [OF w, of t r u] by (simp add: a(1))
  next
    fix t t' r r' u assume "sy_takers s' t = Some (Waiting r u)" "sy_takers s' t' = Some (Waiting r' u)"
    then show "t = t' \<and> r = r'" using waitsD(5) [OF w, of t r u t' r'] by (simp add: a(1))
  qed
next
  fix c pick p' assume a: "s' = s\<lparr>sy_pool := p', sy_added := insert c (sy_added s)\<rparr>" "ap_add c pick (sy_pool s) = (None, p')"
  note e = ap_add_eq(2) [OF a(2)]
  have "waiters_of r p' = waiters_of r (sy_pool s)" for r using e by blast
  moreover have "waiters_of r p' \<noteq> [] \<longrightarrow> idle_of r p' = []" for r
    using e [of r] waitsD(6) [OF w, of r] by auto
  ultimately show ?thesis using w unfolding ap_waits_def by (simp add: a(1))
next
  fix t r assume a: "s' = s\<lparr>sy_takers := (sy_takers s)(t \<mapsto> Looping r)\<rparr>" "sy_takers s t = None"
  then have "(sy_takers s' t' = Some (Waiting r' u)) = (sy_takers s t' = Some (Waiting r' u))" for t' r' u by auto
  then show ?thesis using w unfolding ap_waits_def by (simp add: a(1))
next
  fix t r c p' assume a: "s' = s\<lparr>sy_pool := p', sy_takers := (sy_takers s)(t \<mapsto> Probing r c)\<rparr>"
    "sy_takers s t = Some (Looping r)" "ap_take r (sy_fresh s) (sy_pool s) = (Some c, p')"
  then have "(sy_takers s' t' = Some (Waiting r' u)) = (sy_takers s t' = Some (Waiting r' u))" for t' r' u by auto
  moreover have "waiters_of r' p' = waiters_of r' (sy_pool s)" for r' using ap_take_eq(1) [OF a(3)] by blast
  moreover have "waiters_of r' p' \<noteq> [] \<longrightarrow> idle_of r' p' = []" for r'
    using ap_take_eq(1) [OF a(3), of r'] waitsD(6) [OF w, of r'] by (cases "r' = r") auto
  ultimately show ?thesis using w unfolding ap_waits_def by (simp add: a(1))
next
  fix t r p' assume a: "s' = s\<lparr>sy_pool := p', sy_takers := (sy_takers s)(t \<mapsto> Waiting r (sy_fresh s)), sy_fresh := Suc (sy_fresh s)\<rparr>"
    "sy_takers s t = Some (Looping r)" "ap_take r (sy_fresh s) (sy_pool s) = (None, p')"
  note e = ap_take_eq(2) [OF a(3)]
  have tk: "(sy_takers s' t' = Some (Waiting r' u)) =
      (if t' = t then r' = r \<and> u = sy_fresh s else sy_takers s t' = Some (Waiting r' u))" for t' r' u by (auto simp: a(1))
  have lt: "sy_takers s t' = Some (Waiting r' u) \<Longrightarrow> u \<noteq> sy_fresh s" for t' r' u using waitsD(3) [OF w] by blast
  have box: "sy_box s (sy_fresh s) = None" using waitsD(4) [OF w] by (cases "sy_box s (sy_fresh s)") auto
  have new: "sy_fresh s \<notin> set (waiters_of r' (sy_pool s))" for r' using waitsD(2) [OF w] lt by blast
  have ex: "(\<exists>t'. sy_takers s' t' = Some (Waiting r' u)) \<longleftrightarrow>
      (r' = r \<and> u = sy_fresh s) \<or> (\<exists>t'. sy_takers s t' = Some (Waiting r' u))" for r' u
    unfolding tk using a(2) by (metis option.inject taker.distinct(3))
  have s': "sy_pool s' = p'" "sy_box s' = sy_box s" "sy_fresh s' = Suc (sy_fresh s)" by (simp_all add: a(1))
  show ?thesis
  proof (rule waitsI)
    fix r' u
    show "distinct (waiters_of r' (sy_pool s'))"
      using e [of r'] waitsD(1) [OF w, of r'] new [of r'] by (auto simp: s')
    show "u \<in> set (waiters_of r' (sy_pool s')) \<longleftrightarrow> (\<exists>t'. sy_takers s' t' = Some (Waiting r' u)) \<and> sy_box s' u = None"
      unfolding ex s' using e [of r'] waitsD(2) [OF w, of u r'] box by auto
    show "waiters_of r' (sy_pool s') \<noteq> [] \<Longrightarrow> idle_of r' (sy_pool s') = []"
      using e [of r'] waitsD(6) [OF w, of r'] by (cases "r' = r") (auto simp: s')
    fix d assume "sy_box s' u = Some d"
    then show "u < sy_fresh s'" using waitsD(4) [OF w, of u d] by (simp add: s')
  next
    fix t' r' u assume "sy_takers s' t' = Some (Waiting r' u)"
    then show "u < sy_fresh s'" using waitsD(3) [OF w, of t' r' u] by (auto simp: s' tk split: if_splits)
  next
    fix t1 t2 r1 r2 u assume "sy_takers s' t1 = Some (Waiting r1 u)" "sy_takers s' t2 = Some (Waiting r2 u)"
    then show "t1 = t2 \<and> r1 = r2"
      using waitsD(5) [OF w, of t1 r1 u t2 r2] lt [of t1 r1 u] lt [of t2 r2 u] unfolding tk by (auto split: if_splits)
  qed
next
  fix t r c assume a: "s' = s\<lparr>sy_takers := (sy_takers s)(t := None), sy_taken := insert c (sy_taken s)\<rparr>"
    "sy_takers s t = Some (Probing r c)"
  then have "(sy_takers s' t' = Some (Waiting r' u)) = (sy_takers s t' = Some (Waiting r' u))" for t' r' u by auto
  then show ?thesis using w unfolding ap_waits_def by (simp add: a(1))
next
  fix t r c assume a: "s' = s\<lparr>sy_takers := (sy_takers s)(t \<mapsto> Looping r), sy_closed := insert c (sy_closed s)\<rparr>"
    "sy_takers s t = Some (Probing r c)"
  then have "(sy_takers s' t' = Some (Waiting r' u)) = (sy_takers s t' = Some (Waiting r' u))" for t' r' u by auto
  then show ?thesis using w unfolding ap_waits_def by (simp add: a(1))
next
  fix t r v c assume a: "s' = s\<lparr>sy_box := (sy_box s)(v := None), sy_takers := (sy_takers s)(t \<mapsto> Probing r c)\<rparr>"
    "sy_takers s t = Some (Waiting r v)" "sy_box s v = Some c"
  have tk: "(sy_takers s' t' = Some (Waiting r' u)) = (t' \<noteq> t \<and> sy_takers s t' = Some (Waiting r' u))" for t' r' u by (auto simp: a(1))
  have s': "sy_pool s' = sy_pool s" "sy_box s' = (sy_box s)(v := None)" "sy_fresh s' = sy_fresh s" by (simp_all add: a(1))
  show ?thesis
  proof (rule waitsI)
    fix r' u
    show "distinct (waiters_of r' (sy_pool s'))" using waitsD(1) [OF w, of r'] by (simp add: s')
    show "u \<in> set (waiters_of r' (sy_pool s')) \<longleftrightarrow> (\<exists>t'. sy_takers s' t' = Some (Waiting r' u)) \<and> sy_box s' u = None"
    proof (cases "u = v")
      case True
      then have "\<not> (\<exists>t'. sy_takers s' t' = Some (Waiting r' u))" using waitsD(5) [OF w a(2), of _ r'] unfolding tk by blast
      with True a(3) waitsD(2) [OF w, of u r'] show ?thesis by (simp add: s')
    next
      case False
      then have "(\<exists>t'. sy_takers s' t' = Some (Waiting r' u)) \<longleftrightarrow> (\<exists>t'. sy_takers s t' = Some (Waiting r' u))"
        unfolding tk using a(2) by (metis option.inject taker.inject(3))
      with False waitsD(2) [OF w, of u r'] show ?thesis by (simp add: s')
    qed
    show "waiters_of r' (sy_pool s') \<noteq> [] \<Longrightarrow> idle_of r' (sy_pool s') = []"
      using waitsD(6) [OF w, of r'] by (simp add: s')
    fix d assume "sy_box s' u = Some d"
    then show "u < sy_fresh s'" using waitsD(4) [OF w, of u d] by (simp add: s' split: if_splits)
  next
    fix t' r' u assume "sy_takers s' t' = Some (Waiting r' u)"
    then show "u < sy_fresh s'" using waitsD(3) [OF w, of t' r' u] by (simp add: s' tk)
  next
    fix t1 t2 r1 r2 u assume "sy_takers s' t1 = Some (Waiting r1 u)" "sy_takers s' t2 = Some (Waiting r2 u)"
    then show "t1 = t2 \<and> r1 = r2" using waitsD(5) [OF w, of t1 r1 u t2 r2] by (simp add: tk)
  qed
next
  fix t r v assume a: "s' = s\<lparr>sy_pool := ap_removeWaiter r v (sy_pool s), sy_takers := (sy_takers s)(t := None)\<rparr>"
    "sy_takers s t = Some (Waiting r v)"
  have tk: "(sy_takers s' t' = Some (Waiting r' u)) = (t' \<noteq> t \<and> sy_takers s t' = Some (Waiting r' u))" for t' r' u by (auto simp: a(1))
  have s': "sy_pool s' = ap_removeWaiter r v (sy_pool s)" "sy_box s' = sy_box s" "sy_fresh s' = sy_fresh s" by (simp_all add: a(1))
  show ?thesis
  proof (rule waitsI)
    fix r' u
    show "distinct (waiters_of r' (sy_pool s'))" using waitsD(1) [OF w, of r'] by (auto simp: s' removeWaiter_eq)
    show "u \<in> set (waiters_of r' (sy_pool s')) \<longleftrightarrow> (\<exists>t'. sy_takers s' t' = Some (Waiting r' u)) \<and> sy_box s' u = None"
    proof (cases "u = v")
      case True
      then have "\<not> (\<exists>t'. sy_takers s' t' = Some (Waiting r' u))" using waitsD(5) [OF w a(2), of _ r'] unfolding tk by blast
      moreover have "u \<notin> set (waiters_of r' (sy_pool s'))"
        using True waitsD(1) [OF w, of r'] waitsD(2) [OF w, of u r'] waitsD(5) [OF w a(2), of _ r']
        by (cases "r' = r") (auto simp: s' removeWaiter_eq)
      ultimately show ?thesis by blast
    next
      case False
      then have "(\<exists>t'. sy_takers s' t' = Some (Waiting r' u)) \<longleftrightarrow> (\<exists>t'. sy_takers s t' = Some (Waiting r' u))"
        unfolding tk using a(2) by (metis option.inject taker.inject(3))
      with False waitsD(2) [OF w, of u r'] show ?thesis by (auto simp: s' removeWaiter_eq)
    qed
    show "waiters_of r' (sy_pool s') \<noteq> [] \<Longrightarrow> idle_of r' (sy_pool s') = []"
      using waitsD(6) [OF w, of r'] by (cases "waiters_of r' (sy_pool s) = []") (auto simp: s' removeWaiter_eq split: if_splits)
    fix d assume "sy_box s' u = Some d"
    then show "u < sy_fresh s'" using waitsD(4) [OF w, of u d] by (simp add: s')
  next
    fix t' r' u assume "sy_takers s' t' = Some (Waiting r' u)"
    then show "u < sy_fresh s'" using waitsD(3) [OF w, of t' r' u] by (simp add: s' tk)
  next
    fix t1 t2 r1 r2 u assume "sy_takers s' t1 = Some (Waiting r1 u)" "sy_takers s' t2 = Some (Waiting r2 u)"
    then show "t1 = t2 \<and> r1 = r2" using waitsD(5) [OF w, of t1 r1 u t2 r2] by (simp add: tk)
  qed
next
  fix c p' assume a: "s' = s\<lparr>sy_pool := p', sy_closed := insert c (sy_closed s)\<rparr>" "ap_removeIdle c (sy_pool s) = (True, p')"
  note e = removeIdle_eq [OF a(2)]
  have "waiters_of r p' = waiters_of r (sy_pool s)" for r using e by blast
  moreover have "waiters_of r p' \<noteq> [] \<longrightarrow> idle_of r p' = []" for r
    using e [of r] waitsD(6) [OF w, of r] by auto
  ultimately show ?thesis using w unfolding ap_waits_def by (simp add: a(1))
qed

lemma ap_inv_start: "ap_inv ap_start"
proof -
  have "\<not> is_at ap_start c p" for c p by (cases p) (simp_all add: ap_start_def newAgentPool_def idle_of_def)
  then have "ap_placed ap_start" by (simp add: ap_placed_def) (simp add: ap_start_def)
  then show ?thesis by (simp add: ap_inv_def ap_lists_def ap_waits_def)
      (simp add: ap_start_def newAgentPool_def idle_of_def waiters_of_def)
qed

lemma ap_reachable_inv: "ap_reachable s \<Longrightarrow> ap_inv s"
proof (induction rule: rtranclp_induct)
  case (step s s')
  then show ?case using step_lists step_placed step_waits unfolding ap_inv_def by blast
qed (rule ap_inv_start)

section \<open>Properties\<close>

text \<open>
  C4: No connection is lost track of or handed out twice. In every interleaving, each connection that was
  added is in exactly one place: idle, in the channel of one waiter, being probed by one taker, taken, or
  closed.
\<close>

theorem agent_conn_in_one_place:
  assumes "ap_reachable s" "c \<in> sy_added s"
  shows "\<exists>!p. is_at s c p"
  using ap_reachable_inv [OF assms(1)] assms(2) unfolding ap_inv_def ap_placed_def by metis

text \<open>
  C20: No lost wake-up. A call of \<open>take\<close> is blocked with an empty channel only while no connection of its
  route is idle, and then its channel is registered, so the next \<open>add\<close> for the route wakes a waiter.
\<close>

theorem agent_no_lost_wakeup:
  assumes "ap_reachable s" "sy_takers s t = Some (Waiting r w)" "sy_box s w = None"
  shows "idle_of r (sy_pool s) = [] \<and> w \<in> set (waiters_of r (sy_pool s)) \<and>
    (\<exists>p'. ap_add \<lparr>ac_num = n, ac_route = r\<rparr> w (sy_pool s) = (Some w, p'))"
proof -
  have w: "ap_waits s" using ap_reachable_inv [OF assms(1)] by (simp add: ap_inv_def)
  have "w \<in> set (waiters_of r (sy_pool s))" using waitsD(2) [OF w] assms(2,3) by blast
  moreover from this have "idle_of r (sy_pool s) = []" by (intro waitsD(6) [OF w]) auto
  ultimately show ?thesis by (auto simp: ap_add_def Let_def)
qed


text \<open>A connection in the channel of a taker that gave up stays there.\<close>

definition stranded :: "ap_sys \<Rightarrow> aconn \<Rightarrow> nat \<Rightarrow> bool" where
  "stranded s c w \<longleftrightarrow> is_at s c (InBox w) \<and> (\<forall>t r. sy_takers s t \<noteq> Some (Waiting r w))"

lemma stranded_step:
  assumes inv: "ap_inv s" and st: "stranded s c w" and step: "ap_step s s'"
  shows "stranded s' c w"
proof -
  have w: "ap_waits s" using inv by (simp add: ap_inv_def)
  have box: "sy_box s w = Some c" and no: "\<And>t r. sy_takers s t \<noteq> Some (Waiting r w)"
    using st by (auto simp: stranded_def)
  have lt: "w < sy_fresh s" using waitsD(4) [OF w box] .
  show ?thesis using step
  proof (rule ap_stepE)
    fix c' pick v p' assume a: "s' = s\<lparr>sy_pool := p', sy_box := (sy_box s)(v \<mapsto> c'), sy_added := insert c' (sy_added s)\<rparr>"
      "pick \<in> set (waiters_of (ac_route c') (sy_pool s))" "ap_add c' pick (sy_pool s) = (Some v, p')"
    have "v \<noteq> w" using waitsD(2) [OF w, of pick "ac_route c'"] a(2) ap_add_eq(1) [OF a(3)] box by auto
    with a(1) box no show ?thesis by (simp add: stranded_def)
  next
    fix t r v c' assume a: "s' = s\<lparr>sy_box := (sy_box s)(v := None), sy_takers := (sy_takers s)(t \<mapsto> Probing r c')\<rparr>"
      "sy_takers s t = Some (Waiting r v)"
    have "v \<noteq> w" using a(2) no by auto
    with a(1) box no show ?thesis by (simp add: stranded_def)
  qed (use box no lt in \<open>auto simp: stranded_def\<close>)
qed

text \<open>
  A taker that gives up can strand an agent. When a taker's context ends after \<open>add\<close> has already put a
  connection into its channel, the connection is never taken, closed or returned to the pool, whatever
  happens afterwards.
\<close>

theorem agent_stranded_forever:
  assumes "ap_reachable s" "sy_takers s t = Some (Waiting r w)" "sy_box s w = Some c" "ap_step\<^sup>*\<^sup>* s' s''"
    and "s' = s\<lparr>sy_pool := ap_removeWaiter r w (sy_pool s), sy_takers := (sy_takers s)(t := None)\<rparr>"
  shows "ap_reachable s'' \<and> sy_box s'' w = Some c \<and> \<not> is_at s'' c InIdle \<and> \<not> is_at s'' c InTaken \<and> \<not> is_at s'' c InClosed"
proof -
  have w: "ap_waits s" using ap_reachable_inv [OF assms(1)] by (simp add: ap_inv_def)
  have "ap_step s s'" unfolding assms(5) by (rule ap_cancel) (rule assms(2))
  with assms(1) have r': "ap_reachable s'" by simp
  have "sy_takers s' t' \<noteq> Some (Waiting r' w)" for t' r'
    using waitsD(5) [OF w assms(2), of t' r'] by (auto simp: assms(5))
  then have "stranded s' c w" using assms(3) by (simp add: stranded_def assms(5))
  with assms(4) have "stranded s'' c w \<and> ap_reachable s''"
  proof (induction rule: rtranclp_induct)
    case base
    with r' show ?case by blast
  next
    case (step y z)
    then show ?case using stranded_step [OF ap_reachable_inv, of y c w z] by (meson rtranclp.rtrancl_into_rtrancl)
  qed
  then have r'': "ap_reachable s''" and at: "is_at s'' c (InBox w)" by (simp_all add: stranded_def)
  have p: "ap_placed s''" using ap_reachable_inv [OF r''] by (simp add: ap_inv_def)
  show ?thesis
    using r'' at placed_only [OF p at, of InIdle] placed_only [OF p at, of InTaken] placed_only [OF p at, of InClosed]
    by simp
qed

text \<open>A taker waits, an agent comes, the taker gives up.\<close>

definition ex_conn :: aconn where "ex_conn = \<lparr>ac_num = 7, ac_route = ''vm''\<rparr>"

definition ex_waiting :: ap_sys where
  "ex_waiting = \<lparr>sy_pool = \<lparr>ap_idle = Map.empty, ap_waiters = [''vm'' \<mapsto> [0]]\<rparr>, sy_box = Map.empty,
     sy_takers = [1 \<mapsto> Waiting ''vm'' 0], sy_added = {}, sy_taken = {}, sy_closed = {}, sy_fresh = Suc 0\<rparr>"

definition ex_offered :: ap_sys where
  "ex_offered = ex_waiting\<lparr>sy_pool := \<lparr>ap_idle = Map.empty, ap_waiters = [''vm'' \<mapsto> []]\<rparr>,
     sy_box := [0 \<mapsto> ex_conn], sy_added := {ex_conn}\<rparr>"

lemma ex_waiting_reachable: "ap_reachable ex_waiting"
proof -
  let ?s = "ap_start\<lparr>sy_takers := (sy_takers ap_start)(1 \<mapsto> Looping ''vm'')\<rparr>"
  have 1: "ap_step ap_start ?s" by (rule ap_call) (simp add: ap_start_def)
  have take: "ap_take ''vm'' (sy_fresh ?s) (sy_pool ?s) = (None, \<lparr>ap_idle = Map.empty, ap_waiters = [''vm'' \<mapsto> [0]]\<rparr>)"
    by (simp add: ap_take_def ap_start_def newAgentPool_def idle_of_def waiters_of_def)
  have "ap_step ?s ex_waiting"
    using ap_turn_wait [of ?s 1 "''vm''", OF _ take] by (simp add: ex_waiting_def ap_start_def)
  with 1 show ?thesis by (meson r_into_rtranclp rtranclp.rtrancl_into_rtrancl)
qed

lemma ex_offered_reachable: "ap_reachable ex_offered"
proof -
  have add: "ap_add ex_conn 0 (sy_pool ex_waiting) = (Some 0, \<lparr>ap_idle = Map.empty, ap_waiters = [''vm'' \<mapsto> []]\<rparr>)"
    by (simp add: ap_add_def ex_conn_def ex_waiting_def waiters_of_def Let_def)
  have "ap_step ex_waiting ex_offered"
    using ap_add_wait [OF _ _ add] by (simp add: ex_offered_def ex_waiting_def ex_conn_def waiters_of_def)
  with ex_waiting_reachable show ?thesis by (rule rtranclp.rtrancl_into_rtrancl)
qed

theorem agent_conn_in_one_place_witness: "\<exists>!p. is_at ex_offered ex_conn p"
  by (rule agent_conn_in_one_place [OF ex_offered_reachable]) (simp add: ex_offered_def)

theorem agent_no_lost_wakeup_witness:
  "idle_of ''vm'' (sy_pool ex_waiting) = [] \<and> 0 \<in> set (waiters_of ''vm'' (sy_pool ex_waiting)) \<and>
    (\<exists>p'. ap_add \<lparr>ac_num = 3, ac_route = ''vm''\<rparr> 0 (sy_pool ex_waiting) = (Some 0, p'))"
  by (rule agent_no_lost_wakeup [OF ex_waiting_reachable, of 1]) (simp_all add: ex_waiting_def)

theorem agent_stranded_forever_witness:
  "\<exists>s. ap_reachable s \<and> sy_box s 0 = Some ex_conn \<and> \<not> is_at s ex_conn InIdle \<and> \<not> is_at s ex_conn InTaken \<and>
     \<not> is_at s ex_conn InClosed"
  using agent_stranded_forever [OF ex_offered_reachable _ _ rtranclp.rtrancl_refl refl, of 1 "''vm''" 0 ex_conn]
  by (auto simp: ex_offered_def ex_waiting_def)


end
