(* ===== verification/DnsCache.thy ===== *)
theory DnsCache
  imports GoStrings "HOL-Library.AList"
begin

text \<open>
  apps/gateway/internal/tunnel/dns_cache.go: the resolver cache and the dialer that uses it. The resolver
  is an argument, a function of the time of the query. \<open>net.ParseIP\<close> is an argument too: \<open>is_ip\<close> says
  whether a string is an address. The map is an association list with distinct keys; which entry a full
  cache drops is left to the iteration order (\<open>pick\<close>).
\<close>

section \<open>State and operations\<close>

record dns_entry =
  de_addrs :: "string list"
  de_expires :: time

record dns_cache =
  dc_entries :: "(string \<times> dns_entry) list"
  dc_ttl :: duration
  dc_maxEntries :: int
  dc_hits :: int
  dc_misses :: int

definition NewDNSCache :: "duration \<Rightarrow> int \<Rightarrow> dns_cache" where
  "NewDNSCache ttl maxEntries =
     \<lparr>dc_entries = [], dc_ttl = ttl, dc_maxEntries = maxEntries, dc_hits = 0, dc_misses = 0\<rparr>"

text \<open>
  Making room: first the expired entries go, then one more if the cache is still full.
\<close>

definition dns_evict :: "time \<Rightarrow> nat \<Rightarrow> dns_cache \<Rightarrow> dns_cache" where
  "dns_evict now pick c =
     (if int (length (dc_entries c)) \<ge> dc_maxEntries c then
        (let es = filter (\<lambda>(k, e). \<not> now > de_expires e) (dc_entries c);
             es = (if int (length es) \<ge> dc_maxEntries c \<and> es \<noteq> []
                   then AList.delete (fst (es ! (pick mod length es))) es else es)
         in c\<lparr>dc_entries := es\<rparr>)
      else c)"

type_synonym resolver = "time \<Rightarrow> string \<Rightarrow> string list option"

definition dns_LookupHost ::
  "(string \<Rightarrow> bool) \<Rightarrow> resolver \<Rightarrow> time \<Rightarrow> nat \<Rightarrow> string \<Rightarrow> dns_cache \<Rightarrow> string list option \<times> dns_cache" where
  "dns_LookupHost is_ip resolve now pick host c =
     (if is_ip host then (Some [host], c)
      else (case map_of (dc_entries c) host of
        Some entry \<Rightarrow>
          if now < de_expires entry then (Some (de_addrs entry), c\<lparr>dc_hits := dc_hits c + 1\<rparr>)
          else (let c = c\<lparr>dc_misses := dc_misses c + 1\<rparr> in case resolve now host of
                  None \<Rightarrow> (None, c)
                | Some addrs \<Rightarrow> (let c = dns_evict now pick c in
                    (Some addrs, c\<lparr>dc_entries := AList.update host \<lparr>de_addrs = addrs, de_expires = now + dc_ttl c\<rparr> (dc_entries c)\<rparr>)))
      | None \<Rightarrow>
          (let c = c\<lparr>dc_misses := dc_misses c + 1\<rparr> in case resolve now host of
                  None \<Rightarrow> (None, c)
                | Some addrs \<Rightarrow> (let c = dns_evict now pick c in
                    (Some addrs, c\<lparr>dc_entries := AList.update host \<lparr>de_addrs = addrs, de_expires = now + dc_ttl c\<rparr> (dc_entries c)\<rparr>)))))"

definition dns_LookupAddr :: "resolver \<Rightarrow> time \<Rightarrow> string \<Rightarrow> dns_cache \<Rightarrow> string option \<times> dns_cache" where
  "dns_LookupAddr resolve now addr c =
     (let hit = (case map_of (dc_entries c) addr of
            Some entry \<Rightarrow> now < de_expires entry \<and> de_addrs entry \<noteq> []
          | None \<Rightarrow> False)
      in if hit then (Some (hd (de_addrs (the (map_of (dc_entries c) addr)))), c\<lparr>dc_hits := dc_hits c + 1\<rparr>)
         else (let c = c\<lparr>dc_misses := dc_misses c + 1\<rparr> in case resolve now addr of
           None \<Rightarrow> (None, c)
         | Some [] \<Rightarrow> (Some '''', c)
         | Some (n # ns) \<Rightarrow>
             (Some n, c\<lparr>dc_entries := AList.update addr \<lparr>de_addrs = n # ns, de_expires = now + dc_ttl c\<rparr> (dc_entries c)\<rparr>)))"

definition dns_Refresh :: "string \<Rightarrow> dns_cache \<Rightarrow> dns_cache" where
  "dns_Refresh host c = c\<lparr>dc_entries := AList.delete host (dc_entries c)\<rparr>"

definition dns_Stats :: "dns_cache \<Rightarrow> int \<times> int" where
  "dns_Stats c = (dc_hits c, dc_misses c)"

definition dns_Len :: "dns_cache \<Rightarrow> nat" where
  "dns_Len c = length (dc_entries c)"

text \<open>
  The dialer tries the addresses in turn and reports the first error. \<open>split\<close> is \<open>net.SplitHostPort\<close>,
  \<open>dial\<close> connects to an address and port (or to the whole address).
\<close>

datatype 'e dial_result = Connected string | DialError 'e | NoConn

fun dial_first :: "(string \<Rightarrow> string \<Rightarrow> 'e option) \<Rightarrow> string \<Rightarrow> string list \<Rightarrow> 'e option \<Rightarrow> 'e dial_result" where
  "dial_first dial port [] err = (case err of Some e \<Rightarrow> DialError e | None \<Rightarrow> NoConn)"
| "dial_first dial port (ip # ips) err = (case dial ip port of
     None \<Rightarrow> Connected ip
   | Some e \<Rightarrow> dial_first dial port ips (if err = None then Some e else err))"

definition dns_DialContext ::
  "(string \<Rightarrow> (string \<times> string) option) \<Rightarrow> (string \<Rightarrow> string \<Rightarrow> 'e option) \<Rightarrow> (string \<Rightarrow> 'e option) \<Rightarrow> (string \<Rightarrow> bool)
     \<Rightarrow> resolver \<Rightarrow> time \<Rightarrow> nat \<Rightarrow> string \<Rightarrow> dns_cache \<Rightarrow> 'e dial_result \<times> dns_cache" where
  "dns_DialContext split dial dial_addr is_ip resolve now pick addr c =
     (let direct = (case dial_addr addr of None \<Rightarrow> Connected addr | Some e \<Rightarrow> DialError e)
      in case split addr of
        None \<Rightarrow> (direct, c)
      | Some (host, port) \<Rightarrow>
          (case dns_LookupHost is_ip resolve now pick host c of
             (None, c) \<Rightarrow> (direct, c)
           | (Some addrs, c) \<Rightarrow> (dial_first dial port addrs None, c)))"

section \<open>Calls in any order\<close>

datatype dns_call = DHost nat string | DAddr string | DRefresh string

definition dns_step :: "(string \<Rightarrow> bool) \<Rightarrow> resolver \<Rightarrow> resolver \<Rightarrow> dns_cache \<Rightarrow> time \<times> dns_call \<Rightarrow> dns_cache" where
  "dns_step is_ip rh ra c call = (case call of
     (now, DHost pick host) \<Rightarrow> snd (dns_LookupHost is_ip rh now pick host c)
   | (now, DAddr addr) \<Rightarrow> snd (dns_LookupAddr ra now addr c)
   | (now, DRefresh host) \<Rightarrow> dns_Refresh host c)"

text \<open>Every entry was an answer of the resolver for its key, and expires \<open>ttl\<close> after it.\<close>

definition dns_inv :: "resolver \<Rightarrow> resolver \<Rightarrow> duration \<Rightarrow> dns_cache \<Rightarrow> bool" where
  "dns_inv rh ra ttl c \<longleftrightarrow> dc_ttl c = ttl \<and> distinct (map fst (dc_entries c)) \<and>
     (\<forall>(k, e) \<in> set (dc_entries c). \<exists>t. de_expires e = t + ttl \<and>
        (rh t k = Some (de_addrs e) \<or> ra t k = Some (de_addrs e)))"

lemma set_update_subset: "set (AList.update k v xs) \<subseteq> insert (k, v) (set xs)"
  by (induction xs) auto

lemma set_delete_subset: "set (AList.delete k xs) \<subseteq> set xs"
  by (induction xs) auto

lemma distinct_fst_filter: "distinct (map fst xs) \<Longrightarrow> distinct (map fst (filter P xs))"
  by (induction xs) auto

lemma dns_evict_inv: "dns_inv rh ra ttl c \<Longrightarrow> dns_inv rh ra ttl (dns_evict now pick c)"
  using set_delete_subset
  by (fastforce simp: dns_inv_def dns_evict_def Let_def distinct_fst_filter distinct_delete)

lemma dns_put_inv:
  "dns_inv rh ra ttl c \<Longrightarrow> rh t k = Some v \<or> ra t k = Some v \<Longrightarrow>
     dns_inv rh ra ttl (c\<lparr>dc_entries := AList.update k \<lparr>de_addrs = v, de_expires = t + ttl\<rparr> (dc_entries c)\<rparr>)"
  using set_update_subset [of k "\<lparr>de_addrs = v, de_expires = t + ttl\<rparr>" "dc_entries c"]
  by (fastforce simp: dns_inv_def distinct_update)

lemma dns_inv_count [simp]: "dns_inv rh ra ttl (c\<lparr>dc_hits := h\<rparr>) = dns_inv rh ra ttl c"
  "dns_inv rh ra ttl (c\<lparr>dc_misses := h\<rparr>) = dns_inv rh ra ttl c"
  by (simp_all add: dns_inv_def)

lemma dns_inv_ttl: "dns_inv rh ra ttl c \<Longrightarrow> dc_ttl c = ttl"
  by (simp add: dns_inv_def)

lemma dns_host_inv:
  assumes "dns_inv rh ra ttl c"
  shows "dns_inv rh ra ttl (snd (dns_LookupHost is_ip rh now pick host c))"
proof -
  have "dns_inv rh ra ttl (dns_evict now pick (c\<lparr>dc_misses := m\<rparr>))" for m using assms by (simp add: dns_evict_inv)
  note p = dns_put_inv [OF this] dns_inv_ttl [OF this]
  show ?thesis
    using assms p by (auto simp: dns_LookupHost_def Let_def split: option.splits)
qed

lemma dns_addr_inv: "dns_inv rh ra ttl c \<Longrightarrow> dns_inv rh ra ttl (snd (dns_LookupAddr ra now addr c))"
  using dns_put_inv [of rh ra ttl "c\<lparr>dc_misses := dc_misses c + 1\<rparr>"] dns_inv_ttl [of rh ra ttl c]
  by (auto simp: dns_LookupAddr_def Let_def split: option.splits list.splits)

interpretation dns: component "dns_step is_ip rh ra" "dns_inv rh ra ttl" for is_ip rh ra ttl
proof
  fix s and call :: "time \<times> dns_call" assume inv: "dns_inv rh ra ttl s"
  then have "dns_inv rh ra ttl (dns_Refresh host s)" for host
    using set_delete_subset by (fastforce simp: dns_Refresh_def dns_inv_def distinct_delete)
  with inv show "dns_inv rh ra ttl (dns_step is_ip rh ra s call)"
    by (cases call; cases "snd call") (simp_all add: dns_step_def dns_host_inv dns_addr_inv)
qed

text \<open>
  Answers of the resolver cache are never older than its time to live: after any run of lookups and
  refreshes, what \<open>LookupHost\<close> returns for a name is what the resolver answers now, or answered for that
  name at a time less than \<open>ttl\<close> ago. (An answer of a reverse lookup counts too when the name was looked
  up as an address before: both kinds share the table.)
\<close>

theorem dns_answers_fresh:
  assumes "\<not> is_ip host"
    and "fst (dns_LookupHost is_ip rh now pick host (foldl (dns_step is_ip rh ra) (NewDNSCache ttl m) calls)) = Some addrs"
  shows "rh now host = Some addrs \<or>
    (\<exists>t. now < t + ttl \<and> (rh t host = Some addrs \<or> ra t host = Some addrs))"
proof -
  let ?c = "foldl (dns_step is_ip rh ra) (NewDNSCache ttl m) calls"
  have "dns_inv rh ra ttl (NewDNSCache ttl m)" by (simp add: dns_inv_def NewDNSCache_def)
  then have inv: "dns_inv rh ra ttl ?c" by (rule dns.run_inv)
  show ?thesis
  proof (cases "map_of (dc_entries ?c) host")
    case None
    with assms show ?thesis by (auto simp: dns_LookupHost_def Let_def split: option.splits)
  next
    case (Some e)
    then have "(host, e) \<in> set (dc_entries ?c)" by (rule map_of_SomeD)
    with inv obtain t where "de_expires e = t + ttl" "rh t host = Some (de_addrs e) \<or> ra t host = Some (de_addrs e)"
      by (auto simp: dns_inv_def)
    with assms Some show ?thesis by (auto simp: dns_LookupHost_def Let_def split: option.splits if_splits)
  qed
qed

theorem dns_answers_fresh_witness:
  "\<exists>addrs. fst (dns_LookupHost (\<lambda>s. False) (\<lambda>t h. Some [show_base 10 (nat t)]) 5 0 ''a''
      (foldl (dns_step (\<lambda>s. False) (\<lambda>t h. Some [show_base 10 (nat t)]) (\<lambda>t h. None)) (NewDNSCache 10 4) [(2, DHost 0 ''a'')]))
      = Some addrs \<and>
   (Some [show_base 10 (nat 5)] = Some addrs \<or> (\<exists>t::int. 5 < t + 10 \<and> Some [show_base 10 (nat t)] = Some addrs))"
proof -
  let ?rh = "\<lambda>t (h::string). Some [show_base 10 (nat t)]"
  have e: "fst (dns_LookupHost (\<lambda>s. False) ?rh 5 0 ''a''
      (foldl (dns_step (\<lambda>s. False) ?rh (\<lambda>t h. None)) (NewDNSCache 10 4) [(2, DHost 0 ''a'')])) = Some [show_base 10 (nat 2)]"
    by (simp add: dns_step_def dns_LookupHost_def NewDNSCache_def dns_evict_def Let_def)
  from dns_answers_fresh [OF _ e] e show ?thesis by auto
qed

text \<open>Host lookups keep the cache within its bound; reverse lookups do not look at it.\<close>

lemma length_update: "length (AList.update k v xs) \<le> Suc (length xs)"
  by (induction xs) auto

lemma length_delete_mem: "k \<in> fst ` set xs \<Longrightarrow> length (AList.delete k xs) < length xs"
proof (induction xs)
  case (Cons x xs)
  have "length (AList.delete k xs) \<le> length xs" by (simp add: AList.delete_eq)
  with Cons show ?case by (cases "fst x = k") (auto simp: delete_simps less_Suc_eq_le split: prod.splits)
qed simp

lemma dns_evict_room:
  "0 < dc_maxEntries c \<Longrightarrow> int (length (dc_entries c)) \<le> dc_maxEntries c \<Longrightarrow>
     int (length (dc_entries (dns_evict now pick c))) < dc_maxEntries c"
proof -
  assume a: "0 < dc_maxEntries c" "int (length (dc_entries c)) \<le> dc_maxEntries c"
  define es where "es = filter (\<lambda>(k, e). \<not> now > de_expires e) (dc_entries c)"
  define ds where "ds = AList.delete (fst (es ! (pick mod length es))) es"
  have len: "length es \<le> length (dc_entries c)" unfolding es_def by (rule length_filter_le)
  have del: "es \<noteq> [] \<Longrightarrow> length ds < length es"
    unfolding ds_def by (rule length_delete_mem) simp
  have "dns_evict now pick c = (if int (length (dc_entries c)) \<ge> dc_maxEntries c
      then c\<lparr>dc_entries := (if int (length es) \<ge> dc_maxEntries c \<and> es \<noteq> [] then ds else es)\<rparr> else c)"
    by (simp add: dns_evict_def es_def ds_def Let_def)
  moreover have "int (length ds) < dc_maxEntries c" if "es \<noteq> []" using del [OF that] len a by linarith
  ultimately show ?thesis using a by auto
qed

lemma dns_host_bounded:
  "0 < dc_maxEntries c \<Longrightarrow> int (dns_Len c) \<le> dc_maxEntries c \<Longrightarrow>
     int (dns_Len (snd (dns_LookupHost is_ip rh now pick host c))) \<le> dc_maxEntries c"
proof -
  assume a: "0 < dc_maxEntries c" "int (dns_Len c) \<le> dc_maxEntries c"
  have r: "int (length (dc_entries (dns_evict now pick (c\<lparr>dc_misses := m\<rparr>)))) < dc_maxEntries c" for m
    using a dns_evict_room [of "c\<lparr>dc_misses := m\<rparr>"] by (simp add: dns_Len_def)
  have "int (length (AList.update host v (dc_entries (dns_evict now pick (c\<lparr>dc_misses := m\<rparr>))))) \<le> dc_maxEntries c" for m v
    using r [of m] length_update [of host v "dc_entries (dns_evict now pick (c\<lparr>dc_misses := m\<rparr>))"] by linarith
  with a show ?thesis
    by (auto simp: dns_LookupHost_def dns_Len_def Let_def split: option.splits)
qed

lemma dns_addr_unbounded:
  "map_of (dc_entries c) addr = None \<Longrightarrow> ra now addr = Some (n # ns) \<Longrightarrow>
     dns_Len (snd (dns_LookupAddr ra now addr c)) = Suc (dns_Len c)"
proof -
  assume a: "map_of (dc_entries c) addr = None" "ra now addr = Some (n # ns)"
  have "addr \<notin> fst ` set xs \<Longrightarrow> length (AList.update addr v xs) = Suc (length xs)" for xs :: "(string \<times> dns_entry) list" and v
    by (induction xs) auto
  moreover have "addr \<notin> fst ` set (dc_entries c)" using a(1) by (simp add: map_of_eq_None_iff)
  ultimately show ?thesis using a by (simp add: dns_LookupAddr_def dns_Len_def Let_def)
qed

end
