(* ===== verification/Quality.thy ===== *)
theory Quality
  imports Prelude
begin

text \<open>
  apps/gateway/internal/tunnel/quality.go: smoothed measurements of a tunnel and the score computed from
  them. Floating-point numbers are exact rationals. The trackers of the routes are pointers that callers
  share; the table maps a route to its tracker's state.
\<close>

section \<open>Exponential averages\<close>

definition ewmaAlphaDefault :: rat where "ewmaAlphaDefault = 3 / 10"

record ewma =
  ew_alpha :: rat
  ew_value :: rat
  ew_init :: bool

definition NewEWMA :: "rat \<Rightarrow> ewma" where
  "NewEWMA alpha = \<lparr>ew_alpha = (if alpha \<le> 0 \<or> alpha > 1 then ewmaAlphaDefault else alpha), ew_value = 0, ew_init = False\<rparr>"

definition ew_Update :: "rat \<Rightarrow> ewma \<Rightarrow> rat \<times> ewma" where
  "ew_Update sample e =
     (let e = (if \<not> ew_init e then e\<lparr>ew_value := sample, ew_init := True\<rparr>
               else e\<lparr>ew_value := ew_alpha e * sample + (1 - ew_alpha e) * ew_value e\<rparr>)
      in (ew_value e, e))"

definition ew_Value :: "ewma \<Rightarrow> rat" where
  "ew_Value e = ew_value e"

text \<open>The average stays within the range of its samples.\<close>

definition ew_feed :: "rat list \<Rightarrow> ewma \<Rightarrow> ewma" where
  "ew_feed xs e = foldl (\<lambda>e x. snd (ew_Update x e)) e xs"

definition ew_ok :: "rat \<Rightarrow> rat \<Rightarrow> ewma \<Rightarrow> bool" where
  "ew_ok lo hi e \<longleftrightarrow> 0 < ew_alpha e \<and> ew_alpha e \<le> 1 \<and> (ew_init e \<longrightarrow> lo \<le> ew_value e \<and> ew_value e \<le> hi)"

lemma ew_ok_new: "ew_ok lo hi (NewEWMA a)"
  by (simp add: ew_ok_def NewEWMA_def ewmaAlphaDefault_def)

lemma convex_bounds:
  assumes "0 < (a::rat)" "a \<le> 1" "lo \<le> x" "x \<le> hi" "lo \<le> v" "v \<le> hi"
  shows "lo \<le> a * x + (1 - a) * v" "a * x + (1 - a) * v \<le> hi"
proof -
  have "a * lo + (1 - a) * lo \<le> a * x + (1 - a) * v" "a * x + (1 - a) * v \<le> a * hi + (1 - a) * hi"
    using assms by (intro add_mono mult_left_mono; simp)+
  then show "lo \<le> a * x + (1 - a) * v" "a * x + (1 - a) * v \<le> hi" by (simp_all add: algebra_simps)
qed

lemma ew_Update_ok:
  assumes "ew_ok lo hi e" "lo \<le> x" "x \<le> hi"
  shows "ew_ok lo hi (snd (ew_Update x e)) \<and> ew_init (snd (ew_Update x e)) \<and> fst (ew_Update x e) = ew_value (snd (ew_Update x e))"
  using assms convex_bounds [of "ew_alpha e" lo x hi "ew_value e"]
  by (auto simp: ew_ok_def ew_Update_def Let_def)

lemma ew_feed_range:
  "xs \<noteq> [] \<Longrightarrow> \<forall>x \<in> set xs. lo \<le> x \<and> x \<le> hi \<Longrightarrow> ew_ok lo hi e \<Longrightarrow>
     lo \<le> ew_Value (ew_feed xs e) \<and> ew_Value (ew_feed xs e) \<le> hi"
proof -
  assume xs: "xs \<noteq> []" "\<forall>x \<in> set xs. lo \<le> x \<and> x \<le> hi" and e: "ew_ok lo hi e"
  have "ew_ok lo hi (ew_feed xs e) \<and> (xs \<noteq> [] \<longrightarrow> ew_init (ew_feed xs e))"
    using xs(2)
  proof (induction xs rule: rev_induct)
    case (snoc x xs)
    with ew_Update_ok [of lo hi "ew_feed xs e" x] show ?case by (simp add: ew_feed_def)
  qed (simp add: ew_feed_def e)
  with xs(1) show ?thesis by (auto simp: ew_ok_def ew_Value_def)
qed

section \<open>The quality of a connection\<close>

record conn_quality =
  cq_RouteID :: string
  cq_SmoothedRTTMs :: rat
  cq_SmoothedLossRatio :: rat
  cq_SmoothedJitterMs :: rat
  cq_BandwidthBps :: nat
  cq_Score :: rat
  cq_LastUpdated :: time
  cq_rttEWMA :: ewma
  cq_lossEWMA :: ewma
  cq_jitterEWMA :: ewma
  cq_lastRTT :: rat

record quality_thresholds =
  th_GoodRTTMs :: rat
  th_FairRTTMs :: rat
  th_GoodLossRatio :: rat
  th_FairLossRatio :: rat
  th_GoodJitterMs :: rat
  th_FairJitterMs :: rat
  th_MinBandwidthBps :: nat
  th_ExcellentScore :: rat
  th_GoodScore :: rat
  th_FairScore :: rat

definition DefaultQualityThresholds :: quality_thresholds where
  "DefaultQualityThresholds = \<lparr>th_GoodRTTMs = 30, th_FairRTTMs = 100, th_GoodLossRatio = 1 / 100,
     th_FairLossRatio = 5 / 100, th_GoodJitterMs = 15, th_FairJitterMs = 40, th_MinBandwidthBps = 100000,
     th_ExcellentScore = 90, th_GoodScore = 70, th_FairScore = 40\<rparr>"

definition NewConnQuality :: "string \<Rightarrow> conn_quality" where
  "NewConnQuality routeID = \<lparr>cq_RouteID = routeID, cq_SmoothedRTTMs = 0, cq_SmoothedLossRatio = 0,
     cq_SmoothedJitterMs = 0, cq_BandwidthBps = 0, cq_Score = 0, cq_LastUpdated = 0,
     cq_rttEWMA = NewEWMA ewmaAlphaDefault, cq_lossEWMA = NewEWMA ewmaAlphaDefault,
     cq_jitterEWMA = NewEWMA ewmaAlphaDefault, cq_lastRTT = 0\<rparr>"

definition maxRTTMs :: rat where "maxRTTMs = 300"
definition maxJitterMs :: rat where "maxJitterMs = 100"
definition maxPacketLoss :: rat where "maxPacketLoss = 2 / 10"

definition computeQoE :: "rat \<Rightarrow> rat \<Rightarrow> rat \<Rightarrow> nat \<Rightarrow> rat" where
  "computeQoE rtt loss jitter bps =
     (let rttScore = 1 - min (rtt / maxRTTMs) 1;
          lossScore = 1 - min (loss / maxPacketLoss) 1;
          jitterScore = 1 - min (jitter / maxJitterMs) 1;
          bwScore = min (of_nat bps / 50000000) 1;
          raw = rttScore * (30 / 100) + lossScore * (30 / 100) + jitterScore * (20 / 100) + bwScore * (20 / 100);
          mos = 1 + 4 * raw;
          score = (mos - 1) / 4 * 100;
          score = (if score < 0 then 0 else score)
      in if score > 100 then 100 else score)"

text \<open>\<open>rtt.Milliseconds()\<close> is an integer.\<close>

definition milliseconds :: "duration \<Rightarrow> rat" where
  "milliseconds d = of_int (quot d 1000000)"

definition cq_record :: "rat \<Rightarrow> rat \<Rightarrow> rat \<Rightarrow> nat \<Rightarrow> time \<Rightarrow> conn_quality \<Rightarrow> conn_quality" where
  "cq_record rttMs jitterMs lossRatio bps now q =
     (let (r, re) = ew_Update rttMs (cq_rttEWMA q);
          (l, le) = ew_Update lossRatio (cq_lossEWMA q);
          (j, je) = ew_Update jitterMs (cq_jitterEWMA q)
      in q\<lparr>cq_SmoothedRTTMs := r, cq_SmoothedLossRatio := l, cq_SmoothedJitterMs := j, cq_BandwidthBps := bps,
           cq_Score := computeQoE r l j bps, cq_LastUpdated := now,
           cq_rttEWMA := re, cq_lossEWMA := le, cq_jitterEWMA := je\<rparr>)"

definition cq_Update :: "duration \<Rightarrow> rat \<Rightarrow> nat \<Rightarrow> time \<Rightarrow> conn_quality \<Rightarrow> conn_quality" where
  "cq_Update rtt lossRatio bps now q =
     (let rttMs = milliseconds rtt;
          jitter = \<bar>rttMs - cq_lastRTT q\<bar>
      in cq_record rttMs jitter lossRatio bps now (q\<lparr>cq_lastRTT := rttMs\<rparr>))"

definition cq_UpdateWithJitter :: "duration \<Rightarrow> duration \<Rightarrow> rat \<Rightarrow> nat \<Rightarrow> time \<Rightarrow> conn_quality \<Rightarrow> conn_quality" where
  "cq_UpdateWithJitter rtt jitter lossRatio bps now q =
     cq_record (milliseconds rtt) (milliseconds jitter) lossRatio bps now q"

definition cq_GetScore :: "conn_quality \<Rightarrow> rat" where
  "cq_GetScore q = cq_Score q"

record quality_snapshot =
  qs_RouteID :: string
  qs_SmoothedRTTMs :: rat
  qs_SmoothedLossRatio :: rat
  qs_SmoothedJitterMs :: rat
  qs_BandwidthBps :: nat
  qs_Score :: rat
  qs_LastUpdated :: time

definition cq_Snapshot :: "conn_quality \<Rightarrow> quality_snapshot" where
  "cq_Snapshot q = \<lparr>qs_RouteID = cq_RouteID q, qs_SmoothedRTTMs = cq_SmoothedRTTMs q,
     qs_SmoothedLossRatio = cq_SmoothedLossRatio q, qs_SmoothedJitterMs = cq_SmoothedJitterMs q,
     qs_BandwidthBps = cq_BandwidthBps q, qs_Score = cq_Score q, qs_LastUpdated = cq_LastUpdated q\<rparr>"

datatype quality_category = QualityExcellent | QualityGood | QualityFair | QualityPoor

definition cq_Category :: "quality_thresholds \<Rightarrow> conn_quality \<Rightarrow> quality_category" where
  "cq_Category th q =
     (let score = cq_GetScore q
      in if score \<ge> th_ExcellentScore th then QualityExcellent
         else if score \<ge> th_GoodScore th then QualityGood
         else if score \<ge> th_FairScore th then QualityFair
         else QualityPoor)"

section \<open>The tracker of all routes\<close>

record quality_tracker =
  qt_qualities :: "string \<rightharpoonup> conn_quality"
  qt_thresholds :: quality_thresholds

definition NewQualityTracker :: "quality_thresholds \<Rightarrow> quality_tracker" where
  "NewQualityTracker th = \<lparr>qt_qualities = Map.empty, qt_thresholds = th\<rparr>"

definition qt_GetOrCreate :: "string \<Rightarrow> quality_tracker \<Rightarrow> conn_quality \<times> quality_tracker" where
  "qt_GetOrCreate rid t = (case qt_qualities t rid of
     Some q \<Rightarrow> (q, t)
   | None \<Rightarrow> (let q = NewConnQuality rid in (q, t\<lparr>qt_qualities := (qt_qualities t)(rid \<mapsto> q)\<rparr>)))"

definition qt_Get :: "string \<Rightarrow> quality_tracker \<Rightarrow> conn_quality option" where
  "qt_Get rid t = qt_qualities t rid"

definition qt_Remove :: "string \<Rightarrow> quality_tracker \<Rightarrow> quality_tracker" where
  "qt_Remove rid t = t\<lparr>qt_qualities := (qt_qualities t)(rid := None)\<rparr>"

definition qt_All :: "string list \<Rightarrow> quality_tracker \<Rightarrow> quality_snapshot list" where
  "qt_All ks t = map cq_Snapshot (map_values (qt_qualities t) ks)"

definition qt_SetThresholds :: "quality_thresholds \<Rightarrow> quality_tracker \<Rightarrow> quality_tracker" where
  "qt_SetThresholds th t = t\<lparr>qt_thresholds := th\<rparr>"

section \<open>Properties\<close>

lemma weighted_le:
  assumes "a \<le> a'" "b \<le> b'" "c \<le> c'" "d \<le> (d'::rat)"
  shows "a * (30 / 100) + b * (30 / 100) + c * (20 / 100) + d * (20 / 100)
    \<le> a' * (30 / 100) + b' * (30 / 100) + c' * (20 / 100) + d' * (20 / 100)"
  using assms by simp

lemma clamp_score:
  "(if 100 < (if (1 + 4 * x - 1) / 4 * 100 < 0 then 0 else (1 + 4 * x - 1) / 4 * 100) then 100
    else if (1 + 4 * x - 1) / 4 * 100 < 0 then 0 else (1 + 4 * x - 1) / 4 * 100) = max 0 (min 100 (100 * (x::rat)))"
  by (simp add: max_def min_def)

definition raw_score :: "rat \<Rightarrow> rat \<Rightarrow> rat \<Rightarrow> nat \<Rightarrow> rat" where
  "raw_score rtt loss jitter bps =
     (1 - min (rtt / maxRTTMs) 1) * (30 / 100) + (1 - min (loss / maxPacketLoss) 1) * (30 / 100) +
     (1 - min (jitter / maxJitterMs) 1) * (20 / 100) + min (of_nat bps / 50000000) 1 * (20 / 100)"

lemma computeQoE_eq: "computeQoE r l j b = max 0 (min 100 (100 * raw_score r l j b))"
  unfolding computeQoE_def Let_def raw_score_def by (rule clamp_score)

lemma computeQoE_range: "0 \<le> computeQoE r l j b \<and> computeQoE r l j b \<le> 100"
  by (simp add: computeQoE_eq)

text \<open>A connection that is at least as good in every measurement has at least the score.\<close>

lemma raw_score_mono:
  assumes "r' \<le> r" "l' \<le> l" "j' \<le> j" "b \<le> b'"
  shows "raw_score r l j b \<le> raw_score r' l' j' b'"
proof -
  have m: "min (x / c) 1 \<le> min (y / c) 1" if "x \<le> y" "0 < c" for x y c :: rat
    using divide_right_mono [of x y c] that by simp
  have pos: "0 < maxRTTMs" "0 < maxPacketLoss" "0 < maxJitterMs"
    by (simp_all add: maxRTTMs_def maxPacketLoss_def maxJitterMs_def)
  have b: "(of_nat b :: rat) \<le> of_nat b'" using assms(4) by simp
  show ?thesis
    unfolding raw_score_def
    by (intro weighted_le diff_left_mono m assms pos b) simp
qed

lemma computeQoE_mono:
  "r' \<le> r \<Longrightarrow> l' \<le> l \<Longrightarrow> j' \<le> j \<Longrightarrow> b \<le> b' \<Longrightarrow> computeQoE r l j b \<le> computeQoE r' l' j' b'"
  unfolding computeQoE_eq by (intro max.mono min.mono mult_left_mono raw_score_mono) simp_all

text \<open>Scores that the updates leave behind, and their categories.\<close>

lemma score_in_range:
  "0 \<le> cq_GetScore (cq_Update rtt l b now q) \<and> cq_GetScore (cq_Update rtt l b now q) \<le> 100"
  using computeQoE_range by (simp add: cq_Update_def cq_record_def cq_GetScore_def split_beta Let_def)

fun rank :: "quality_category \<Rightarrow> nat" where
  "rank QualityExcellent = 3" | "rank QualityGood = 2" | "rank QualityFair = 1" | "rank QualityPoor = 0"

lemma category_mono:
  "cq_GetScore q \<le> cq_GetScore q' \<Longrightarrow> rank (cq_Category th q) \<le> rank (cq_Category th q')"
  by (auto simp: cq_Category_def Let_def)

definition cq_feed :: "(duration \<times> duration \<times> rat \<times> nat) list \<Rightarrow> conn_quality \<Rightarrow> conn_quality" where
  "cq_feed ms q = foldl (\<lambda>q (rtt, jit, l, b). cq_UpdateWithJitter rtt jit l b 0 q) q ms"

lemma cq_feed_ewma:
  "cq_rttEWMA (cq_feed ms q) = ew_feed (map (milliseconds \<circ> fst) ms) (cq_rttEWMA q) \<and>
   cq_lossEWMA (cq_feed ms q) = ew_feed (map (\<lambda>(r, j, l, b). l) ms) (cq_lossEWMA q) \<and>
   cq_jitterEWMA (cq_feed ms q) = ew_feed (map (\<lambda>(r, j, l, b). milliseconds j) ms) (cq_jitterEWMA q)"
  by (induction ms rule: rev_induct)
    (auto simp: cq_feed_def ew_feed_def cq_UpdateWithJitter_def cq_record_def split_beta Let_def)

lemma cq_feed_values:
  "ms \<noteq> [] \<Longrightarrow> cq_SmoothedRTTMs (cq_feed ms q) = ew_Value (cq_rttEWMA (cq_feed ms q)) \<and>
     cq_SmoothedLossRatio (cq_feed ms q) = ew_Value (cq_lossEWMA (cq_feed ms q)) \<and>
     cq_SmoothedJitterMs (cq_feed ms q) = ew_Value (cq_jitterEWMA (cq_feed ms q)) \<and>
     cq_BandwidthBps (cq_feed ms q) = snd (snd (snd (last ms))) \<and>
     cq_Score (cq_feed ms q) = computeQoE (cq_SmoothedRTTMs (cq_feed ms q)) (cq_SmoothedLossRatio (cq_feed ms q))
       (cq_SmoothedJitterMs (cq_feed ms q)) (cq_BandwidthBps (cq_feed ms q))"
  by (cases ms rule: rev_cases)
    (auto simp: cq_feed_def cq_UpdateWithJitter_def cq_record_def ew_Update_def ew_Value_def split_beta Let_def)

lemma quality_score_sound_facts:
  assumes "ms \<noteq> []" "q = cq_feed ms (NewConnQuality rid)"
    and "\<forall>(rtt, jit, l, b) \<in> set ms. rtt0 \<le> milliseconds rtt \<and> milliseconds rtt \<le> rtt1 \<and>
      jit0 \<le> milliseconds jit \<and> milliseconds jit \<le> jit1 \<and> l0 \<le> l \<and> l \<le> l1 \<and> b0 \<le> b \<and> b \<le> b1"
  shows "rtt0 \<le> cq_SmoothedRTTMs q \<and> cq_SmoothedRTTMs q \<le> rtt1 \<and> l0 \<le> cq_SmoothedLossRatio q \<and>
    cq_SmoothedLossRatio q \<le> l1 \<and> jit0 \<le> cq_SmoothedJitterMs q \<and> cq_SmoothedJitterMs q \<le> jit1"
    and "0 \<le> cq_GetScore q" "cq_GetScore q \<le> 100"
    and "computeQoE rtt1 l1 jit1 b0 \<le> cq_GetScore q" "cq_GetScore q \<le> computeQoE rtt0 l0 jit0 b1"
proof -
  note v = cq_feed_values [OF assms(1), of "NewConnQuality rid"] and e = cq_feed_ewma [of ms "NewConnQuality rid"]
  have m: "rtt0 \<le> milliseconds (fst x)" "milliseconds (fst x) \<le> rtt1" "jit0 \<le> milliseconds (fst (snd x))"
    "milliseconds (fst (snd x)) \<le> jit1" "l0 \<le> fst (snd (snd x))" "fst (snd (snd x)) \<le> l1"
    "b0 \<le> snd (snd (snd x))" "snd (snd (snd x)) \<le> b1" if "x \<in> set ms" for x
    using assms(3) that by (auto simp: split_beta)
  have new: "ew_ok lo hi (cq_rttEWMA (NewConnQuality rid))" "ew_ok lo hi (cq_lossEWMA (NewConnQuality rid))"
    "ew_ok lo hi (cq_jitterEWMA (NewConnQuality rid))" for lo hi by (simp_all add: NewConnQuality_def ew_ok_new)
  have r: "rtt0 \<le> cq_SmoothedRTTMs q \<and> cq_SmoothedRTTMs q \<le> rtt1"
    using ew_feed_range [OF _ _ new(1), of "map (milliseconds \<circ> fst) ms" rtt0 rtt1] assms(1,2) m v e by auto
  have l: "l0 \<le> cq_SmoothedLossRatio q \<and> cq_SmoothedLossRatio q \<le> l1"
    using ew_feed_range [OF _ _ new(2), of "map (\<lambda>(r, j, l, b). l) ms" l0 l1] assms(1,2) m v e by (auto simp: split_beta)
  have j: "jit0 \<le> cq_SmoothedJitterMs q \<and> cq_SmoothedJitterMs q \<le> jit1"
    using ew_feed_range [OF _ _ new(3), of "map (\<lambda>(r, j, l, b). milliseconds j) ms" jit0 jit1] assms(1,2) m v e by (auto simp: split_beta)
  have "last ms \<in> set ms" using assms(1) by simp
  then have b: "b0 \<le> cq_BandwidthBps q" "cq_BandwidthBps q \<le> b1" using assms(2) v m [of "last ms"] by auto
  have s: "cq_GetScore q = computeQoE (cq_SmoothedRTTMs q) (cq_SmoothedLossRatio q) (cq_SmoothedJitterMs q) (cq_BandwidthBps q)"
    using v assms(2) by (simp add: cq_GetScore_def)
  from r l j show "rtt0 \<le> cq_SmoothedRTTMs q \<and> cq_SmoothedRTTMs q \<le> rtt1 \<and> l0 \<le> cq_SmoothedLossRatio q \<and>
    cq_SmoothedLossRatio q \<le> l1 \<and> jit0 \<le> cq_SmoothedJitterMs q \<and> cq_SmoothedJitterMs q \<le> jit1" by blast
  show "0 \<le> cq_GetScore q" "cq_GetScore q \<le> 100" unfolding s using computeQoE_range by auto
  show "computeQoE rtt1 l1 jit1 b0 \<le> cq_GetScore q" "cq_GetScore q \<le> computeQoE rtt0 l0 jit0 b1"
    unfolding s using r l j b by (auto intro: computeQoE_mono)
qed

text \<open>
  Smoothing and scoring are sound. After any series of measurements the smoothed values lie within the
  range of the measurements made, the score lies between 0 and 100, and it is at least as high as the score
  of any values that are no better.
\<close>

theorem quality_score_sound:
  assumes "ms \<noteq> []" "q = cq_feed ms (NewConnQuality rid)"
    and "\<forall>(rtt, jit, l, b) \<in> set ms. rtt0 \<le> milliseconds rtt \<and> milliseconds rtt \<le> rtt1 \<and>
      jit0 \<le> milliseconds jit \<and> milliseconds jit \<le> jit1 \<and> l0 \<le> l \<and> l \<le> l1 \<and> b0 \<le> b \<and> b \<le> b1"
  shows "rtt0 \<le> cq_SmoothedRTTMs q \<and> cq_SmoothedRTTMs q \<le> rtt1 \<and> l0 \<le> cq_SmoothedLossRatio q \<and>
    cq_SmoothedLossRatio q \<le> l1 \<and> jit0 \<le> cq_SmoothedJitterMs q \<and> cq_SmoothedJitterMs q \<le> jit1 \<and>
    0 \<le> cq_GetScore q \<and> cq_GetScore q \<le> 100 \<and>
    computeQoE rtt1 l1 jit1 b0 \<le> cq_GetScore q \<and> cq_GetScore q \<le> computeQoE rtt0 l0 jit0 b1"
  using quality_score_sound_facts [OF assms] by blast

theorem quality_score_sound_witness:
  "computeQoE 40 0 2 100 \<le> cq_GetScore (cq_feed [(20000000, 1000000, 0, 100), (40000000, 2000000, 0, 200)] (NewConnQuality ''r''))"
proof -
  have "\<forall>(rtt, jit, l, b) \<in> set [(20000000, 1000000, 0, 100), (40000000, 2000000, 0, 200)].
      20 \<le> milliseconds rtt \<and> milliseconds rtt \<le> 40 \<and> 1 \<le> milliseconds jit \<and> milliseconds jit \<le> 2 \<and>
      0 \<le> (l :: rat) \<and> l \<le> 0 \<and> 100 \<le> (b :: nat) \<and> b \<le> 200"
    by (simp add: milliseconds_def quot_def)
  from quality_score_sound [OF _ refl this, where rid = "''r''"] show ?thesis by simp
qed

end
