(* ===== verification/MultiChannel.thy ===== *)
theory MultiChannel
  imports Prelude "HOL-Library.Word"
begin

unbundle bit_operations_syntax

text \<open>
  apps/gateway/internal/webrtc/multichannel.go: the data channels of a session, the two bytes in front of
  every frame, and the frames of input events. Bytes and integers have the width of the source.
\<close>

type_synonym byte = "8 word"

section \<open>encoding/binary\<close>

definition put_be16 :: "16 word \<Rightarrow> byte list" where
  "put_be16 w = [ucast (drop_bit 8 w), ucast w]"

definition put_le32 :: "32 word \<Rightarrow> byte list" where
  "put_le32 w = [ucast w, ucast (drop_bit 8 w), ucast (drop_bit 16 w), ucast (drop_bit 24 w)]"

text \<open>Reading takes the first bytes; with fewer bytes the source would panic, but its callers check.\<close>

fun get_le32 :: "byte list \<Rightarrow> 32 word" where
  "get_le32 (a # b # c # d # _) = ucast a OR push_bit 8 (ucast b) OR push_bit 16 (ucast c) OR push_bit 24 (ucast d)"
| "get_le32 _ = 0"

fun get_be16 :: "byte list \<Rightarrow> 16 word" where
  "get_be16 (a # b # _) = ucast b OR push_bit 8 (ucast a)"
| "get_be16 _ = 0"

lemmas bytewise = bit_or_iff bit_push_bit_iff bit_unsigned_iff bit_drop_bit_eq possible_bit_def comp_apply

lemma join_le32:
  "(ucast (ucast w :: byte) OR push_bit 8 (ucast (ucast (drop_bit 8 w) :: byte)) OR
    push_bit 16 (ucast (ucast (drop_bit 16 w) :: byte)) OR push_bit 24 (ucast (ucast (drop_bit 24 w) :: byte))) = (w :: 32 word)"
  by (rule bit_word_eqI, simp only: bytewise) auto

lemma join_be16: "(ucast (ucast w :: byte) OR push_bit 8 (ucast (ucast (drop_bit 8 w) :: byte))) = (w :: 16 word)"
  by (rule bit_word_eqI, simp only: bytewise) auto

lemma split_le32:
  fixes a b c d :: byte
  defines "x \<equiv> (ucast a OR push_bit 8 (ucast b) OR push_bit 16 (ucast c) OR push_bit 24 (ucast d) :: 32 word)"
  shows "ucast x = a" "ucast (drop_bit 8 x) = b" "ucast (drop_bit 16 x) = c" "ucast (drop_bit 24 x) = d"
  unfolding x_def by (rule bit_word_eqI, simp only: bytewise, auto dest: bit_imp_le_length)+

lemma get_put_le32: "get_le32 (put_le32 w @ bs) = w"
  using join_le32 [of w] by (simp only: put_le32_def append.simps get_le32.simps)

lemma get_put_be16: "get_be16 (put_be16 w @ bs) = w"
  using join_be16 [of w] by (simp only: put_be16_def append.simps get_be16.simps)

lemma put_get_le32: "put_le32 (get_le32 (a # b # c # d # bs)) = [a, b, c, d]"
  using split_le32 [where a = a and b = b and c = c and d = d] by (simp only: put_le32_def get_le32.simps)

section \<open>Channels\<close>

record channel_config =
  ch_ID :: "16 word"
  ch_Label :: string
  ch_Reliable :: bool
  ch_Ordered :: bool
  ch_Priority :: int

definition channel :: "16 word \<Rightarrow> string \<Rightarrow> bool \<Rightarrow> bool \<Rightarrow> int \<Rightarrow> channel_config" where
  "channel i l r o' p = \<lparr>ch_ID = i, ch_Label = l, ch_Reliable = r, ch_Ordered = o', ch_Priority = p\<rparr>"

definition defaultChannels :: "channel_config list" where
  "defaultChannels =
     [channel 0 ''session'' True True 0, channel 1 ''input'' False False 1, channel 2 ''gamepad'' False False 1,
      channel 3 ''audio-meta'' True True 2, channel 4 ''clipboard'' True True 2, channel 5 ''file-xfer'' True True 3,
      channel 6 ''telemetry'' False False 3]"

text \<open>A managed channel has its configuration and the function that sends a frame (\<open>None\<close>: an error).\<close>

type_synonym 'e managed = "channel_config \<times> (byte list \<Rightarrow> 'e option)"
type_synonym 'e channels = "16 word \<rightharpoonup> 'e managed"

definition NewMultiChannelManager :: "'e channels" where
  "NewMultiChannelManager = Map.empty"

definition mc_RegisterChannel :: "16 word \<Rightarrow> (byte list \<Rightarrow> 'e option) \<Rightarrow> 'e channels \<Rightarrow> 'e channels" where
  "mc_RegisterChannel i send m = (case find (\<lambda>cfg. ch_ID cfg = i) defaultChannels of
     None \<Rightarrow> m
   | Some cfg \<Rightarrow> m(i \<mapsto> (cfg, send)))"

datatype 'e send_result = NotRegistered "16 word" | Sent "byte list" "'e option"

definition mc_Send :: "16 word \<Rightarrow> byte list \<Rightarrow> 'e channels \<Rightarrow> 'e send_result" where
  "mc_Send i data m = (case m i of
     None \<Rightarrow> NotRegistered i
   | Some (cfg, send) \<Rightarrow> (let frame = put_be16 i @ data in Sent frame (send frame)))"

section \<open>Input events\<close>

definition InputEventFrame :: "32 word \<Rightarrow> byte \<Rightarrow> byte list \<Rightarrow> byte list" where
  "InputEventFrame seq eventType data = put_le32 seq @ [eventType] @ data"

definition ParseInputEventFrame :: "byte list \<Rightarrow> (32 word \<times> byte \<times> byte list) option" where
  "ParseInputEventFrame frame =
     (if length frame < 5 then None else Some (get_le32 (take 4 frame), frame ! 4, drop 5 frame))"

lemma length_put_le32 [simp]: "length (put_le32 w) = 4"
  by (simp add: put_le32_def)

lemma parse_input_frame: "ParseInputEventFrame (InputEventFrame seq t d) = Some (seq, t, d)"
  using get_put_le32 [of seq "[]"] by (simp add: ParseInputEventFrame_def InputEventFrame_def nth_append)

lemma input_frame_of_parsed:
  assumes "ParseInputEventFrame f = Some (seq, t, d)"
  shows "InputEventFrame seq t d = f"
proof -
  from assms have "5 \<le> length f" by (simp add: ParseInputEventFrame_def split: if_splits)
  then obtain a b c e g r where f: "f = a # b # c # e # g # r"
    by (auto simp: numeral_eq_Suc Suc_le_length_iff)
  with assms show ?thesis
    by (auto simp: ParseInputEventFrame_def InputEventFrame_def put_get_le32 simp del: get_le32.simps)
qed

text \<open>
  C37: Input frames round trip in both directions. Parsing a frame that was built returns its parts, and a
  byte sequence that parses is exactly the frame of its parts, so no two events share a frame; a parse
  fails exactly when there are fewer than five bytes.
\<close>

theorem input_frame_roundtrip:
  "(ParseInputEventFrame f = Some (seq, t, d) \<longleftrightarrow> f = InputEventFrame seq t d) \<and>
   (ParseInputEventFrame f = None \<longleftrightarrow> length f < 5)"
proof
  show "ParseInputEventFrame f = Some (seq, t, d) \<longleftrightarrow> f = InputEventFrame seq t d"
    using parse_input_frame input_frame_of_parsed by blast
  show "ParseInputEventFrame f = None \<longleftrightarrow> length f < 5" by (simp add: ParseInputEventFrame_def)
qed

text \<open>A frame sent on a registered channel starts with the channel's number, which can be read back.\<close>

lemma mc_send_registered:
  assumes "i < 7"
  shows "mc_Send i data (mc_RegisterChannel i send m) = Sent (put_be16 i @ data) (send (put_be16 i @ data))"
    "get_be16 (put_be16 i @ data) = i"
proof -
  have "i = 0 \<or> i = 1 \<or> i = 2 \<or> i = 3 \<or> i = 4 \<or> i = 5 \<or> i = 6"
  proof -
    have u: "unat i < 7" using assms by (simp add: word_less_nat_alt)
    then have "unat i = 0 \<or> unat i = 1 \<or> unat i = 2 \<or> unat i = 3 \<or> unat i = 4 \<or> unat i = 5 \<or> unat i = 6" by linarith
    then show ?thesis by (simp add: word_unat_eq_iff)
  qed
  then have "find (\<lambda>cfg. ch_ID cfg = i) defaultChannels \<noteq> None"
    by (auto simp: defaultChannels_def channel_def)
  then show "mc_Send i data (mc_RegisterChannel i send m) = Sent (put_be16 i @ data) (send (put_be16 i @ data))"
    by (auto simp: mc_RegisterChannel_def mc_Send_def Let_def)
  show "get_be16 (put_be16 i @ data) = i" by (rule get_put_be16)
qed

lemma mc_unknown_not_registered:
  "\<not> i < 7 \<Longrightarrow> mc_RegisterChannel i send m = m"
proof -
  assume "\<not> i < 7"
  then have "find (\<lambda>cfg. ch_ID cfg = i) defaultChannels = None"
    by (auto simp: defaultChannels_def channel_def find_None_iff)
  then show ?thesis by (simp add: mc_RegisterChannel_def)
qed

end
