(* ===== verification/Bandwidth.thy ===== *)
theory Bandwidth
  imports Prelude
begin

text \<open>
  apps/gateway/internal/webrtc/bandwidth.go: the bitrate controller of a session. Bitrates and jitter are
  natural numbers within 32 bits, packet counters within 64 bits; percentages are exact rationals. A tick
  gets the session's counters and the clock as arguments and returns the events it sends over the data
  channel. The ticker goroutine is the sequence of ticks. A tick is one step: the source takes and releases the
  estimator's mutex several times within it, and a target bitrate that is set in between is not followed.
\<close>

section \<open>State\<close>

definition bweWindowSamples :: nat where "bweWindowSamples = 6"
definition bitrateMin :: nat where "bitrateMin = 100000"
definition bitrateMax :: nat where "bitrateMax = 50000000"
definition codecProposalCooldown :: duration where "codecProposalCooldown = 30 * second"

datatype bwe_state = Normal | Underuse | Overuse

definition codecQualityLadder :: "string list" where
  "codecQualityLadder = [''vp8'', ''vp9'', ''h264'', ''h265'']"

record estimator =
  be_currentBps :: nat
  be_state :: bwe_state
  be_lossHistory :: "rat list"
  be_jitterHistory :: "nat list"
  be_lastProposedCodec :: string
  be_lastProposedAt :: time

definition NewBandwidthEstimator :: estimator where
  "NewBandwidthEstimator = \<lparr>be_currentBps = 5000000, be_state = Normal, be_lossHistory = [], be_jitterHistory = [],
     be_lastProposedCodec = '''', be_lastProposedAt = 0\<rparr>"

text \<open>The session's statistics at a tick.\<close>

record sample =
  sa_received :: nat
  sa_lost :: nat
  sa_jitter :: nat
  sa_codec :: string

datatype bwe_event =
    BitrateUpdate nat rat nat string
  | CodecSwitchProposal string string nat rat

section \<open>Operations\<close>

definition clampBitrate :: "nat \<Rightarrow> nat" where
  "clampBitrate bps = (if bps < bitrateMin then bitrateMin else if bps > bitrateMax then bitrateMax else bps)"

definition be_SetTargetBitrate :: "nat \<Rightarrow> estimator \<Rightarrow> estimator" where
  "be_SetTargetBitrate bps b = b\<lparr>be_currentBps := clampBitrate bps\<rparr>"

definition be_TargetBitrate :: "estimator \<Rightarrow> nat" where
  "be_TargetBitrate b = be_currentBps b"

fun bweState_String :: "bwe_state \<Rightarrow> string" where
  "bweState_String Normal = ''normal''"
| "bweState_String Underuse = ''underuse''"
| "bweState_String Overuse = ''overuse''"

definition average64 :: "rat list \<Rightarrow> rat" where
  "average64 vals = (if vals = [] then 0 else sum_list vals / of_nat (length vals))"

definition averageU32 :: "nat list \<Rightarrow> nat" where
  "averageU32 vals = (if vals = [] then 0 else sum_list vals div length vals)"

definition slide :: "'a \<Rightarrow> 'a list \<Rightarrow> 'a list" where
  "slide x h = (if length h \<ge> bweWindowSamples then tl h else h) @ [x]"

fun codec_index_from :: "nat \<Rightarrow> string \<Rightarrow> string list \<Rightarrow> nat option" where
  "codec_index_from i codec [] = None"
| "codec_index_from i codec (c # cs) = (if c = codec then Some i else codec_index_from (Suc i) codec cs)"

definition codecIndex :: "string \<Rightarrow> nat option" where
  "codecIndex codec = codec_index_from 0 codec codecQualityLadder"

definition lossPercent :: "nat \<Rightarrow> nat \<Rightarrow> rat" where
  "lossPercent received lost =
     (let total = (received + lost) mod 2 ^ 64
      in if total > 0 then of_nat lost / of_nat total * 100 else 0)"

text \<open>The rung of the ladder that the conditions call for.\<close>

definition target_codec :: "nat \<Rightarrow> rat \<Rightarrow> nat \<Rightarrow> nat \<Rightarrow> nat" where
  "target_codec avgJitter avgLoss window idx =
     (if avgJitter > 30 \<or> avgLoss > 10 then 0
      else if avgJitter > 15 \<or> avgLoss > 2 then idx - 1
      else if avgJitter < 5 \<and> avgLoss < 1 / 2 then
        (if window = bweWindowSamples then min (idx + 1) (length codecQualityLadder - 1) else idx)
      else idx)"

definition be_maybeAdaptCodec :: "time \<Rightarrow> nat \<Rightarrow> rat \<Rightarrow> string \<Rightarrow> estimator \<Rightarrow> bwe_event list \<times> estimator" where
  "be_maybeAdaptCodec now avgJitter avgLoss currentCodec b = (case codecIndex currentCodec of
     None \<Rightarrow> ([], b)
   | Some idx \<Rightarrow>
       let targetIdx = target_codec avgJitter avgLoss (length (be_jitterHistory b)) idx
       in if targetIdx \<noteq> idx then
            (let proposed = codecQualityLadder ! targetIdx
             in if be_lastProposedCodec b = proposed \<and> now - be_lastProposedAt b < codecProposalCooldown then ([], b)
                else ([CodecSwitchProposal currentCodec proposed avgJitter avgLoss],
                      b\<lparr>be_lastProposedCodec := proposed, be_lastProposedAt := now\<rparr>))
          else ([], b))"

text \<open>The loss-based controller: the new bitrate and state.\<close>

definition control :: "rat \<Rightarrow> nat \<Rightarrow> bwe_state \<Rightarrow> nat \<times> bwe_state" where
  "control avgLoss cur st =
     (if avgLoss > 10 then (clampBitrate (cur div 2), Overuse)
      else if avgLoss > 2 then (clampBitrate (nat (trunc (of_nat cur * (92 / 100)))), Overuse)
      else if avgLoss < 1 / 2 \<and> st \<noteq> Overuse then (clampBitrate (nat (trunc (of_nat cur * (105 / 100)))), Underuse)
      else (cur, Normal))"

definition be_tick :: "sample \<Rightarrow> time \<Rightarrow> estimator \<Rightarrow> bwe_event list \<times> estimator" where
  "be_tick sa now b =
     (let b = b\<lparr>be_lossHistory := slide (lossPercent (sa_received sa) (sa_lost sa)) (be_lossHistory b),
               be_jitterHistory := slide (sa_jitter sa) (be_jitterHistory b)\<rparr>;
          avgLoss = average64 (be_lossHistory b);
          avgJitter = averageU32 (be_jitterHistory b);
          (newBps, st) = control avgLoss (be_currentBps b) (be_state b);
          b = b\<lparr>be_currentBps := newBps, be_state := st\<rparr>;
          update = BitrateUpdate newBps avgLoss avgJitter (bweState_String st)
      in if sa_received sa > 0
         then (let (es, b) = be_maybeAdaptCodec now avgJitter avgLoss (sa_codec sa) b in (update # es, b))
         else ([update], b))"

section \<open>Properties\<close>

definition be_inv :: "estimator \<Rightarrow> bool" where
  "be_inv b \<longleftrightarrow> bitrateMin \<le> be_currentBps b \<and> be_currentBps b \<le> bitrateMax \<and>
     length (be_lossHistory b) \<le> bweWindowSamples \<and> length (be_jitterHistory b) = length (be_lossHistory b) \<and>
     (\<forall>l \<in> set (be_lossHistory b). 0 \<le> l)"

lemma clamp_range: "bitrateMin \<le> clampBitrate n \<and> clampBitrate n \<le> bitrateMax"
  by (simp add: clampBitrate_def bitrateMin_def bitrateMax_def)

lemma control_range:
  "bitrateMin \<le> cur \<Longrightarrow> cur \<le> bitrateMax \<Longrightarrow>
     bitrateMin \<le> fst (control l cur st) \<and> fst (control l cur st) \<le> bitrateMax"
  using clamp_range by (simp add: control_def)

lemma length_slide: "length h \<le> bweWindowSamples \<Longrightarrow> length (slide x h) \<le> bweWindowSamples"
  "length h = length h' \<Longrightarrow> length (slide x h) = length (slide y h')"
  by (auto simp: slide_def bweWindowSamples_def)

lemma set_slide: "set (slide x h) \<subseteq> insert x (set h)"
  by (cases h) (auto simp: slide_def)

lemma lossPercent_nonneg: "0 \<le> lossPercent r l"
  by (simp add: lossPercent_def Let_def)

lemma adapt_fields:
  "be_maybeAdaptCodec now j l c b = (es, b') \<Longrightarrow>
     be_currentBps b' = be_currentBps b \<and> be_state b' = be_state b \<and>
     be_lossHistory b' = be_lossHistory b \<and> be_jitterHistory b' = be_jitterHistory b"
  by (auto simp: be_maybeAdaptCodec_def Let_def split: option.splits if_splits)

lemma be_tick_fields:
  assumes "be_tick sa now b = (es, b')"
  shows "be_lossHistory b' = slide (lossPercent (sa_received sa) (sa_lost sa)) (be_lossHistory b)"
    "be_jitterHistory b' = slide (sa_jitter sa) (be_jitterHistory b)"
    "(be_currentBps b', be_state b') = control (average64 (be_lossHistory b')) (be_currentBps b) (be_state b)"
proof -
  let ?lh = "slide (lossPercent (sa_received sa) (sa_lost sa)) (be_lossHistory b)"
  let ?jh = "slide (sa_jitter sa) (be_jitterHistory b)"
  obtain bps st where c: "control (average64 ?lh) (be_currentBps b) (be_state b) = (bps, st)"
    by (cases "control (average64 ?lh) (be_currentBps b) (be_state b)")
  define b1 where "b1 = b\<lparr>be_lossHistory := ?lh, be_jitterHistory := ?jh\<rparr>\<lparr>be_currentBps := bps, be_state := st\<rparr>"
  have "\<exists>es'. be_maybeAdaptCodec now (averageU32 ?jh) (average64 ?lh) (sa_codec sa) b1 = (es', b') \<or> b' = b1"
    using assms c by (auto simp: be_tick_def b1_def Let_def split: if_splits prod.splits)
  then have "be_currentBps b' = bps \<and> be_state b' = st \<and> be_lossHistory b' = ?lh \<and> be_jitterHistory b' = ?jh"
    using adapt_fields by (auto simp: b1_def)
  with c show "be_lossHistory b' = ?lh" "be_jitterHistory b' = ?jh"
    "(be_currentBps b', be_state b') = control (average64 (be_lossHistory b')) (be_currentBps b) (be_state b)" by auto
qed

lemma be_tick_inv: "be_inv b \<Longrightarrow> be_tick sa now b = (es, b') \<Longrightarrow> be_inv b'"
proof -
  assume inv: "be_inv b" and tick: "be_tick sa now b = (es, b')"
  note f = be_tick_fields [OF tick]
  have "bitrateMin \<le> be_currentBps b' \<and> be_currentBps b' \<le> bitrateMax"
    using control_range [of "be_currentBps b" "average64 (be_lossHistory b')" "be_state b"] inv
    by (simp add: be_inv_def flip: f(3))
  moreover have "\<forall>l \<in> set (be_lossHistory b'). 0 \<le> l"
    using inv set_slide [of "lossPercent (sa_received sa) (sa_lost sa)" "be_lossHistory b"] lossPercent_nonneg
    by (auto simp: be_inv_def f(1))
  moreover have "length (be_lossHistory b') \<le> bweWindowSamples"
    using inv unfolding f(1) by (intro length_slide(1)) (simp add: be_inv_def)
  moreover have "length (be_jitterHistory b') = length (be_lossHistory b')"
    using inv unfolding f(1,2) by (intro length_slide(2)) (simp add: be_inv_def)
  ultimately show ?thesis by (simp add: be_inv_def)
qed

datatype be_call = BTick sample time | BSet nat

definition be_step :: "estimator \<Rightarrow> be_call \<Rightarrow> estimator" where
  "be_step b c = (case c of BTick sa now \<Rightarrow> snd (be_tick sa now b) | BSet bps \<Rightarrow> be_SetTargetBitrate bps b)"

interpretation be: component be_step be_inv
proof
  fix b c assume inv: "be_inv b"
  show "be_inv (be_step b c)"
  proof (cases c)
    case (BTick sa now)
    obtain es b' where "be_tick sa now b = (es, b')" by (cases "be_tick sa now b")
    with be_tick_inv [OF inv this] BTick show ?thesis by (simp add: be_step_def)
  next
    case (BSet bps)
    with inv clamp_range [of bps] show ?thesis by (simp add: be_step_def be_SetTargetBitrate_def be_inv_def)
  qed
qed

lemma be_inv_new: "be_inv NewBandwidthEstimator"
  by (simp add: be_inv_def NewBandwidthEstimator_def bitrateMin_def bitrateMax_def bweWindowSamples_def)

lemma trunc_percent: "nat (trunc (of_nat cur * (of_nat k / 100))) = k * cur div 100"
proof -
  have "(of_nat cur * (of_nat k / 100) :: rat) = of_nat (k * cur) / of_nat 100" by simp
  moreover have "trunc (of_nat (k * cur) / of_nat 100) = int (k * cur div 100)"
    unfolding trunc_def floor_divide_of_nat_eq by simp
  ultimately show ?thesis by (simp only: nat_int)
qed

lemma control_step:
  assumes "bitrateMin \<le> cur" "cur \<le> bitrateMax" "control l cur st = (bps, st')"
  shows "cur div 2 \<le> bps" "100 * bps \<le> 105 * cur" "l \<ge> 1 / 2 \<or> st = Overuse \<Longrightarrow> bps \<le> cur"
proof -
  have t105: "nat (trunc (of_nat cur * (105 / 100))) = 105 * cur div 100"
    and t92: "nat (trunc (of_nat cur * (92 / 100))) = 92 * cur div 100"
    using trunc_percent [of cur 105] trunc_percent [of cur 92] by simp_all
  have clamp: "cur div 2 \<le> clampBitrate n \<and> 100 * clampBitrate n \<le> 105 * cur \<and> (n \<le> cur \<longrightarrow> clampBitrate n \<le> cur)"
    if "cur div 2 \<le> n" "100 * n \<le> 105 * cur" for n
    using that assms(1,2) by (auto simp: clampBitrate_def)
  have half: "cur div 2 = 50 * cur div 100" using div_mult_mult1 [of "50::nat" cur 2] by simp
  have le: "100 * (n * cur div 100) \<le> n * cur" for n by (rule times_div_less_eq_dividend)
  have c50: "100 * (cur div 2) \<le> 105 * cur \<and> cur div 2 \<le> cur" using le [of 50] unfolding half by linarith
  have c92: "cur div 2 \<le> 92 * cur div 100" unfolding half by (rule div_le_mono) simp
  have c92': "100 * (92 * cur div 100) \<le> 105 * cur" "92 * cur div 100 \<le> cur" using le [of 92] by linarith+
  have c105: "cur div 2 \<le> 105 * cur div 100" unfolding half by (rule div_le_mono) simp
  have c105': "100 * (105 * cur div 100) \<le> 105 * cur" by (rule le)
  consider "bps = clampBitrate (cur div 2)" "l > 10" | "bps = clampBitrate (92 * cur div 100)" "l > 2"
    | "bps = clampBitrate (105 * cur div 100)" "l < 1 / 2" "st \<noteq> Overuse" | "bps = cur"
    using assms(3) unfolding control_def t105 t92 by (auto split: if_splits)
  then have "cur div 2 \<le> bps \<and> 100 * bps \<le> 105 * cur \<and> (l \<ge> 1 / 2 \<or> st = Overuse \<longrightarrow> bps \<le> cur)"
  proof cases
    case 1
    with clamp [OF order_refl] c50 show ?thesis by simp
  next
    case 2
    with clamp [OF c92 c92'(1)] c92'(2) show ?thesis by simp
  next
    case 3
    with clamp [OF c105 c105'] show ?thesis by auto
  qed auto
  then show "cur div 2 \<le> bps" "100 * bps \<le> 105 * cur" "l \<ge> 1 / 2 \<or> st = Overuse \<Longrightarrow> bps \<le> cur" by blast+
qed

lemma codecIndex_range: "codecIndex c = Some i \<Longrightarrow> i < 4 \<and> codecQualityLadder ! i = c"
  by (auto simp: codecIndex_def codecQualityLadder_def split: if_splits)

lemma adapt_proposal:
  assumes "be_maybeAdaptCodec now j l c b = (es, b')" "e \<in> set es"
  shows "\<exists>to. e = CodecSwitchProposal c to j l \<and> to \<in> set codecQualityLadder \<and> to \<noteq> c"
proof -
  obtain idx where idx: "codecIndex c = Some idx"
    using assms by (cases "codecIndex c") (auto simp: be_maybeAdaptCodec_def)
  note r = codecIndex_range [OF idx]
  define t where "t = target_codec j l (length (be_jitterHistory b)) idx"
  have "t < 4" using r by (auto simp: t_def target_codec_def codecQualityLadder_def)
  moreover have "t \<noteq> idx" "e = CodecSwitchProposal c (codecQualityLadder ! t) j l"
    using assms idx by (auto simp: be_maybeAdaptCodec_def t_def Let_def split: if_splits)
  moreover have "distinct codecQualityLadder" "length codecQualityLadder = 4" by (simp_all add: codecQualityLadder_def)
  ultimately show ?thesis using r by (metis nth_eq_iff_index_eq nth_mem)
qed

text \<open>
  C38: The bitrate controller is stable. Whatever counters the ticks see and whatever targets are set from
  outside, the bitrate stays between 100 kbit/s and 50 Mbit/s; a tick changes it by no more than a factor of
  two down and five percent up; it never raises it when the average loss is half a percent or more, nor in
  the tick after an overuse; and the codec it proposes is a rung of the ladder other than the current one.
\<close>

theorem bitrate_controller_stable:
  fixes calls :: "be_call list"
  defines "b \<equiv> foldl be_step NewBandwidthEstimator calls"
  assumes "be_tick sa now b = (es, b')"
  shows "bitrateMin \<le> be_TargetBitrate b' \<and> be_TargetBitrate b' \<le> bitrateMax \<and>
    be_TargetBitrate b div 2 \<le> be_TargetBitrate b' \<and> 100 * be_TargetBitrate b' \<le> 105 * be_TargetBitrate b \<and>
    (average64 (be_lossHistory b') \<ge> 1 / 2 \<or> be_state b = Overuse \<longrightarrow> be_TargetBitrate b' \<le> be_TargetBitrate b) \<and>
    (\<forall>c1 c2 j l. CodecSwitchProposal c1 c2 j l \<in> set es \<longrightarrow>
       c1 = sa_codec sa \<and> c2 \<in> set codecQualityLadder \<and> c2 \<noteq> c1)"
proof -
  have inv: "be_inv b" unfolding b_def using be_inv_new by (rule be.run_inv)
  note f = be_tick_fields(3) [OF assms(2)]
  have cur: "bitrateMin \<le> be_currentBps b" "be_currentBps b \<le> bitrateMax" using inv by (auto simp: be_inv_def)
  note s = control_step [OF cur f [symmetric]]
  have "be_inv b'" using be_tick_inv [OF inv assms(2)] .
  moreover have "c1 = sa_codec sa \<and> c2 \<in> set codecQualityLadder \<and> c2 \<noteq> c1" if e: "CodecSwitchProposal c1 c2 j l \<in> set es" for c1 c2 j l
  proof -
    obtain j' l' b0 es' b1 where "be_maybeAdaptCodec now j' l' (sa_codec sa) b0 = (es', b1)" "set es \<subseteq> {BitrateUpdate n x y z | n x y z. True} \<union> set es'"
      using assms(2) e by (auto simp: be_tick_def Let_def split: if_splits prod.splits)
    with e adapt_proposal show ?thesis by blast
  qed
  ultimately show ?thesis using s by (auto simp: be_inv_def be_TargetBitrate_def)
qed

theorem bitrate_controller_stable_witness:
  "\<exists>es b'. be_tick \<lparr>sa_received = 90, sa_lost = 10, sa_jitter = 40, sa_codec = ''h264''\<rparr> 5
      (foldl be_step NewBandwidthEstimator [BSet 200000]) = (es, b') \<and>
    bitrateMin \<le> be_TargetBitrate b' \<and> be_TargetBitrate b' \<le> bitrateMax"
proof -
  let ?sa = "\<lparr>sa_received = 90, sa_lost = 10, sa_jitter = 40, sa_codec = ''h264''\<rparr>"
  obtain es b' where t: "be_tick ?sa 5 (foldl be_step NewBandwidthEstimator [BSet 200000]) = (es, b')"
    by (cases "be_tick ?sa 5 (foldl be_step NewBandwidthEstimator [BSet 200000])")
  from bitrate_controller_stable [OF t] t show ?thesis by blast
qed

end
