(* ===== verification/Encoder.thy ===== *)
theory Encoder
  imports GoStrings
begin

text \<open>
  apps/gateway/internal/webrtc/encoder.go: encoder settings for a codec and a mode, and the command line of
  ffmpeg. Modes and presets are strings, since clients send the mode.
\<close>

record webrtc_encoder_config =
  ec_Mode :: string
  ec_Preset :: string
  ec_CodecProfile :: string
  ec_CodecLevel :: string
  ec_PixelFormat :: string
  ec_GopSize :: int
  ec_BFrames :: int
  ec_RefFrames :: int
  ec_MaxBitrateKbps :: int
  ec_CRF :: int
  ec_QP :: int
  ec_HardwareAccel :: bool

record encoder_profile =
  ep_Codec :: string
  ep_Config :: webrtc_encoder_config
  ep_Priority :: int

definition codecPriority :: "string \<rightharpoonup> int" where
  "codecPriority = [''h265'' \<mapsto> 6, ''h264'' \<mapsto> 5, ''av1'' \<mapsto> 4, ''vp9'' \<mapsto> 3, ''vp8'' \<mapsto> 2, ''h263'' \<mapsto> 1]"

definition DefaultEncoderConfig :: "string \<Rightarrow> bool \<Rightarrow> webrtc_encoder_config" where
  "DefaultEncoderConfig mode hardwareAccel =
     (let cfg = \<lparr>ec_Mode = mode, ec_Preset = '''', ec_CodecProfile = '''', ec_CodecLevel = '''', ec_PixelFormat = '''',
            ec_GopSize = 0, ec_BFrames = 0, ec_RefFrames = 0, ec_MaxBitrateKbps = 0, ec_CRF = 0, ec_QP = 0,
            ec_HardwareAccel = hardwareAccel\<rparr>;
          cfg = (if mode = ''speed'' then
                   cfg\<lparr>ec_Preset := ''veryfast'', ec_PixelFormat := ''yuv420p'', ec_GopSize := 120, ec_BFrames := 0,
                       ec_RefFrames := 2, ec_CRF := 28, ec_QP := 28\<rparr>
                 else if mode = ''quality'' then
                   cfg\<lparr>ec_Preset := ''slow'', ec_PixelFormat := ''yuv420p'', ec_GopSize := 60, ec_BFrames := 3,
                       ec_RefFrames := 5, ec_CRF := 18, ec_QP := 18\<rparr>
                 else
                   cfg\<lparr>ec_Preset := ''medium'', ec_PixelFormat := ''yuv420p'', ec_GopSize := 90, ec_BFrames := 2,
                       ec_RefFrames := 3, ec_CRF := 23, ec_QP := 23\<rparr>)
      in if hardwareAccel then
           (if mode = ''speed'' then cfg\<lparr>ec_Preset := ''fast''\<rparr>
            else if mode = ''quality'' then cfg\<lparr>ec_Preset := ''medium''\<rparr>
            else cfg\<lparr>ec_Preset := ''fast''\<rparr>)
         else cfg)"

definition codecProfileFor :: "string \<Rightarrow> string \<Rightarrow> string" where
  "codecProfileFor codec mode =
     (if codec = ''h264'' then (if mode = ''quality'' then ''high'' else ''main'')
      else if codec = ''h265'' then (if mode = ''quality'' then ''main10'' else ''main'')
      else if codec = ''h263'' then ''baseline'' else '''')"

definition codecLevelFor :: "string \<Rightarrow> string" where
  "codecLevelFor codec = (if codec = ''h264'' then ''4.1'' else if codec = ''h265'' then ''5.1''
     else if codec = ''h263'' then ''45'' else '''')"

definition EncoderConfigForCodec :: "string \<Rightarrow> string \<Rightarrow> bool \<Rightarrow> webrtc_encoder_config" where
  "EncoderConfigForCodec codec mode hardwareAccel =
     (DefaultEncoderConfig mode hardwareAccel)
       \<lparr>ec_CodecProfile := codecProfileFor codec mode, ec_CodecLevel := codecLevelFor codec\<rparr>"

text \<open>The command line is put together in steps, each of which appends to it.\<close>

definition arg_codec :: "string \<Rightarrow> webrtc_encoder_config \<Rightarrow> string list" where
  "arg_codec codec cfg =
     (let hw = ec_HardwareAccel cfg
      in if codec = ''h264'' then [''-c:v'', if hw then ''h264_nvenc'' else ''libx264'']
         else if codec = ''h265'' then [''-c:v'', if hw then ''hevc_nvenc'' else ''libx265'']
         else if codec = ''h263'' then
           (if hw then [''-c:v'', ''h263_vaapi'']
            else [''-c:v'', ''libx264''] @ [''-profile:v'', ''baseline''] @ [''-x264-params'', ''annexb=1''])
         else if codec = ''av1'' then
           (if hw then [''-c:v'', ''av1_nvenc'']
            else [''-c:v'', ''libaom-av1''] @ [''-strict'', ''experimental''] @
              (if ec_Preset cfg = ''ultrafast'' then [''-cpu-used'', ''8''] else []))
         else if codec = ''vp8'' then [''-c:v'', ''libvpx'']
         else if codec = ''vp9'' then [''-c:v'', ''libvpx-vp9'']
         else [])"

definition nvenc_preset :: "string \<Rightarrow> string" where
  "nvenc_preset mode = (if mode = ''speed'' then ''p1'' else if mode = ''quality'' then ''p7'' else ''p2'')"

definition arg_preset :: "string \<Rightarrow> webrtc_encoder_config \<Rightarrow> string list" where
  "arg_preset codec cfg =
     (if ec_Preset cfg = '''' then []
      else if codec = ''h264'' \<or> codec = ''h265'' then
        [''-preset'', if ec_HardwareAccel cfg then nvenc_preset (ec_Mode cfg) else ec_Preset cfg]
      else if codec = ''vp9'' then
        (if ec_Preset cfg = ''ultrafast'' \<or> ec_Preset cfg = ''superfast'' then
           [''-deadline'', ''realtime''] @ [''-cpu-used'', ''5'']
         else if ec_Preset cfg = ''veryfast'' \<or> ec_Preset cfg = ''faster'' then
           [''-deadline'', ''realtime''] @ [''-cpu-used'', ''2'']
         else [''-deadline'', ''good''] @ [''-cpu-used'', ''0''])
      else if codec = ''vp8'' then [''-deadline'', ''realtime''] @ [''-cpu-used'', ''5'']
      else [])"

definition arg_quality :: "string \<Rightarrow> webrtc_encoder_config \<Rightarrow> string list" where
  "arg_quality codec cfg =
     (if 0 < ec_CRF cfg \<and> codec \<in> {''h264'', ''h265'', ''vp9'', ''av1''} then [''-crf'', fmt_d (ec_CRF cfg)] else []) @
     (if 0 < ec_QP cfg \<and> codec \<in> {''h264'', ''h265''} \<and> ec_HardwareAccel cfg then [''-qp'', fmt_d (ec_QP cfg)] else [])"

definition arg_picture :: "string \<Rightarrow> webrtc_encoder_config \<Rightarrow> string list" where
  "arg_picture codec cfg =
     (if ec_PixelFormat cfg \<noteq> '''' then [''-pix_fmt'', ec_PixelFormat cfg] else []) @
     (if 0 < ec_GopSize cfg then
        (if codec = ''h264'' \<or> codec = ''h265'' then
           [''-g'', fmt_d (ec_GopSize cfg)] @ [''-keyint_min'', fmt_d (ec_GopSize cfg)]
         else if codec = ''vp8'' \<or> codec = ''vp9'' then [''-g'', fmt_d (ec_GopSize cfg)] else [])
      else []) @
     (if 0 \<le> ec_BFrames cfg then [''-bf'', fmt_d (ec_BFrames cfg)] else []) @
     (if 0 < ec_RefFrames cfg \<and> codec = ''h264'' then [''-refs'', fmt_d (ec_RefFrames cfg)] else [])"

definition arg_profile :: "string \<Rightarrow> webrtc_encoder_config \<Rightarrow> string list" where
  "arg_profile codec cfg =
     (if ec_CodecProfile cfg = '''' then []
      else if codec = ''h264'' then [''-profile:v'', ec_CodecProfile cfg]
      else if codec = ''h265'' then
        (if ec_HardwareAccel cfg then [''-profile:v'', ec_CodecProfile cfg]
         else if ec_CodecProfile cfg = ''main'' then [''-x265-params'', ''profile=main'']
         else if ec_CodecProfile cfg = ''main10'' then [''-x265-params'', ''profile=main10'']
         else [])
      else []) @
     (if ec_CodecLevel cfg \<noteq> '''' then [''-level'', ec_CodecLevel cfg] else [])"

definition arg_rate :: "webrtc_encoder_config \<Rightarrow> string list" where
  "arg_rate cfg =
     (if 0 < ec_MaxBitrateKbps cfg then
        [''-maxrate'', fmt_d (ec_MaxBitrateKbps cfg) @ ''k''] @
        [''-bufsize'', fmt_d (wrap64 (ec_MaxBitrateKbps cfg * 2)) @ ''k'']
      else [])"

definition BuildFFmpegEncoderArgs :: "string \<Rightarrow> webrtc_encoder_config \<Rightarrow> string list" where
  "BuildFFmpegEncoderArgs codec cfg =
     arg_codec codec cfg @ arg_preset codec cfg @ arg_quality codec cfg @ arg_picture codec cfg @
     arg_profile codec cfg @ arg_rate cfg"

definition SelectEncoderProfile :: "string \<Rightarrow> string \<Rightarrow> bool \<Rightarrow> string + encoder_profile" where
  "SelectEncoderProfile codec mode hardwareAccel = (case codecPriority codec of
     None \<Rightarrow> Inl (''unknown codec: '' @ codec)
   | Some priority \<Rightarrow> Inr \<lparr>ep_Codec = codec, ep_Config = EncoderConfigForCodec codec mode hardwareAccel,
       ep_Priority = priority\<rparr>)"

section \<open>The command line is well formed\<close>

text \<open>\<open>opts args\<close> are the options of a command line that consists of options with one value each.\<close>

fun opts :: "string list \<Rightarrow> string list option" where
  "opts [] = Some []"
| "opts [a] = None"
| "opts (a # v # args) = map_option (Cons a) (opts args)"

lemma opts_append: "opts xs = Some ps \<Longrightarrow> opts (xs @ ys) = map_option ((@) ps) (opts ys)"
proof (induction xs arbitrary: ps rule: opts.induct)
  case 1
  then show ?case by (simp add: option.map_ident)
next
  case (3 a v args)
  then obtain qs where "opts args = Some qs" "ps = a # qs" by auto
  with 3 show ?case by (simp add: option.map_comp comp_def)
qed simp

definition opts_in :: "string list \<Rightarrow> string set \<Rightarrow> bool" where
  "opts_in args S \<longleftrightarrow> (\<exists>ps. opts args = Some ps \<and> distinct ps \<and> set ps \<subseteq> S)"

lemma opts_inI: "opts args = Some ps \<Longrightarrow> distinct ps \<Longrightarrow> set ps \<subseteq> S \<Longrightarrow> opts_in args S"
  by (auto simp: opts_in_def)

lemma opts_in_append: "opts_in xs A \<Longrightarrow> opts_in ys B \<Longrightarrow> A \<inter> B = {} \<Longrightarrow> opts_in (xs @ ys) (A \<union> B)"
  by (fastforce simp: opts_in_def opts_append)

lemma opts_in_mono: "opts_in xs A \<Longrightarrow> A \<subseteq> B \<Longrightarrow> opts_in xs B"
  by (auto simp: opts_in_def)

definition codec_opts :: "string \<Rightarrow> string set" where
  "codec_opts codec = {''-c:v'', ''-strict'', ''-x264-params''} \<union>
     (if codec = ''h263'' then {''-profile:v''} else {}) \<union> (if codec = ''av1'' then {''-cpu-used''} else {})"

definition preset_opts :: "string \<Rightarrow> string set" where
  "preset_opts codec = (if codec = ''av1'' then {} else {''-preset'', ''-deadline'', ''-cpu-used''})"

definition profile_opts :: "string \<Rightarrow> string set" where
  "profile_opts codec = {''-x265-params'', ''-level''} \<union> (if codec = ''h263'' then {} else {''-profile:v''})"

lemma arg_codec_opts: "opts_in (arg_codec codec cfg) (codec_opts codec)"
  unfolding arg_codec_def codec_opts_def Let_def
  by (simp add: opts_in_def split del: if_split cong: if_cong) (simp split: if_split)

lemma arg_preset_opts: "opts_in (arg_preset codec cfg) (preset_opts codec)"
  unfolding arg_preset_def preset_opts_def by (simp add: opts_in_def)

lemma arg_quality_opts: "opts_in (arg_quality codec cfg) {''-crf'', ''-qp''}"
  unfolding arg_quality_def by (simp add: opts_in_def)

lemma arg_picture_opts: "opts_in (arg_picture codec cfg) {''-pix_fmt'', ''-g'', ''-keyint_min'', ''-bf'', ''-refs''}"
  unfolding arg_picture_def by (simp add: opts_in_def)

lemma arg_profile_opts: "opts_in (arg_profile codec cfg) (profile_opts codec)"
  unfolding arg_profile_def profile_opts_def by (simp add: opts_in_def)

lemma arg_rate_opts: "opts_in (arg_rate cfg) {''-maxrate'', ''-bufsize''}"
  unfolding arg_rate_def by (simp add: opts_in_def)


lemma ffmpeg_opts_in:
  "opts_in (BuildFFmpegEncoderArgs codec cfg)
    (codec_opts codec \<union> (preset_opts codec \<union> ({''-crf'', ''-qp''} \<union>
      ({''-pix_fmt'', ''-g'', ''-keyint_min'', ''-bf'', ''-refs''} \<union> (profile_opts codec \<union> {''-maxrate'', ''-bufsize''})))))"
  unfolding BuildFFmpegEncoderArgs_def
  by (intro opts_in_append arg_codec_opts arg_preset_opts arg_quality_opts arg_picture_opts arg_profile_opts arg_rate_opts)
    (auto simp: codec_opts_def preset_opts_def profile_opts_def)

lemma codec_first: "codecPriority codec \<noteq> None \<Longrightarrow> \<exists>v vs. arg_codec codec cfg = ''-c:v'' # v # vs"
  by (auto simp: codecPriority_def arg_codec_def Let_def split: if_splits)

text \<open>
  C40: The command line for ffmpeg is well formed for every configuration, also one that no mode yields: it
  consists of options with one value each, no option is given twice, and for a known codec the encoder
  comes first.
\<close>

theorem ffmpeg_args_wellformed:
  "\<exists>ps. opts (BuildFFmpegEncoderArgs codec cfg) = Some ps \<and> distinct ps \<and>
     (codecPriority codec = None \<or> take 1 ps = [''-c:v''])"
proof -
  obtain ps where ps: "opts (BuildFFmpegEncoderArgs codec cfg) = Some ps" "distinct ps"
    using ffmpeg_opts_in [of codec cfg] by (auto simp: opts_in_def)
  have "take 1 ps = [''-c:v'']" if known: "codecPriority codec \<noteq> None"
  proof -
    obtain v vs where "BuildFFmpegEncoderArgs codec cfg = ''-c:v'' # v # vs"
      using codec_first [OF known, of cfg] by (auto simp: BuildFFmpegEncoderArgs_def)
    with ps(1) show ?thesis by auto
  qed
  with ps show ?thesis by (cases "codecPriority codec") auto
qed

text \<open>A profile exists exactly for the known codecs.\<close>

lemma profile_exists_iff:
  "(\<exists>p. SelectEncoderProfile codec mode hw = Inr p) \<longleftrightarrow> codec \<in> {''h265'', ''h264'', ''av1'', ''vp9'', ''vp8'', ''h263''}"
  by (simp add: SelectEncoderProfile_def codecPriority_def)

text \<open>
  With hardware acceleration the command line for h264 and h265 asks both for a constant quality and for a
  constant quantiser, for every mode.
\<close>

lemma hardware_crf_and_qp:
  assumes "codec \<in> {''h264'', ''h265''}"
  shows "\<exists>xs ys zs. BuildFFmpegEncoderArgs codec (EncoderConfigForCodec codec mode True) =
    xs @ [''-crf'', fmt_d (ec_CRF (DefaultEncoderConfig mode True)), ''-qp'', fmt_d (ec_QP (DefaultEncoderConfig mode True))] @ zs"
proof -
  define cfg where "cfg = EncoderConfigForCodec codec mode True"
  have "0 < ec_CRF cfg" "0 < ec_QP cfg" "ec_HardwareAccel cfg"
    "ec_CRF cfg = ec_CRF (DefaultEncoderConfig mode True)" "ec_QP cfg = ec_QP (DefaultEncoderConfig mode True)"
    by (simp_all add: cfg_def EncoderConfigForCodec_def DefaultEncoderConfig_def Let_def)
  then have "arg_quality codec cfg =
      [''-crf'', fmt_d (ec_CRF (DefaultEncoderConfig mode True)), ''-qp'', fmt_d (ec_QP (DefaultEncoderConfig mode True))]"
    using assms by (auto simp: arg_quality_def)
  then show ?thesis unfolding BuildFFmpegEncoderArgs_def cfg_def [symmetric] by (metis append_assoc)
qed

end
