(* ===== verification/WebRtc.thy ===== *)
theory WebRtc
  imports Encoder
begin

text \<open>
  apps/gateway/internal/webrtc/webrtc.go: the table of WebRTC sessions with its limiter of 1000 slots, the
  choice of codecs, the signalling messages, the statistics, and the ingest of media. The peer connection
  belongs to the pion package: whether its calls fail is an argument of the operations that make them, and
  its callbacks on the state of the ICE connection are operations that may come at any time. A session is
  a pointer that the table and its callbacks share, an address of the memory. Creating a session is one
  step, although the slot is taken before the session is stored.
\<close>

section \<open>State\<close>

datatype ws_state = WsCreated | WsConnecting | WsActive | WsReconnecting | WsEnded | WsFailed

record codec_support =
  cs_H263 :: bool
  cs_H264 :: bool
  cs_H265 :: bool
  cs_AV1 :: bool
  cs_VP8 :: bool
  cs_VP9 :: bool
  cs_Opus :: bool
  cs_AAC :: bool
  cs_HardwareAccel :: bool

text \<open>Counters have the width of the source and are kept as natural numbers within it.\<close>

record ws_stats =
  st_BytesReceived :: nat
  st_BytesSent :: nat
  st_PacketsReceived :: nat
  st_PacketsSent :: nat
  st_PacketsLost :: nat
  st_CurrentBitrate :: nat
  st_RTT :: nat
  st_Jitter :: nat
  st_LastSampledAt :: "time option"
  st_lastBytesReceived :: nat

text \<open>The stop channel of a session is open or closed.\<close>

record ws_session =
  ws_ID :: string
  ws_ClientID :: string
  ws_VideoCodec :: string
  ws_AudioCodec :: string
  ws_Preset :: string
  ws_EncodingMode :: string
  ws_EncoderCfg :: webrtc_encoder_config
  ws_State :: ws_state
  ws_CreatedAt :: time
  ws_UpdatedAt :: time
  ws_ExpiresAt :: time
  ws_Stats :: ws_stats
  ws_stopClosed :: bool

record ws_quality =
  wq_RTT :: duration
  wq_Jitter :: duration
  wq_PacketLossPercent :: rat
  wq_DownstreamMbps :: rat
  wq_UpstreamMbps :: rat
  wq_Score :: rat
  wq_SampledAt :: time

record ws_request =
  wr_ClientID :: string
  wr_VideoCodecs :: "string list"
  wr_AudioCodecs :: "string list"
  wr_Preset :: string
  wr_EncodingMode :: string
  wr_Region :: string
  wr_GPURequired :: bool
  wr_Width :: nat
  wr_Height :: nat
  wr_RefreshRate :: nat
  wr_RequestedFPS :: nat
  wr_LatencyTarget :: nat

record ws_response =
  wp_SessionID :: string
  wp_ClientID :: string
  wp_VideoCodec :: string
  wp_AudioCodec :: string
  wp_SignalingURL :: string
  wp_TURNServers :: "string list"
  wp_STUNServers :: "string list"
  wp_ExpiresAt :: time

record webrtc_server =
  wr_mem :: "nat \<rightharpoonup> ws_session"
  wr_next :: nat
  wr_sessions :: "string \<rightharpoonup> nat"
  wr_codecSupport :: codec_support
  wr_slots :: nat
  wr_turnServer :: string
  wr_stunServer :: string
  wr_quality :: "string \<rightharpoonup> ws_quality"
  wr_timers :: "(string \<times> time) list"

definition maxConcurrentSessions :: nat where
  "maxConcurrentSessions = 1000"

definition maxMessageSize :: nat where
  "maxMessageSize = 64 * 1024"

definition wr_NewServer :: "codec_support \<Rightarrow> string \<Rightarrow> string \<Rightarrow> webrtc_server" where
  "wr_NewServer cs turn stun = \<lparr>wr_mem = Map.empty, wr_next = 0, wr_sessions = Map.empty, wr_codecSupport = cs,
     wr_slots = 0, wr_turnServer = turn, wr_stunServer = stun, wr_quality = Map.empty, wr_timers = []\<rparr>"

definition wr_at :: "webrtc_server \<Rightarrow> nat \<Rightarrow> ws_session" where
  "wr_at s p = the (wr_mem s p)"

definition wr_write :: "nat \<Rightarrow> (ws_session \<Rightarrow> ws_session) \<Rightarrow> webrtc_server \<Rightarrow> webrtc_server" where
  "wr_write p f s = s\<lparr>wr_mem := (wr_mem s)(p := map_option f (wr_mem s p))\<rparr>"

section \<open>Codecs\<close>

definition isCodecSupported :: "codec_support \<Rightarrow> string \<Rightarrow> bool" where
  "isCodecSupported cs codec =
     (if codec = ''h263'' then True else if codec = ''h264'' then cs_H264 cs else if codec = ''h265'' then cs_H265 cs
      else if codec = ''av1'' then cs_AV1 cs else if codec = ''vp8'' then cs_VP8 cs
      else if codec = ''vp9'' then cs_VP9 cs else False)"

definition isAudioCodecSupported :: "codec_support \<Rightarrow> string \<Rightarrow> bool" where
  "isAudioCodecSupported cs codec =
     (if codec = ''opus'' then cs_Opus cs else if codec = ''aac'' then cs_AAC cs else False)"

text \<open>The loop that keeps the first codec of the highest priority among those known and supported.\<close>

fun best_codec :: "(string \<rightharpoonup> int) \<Rightarrow> (string \<Rightarrow> bool) \<Rightarrow> string \<times> int \<Rightarrow> string list \<Rightarrow> string \<times> int" where
  "best_codec prio ok b [] = b"
| "best_codec prio ok b (c # cs) =
     (case prio c of None \<Rightarrow> best_codec prio ok b cs
      | Some n \<Rightarrow> if \<not> ok c then best_codec prio ok b cs
          else if snd b < n then best_codec prio ok (c, n) cs else best_codec prio ok b cs)"

definition fallback_video :: "codec_support \<Rightarrow> string \<Rightarrow> string" where
  "fallback_video cs d = (if cs_H264 cs then ''h264'' else if cs_VP8 cs then ''vp8'' else if cs_H263 cs then ''h263'' else d)"

definition selectVideoCodec :: "codec_support \<Rightarrow> string list \<Rightarrow> string \<Rightarrow> string" where
  "selectVideoCodec cs requested preset =
     (if preset = ''fast'' \<and> cs_HardwareAccel cs \<and> cs_H265 cs then ''h265''
      else if preset = ''fast'' \<and> cs_HardwareAccel cs \<and> cs_H264 cs then ''h264''
      else if preset = ''safe'' \<and> fallback_video cs '''' \<noteq> '''' then fallback_video cs ''''
      else (let best = fst (best_codec codecPriority (isCodecSupported cs) ('''', -1) requested)
            in if best \<noteq> '''' then best else fallback_video cs ''h264''))"

definition audioPriority :: "string \<rightharpoonup> int" where
  "audioPriority = [''opus'' \<mapsto> 2, ''aac'' \<mapsto> 1]"

definition selectAudioCodec :: "codec_support \<Rightarrow> string list \<Rightarrow> string" where
  "selectAudioCodec cs requested =
     (let best = fst (best_codec audioPriority (isAudioCodecSupported cs) ('''', -1) requested)
      in if best \<noteq> '''' then best
         else if cs_Opus cs then ''opus'' else if cs_AAC cs then ''aac'' else ''opus'')"

definition getTURNServers :: "webrtc_server \<Rightarrow> string list" where
  "getTURNServers s = (if wr_turnServer s \<noteq> '''' then [wr_turnServer s] else [])"

definition getSTUNServers :: "webrtc_server \<Rightarrow> string list" where
  "getSTUNServers s = (if wr_stunServer s \<noteq> '''' then [wr_stunServer s] else [''stun:stun.l.google.com:19302''])"

section \<open>Sessions\<close>

definition no_stats :: ws_stats where
  "no_stats = \<lparr>st_BytesReceived = 0, st_BytesSent = 0, st_PacketsReceived = 0, st_PacketsSent = 0, st_PacketsLost = 0,
     st_CurrentBitrate = 0, st_RTT = 0, st_Jitter = 0, st_LastSampledAt = None, st_lastBytesReceived = 0\<rparr>"

text \<open>The random bytes of an identifier, or the clock where reading them fails.\<close>

definition generateSessionID :: "nat list option \<Rightarrow> time \<Rightarrow> string" where
  "generateSessionID rnd now = (case rnd of Some bs \<Rightarrow> ''sess_'' @ hex_encode bs | None \<Rightarrow> ''sess_'' @ fmt_d now)"

definition new_ws_session :: "string \<Rightarrow> time \<Rightarrow> ws_request \<Rightarrow> string \<Rightarrow> string \<Rightarrow> string \<Rightarrow> encoder_profile \<Rightarrow> ws_session" where
  "new_ws_session sid now req mode vcodec acodec prof =
     \<lparr>ws_ID = sid, ws_ClientID = wr_ClientID req, ws_VideoCodec = vcodec, ws_AudioCodec = acodec,
      ws_Preset = wr_Preset req, ws_EncodingMode = mode, ws_EncoderCfg = ep_Config prof,
      ws_State = WsCreated, ws_CreatedAt = now, ws_UpdatedAt = now, ws_ExpiresAt = now + 24 * 60 * minute,
      ws_Stats = no_stats, ws_stopClosed = False\<rparr>"

text \<open>\<open>pion\<close> is the error of the first call to the package that fails, if one does.\<close>

definition wr_CreateSession ::
  "nat list option \<Rightarrow> string option \<Rightarrow> time \<Rightarrow> ws_request \<Rightarrow> webrtc_server \<Rightarrow> (string + ws_response) \<times> webrtc_server" where
  "wr_CreateSession rnd pion now req s =
     (if maxConcurrentSessions \<le> wr_slots s then (Inl ''maximum concurrent sessions reached'', s)
      else
        let mode = (if wr_EncodingMode req = '''' then ''balanced'' else wr_EncodingMode req);
            vcodec = selectVideoCodec (wr_codecSupport s) (wr_VideoCodecs req) (wr_Preset req);
            acodec = selectAudioCodec (wr_codecSupport s) (wr_AudioCodecs req)
        in case SelectEncoderProfile vcodec mode (cs_HardwareAccel (wr_codecSupport s)) of
          Inl e \<Rightarrow> (Inl (''encoder profile: '' @ e), s)
        | Inr prof \<Rightarrow>
            (case pion of
               Some e \<Rightarrow> (Inl e, s)
             | None \<Rightarrow>
                 let sid = generateSessionID rnd now; p = wr_next s;
                     session = new_ws_session sid now req mode vcodec acodec prof
                 in (Inr \<lparr>wp_SessionID = sid, wp_ClientID = wr_ClientID req, wp_VideoCodec = vcodec, wp_AudioCodec = acodec,
                        wp_SignalingURL = ''/signal/'' @ sid, wp_TURNServers = getTURNServers s,
                        wp_STUNServers = getSTUNServers s, wp_ExpiresAt = ws_ExpiresAt session\<rparr>,
                     s\<lparr>wr_mem := (wr_mem s)(p \<mapsto> session), wr_next := p + 1,
                       wr_sessions := (wr_sessions s)(sid \<mapsto> p), wr_slots := wr_slots s + 1\<rparr>)))"

definition wr_GetSession :: "string \<Rightarrow> webrtc_server \<Rightarrow> string + nat" where
  "wr_GetSession sid s = (case wr_sessions s sid of None \<Rightarrow> Inl ''session not found'' | Some p \<Rightarrow> Inr p)"

text \<open>An entry of the list: id, state, signalling URL, codecs, preset, encoding mode and time of creation.\<close>

record ws_entry =
  we_id :: string
  we_state :: ws_state
  we_signalingUrl :: string
  we_videoCodec :: string
  we_audioCodec :: string
  we_preset :: string
  we_encodingMode :: string
  we_createdAt :: time

definition wr_ListSessions :: "string list \<Rightarrow> webrtc_server \<Rightarrow> ws_entry list" where
  "wr_ListSessions ks s = map (\<lambda>p. let se = wr_at s p in
     \<lparr>we_id = ws_ID se, we_state = ws_State se, we_signalingUrl = ''/signal/'' @ ws_ID se, we_videoCodec = ws_VideoCodec se,
      we_audioCodec = ws_AudioCodec se, we_preset = ws_Preset se, we_encodingMode = ws_EncodingMode se,
      we_createdAt = ws_CreatedAt se\<rparr>) (map_values (wr_sessions s) ks)"

text \<open>
  Ending a session: the state is written before the stop channel is closed, and closing a closed channel
  panics. Closing the peer connection calls back into this function, which then finds the state ended.
\<close>

definition wr_EndSession :: "time \<Rightarrow> string \<Rightarrow> webrtc_server \<Rightarrow> (string option \<times> exit) \<times> webrtc_server" where
  "wr_EndSession now sid s = (case wr_sessions s sid of
     None \<Rightarrow> ((Some ''session not found'', Done), s)
   | Some p \<Rightarrow>
       if ws_State (wr_at s p) = WsEnded then ((None, Done), s)
       else
         let s1 = wr_write p (\<lambda>se. se\<lparr>ws_State := WsEnded, ws_UpdatedAt := now\<rparr>) s
         in if ws_stopClosed (wr_at s p) then ((None, Panicked), s1)
            else
              let s2 = wr_write p (\<lambda>se. se\<lparr>ws_stopClosed := True\<rparr>) s1
              in ((None, Done), s2\<lparr>wr_slots := wr_slots s2 - 1, wr_timers := wr_timers s2 @ [(sid, now + 5 * minute)]\<rparr>))"

text \<open>A timer that is due deletes the entry of the table.\<close>

definition wr_timer :: "time \<Rightarrow> webrtc_server \<Rightarrow> webrtc_server" where
  "wr_timer now s = foldl (\<lambda>s (sid, due). if due \<le> now then s\<lparr>wr_sessions := (wr_sessions s)(sid := None)\<rparr> else s)
     (s\<lparr>wr_timers := filter (\<lambda>(sid, due). now < due) (wr_timers s)\<rparr>) (wr_timers s)"

datatype ice_state = IceConnected | IceFailed | IceDisconnected | IceClosed | IceOther

definition wr_ice :: "time \<Rightarrow> nat \<Rightarrow> ice_state \<Rightarrow> webrtc_server \<Rightarrow> exit \<times> webrtc_server" where
  "wr_ice now p ev s = (case ev of
     IceConnected \<Rightarrow> (Done, wr_write p (\<lambda>se. se\<lparr>ws_State := WsActive, ws_UpdatedAt := now\<rparr>) s)
   | IceFailed \<Rightarrow> (Done, wr_write p (\<lambda>se. se\<lparr>ws_State := WsReconnecting, ws_UpdatedAt := now\<rparr>) s)
   | IceDisconnected \<Rightarrow> (Done, wr_write p (\<lambda>se. se\<lparr>ws_State := WsReconnecting, ws_UpdatedAt := now\<rparr>) s)
   | IceClosed \<Rightarrow> (let ((_, ex), s) = wr_EndSession now (ws_ID (wr_at s p)) s in (ex, s))
   | IceOther \<Rightarrow> (Done, s))"

definition wr_UpdateNetworkQuality :: "time \<Rightarrow> string \<Rightarrow> ws_quality \<Rightarrow> webrtc_server \<Rightarrow> webrtc_server" where
  "wr_UpdateNetworkQuality now sid q s =
     (let s = s\<lparr>wr_quality := (wr_quality s)(sid \<mapsto> q)\<rparr>;
          ms = (\<lambda>d. nat (quot d 1000000 mod 2 ^ 32))
      in case wr_sessions s sid of
           None \<Rightarrow> s
         | Some p \<Rightarrow> wr_write p (\<lambda>se. se\<lparr>ws_Stats := (ws_Stats se)\<lparr>st_RTT := ms (wq_RTT q), st_Jitter := ms (wq_Jitter q),
             st_LastSampledAt := Some now\<rparr>\<rparr>) s)"

definition wr_GetNetworkQuality :: "string \<Rightarrow> webrtc_server \<Rightarrow> string + ws_quality" where
  "wr_GetNetworkQuality sid s = (case wr_quality s sid of None \<Rightarrow> Inl ''network quality not found'' | Some q \<Rightarrow> Inr q)"

section \<open>Signalling\<close>

text \<open>
  \<open>pion\<close> is the error with which decoding the payload or a call to the peer connection fails, \<open>wr\<close> the one
  of writing the answer.
\<close>

definition wr_handleSignalMessage ::
  "time \<Rightarrow> string option \<Rightarrow> string option \<Rightarrow> string \<Rightarrow> string \<Rightarrow> webrtc_server \<Rightarrow> (string option \<times> exit) \<times> webrtc_server" where
  "wr_handleSignalMessage now pion wr sid ty s = (case wr_sessions s sid of
     None \<Rightarrow> ((Some ''session not found'', Done), s)
   | Some p \<Rightarrow>
       if ty = ''offer'' then
         (case pion of Some e \<Rightarrow> ((Some e, Done), s)
          | None \<Rightarrow> ((wr, Done), wr_write p (\<lambda>se. se\<lparr>ws_State := WsConnecting, ws_UpdatedAt := now\<rparr>) s))
       else if ty = ''ice-candidate'' then ((pion, Done), s)
       else if ty = ''renegotiate'' then ((case pion of Some e \<Rightarrow> Some e | None \<Rightarrow> wr, Done), s)
       else if ty = ''close'' then wr_EndSession now sid s
       else ((Some (''unknown signal type: '' @ ty), Done), s))"

section \<open>Paths\<close>

definition trim_suffix :: "string \<Rightarrow> string \<Rightarrow> string" where
  "trim_suffix s suf = rev (trim_prefix (rev s) (rev suf))"

definition splitPath :: "string \<Rightarrow> string list" where
  "splitPath path =
     (if path = '''' then []
      else let path = trim_suffix (trim_prefix path ''/'') ''/'' in if path = '''' then [] else split_on (CHR ''/'') path)"

definition wr_extractResourceID :: "string \<Rightarrow> string" where
  "wr_extractResourceID path = (case splitPath path of _ # x # _ \<Rightarrow> x | _ \<Rightarrow> '''')"

definition extractSessionID :: "string \<Rightarrow> string" where
  "extractSessionID path = (case splitPath path of a # x # _ \<Rightarrow> if a = ''signal'' then x else '''' | _ \<Rightarrow> '''')"

section \<open>Statistics\<close>

definition u32_of_float :: "rat \<Rightarrow> nat" where
  "u32_of_float q = nat (int_of_float q mod 2 ^ 32)"

text \<open>
  A sample of the collector: what the peer connection reports of the inbound stream (bytes, packets, lost
  packets, jitter in seconds), of the outbound stream (bytes, packets), and of the round trip.
\<close>

definition stats_tick ::
  "time \<Rightarrow> (nat \<times> nat \<times> nat \<times> rat) option \<Rightarrow> (nat \<times> nat) option \<Rightarrow> rat option \<Rightarrow> ws_stats \<Rightarrow> ws_stats" where
  "stats_tick now inb outb rtt0 st =
     (let rtt = (case rtt0 of Some t \<Rightarrow> if 0 < t then u32_of_float (t * 1000) else 0 | None \<Rightarrow> 0);
          st = (case inb of None \<Rightarrow> st
            | Some (bytes, packets, lost, jitter) \<Rightarrow> st\<lparr>st_BytesReceived := bytes, st_PacketsReceived := packets,
                st_PacketsLost := lost mod 2 ^ 32, st_Jitter := u32_of_float (jitter * 1000)\<rparr>);
          st = (case outb of None \<Rightarrow> st
            | Some (bytes, packets) \<Rightarrow>
                let st = (if st_BytesSent st = 0 then st\<lparr>st_BytesSent := bytes\<rparr> else st)
                in if st_PacketsSent st = 0 then st\<lparr>st_PacketsSent := packets\<rparr> else st);
          st = (if 0 < rtt then st\<lparr>st_RTT := rtt\<rparr> else st);
          br = st_BytesReceived st;
          st = (case st_LastSampledAt st of
              None \<Rightarrow> st\<lparr>st_CurrentBitrate := 0, st_lastBytesReceived := br\<rparr>
            | Some t0 \<Rightarrow>
                let elapsed = rat_of_int (now - t0) / 1000000000;
                    st = (if 0 < elapsed \<and> st_lastBytesReceived st \<le> br
                      then st\<lparr>st_CurrentBitrate := u32_of_float
                             (of_nat ((br - st_lastBytesReceived st) * 8 mod 2 ^ 64) / elapsed / 1000000)\<rparr>
                      else st)
                in st\<lparr>st_lastBytesReceived := br\<rparr>)
      in st\<lparr>st_LastSampledAt := Some now\<rparr>)"

definition count_packet :: "nat \<Rightarrow> ws_stats \<Rightarrow> ws_stats" where
  "count_packet n st = st\<lparr>st_PacketsSent := (st_PacketsSent st + 1) mod 2 ^ 64,
     st_BytesSent := (st_BytesSent st + n) mod 2 ^ 64\<rparr>"

section \<open>Media\<close>

text \<open>
  The body of a video request is a sequence of packets, each with its length in two bytes before it. The
  loop stops when the body ends at or within a length; a zero length, a body that ends within a packet or
  a packet that the track refuses (\<open>accepts\<close>) makes the handler return without an answer.
\<close>

function video_packets :: "(nat list \<Rightarrow> bool) \<Rightarrow> nat list \<Rightarrow> nat list list \<times> bool" where
  "video_packets accepts [] = ([], True)"
| "video_packets accepts [a] = ([], True)"
| "video_packets accepts (a # b # body) =
     (let n = a * 256 + b
      in if n = 0 \<or> length body < n \<or> \<not> accepts (take n body) then ([], False)
         else let (ps, ok) = video_packets accepts (drop n body) in (take n body # ps, ok))"
  by pat_completeness auto
termination
  by (relation "measure (\<lambda>(accepts, body). length body)") auto

datatype wr_body = WrError string | WrVideoOk string string webrtc_encoder_config | WrStatus string

text \<open>
  The handler gives the packets it wrote to the track and its answer; \<open>None\<close> is the return without one,
  which the server completes to an empty 200. \<open>chunks\<close> are the reads of an audio body and \<open>rerr\<close> the error
  that ends them, if it is not the end of the body.
\<close>

definition wr_HandleMediaIngest ::
  "(nat list \<Rightarrow> bool) \<Rightarrow> bool \<Rightarrow> string \<Rightarrow> string \<Rightarrow> nat list \<Rightarrow> nat list list \<Rightarrow> string option \<Rightarrow> webrtc_server
     \<Rightarrow> (nat list list \<times> wr_body answer option) \<times> webrtc_server" where
  "wr_HandleMediaIngest accepts isPost contentType path body chunks rerr s =
     (let sid = wr_extractResourceID path
      in if sid = '''' then (([], Some (Answer 400 (WrError ''session ID required''))), s)
         else case wr_sessions s sid of
           None \<Rightarrow> (([], Some (Answer 404 (WrError ''session not found''))), s)
         | Some p \<Rightarrow>
             if \<not> isPost then (([], Some (Answer 405 (WrError ''method not allowed''))), s)
             else
               let se = wr_at s p;
                   count = (\<lambda>ps. wr_write p (\<lambda>se. se\<lparr>ws_Stats := foldl (\<lambda>st q. count_packet (length q) st) (ws_Stats se) ps\<rparr>) s)
               in if has_prefix contentType ''video/'' then
                    (let (ps, ok) = video_packets accepts body
                     in ((ps, if ok then Some (Answer 200 (WrVideoOk (ws_VideoCodec se) (ws_EncodingMode se) (ws_EncoderCfg se)))
                              else None), count ps))
                  else if has_prefix contentType ''audio/'' then
                    (let ps = takeWhile accepts (filter (\<lambda>q. q \<noteq> []) chunks);
                         ok = list_all accepts (filter (\<lambda>q. q \<noteq> []) chunks)
                     in ((ps, if \<not> ok then None
                              else case rerr of None \<Rightarrow> Some (Answer 200 (WrStatus ''ok''))
                                | Some e \<Rightarrow> Some (Answer 500 (WrError e))), count ps))
                  else (([], Some (Answer 400 (WrError ''unsupported content type''))), s))"

definition wr_HandleDataIngest ::
  "string option \<Rightarrow> bool \<Rightarrow> string \<Rightarrow> nat list \<Rightarrow> webrtc_server \<Rightarrow> nat list option \<times> wr_body answer" where
  "wr_HandleDataIngest send isPost path body s =
     (let sid = wr_extractResourceID path
      in if sid = '''' then (None, Answer 400 (WrError ''session ID required''))
         else case wr_sessions s sid of
           None \<Rightarrow> (None, Answer 404 (WrError ''session not found''))
         | Some p \<Rightarrow>
             if \<not> isPost then (None, Answer 405 (WrError ''method not allowed''))
             else if maxMessageSize < length body then (None, Answer 400 (WrError ''http: request body too large''))
             else case send of
               Some e \<Rightarrow> (Some body, Answer 500 (WrError e))
             | None \<Rightarrow> (Some body, Answer 200 (WrStatus ''ok'')))"

definition wr_HandleRequestKeyframe :: "string \<Rightarrow> webrtc_server \<Rightarrow> wr_body answer" where
  "wr_HandleRequestKeyframe path s =
     (let sid = wr_extractResourceID path
      in if sid = '''' then Answer 400 (WrError ''session ID required'')
         else case wr_sessions s sid of
           None \<Rightarrow> Answer 404 (WrError ''session not found'')
         | Some p \<Rightarrow> Answer 200 (WrStatus ''ok''))"


section \<open>The choice of codecs\<close>

lemma best_codec_from:
  "best_codec prio ok b cs = b \<or> (\<exists>c n. best_codec prio ok b cs = (c, n) \<and> c \<in> set cs \<and> prio c = Some n \<and> ok c)"
  by (induction prio ok b cs rule: best_codec.induct) (auto split: option.split)

lemma best_codec_ge: "snd b \<le> snd (best_codec prio ok b cs)"
  by (induction prio ok b cs rule: best_codec.induct) (auto split: option.split)

lemma best_codec_max: "c \<in> set cs \<Longrightarrow> prio c = Some n \<Longrightarrow> ok c \<Longrightarrow> n \<le> snd (best_codec prio ok b cs)"
proof (induction prio ok b cs rule: best_codec.induct)
  case (2 prio ok b x xs)
  then show ?case using best_codec_ge [of "(x, n)" prio ok xs] best_codec_ge [of b prio ok xs]
    by (auto split: option.split)
qed simp

lemma best_codec_result:
  assumes "best_codec prio ok b cs = (c, n)"
  shows "(c, n) = b \<or> c \<in> set cs \<and> prio c = Some n \<and> ok c"
    and "\<forall>c' \<in> set cs. \<forall>n'. prio c' = Some n' \<longrightarrow> ok c' \<longrightarrow> n' \<le> n"
  using best_codec_from [of prio ok b cs] best_codec_max [of _ cs prio _ ok b] assms by auto

lemma codecPriority_pos: "codecPriority c = Some n \<Longrightarrow> 0 < n \<and> c \<noteq> ''''"
  by (auto simp: codecPriority_def split: if_splits)

definition forced_video :: "codec_support \<Rightarrow> string \<Rightarrow> bool" where
  "forced_video cs preset \<longleftrightarrow> preset = ''fast'' \<and> cs_HardwareAccel cs \<and> (cs_H265 cs \<or> cs_H264 cs) \<or>
     preset = ''safe'' \<and> (cs_H264 cs \<or> cs_VP8 cs \<or> cs_H263 cs)"

definition usable :: "codec_support \<Rightarrow> string \<Rightarrow> int \<Rightarrow> bool" where
  "usable cs c n \<longleftrightarrow> codecPriority c = Some n \<and> isCodecSupported cs c"

lemma not_forced: "\<not> forced_video cs preset \<Longrightarrow> selectVideoCodec cs requested preset =
    (let best = fst (best_codec codecPriority (isCodecSupported cs) ('''', -1) requested)
     in if best \<noteq> '''' then best else fallback_video cs ''h264'')"
  by (auto simp: forced_video_def selectVideoCodec_def fallback_video_def)

lemma fallback_known: "codecPriority (fallback_video cs ''h264'') \<noteq> None"
  by (simp add: fallback_video_def codecPriority_def)

lemma select_known: "codecPriority (selectVideoCodec cs requested preset) \<noteq> None"
proof (cases "forced_video cs preset")
  case True
  then show ?thesis
    by (auto simp: forced_video_def selectVideoCodec_def fallback_video_def codecPriority_def)
next
  case False
  obtain c n where b: "best_codec codecPriority (isCodecSupported cs) ('''', -1) requested = (c, n)" by force
  show ?thesis
    using not_forced [OF False, of requested] b best_codec_result(1) [OF b] fallback_known [of cs]
    by (auto simp: Let_def)
qed

text \<open>
  C39: The choice of the video codec. Whatever the client asks for, the chosen codec is one with an encoder
  profile, so creating a session never fails for want of one. Unless the preset forces a codec, the choice
  is a requested and supported codec of the highest priority whenever the client requests a supported one.
\<close>

theorem codec_choice_best:
  "(\<exists>prof. SelectEncoderProfile (selectVideoCodec cs requested preset) mode hw = Inr prof) \<and>
   (\<not> forced_video cs preset \<and> c \<in> set requested \<and> usable cs c n \<longrightarrow>
      (\<exists>m. selectVideoCodec cs requested preset \<in> set requested \<and>
        usable cs (selectVideoCodec cs requested preset) m \<and> n \<le> m))"
proof (intro conjI impI)
  obtain k where "codecPriority (selectVideoCodec cs requested preset) = Some k"
    using select_known [of cs requested preset] by blast
  then show "\<exists>prof. SelectEncoderProfile (selectVideoCodec cs requested preset) mode hw = Inr prof"
    by (simp add: SelectEncoderProfile_def)
next
  assume a: "\<not> forced_video cs preset \<and> c \<in> set requested \<and> usable cs c n"
  obtain d m where b: "best_codec codecPriority (isCodecSupported cs) ('''', -1) requested = (d, m)" by force
  have "n \<le> m" using best_codec_result(2) [OF b] a by (auto simp: usable_def)
  moreover have "0 < n" using a codecPriority_pos by (auto simp: usable_def)
  ultimately have d: "d \<in> set requested" "usable cs d m" "d \<noteq> ''''"
    using best_codec_result(1) [OF b] codecPriority_pos by (auto simp: usable_def)
  then have "selectVideoCodec cs requested preset = d"
    using not_forced [of cs preset requested] a b by (simp add: Let_def)
  with d \<open>n \<le> m\<close> show "\<exists>m. selectVideoCodec cs requested preset \<in> set requested \<and>
      usable cs (selectVideoCodec cs requested preset) m \<and> n \<le> m" by blast
qed

definition ex_codecs :: codec_support where
  "ex_codecs = \<lparr>cs_H263 = False, cs_H264 = True, cs_H265 = True, cs_AV1 = False, cs_VP8 = True, cs_VP9 = True,
     cs_Opus = True, cs_AAC = True, cs_HardwareAccel = True\<rparr>"

theorem codec_choice_best_witness:
  "\<exists>m. selectVideoCodec ex_codecs [''av1'', ''vp8'', ''h264''] '''' \<in> set [''av1'', ''vp8'', ''h264''] \<and>
     usable ex_codecs (selectVideoCodec ex_codecs [''av1'', ''vp8'', ''h264''] '''') m \<and> 5 \<le> m"
proof -
  have "\<not> forced_video ex_codecs '''' \<and> ''h264'' \<in> set [''av1'', ''vp8'', ''h264''] \<and> usable ex_codecs ''h264'' 5"
    by (simp add: forced_video_def usable_def isCodecSupported_def ex_codecs_def codecPriority_def)
  then show ?thesis by (rule codec_choice_best [THEN conjunct2, rule_format])
qed

section \<open>Media\<close>

text \<open>A packet as a client sends it.\<close>

definition media_frame :: "nat list \<Rightarrow> nat list" where
  "media_frame p = length p div 256 # length p mod 256 # p"

definition sendable :: "nat list \<Rightarrow> bool" where
  "sendable p \<longleftrightarrow> p \<noteq> [] \<and> length p < 2 ^ 16"

lemma video_packets_frame:
  "sendable p \<Longrightarrow> accepts p \<Longrightarrow> video_packets accepts (media_frame p @ body) =
    (let (ps, ok) = video_packets accepts body in (p # ps, ok))"
  by (simp add: media_frame_def sendable_def)

lemma video_packets_frames:
  assumes "\<forall>p \<in> set ps. sendable p \<and> accepts p" and "length r < 2"
  shows "video_packets accepts (concat (map media_frame ps) @ r) = (ps, True)"
  using assms(1)
proof (induction ps)
  case Nil
  from assms(2) show ?case by (cases r) auto
next
  case (Cons p ps)
  then show ?case by (simp add: video_packets_frame)
qed

lemma video_packets_sound:
  assumes "\<forall>x \<in> set body. x < 256" and "video_packets accepts body = (ps, True)"
  shows "\<exists>r. body = concat (map media_frame ps) @ r \<and> length r < 2"
  using assms
proof (induction accepts body arbitrary: ps rule: video_packets.induct)
  case (3 accepts a b body)
  define n where "n = a * 256 + b"
  from 3 obtain qs where q: "video_packets accepts (drop n body) = (qs, True)" "ps = take n body # qs"
      "n \<noteq> 0" "n \<le> length body" "accepts (take n body)"
    by (auto simp: n_def Let_def split: if_splits prod.splits)
  have "\<forall>x \<in> set (drop n body). x < 256" using 3(2) by (auto dest: in_set_dropD)
  with 3(1) [OF n_def] q obtain r where r: "drop n body = concat (map media_frame qs) @ r" "length r < 2"
    by (auto simp: not_less)
  have "b < 256" using 3(2) by simp
  then have "media_frame (take n body) = a # b # take n body"
    using q(4) by (simp add: media_frame_def n_def)
  with r q(2) show ?case by (metis append.assoc append_Cons append_take_drop_id concat.simps(2) list.simps(9))
qed auto

text \<open>
  C33: Ingested video is passed on as sent. A body made of packets that the track accepts gives the track
  exactly those packets in order, also when a single stray byte follows; and whenever the handler
  reports success, the body was made of exactly the packets written and at most one stray byte.
\<close>

theorem media_ingest_roundtrip:
  assumes "\<forall>x \<in> set body. x < 256" and "\<forall>p \<in> set ps. sendable p \<and> accepts p" and "length r < 2"
  shows "video_packets accepts (concat (map media_frame ps) @ r) = (ps, True) \<and>
    (video_packets accepts body = (qs, True) \<longrightarrow> (\<exists>r. body = concat (map media_frame qs) @ r \<and> length r < 2))"
  using video_packets_frames [OF assms(2,3)] video_packets_sound [OF assms(1)] by blast

theorem media_ingest_roundtrip_witness:
  "video_packets (\<lambda>p. True) (concat (map media_frame [[7, 8], [9]]) @ [0]) = ([[7, 8], [9]], True)"
  by (rule media_ingest_roundtrip [where body = "[]", THEN conjunct1]) (simp_all add: sendable_def)


section \<open>The slots\<close>

datatype wr_call =
    WrCreate "nat list option" "string option" time ws_request
  | WrEnd time string
  | WrIce time nat ice_state
  | WrSignal time "string option" "string option" string string
  | WrTimer time
  | WrQuality time string ws_quality
  | WrMedia "nat list \<Rightarrow> bool" bool string string "nat list" "nat list list" "string option"
  | WrStats time nat "(nat \<times> nat \<times> nat \<times> rat) option" "(nat \<times> nat) option" "rat option"

fun wr_step :: "webrtc_server \<Rightarrow> wr_call \<Rightarrow> webrtc_server" where
  "wr_step s (WrCreate rnd pion now req) = snd (wr_CreateSession rnd pion now req s)"
| "wr_step s (WrEnd now sid) = snd (wr_EndSession now sid s)"
| "wr_step s (WrIce now p ev) = snd (wr_ice now p ev s)"
| "wr_step s (WrSignal now pion wr sid ty) = snd (wr_handleSignalMessage now pion wr sid ty s)"
| "wr_step s (WrTimer now) = wr_timer now s"
| "wr_step s (WrQuality now sid q) = wr_UpdateNetworkQuality now sid q s"
| "wr_step s (WrMedia accepts isPost ty path body chunks rerr) =
     snd (wr_HandleMediaIngest accepts isPost ty path body chunks rerr s)"
| "wr_step s (WrStats now p i out rtt) = wr_write p (\<lambda>se. se\<lparr>ws_Stats := stats_tick now i out rtt (ws_Stats se)\<rparr>) s"

definition open_sessions :: "webrtc_server \<Rightarrow> nat set" where
  "open_sessions s = {p. \<exists>se. wr_mem s p = Some se \<and> \<not> ws_stopClosed se}"

definition ws_ok :: "webrtc_server \<Rightarrow> bool" where
  "ws_ok s \<longleftrightarrow> (\<forall>p se. wr_mem s p = Some se \<longrightarrow> ws_State se = WsEnded \<longrightarrow> ws_stopClosed se) \<and>
     (\<forall>p. wr_mem s p \<noteq> None \<longleftrightarrow> p < wr_next s) \<and>
     (\<forall>sid p. wr_sessions s sid = Some p \<longrightarrow> p < wr_next s \<and> ws_ID (wr_at s p) = sid)"

definition wr_inv :: "webrtc_server \<Rightarrow> bool" where
  "wr_inv s \<longleftrightarrow> ws_ok s \<and> wr_slots s = card (open_sessions s) \<and> wr_slots s \<le> maxConcurrentSessions"

lemma ws_okI:
  assumes "\<And>p se. wr_mem s p = Some se \<Longrightarrow> ws_State se = WsEnded \<Longrightarrow> ws_stopClosed se"
    and "\<And>p. wr_mem s p \<noteq> None \<longleftrightarrow> p < wr_next s"
    and "\<And>sid p. wr_sessions s sid = Some p \<Longrightarrow> p < wr_next s \<and> ws_ID (wr_at s p) = sid"
  shows "ws_ok s"
  using assms unfolding ws_ok_def by blast

lemma finite_open: "ws_ok s \<Longrightarrow> finite (open_sessions s)"
proof -
  assume "ws_ok s"
  then have "open_sessions s \<subseteq> {..<wr_next s}" by (auto simp: open_sessions_def ws_ok_def)
  then show ?thesis by (rule finite_subset) simp
qed

lemma wr_write_sel [simp]:
  "wr_sessions (wr_write p f s) = wr_sessions s" "wr_slots (wr_write p f s) = wr_slots s"
  "wr_next (wr_write p f s) = wr_next s" "wr_timers (wr_write p f s) = wr_timers s"
  "wr_mem (wr_write p f s) q = (if q = p then map_option f (wr_mem s p) else wr_mem s q)"
  by (simp_all add: wr_write_def)

text \<open>Writing a session without touching its identity or its stop channel.\<close>

lemma wr_inv_write:
  assumes "wr_inv s" and "\<And>se. ws_stopClosed (f se) = ws_stopClosed se" "\<And>se. ws_ID (f se) = ws_ID se"
    and "\<And>se. wr_mem s p = Some se \<Longrightarrow> ws_State (f se) = WsEnded \<Longrightarrow> ws_stopClosed se"
  shows "wr_inv (wr_write p f s)"
proof -
  have ok: "ws_ok s" using assms(1) by (simp add: wr_inv_def)
  have "open_sessions (wr_write p f s) = open_sessions s"
    by (auto simp: open_sessions_def assms(2))
  moreover have "ws_ok (wr_write p f s)"
  proof (rule ws_okI)
    show "ws_stopClosed se" if "wr_mem (wr_write p f s) q = Some se" "ws_State se = WsEnded" for q se
      using that ok assms(2,4) by (auto simp: ws_ok_def split: if_splits)
    show "(wr_mem (wr_write p f s) q \<noteq> None) = (q < wr_next (wr_write p f s))" for q
      using ok by (simp add: ws_ok_def)
    show "q < wr_next (wr_write p f s) \<and> ws_ID (wr_at (wr_write p f s) q) = sid"
      if "wr_sessions (wr_write p f s) sid = Some q" for sid q
    proof -
      have q: "q < wr_next s" "ws_ID (wr_at s q) = sid" using that ok by (auto simp: ws_ok_def)
      then obtain se where "wr_mem s q = Some se" using ok by (fastforce simp: ws_ok_def)
      with q assms(3) show ?thesis by (cases "q = p") (auto simp: wr_at_def)
    qed
  qed
  ultimately show ?thesis using assms(1) by (simp add: wr_inv_def)
qed

lemma wr_inv_stats: "wr_inv s \<Longrightarrow> wr_inv (wr_write p (\<lambda>se. se\<lparr>ws_Stats := g se\<rparr>) s)"
proof -
  assume inv: "wr_inv s"
  then have "ws_stopClosed se" if "wr_mem s p = Some se" "ws_State se = WsEnded" for se
    using that by (simp add: wr_inv_def ws_ok_def)
  with inv show ?thesis by (intro wr_inv_write) auto
qed

lemma wr_inv_close:
  assumes "wr_inv s" "wr_mem s p = Some se" "\<not> ws_stopClosed se"
    and "f se = se\<lparr>ws_State := WsEnded, ws_UpdatedAt := now, ws_stopClosed := True\<rparr>"
  shows "wr_inv (wr_write p f s\<lparr>wr_slots := wr_slots s - 1, wr_timers := ts\<rparr>)"
proof -
  let ?t = "wr_write p f s\<lparr>wr_slots := wr_slots s - 1, wr_timers := ts\<rparr>"
  have ok: "ws_ok s" using assms(1) by (simp add: wr_inv_def)
  have f: "ws_stopClosed (f se)" "ws_ID (f se) = ws_ID se" by (simp_all add: assms(4))
  have "open_sessions ?t = open_sessions s - {p}"
    using assms(2) f by (auto simp: open_sessions_def)
  moreover have "p \<in> open_sessions s" using assms(2,3) by (simp add: open_sessions_def)
  ultimately have "card (open_sessions ?t) = card (open_sessions s) - 1"
    using finite_open [OF ok] by simp
  moreover have "ws_ok ?t"
  proof (rule ws_okI)
    show "ws_stopClosed se'" if "wr_mem ?t q = Some se'" "ws_State se' = WsEnded" for q se'
      using that ok assms(2) f(1) by (auto simp: ws_ok_def split: if_splits)
    show "(wr_mem ?t q \<noteq> None) = (q < wr_next ?t)" for q
      using ok by (simp add: ws_ok_def)
    show "q < wr_next ?t \<and> ws_ID (wr_at ?t q) = sid" if "wr_sessions ?t sid = Some q" for sid q
    proof -
      have "q < wr_next s" "ws_ID (wr_at s q) = sid" using that ok by (auto simp: ws_ok_def)
      then show ?thesis using assms(2) f(2) by (cases "q = p") (simp_all add: wr_at_def)
    qed
  qed
  ultimately show ?thesis using assms(1) by (simp add: wr_inv_def) linarith
qed

lemma wr_write_twice: "wr_write p g (wr_write p f s) = wr_write p (g \<circ> f) s"
  by (cases s) (simp add: wr_write_def option.map_comp)

lemma wr_inv_End: "wr_inv s \<Longrightarrow> wr_inv (snd (wr_EndSession now sid s))"
proof (cases "wr_sessions s sid")
  case (Some p)
  assume inv: "wr_inv s"
  then have "p < wr_next s" "ws_ok s" using Some by (auto simp: wr_inv_def ws_ok_def)
  then obtain se where se: "wr_mem s p = Some se" by (fastforce simp: ws_ok_def)
  then have at: "wr_at s p = se" by (simp add: wr_at_def)
  show ?thesis
  proof (cases "ws_State se = WsEnded \<or> ws_stopClosed se")
    case True
    with Some inv at se show ?thesis
      by (auto simp: wr_EndSession_def Let_def intro!: wr_inv_write)
  next
    case False
    let ?f = "\<lambda>se. se\<lparr>ws_State := WsEnded, ws_UpdatedAt := now, ws_stopClosed := True\<rparr>"
    have "snd (wr_EndSession now sid s) =
        wr_write p ?f s\<lparr>wr_slots := wr_slots s - 1, wr_timers := wr_timers s @ [(sid, now + 5 * minute)]\<rparr>"
      using False Some at by (simp add: wr_EndSession_def Let_def wr_write_twice comp_def)
    then show ?thesis using wr_inv_close [OF inv se] False by simp
  qed
qed (simp add: wr_EndSession_def)

lemma wr_inv_Create: "wr_inv s \<Longrightarrow> wr_inv (snd (wr_CreateSession rnd pion now req s))"
proof (cases "snd (wr_CreateSession rnd pion now req s) = s")
  case False
  assume inv: "wr_inv s"
  then have ok: "ws_ok s" by (simp add: wr_inv_def)
  define t where "t = snd (wr_CreateSession rnd pion now req s)"
  from False obtain prof where prof: "SelectEncoderProfile (selectVideoCodec (wr_codecSupport s) (wr_VideoCodecs req) (wr_Preset req))
        (if wr_EncodingMode req = '''' then ''balanced'' else wr_EncodingMode req) (cs_HardwareAccel (wr_codecSupport s)) = Inr prof"
      "pion = None" and room: "wr_slots s < maxConcurrentSessions"
    by (auto simp: wr_CreateSession_def Let_def split: if_splits sum.splits option.splits)
  define se where "se = new_ws_session (generateSessionID rnd now) now req
    (if wr_EncodingMode req = '''' then ''balanced'' else wr_EncodingMode req)
    (selectVideoCodec (wr_codecSupport s) (wr_VideoCodecs req) (wr_Preset req))
    (selectAudioCodec (wr_codecSupport s) (wr_AudioCodecs req)) prof"
  have se: "\<not> ws_stopClosed se" "ws_State se = WsCreated" "ws_ID se = generateSessionID rnd now"
    by (simp_all add: se_def new_ws_session_def)
  then have t: "t = s\<lparr>wr_mem := (wr_mem s)(wr_next s \<mapsto> se), wr_next := wr_next s + 1,
          wr_sessions := (wr_sessions s)(ws_ID se \<mapsto> wr_next s), wr_slots := wr_slots s + 1\<rparr>"
    using prof room by (simp add: t_def wr_CreateSession_def Let_def se_def)
  have fresh: "wr_mem s (wr_next s) = None" using ok by (auto simp: ws_ok_def)
  then have "open_sessions t = insert (wr_next s) (open_sessions s)" "wr_next s \<notin> open_sessions s"
    using se by (auto simp: t open_sessions_def)
  then have "card (open_sessions t) = card (open_sessions s) + 1" using finite_open [OF ok] by simp
  moreover have "ws_ok t"
  proof (rule ws_okI)
    show "ws_stopClosed se'" if "wr_mem t q = Some se'" "ws_State se' = WsEnded" for q se'
      using that ok se by (auto simp: t ws_ok_def split: if_splits)
    show "(wr_mem t q \<noteq> None) = (q < wr_next t)" for q
      using ok by (auto simp: t ws_ok_def less_Suc_eq)
    show "q < wr_next t \<and> ws_ID (wr_at t q) = sid" if "wr_sessions t sid = Some q" for sid q
      using that ok by (fastforce simp: t ws_ok_def wr_at_def split: if_splits)
  qed
  ultimately show ?thesis using inv room by (simp add: wr_inv_def t_def [symmetric]) (simp add: t)
qed simp

lemma wr_inv_delete: "wr_inv s \<Longrightarrow> wr_inv (s\<lparr>wr_sessions := (wr_sessions s)(sid := None)\<rparr>)"
  by (simp add: wr_inv_def ws_ok_def open_sessions_def wr_at_def)

lemma wr_inv_timer: "wr_inv s \<Longrightarrow> wr_inv (wr_timer now s)"
proof -
  have "wr_inv (foldl (\<lambda>s (sid, due). if due \<le> now then s\<lparr>wr_sessions := (wr_sessions s)(sid := None)\<rparr> else s) s ts)"
    if "wr_inv s" for s ts
    using that by (induction ts rule: rev_induct) (auto intro: wr_inv_delete)
  moreover assume "wr_inv s"
  then have "wr_inv (s\<lparr>wr_timers := ts\<rparr>)" for ts by (simp add: wr_inv_def ws_ok_def open_sessions_def wr_at_def)
  ultimately show ?thesis by (simp add: wr_timer_def)
qed

lemma wr_inv_quality: "wr_inv s \<Longrightarrow> wr_inv (s\<lparr>wr_quality := q\<rparr>)"
  by (simp add: wr_inv_def ws_ok_def open_sessions_def wr_at_def)

lemma wr_inv_ice: "wr_inv s \<Longrightarrow> wr_inv (snd (wr_ice now p ev s))"
  by (cases ev) (auto simp: wr_ice_def split_beta intro: wr_inv_write wr_inv_End)

lemma wr_inv_media: "wr_inv s \<Longrightarrow> wr_inv (snd (wr_HandleMediaIngest accepts isPost ty path body chunks rerr s))"
  by (auto simp: wr_HandleMediaIngest_def Let_def split_beta intro!: wr_inv_stats split: option.split)

lemma wr_step_inv: "wr_inv s \<Longrightarrow> wr_inv (wr_step s c)"
  by (cases c)
    (auto simp: wr_inv_Create wr_inv_End wr_inv_ice wr_inv_timer wr_inv_media wr_handleSignalMessage_def
      wr_UpdateNetworkQuality_def Let_def wr_inv_stats wr_inv_quality intro!: wr_inv_write split: option.split)

lemma wr_inv_new: "wr_inv (wr_NewServer cs turn stun)"
  by (simp add: wr_inv_def ws_ok_def wr_NewServer_def open_sessions_def)

interpretation wr: component wr_step wr_inv
  by unfold_locales (rule wr_step_inv)

abbreviation wr_run :: "codec_support \<Rightarrow> string \<Rightarrow> string \<Rightarrow> wr_call list \<Rightarrow> webrtc_server" where
  "wr_run cs turn stun calls \<equiv> foldl wr_step (wr_NewServer cs turn stun) calls"

text \<open>
  C16: The slots are accounted for exactly. In every run, with the callbacks of the peer connections coming
  at any time, the number of slots taken is the number of sessions whose stop channel is still open, and
  never more than 1000; every entry of the table is a session with that id; and a session that has ended
  has its channel closed.
\<close>

theorem webrtc_slots_exact:
  "wr_slots (wr_run cs turn stun calls) = card (open_sessions (wr_run cs turn stun calls)) \<and>
   wr_slots (wr_run cs turn stun calls) \<le> 1000 \<and> ws_ok (wr_run cs turn stun calls)"
  using wr.run_inv [OF wr_inv_new, of cs turn stun calls]
  unfolding wr_inv_def maxConcurrentSessions_def by blast


section \<open>Abandoned sessions\<close>

text \<open>The calls that end a session.\<close>

fun ends :: "wr_call \<Rightarrow> bool" where
  "ends (WrEnd now sid) = True"
| "ends (WrIce now p ev) = (ev = IceClosed)"
| "ends (WrSignal now pion wr sid ty) = (ty = ''close'')"
| "ends c = False"

lemma timer_slots: "wr_slots (wr_timer now s) = wr_slots s"
proof -
  have "wr_slots (foldl (\<lambda>s (sid, due). if due \<le> now then s\<lparr>wr_sessions := (wr_sessions s)(sid := None)\<rparr> else s) s ts) =
    wr_slots s" for s :: webrtc_server and ts by (induction ts rule: rev_induct) auto
  then show ?thesis by (simp add: wr_timer_def)
qed

lemma create_slots: "wr_slots s \<le> wr_slots (snd (wr_CreateSession rnd pion now req s))"
  by (simp add: wr_CreateSession_def Let_def split: sum.split option.split)

lemma media_slots: "wr_slots (snd (wr_HandleMediaIngest accepts isPost ty path body chunks rerr s)) = wr_slots s"
  by (simp add: wr_HandleMediaIngest_def Let_def split_beta split: option.split)

lemma slots_kept: "\<not> ends c \<Longrightarrow> wr_slots s \<le> wr_slots (wr_step s c)"
proof (cases c)
  case (WrIce now p ev)
  then show "\<not> ends c \<Longrightarrow> ?thesis" by (cases ev) (auto simp: wr_ice_def)
qed (auto simp: create_slots timer_slots media_slots wr_handleSignalMessage_def wr_UpdateNetworkQuality_def Let_def
    split: option.split)

lemma slots_kept_run: "\<forall>c \<in> set calls. \<not> ends c \<Longrightarrow> wr_slots s \<le> wr_slots (foldl wr_step s calls)"
proof (induction calls rule: rev_induct)
  case (snoc c calls)
  then show ?case using slots_kept [of c "foldl wr_step s calls"] by simp
qed simp

text \<open>
  Sessions that clients abandon block the server for good. A session expires on paper after 24 hours,
  but only an explicit end, a close message or a closed connection gives its slot back: once all 1000 slots
  are taken, then after any later calls none of which is such an end, and however late, every creation is
  refused and changes nothing.
\<close>

theorem webrtc_abandoned_block:
  assumes "wr_slots (wr_run cs turn stun calls) = 1000" and "\<forall>c \<in> set later. \<not> ends c"
  shows "wr_CreateSession rnd pion now req (wr_run cs turn stun (calls @ later)) =
    (Inl ''maximum concurrent sessions reached'', wr_run cs turn stun (calls @ later))"
  using slots_kept_run [OF assms(2), of "wr_run cs turn stun calls"] assms(1)
  by (simp add: wr_CreateSession_def maxConcurrentSessions_def)

lemma select_profile: "\<exists>prof. SelectEncoderProfile (selectVideoCodec cs requested preset) mode hw = Inr prof"
  using select_known [of cs requested preset] by (auto simp: SelectEncoderProfile_def)

lemma create_takes_slot:
  "wr_slots s < 1000 \<Longrightarrow> wr_slots (wr_step s (WrCreate rnd None now req)) = wr_slots s + 1"
  using select_profile [of "wr_codecSupport s" "wr_VideoCodecs req" "wr_Preset req"
      "if wr_EncodingMode req = '''' then ''balanced'' else wr_EncodingMode req" "cs_HardwareAccel (wr_codecSupport s)"]
  by (auto simp: wr_CreateSession_def maxConcurrentSessions_def Let_def)

lemma creates_take_slots:
  "n \<le> 1000 \<Longrightarrow> wr_slots (wr_run cs turn stun (replicate n (WrCreate rnd None now req))) = n"
proof (induction n)
  case (Suc n)
  then have "wr_slots (wr_run cs turn stun (replicate n (WrCreate rnd None now req))) = n" by simp
  with Suc(2) create_takes_slot [of "wr_run cs turn stun (replicate n (WrCreate rnd None now req))" rnd now req]
  show ?case by (simp flip: replicate_append_same del: wr_step.simps)
qed (simp add: wr_NewServer_def)

definition ex_req :: ws_request where
  "ex_req = \<lparr>wr_ClientID = ''c'', wr_VideoCodecs = [''h264''], wr_AudioCodecs = [''opus''], wr_Preset = '''',
     wr_EncodingMode = '''', wr_Region = '''', wr_GPURequired = False, wr_Width = 1280, wr_Height = 720,
     wr_RefreshRate = 60, wr_RequestedFPS = 60, wr_LatencyTarget = 30\<rparr>"

theorem webrtc_abandoned_block_witness:
  "fst (wr_CreateSession None None (10 ^ 30) ex_req
     (wr_run ex_codecs '''' '''' (replicate 1000 (WrCreate None None 0 ex_req) @ [WrTimer (10 ^ 30)]))) =
   Inl ''maximum concurrent sessions reached''"
  by (subst webrtc_abandoned_block) (simp_all add: creates_take_slots)

text \<open>
  A session that has ended, whose connection then reports a change of state before the entry is deleted, is
  no longer marked as ended: ending it again closes a closed channel.
\<close>

lemma end_after_callback_panics:
  assumes "ws_ok s" "wr_sessions s sid = Some p" "ws_State (wr_at s p) \<noteq> WsEnded" "\<not> ws_stopClosed (wr_at s p)"
  shows "snd (fst (wr_EndSession t3 sid (snd (wr_ice t2 p IceDisconnected (snd (wr_EndSession t1 sid s)))))) = Panicked"
proof -
  obtain se where "wr_mem s p = Some se" using assms(1,2) by (fastforce simp: ws_ok_def)
  then show ?thesis using assms(2-4) by (simp add: wr_EndSession_def Let_def wr_ice_def wr_at_def)
qed

end
