(* ===== verification/Detector.thy ===== *)
theory Detector
  imports GoStrings
begin

text \<open>
  apps/gateway/internal/security/detector.go: the scores of virtual machines, the events raised for them,
  and the signatures of suspicious processes. Levels are a datatype; the two states that come from
  elsewhere than this file do not occur. The package's global flag of the moderation is a field of the
  state. Measurements are exact rationals.
\<close>

section \<open>Printing\<close>

text \<open>\<open>%.0f\<close> rounds to the nearest integer, half to even.\<close>

definition round_even :: "rat \<Rightarrow> int" where
  "round_even q = (let f = \<lfloor>q\<rfloor>; d = q - of_int f
     in if d < 1/2 then f else if 1/2 < d then f + 1 else if even f then f else f + 1)"

definition fmt_f0 :: "rat \<Rightarrow> string" where
  "fmt_f0 q = (if q < 0 then CHR ''-'' # show_base 10 (nat (round_even (- q))) else show_base 10 (nat (round_even q)))"

text \<open>\<open>time.Duration.String\<close>: a fraction without its final zeros, and the largest fitting unit.\<close>

definition fmt_frac :: "nat \<Rightarrow> nat \<Rightarrow> string" where
  "fmt_frac n v =
     (let s = show_base 10 v; ds = rev (dropWhile (\<lambda>c. c = CHR ''0'') (rev (replicate (n - length s) CHR ''0'' @ s)))
      in if ds = [] then [] else CHR ''.'' # ds)"

definition duration_string :: "duration \<Rightarrow> string" where
  "duration_string d =
     (let u = nat \<bar>d\<bar>; secs = u div 1000000000; mins = secs div 60; hours = mins div 60
      in if d = 0 then ''0s''
         else (if d < 0 then ''-'' else '''') @
           (if u < 1000 then show_base 10 u @ ''ns''
            else if u < 1000000 then show_base 10 (u div 1000) @ fmt_frac 3 (u mod 1000) @ [CHR 0xC2, CHR 0xB5, CHR ''s'']
            else if u < 1000000000 then show_base 10 (u div 1000000) @ fmt_frac 6 (u mod 1000000) @ ''ms''
            else (if 0 < hours then show_base 10 hours @ ''h'' else '''') @
              (if 0 < mins then show_base 10 (mins mod 60) @ ''m'' else '''') @
              show_base 10 (secs mod 60) @ fmt_frac 9 (u mod 1000000000) @ ''s''))"

section \<open>State\<close>

datatype threat_level = ThreatLow | ThreatMedium | ThreatHigh | ThreatCritical

datatype vm_state = VMStateClean | VMStateFlagged | VMStatePaused | VMStateQuarantine

record threat_event =
  te_ID :: string
  te_VMID :: string
  te_UserID :: string
  te_Type :: string
  te_Level :: threat_level
  te_Description :: string
  te_Evidence :: "(string \<times> json) list"
  te_ScreenShot :: string
  te_CreatedAt :: time
  te_ReviewedAt :: "time option"
  te_ReviewedBy :: string
  te_Action :: string
  te_Resolved :: bool

text \<open>The two times of a machine's state are \<open>None\<close> while they are Go's zero time.\<close>

record vm_threat_state =
  vt_VMID :: string
  vt_State :: vm_state
  vt_CPUUsage :: rat
  vt_GPUsage :: rat
  vt_NetworkMBps :: rat
  vt_ProcessCount :: int
  vt_FlaggedAt :: "time option"
  vt_PausedAt :: "time option"
  vt_ScreenCapture :: string
  vt_Score :: rat

record detector =
  sd_threats :: "string \<rightharpoonup> threat_event"
  sd_vmStates :: "string \<rightharpoonup> vm_threat_state"
  sd_cryptoHashes :: "string set"
  sd_malware :: "string \<rightharpoonup> string"
  sd_AIModeration :: bool

definition crypto_names :: "string list" where
  "crypto_names = [''xmrig'', ''minerd'', ''ccminer'', ''ethminer'', ''claymore'',
     ''cpuminer'', ''sgminer'', ''bfgminer'', ''cgminer'', ''nicehash'',
     ''t-rex'', ''phoenixminer'', ''lolminer'', ''teamredminer'', ''nbminer'',
     ''gminer'', ''wildrig'', ''srbminer'', ''nanominer'', ''moneroocean'',
     ''cryptonight'', ''ethash'', ''kawpow'', ''randomx'', ''equihash'',
     ''stratum+tcp'', ''stratum+ssl'', ''stratum2+tcp'',
     ''minerd'', ''xmrstak'', ''xmrminer'', ''bfgminer'']"

definition malware_names :: "(string \<times> string) list" where
  "malware_names =
     [(''shellter'', ''Legitimate binary injector often used by malware''),
      (''mimikatz'', ''Credential dumping tool''),
      (''powersploit'', ''Post-exploitation framework''),
      (''meterpreter'', ''Metasploit payload''),
      (''cobaltstrike'', ''Commercial pentest framework abused by threat actors''),
      (''shikata_ga_nai'', ''Metasploit encoder''),
      (''havoc'', ''C2 framework''),
      (''sliver'', ''C2 framework''),
      (''bruteforce'', ''Brute force attack pattern''),
      (''masscan'', ''Mass port scanner''),
      (''hydra'', ''Login brute forcer''),
      (''nmap'', ''Network scanner (when used aggressively)''),
      (''sqlmap'', ''SQL injection tool''),
      (''beef'', ''Browser exploitation framework''),
      (''ettercap'', ''MITM attack tool''),
      (''bettercap'', ''MITM framework''),
      (''wireshark'', ''Packet analyzer (when used for packet capture)''),
      (''tcpdump'', ''Packet capture (aggressive usage)''),
      (''john'', ''Password cracker (illegal-activity heuristic)''),
      (''johnny'', ''John the Ripper GUI (illegal-activity heuristic)'')]"

definition NewSecurityDetector :: "bool \<Rightarrow> detector" where
  "NewSecurityDetector active = \<lparr>sd_threats = Map.empty, sd_vmStates = Map.empty,
     sd_cryptoHashes = set crypto_names, sd_malware = map_of malware_names, sd_AIModeration = active\<rparr>"

definition new_vm_state :: "string \<Rightarrow> vm_state \<Rightarrow> vm_threat_state" where
  "new_vm_state vm st = \<lparr>vt_VMID = vm, vt_State = st, vt_CPUUsage = 0, vt_GPUsage = 0, vt_NetworkMBps = 0,
     vt_ProcessCount = 0, vt_FlaggedAt = None, vt_PausedAt = None, vt_ScreenCapture = '''', vt_Score = 0\<rparr>"

definition new_event :: "time \<Rightarrow> string \<Rightarrow> string \<Rightarrow> string \<Rightarrow> threat_level \<Rightarrow> string \<Rightarrow> (string \<times> json) list \<Rightarrow> threat_event" where
  "new_event now vm u ty lev desc ev = \<lparr>te_ID = ''threat_'' @ fmt_d now, te_VMID = vm, te_UserID = u, te_Type = ty,
     te_Level = lev, te_Description = desc, te_Evidence = ev, te_ScreenShot = '''', te_CreatedAt = now,
     te_ReviewedAt = None, te_ReviewedBy = '''', te_Action = '''', te_Resolved = False\<rparr>"

definition put_threat :: "threat_event \<Rightarrow> detector \<Rightarrow> detector" where
  "put_threat e d = d\<lparr>sd_threats := (sd_threats d)(te_ID e \<mapsto> e), sd_AIModeration := True\<rparr>"

definition put_vm :: "string \<Rightarrow> vm_threat_state \<Rightarrow> detector \<Rightarrow> detector" where
  "put_vm vm st d = d\<lparr>sd_vmStates := (sd_vmStates d)(vm \<mapsto> st)\<rparr>"

section \<open>Analysis\<close>

definition threat_score :: "rat \<Rightarrow> rat \<Rightarrow> rat \<Rightarrow> int \<Rightarrow> rat" where
  "threat_score cpu gpu network processes =
     (let score = 0;
          score = (if cpu > 90 \<and> network > 50 then score + 30 else score);
          score = (if gpu > 85 \<and> network > 100 then score + 25 else score);
          score = (if cpu > 70 \<and> network > 200 then score + 35 else score);
          score = (if processes > 500 then score + 10 else score)
      in score)"

definition sd_AnalyzeMetrics ::
  "time \<Rightarrow> string \<Rightarrow> rat \<Rightarrow> rat \<Rightarrow> rat \<Rightarrow> int \<Rightarrow> detector \<Rightarrow> threat_event option \<times> detector" where
  "sd_AnalyzeMetrics now vm cpu gpu network processes d =
     (let st = (case sd_vmStates d vm of Some st \<Rightarrow> st | None \<Rightarrow> new_vm_state vm VMStateClean);
          score = threat_score cpu gpu network processes;
          st = st\<lparr>vt_CPUUsage := cpu, vt_GPUsage := gpu, vt_NetworkMBps := network,
                  vt_ProcessCount := processes, vt_Score := score\<rparr>
      in if score < 50 then (None, put_vm vm st d)
         else
           (let event = new_event now vm '''' ''crypto-mining'' ThreatHigh
                  ''Possible crypto mining detected: high CPU/GPU + network''
                  [(''cpu'', JNum cpu), (''gpu'', JNum gpu), (''network'', JNum network), (''score'', JNum score),
                   (''processes'', JNum (of_int processes))];
                st = st\<lparr>vt_State := VMStateFlagged\<rparr>;
                (event, st) = (if score < 70 then (event, st)
                  else (event\<lparr>te_Level := ThreatCritical, te_Description :=
                          ''CRITICAL: Crypto mining with high resource usage - connection paused''\<rparr>,
                        st\<lparr>vt_State := VMStatePaused\<rparr>))
            in (Some event, put_threat event (put_vm vm st d))))"

fun sd_scan :: "time \<Rightarrow> string \<Rightarrow> vm_threat_state \<Rightarrow> string list \<Rightarrow> detector \<Rightarrow> threat_event option \<times> detector" where
  "sd_scan now vm st [] d = (None, d)"
| "sd_scan now vm st (proc # procs) d =
     (let lower = to_lower proc
      in if lower \<in> sd_cryptoHashes d then
           (let event = new_event now vm '''' ''crypto-mining'' ThreatCritical (''Crypto mining process detected: '' @ proc)
                  [(''process'', JStr proc)]
            in (Some event, put_threat event (put_vm vm (st\<lparr>vt_State := VMStatePaused\<rparr>) d)))
         else (case sd_malware d lower of
           Some desc \<Rightarrow>
             (let event = new_event now vm '''' ''malware-tool'' ThreatHigh
                    (''Suspicious tool detected: '' @ proc @ '' - '' @ desc)
                    [(''process'', JStr proc), (''description'', JStr desc)]
              in (Some event, put_threat event (put_vm vm (st\<lparr>vt_State := VMStateFlagged\<rparr>) d)))
         | None \<Rightarrow> sd_scan now vm st procs d))"

definition sd_AnalyzeProcessList :: "time \<Rightarrow> string \<Rightarrow> string list \<Rightarrow> detector \<Rightarrow> threat_event option \<times> detector" where
  "sd_AnalyzeProcessList now vm procs d = (case sd_vmStates d vm of
     None \<Rightarrow> (None, d)
   | Some st \<Rightarrow> sd_scan now vm st procs d)"

definition sd_AnalyzeTraffic ::
  "time \<Rightarrow> string \<Rightarrow> int \<Rightarrow> int \<Rightarrow> int \<Rightarrow> duration \<Rightarrow> detector \<Rightarrow> threat_event option \<times> detector" where
  "sd_AnalyzeTraffic now u bytesIn bytesOut conns dur d =
     (let seconds = rat_of_int dur / 1000000000;
          seconds = (if seconds < 1 then 1 else seconds);
          outPerSec = rat_of_int bytesOut / seconds
      in if outPerSec > 50000000 \<or> conns > 500 then
           (let event = new_event now '''' u ''traffic-anomaly'' ThreatMedium
                  (''Traffic anomaly: '' @ fmt_f0 outPerSec @ '' bytes/s out, '' @ fmt_d conns @ '' conns'')
                  [(''bytesIn'', JNum (of_int bytesIn)), (''bytesOut'', JNum (of_int bytesOut)),
                   (''conns'', JNum (of_int conns)), (''duration'', JStr (duration_string dur)),
                   (''outBytesPerSec'', JNum outPerSec)]
            in (Some event, put_threat event d))
         else (None, d))"

section \<open>Machines and reviews\<close>

definition sd_PauseVM :: "time \<Rightarrow> string \<Rightarrow> detector \<Rightarrow> detector" where
  "sd_PauseVM now vm d =
     (let st = (case sd_vmStates d vm of Some st \<Rightarrow> st | None \<Rightarrow> new_vm_state vm VMStatePaused)
      in put_vm vm (st\<lparr>vt_State := VMStatePaused, vt_PausedAt := Some now\<rparr>) d)"

definition sd_ResumeVM :: "string \<Rightarrow> detector \<Rightarrow> detector" where
  "sd_ResumeVM vm d = (case sd_vmStates d vm of None \<Rightarrow> d | Some st \<Rightarrow> put_vm vm (st\<lparr>vt_State := VMStateClean\<rparr>) d)"

definition sd_GetVMState :: "string \<Rightarrow> detector \<Rightarrow> vm_threat_state option" where
  "sd_GetVMState vm d = sd_vmStates d vm"

definition sd_ListThreats :: "string list \<Rightarrow> bool \<Rightarrow> detector \<Rightarrow> threat_event list" where
  "sd_ListThreats ks resolved d = filter (\<lambda>t. te_Resolved t = resolved) (map_values (sd_threats d) ks)"

definition sd_GetThreat :: "string \<Rightarrow> detector \<Rightarrow> threat_event option" where
  "sd_GetThreat tid d = sd_threats d tid"

definition sd_ReviewThreat :: "time \<Rightarrow> string \<Rightarrow> string \<Rightarrow> bool \<Rightarrow> string \<Rightarrow> detector \<Rightarrow> detector" where
  "sd_ReviewThreat now tid reviewer resolved action d = (case sd_threats d tid of
     None \<Rightarrow> d
   | Some t \<Rightarrow> d\<lparr>sd_threats := (sd_threats d)(tid \<mapsto>
       t\<lparr>te_ReviewedAt := Some now, te_ReviewedBy := reviewer, te_Resolved := resolved, te_Action := action\<rparr>)\<rparr>)"

text \<open>
  The settings read back from the database: a row that cannot be read is skipped; \<open>parse\<close> is the JSON
  decoder for the table of malware names.
\<close>

definition reload_row :: "(string \<Rightarrow> (string \<rightharpoonup> string) option) \<Rightarrow> detector \<Rightarrow> (string \<times> string) option \<Rightarrow> detector" where
  "reload_row parse d row = (case row of
     None \<Rightarrow> d
   | Some (key, value) \<Rightarrow>
       if key = ''security_crypto'' then
         d\<lparr>sd_cryptoHashes := sd_cryptoHashes d \<union> set (filter (\<lambda>s. s \<noteq> '''') (map trim_space (split_on (CHR '','') value)))\<rparr>
       else if key = ''security_malware'' then
         (case parse value of None \<Rightarrow> d | Some m \<Rightarrow> d\<lparr>sd_malware := sd_malware d ++ m\<rparr>)
       else d)"

text \<open>Without a database nothing happens; \<open>Inl\<close> is a failing query.\<close>

definition sd_ReloadSignatures ::
  "(string \<Rightarrow> (string \<rightharpoonup> string) option) \<Rightarrow> (string + (string \<times> string) option list) option \<Rightarrow> detector
    \<Rightarrow> string option \<times> detector" where
  "sd_ReloadSignatures parse db d = (case db of
     None \<Rightarrow> (None, d)
   | Some (Inl e) \<Rightarrow> (Some e, d)
   | Some (Inr rows) \<Rightarrow> (None, foldl (reload_row parse) d rows))"

definition sd_SetScreenCapture :: "string \<Rightarrow> string \<Rightarrow> detector \<Rightarrow> detector" where
  "sd_SetScreenCapture vm capture d = (case sd_vmStates d vm of
     None \<Rightarrow> d | Some st \<Rightarrow> put_vm vm (st\<lparr>vt_ScreenCapture := capture\<rparr>) d)"

definition sd_ListVMStates :: "string list \<Rightarrow> detector \<Rightarrow> vm_threat_state list" where
  "sd_ListVMStates ks d = map_values (sd_vmStates d) ks"

definition sd_ThreatCount :: "string list \<Rightarrow> detector \<Rightarrow> int" where
  "sd_ThreatCount ks d = foldl (\<lambda>n t. if \<not> te_Resolved t then n + 1 else n) 0 (map_values (sd_threats d) ks)"

section \<open>Handlers\<close>

record threat_counts =
  tc_Total :: int
  tc_Unresolved :: int
  tc_Critical :: int
  tc_High :: int
  tc_Medium :: int
  tc_Low :: int

datatype sd_body = SdError string | SdThreat threat_event bool | SdStatus string | SdCounts threat_counts

definition threat_answer :: "threat_event option \<Rightarrow> sd_body answer" where
  "threat_answer t = (case t of
     Some e \<Rightarrow> Answer 200 (SdThreat e (te_Level e = ThreatCritical))
   | None \<Rightarrow> Answer 200 (SdStatus ''clean''))"

definition sh_ReportMetrics ::
  "time \<Rightarrow> http_method \<Rightarrow> (string \<times> rat \<times> rat \<times> rat \<times> int) option \<Rightarrow> detector \<Rightarrow> sd_body answer \<times> detector" where
  "sh_ReportMetrics now meth body d =
     (if meth \<noteq> POST then (Answer 405 (SdError ''method not allowed''), d)
      else case body of
        None \<Rightarrow> (Answer 400 (SdError ''invalid request''), d)
      | Some (vm, cpu, gpu, network, processes) \<Rightarrow>
          (let (t, d) = sd_AnalyzeMetrics now vm cpu gpu network processes d in (threat_answer t, d)))"

definition sh_ReportProcess ::
  "time \<Rightarrow> http_method \<Rightarrow> (string \<times> string list) option \<Rightarrow> detector \<Rightarrow> sd_body answer \<times> detector" where
  "sh_ReportProcess now meth body d =
     (if meth \<noteq> POST then (Answer 405 (SdError ''method not allowed''), d)
      else case body of
        None \<Rightarrow> (Answer 400 (SdError ''invalid request''), d)
      | Some (vm, procs) \<Rightarrow> (let (t, d) = sd_AnalyzeProcessList now vm procs d in (threat_answer t, d)))"

definition count_level :: "threat_counts \<Rightarrow> threat_event \<Rightarrow> threat_counts" where
  "count_level c t = (case te_Level t of
     ThreatCritical \<Rightarrow> c\<lparr>tc_Critical := tc_Critical c + 1\<rparr>
   | ThreatHigh \<Rightarrow> c\<lparr>tc_High := tc_High c + 1\<rparr>
   | ThreatMedium \<Rightarrow> c\<lparr>tc_Medium := tc_Medium c + 1\<rparr>
   | ThreatLow \<Rightarrow> c\<lparr>tc_Low := tc_Low c + 1\<rparr>)"

definition sh_Stats :: "string list \<Rightarrow> detector \<Rightarrow> sd_body answer" where
  "sh_Stats ks d =
     (let threats = sd_ListThreats ks False d;
          counts = foldl count_level \<lparr>tc_Total = int (length threats), tc_Unresolved = 0, tc_Critical = 0, tc_High = 0,
            tc_Medium = 0, tc_Low = 0\<rparr> threats
      in Answer 200 (SdCounts (counts\<lparr>tc_Unresolved := tc_Total counts\<rparr>)))"


section \<open>When an alarm is raised\<close>

definition cpu_alarm :: "rat \<Rightarrow> rat \<Rightarrow> bool" where
  "cpu_alarm cpu network \<longleftrightarrow> cpu > 90 \<and> network > 50"

definition gpu_alarm :: "rat \<Rightarrow> rat \<Rightarrow> bool" where
  "gpu_alarm gpu network \<longleftrightarrow> gpu > 85 \<and> network > 100"

definition flood_alarm :: "rat \<Rightarrow> rat \<Rightarrow> bool" where
  "flood_alarm cpu network \<longleftrightarrow> cpu > 70 \<and> network > 200"

definition two_alarms :: "rat \<Rightarrow> rat \<Rightarrow> rat \<Rightarrow> bool" where
  "two_alarms cpu gpu network \<longleftrightarrow> cpu_alarm cpu network \<and> gpu_alarm gpu network \<or>
     flood_alarm cpu network \<and> (cpu_alarm cpu network \<or> gpu_alarm gpu network)"

definition critical_alarm :: "rat \<Rightarrow> rat \<Rightarrow> rat \<Rightarrow> int \<Rightarrow> bool" where
  "critical_alarm cpu gpu network processes \<longleftrightarrow> flood_alarm cpu network \<and>
     (cpu_alarm cpu network \<and> gpu_alarm gpu network \<or>
      processes > 500 \<and> (cpu_alarm cpu network \<or> gpu_alarm gpu network))"

lemmas alarm_defs = cpu_alarm_def gpu_alarm_def flood_alarm_def

lemma score_two: "threat_score cpu gpu network processes < 50 \<longleftrightarrow> \<not> two_alarms cpu gpu network"
  unfolding threat_score_def two_alarms_def alarm_defs [symmetric] Let_def by simp

lemma score_critical: "threat_score cpu gpu network processes < 70 \<longleftrightarrow> \<not> critical_alarm cpu gpu network processes"
  unfolding threat_score_def critical_alarm_def alarm_defs [symmetric] Let_def by simp

lemma critical_two: "critical_alarm cpu gpu network processes \<Longrightarrow> two_alarms cpu gpu network"
  by (auto simp: critical_alarm_def two_alarms_def)

text \<open>The state a machine is in; one that is not known counts as clean.\<close>

definition state_of :: "string \<Rightarrow> detector \<Rightarrow> vm_state" where
  "state_of vm d = (case sd_vmStates d vm of None \<Rightarrow> VMStateClean | Some st \<Rightarrow> vt_State st)"

lemma put_sel [simp]:
  "sd_threats (put_vm vm st d) = sd_threats d" "sd_vmStates (put_threat e d) = sd_vmStates d"
  "sd_AIModeration (put_vm vm st d) = sd_AIModeration d" "sd_AIModeration (put_threat e d)"
  "sd_vmStates (put_vm vm st d) = (sd_vmStates d)(vm \<mapsto> st)" "sd_threats (put_threat e d) = (sd_threats d)(te_ID e \<mapsto> e)"
  by (simp_all add: put_vm_def put_threat_def)

lemma state_of_put [simp]: "state_of vm' (put_vm vm st d) = (if vm' = vm then vt_State st else state_of vm' d)"
  "state_of vm' (put_threat e d) = state_of vm' d"
  by (simp_all add: state_of_def)

text \<open>
  C32: A report of measurements raises an alarm exactly when two of three conditions hold: a busy processor
  with traffic, a busy graphics card with more traffic, and a flood of traffic from a loaded processor. It is
  critical exactly when all three hold, or the flood and another one with more than 500 processes. A
  critical alarm pauses the machine, another one flags it, a report without alarm leaves its state, and no
  report changes the state of another machine. An alarm is stored under its id and switches the
  moderation on.
\<close>

theorem detector_levels_exact:
  fixes d :: detector
  assumes "sd_AnalyzeMetrics now vm cpu gpu network processes d = (t, d')"
  shows "(t \<noteq> None \<longleftrightarrow> two_alarms cpu gpu network) \<and>
    ((\<exists>e. t = Some e \<and> te_Level e = ThreatCritical) \<longleftrightarrow> critical_alarm cpu gpu network processes) \<and>
    state_of vm d' = (if critical_alarm cpu gpu network processes then VMStatePaused
      else if two_alarms cpu gpu network then VMStateFlagged else state_of vm d) \<and>
    (\<forall>vm'. vm' \<noteq> vm \<longrightarrow> state_of vm' d' = state_of vm' d) \<and>
    (case t of None \<Rightarrow> sd_threats d' = sd_threats d \<and> sd_AIModeration d' = sd_AIModeration d
     | Some e \<Rightarrow> sd_threats d' = (sd_threats d)(te_ID e \<mapsto> e) \<and> sd_AIModeration d')"
proof (cases "two_alarms cpu gpu network")
  case False
  with critical_two have "\<not> critical_alarm cpu gpu network processes" by blast
  with False assms show ?thesis
    by (auto simp: sd_AnalyzeMetrics_def Let_def score_two new_vm_state_def state_of_def split: option.splits)
next
  case True
  with assms show ?thesis
    by (cases "critical_alarm cpu gpu network processes")
      (auto simp: sd_AnalyzeMetrics_def Let_def score_two score_critical new_event_def)
qed

theorem detector_levels_exact_witness:
  "state_of ''vm'' (snd (sd_AnalyzeMetrics 7 ''vm'' 95 10 250 600 (NewSecurityDetector False))) = VMStatePaused"
proof -
  have "critical_alarm 95 10 250 600" by (simp add: critical_alarm_def alarm_defs)
  then show ?thesis
    using detector_levels_exact [OF surjective_pairing, of 7 "''vm''" 95 10 250 600 "NewSecurityDetector False"]
    by simp
qed

section \<open>The tables\<close>

datatype sd_call =
    OnMetrics time string rat rat rat int
  | OnProcesses time string "string list"
  | OnTraffic time string int int int duration
  | OnPause time string
  | OnResume string
  | OnReview time string string bool string
  | OnScreen string string
  | OnReload "string \<Rightarrow> (string \<rightharpoonup> string) option" "(string + (string \<times> string) option list) option"

fun sd_step :: "detector \<Rightarrow> sd_call \<Rightarrow> detector" where
  "sd_step d (OnMetrics now vm cpu gpu net ps) = snd (sd_AnalyzeMetrics now vm cpu gpu net ps d)"
| "sd_step d (OnProcesses now vm ps) = snd (sd_AnalyzeProcessList now vm ps d)"
| "sd_step d (OnTraffic now u i out conns dur) = snd (sd_AnalyzeTraffic now u i out conns dur d)"
| "sd_step d (OnPause now vm) = sd_PauseVM now vm d"
| "sd_step d (OnResume vm) = sd_ResumeVM vm d"
| "sd_step d (OnReview now tid rv res act) = sd_ReviewThreat now tid rv res act d"
| "sd_step d (OnScreen vm s) = sd_SetScreenCapture vm s d"
| "sd_step d (OnReload parse db) = snd (sd_ReloadSignatures parse db d)"

definition event_ok :: "string \<Rightarrow> threat_event \<Rightarrow> bool" where
  "event_ok k e \<longleftrightarrow> te_ID e = k \<and>
     (te_Type e = ''traffic-anomaly'' \<and> te_Level e = ThreatMedium \<and> te_VMID e = '''' \<or>
      te_Type e = ''malware-tool'' \<and> te_Level e = ThreatHigh \<and> te_UserID e = '''' \<or>
      te_Type e = ''crypto-mining'' \<and> te_Level e \<in> {ThreatHigh, ThreatCritical} \<and> te_UserID e = '''') \<and>
     (te_Resolved e \<longrightarrow> te_ReviewedAt e \<noteq> None)"

definition vm_ok :: "string \<Rightarrow> vm_threat_state \<Rightarrow> bool" where
  "vm_ok vm st \<longleftrightarrow> vt_VMID st = vm \<and> vt_State st \<noteq> VMStateQuarantine"

definition sd_inv :: "detector \<Rightarrow> bool" where
  "sd_inv d \<longleftrightarrow> (\<forall>k e. sd_threats d k = Some e \<longrightarrow> event_ok k e) \<and>
     (\<forall>vm st. sd_vmStates d vm = Some st \<longrightarrow> vm_ok vm st) \<and>
     ((\<exists>k e. sd_threats d k = Some e) \<longrightarrow> sd_AIModeration d)"

lemma sd_invI:
  assumes "\<And>k e. sd_threats d k = Some e \<Longrightarrow> event_ok k e" "\<And>vm st. sd_vmStates d vm = Some st \<Longrightarrow> vm_ok vm st"
    and "\<And>k e. sd_threats d k = Some e \<Longrightarrow> sd_AIModeration d"
  shows "sd_inv d"
  using assms unfolding sd_inv_def by blast

lemma sd_inv_put_vm: "sd_inv d \<Longrightarrow> vm_ok vm st \<Longrightarrow> sd_inv (put_vm vm st d)"
  by (rule sd_invI) (auto simp: sd_inv_def split: if_splits)

lemma sd_inv_put_threat: "sd_inv d \<Longrightarrow> event_ok (te_ID e) e \<Longrightarrow> sd_inv (put_threat e d)"
  by (rule sd_invI) (auto simp: sd_inv_def split: if_splits)

lemma sd_inv_vm: "sd_inv d \<Longrightarrow> sd_vmStates d vm = Some st \<Longrightarrow> vm_ok vm st"
  by (simp add: sd_inv_def)

lemmas sd_inv_intros = sd_inv_put_vm sd_inv_put_threat

lemma event_ok_new:
  "lev \<in> {ThreatHigh, ThreatCritical} \<Longrightarrow>
     event_ok (te_ID (new_event now vm '''' ''crypto-mining'' lev desc ev)) (new_event now vm '''' ''crypto-mining'' lev desc ev)"
  "event_ok (te_ID (new_event now vm '''' ''malware-tool'' ThreatHigh desc ev))
     (new_event now vm '''' ''malware-tool'' ThreatHigh desc ev)"
  "event_ok (te_ID (new_event now '''' u ''traffic-anomaly'' ThreatMedium desc ev))
     (new_event now '''' u ''traffic-anomaly'' ThreatMedium desc ev)"
  "event_ok (te_ID (new_event now vm '''' ''crypto-mining'' lev desc ev))
     (new_event now vm '''' ''crypto-mining'' lev desc ev\<lparr>te_Level := ThreatCritical, te_Description := desc'\<rparr>)"
  by (simp_all add: event_ok_def new_event_def)

lemma vm_ok_state: "vm_ok vm st \<Longrightarrow> s \<noteq> VMStateQuarantine \<Longrightarrow> vm_ok vm (st\<lparr>vt_State := s\<rparr>)"
  by (simp add: vm_ok_def)

lemma vm_ok_measured: "vm_ok vm st \<Longrightarrow> vm_ok vm (st\<lparr>vt_CPUUsage := a, vt_GPUsage := b, vt_NetworkMBps := c,
    vt_ProcessCount := n, vt_Score := s\<rparr>)"
  by (simp add: vm_ok_def)

lemma sd_inv_scan: "sd_inv d \<Longrightarrow> vm_ok vm st \<Longrightarrow> sd_inv (snd (sd_scan now vm st procs d))"
  by (induction procs)
    (simp_all add: Let_def sd_inv_put_threat sd_inv_put_vm event_ok_new vm_ok_state split: option.split)

lemma sd_inv_metrics: "sd_inv d \<Longrightarrow> sd_inv (snd (sd_AnalyzeMetrics now vm cpu gpu net ps d))"
proof -
  assume inv: "sd_inv d"
  define st where "st = (case sd_vmStates d vm of Some st \<Rightarrow> st | None \<Rightarrow> new_vm_state vm VMStateClean)"
  define st' where "st' = st\<lparr>vt_CPUUsage := cpu, vt_GPUsage := gpu, vt_NetworkMBps := net, vt_ProcessCount := ps,
    vt_Score := threat_score cpu gpu net ps\<rparr>"
  have "vm_ok vm st"
    using sd_inv_vm [OF inv] by (auto simp: st_def vm_ok_def new_vm_state_def split: option.split)
  then have ok: "vm_ok vm st'" unfolding st'_def by (rule vm_ok_measured)
  then have "vm_ok vm (st'\<lparr>vt_State := VMStateFlagged\<rparr>)" "vm_ok vm (st'\<lparr>vt_State := VMStateFlagged, vt_State := VMStatePaused\<rparr>)"
    by (simp_all add: vm_ok_state)
  note put = sd_inv_put_vm [OF inv ok] sd_inv_put_threat [OF sd_inv_put_vm [OF inv this(1)]]
    sd_inv_put_threat [OF sd_inv_put_vm [OF inv this(2)]]
  show ?thesis
  proof (cases "threat_score cpu gpu net ps < 50")
    case True
    with put(1) show ?thesis
      unfolding sd_AnalyzeMetrics_def Let_def st_def [symmetric] st'_def [symmetric] by (simp only: if_True snd_conv)
  next
    case False
    show ?thesis
    proof (cases "threat_score cpu gpu net ps < 70")
      case True
      with False show ?thesis
        unfolding sd_AnalyzeMetrics_def Let_def st_def [symmetric] st'_def [symmetric]
        by (simp only: if_False if_True prod.case snd_conv) (rule put(2), rule event_ok_new(1), simp)
    next
      case False': False
      with False show ?thesis
        unfolding sd_AnalyzeMetrics_def Let_def st_def [symmetric] st'_def [symmetric]
        by (simp only: if_False prod.case snd_conv) (rule put(3), simp add: event_ok_def new_event_def)
    qed
  qed
qed

lemma sd_inv_signatures [simp]: "sd_inv (d\<lparr>sd_cryptoHashes := h\<rparr>) = sd_inv d" "sd_inv (d\<lparr>sd_malware := m\<rparr>) = sd_inv d"
  by (simp_all add: sd_inv_def)

lemma sd_inv_reload: "sd_inv d \<Longrightarrow> sd_inv (foldl (reload_row parse) d rows)"
  by (induction rows rule: rev_induct) (simp_all add: reload_row_def split: option.split prod.split)

lemma sd_inv_pause: "sd_inv d \<Longrightarrow> sd_inv (sd_PauseVM now vm d)"
proof -
  assume inv: "sd_inv d"
  define st where "st = (case sd_vmStates d vm of Some st \<Rightarrow> st | None \<Rightarrow> new_vm_state vm VMStatePaused)"
  have "vm_ok vm st"
    using sd_inv_vm [OF inv] by (auto simp: st_def vm_ok_def new_vm_state_def split: option.split)
  then have "vm_ok vm (st\<lparr>vt_State := VMStatePaused, vt_PausedAt := Some now\<rparr>)" by (simp add: vm_ok_def)
  with inv show ?thesis unfolding sd_PauseVM_def Let_def st_def [symmetric] by (rule sd_inv_put_vm)
qed

lemma sd_inv_resume: "sd_inv d \<Longrightarrow> sd_inv (sd_ResumeVM vm d)"
  using sd_inv_vm [of d vm] by (auto simp: sd_ResumeVM_def intro!: sd_inv_put_vm vm_ok_state split: option.split)

lemma sd_inv_screen: "sd_inv d \<Longrightarrow> sd_inv (sd_SetScreenCapture vm s d)"
  using sd_inv_vm [of d vm] by (auto simp: sd_SetScreenCapture_def vm_ok_def intro!: sd_inv_put_vm split: option.split)

lemma event_ok_review: "event_ok k e \<Longrightarrow> event_ok k (e\<lparr>te_ReviewedAt := Some now, te_ReviewedBy := rv,
    te_Resolved := res, te_Action := act\<rparr>)"
  by (simp add: event_ok_def)

lemma sd_inv_review: "sd_inv d \<Longrightarrow> sd_inv (sd_ReviewThreat now tid rv res act d)"
  by (rule sd_invI) (auto simp: sd_ReviewThreat_def sd_inv_def event_ok_review split: option.splits if_splits)

lemma sd_inv_traffic: "sd_inv d \<Longrightarrow> sd_inv (snd (sd_AnalyzeTraffic now u i out conns dur d))"
  by (simp add: sd_AnalyzeTraffic_def Let_def sd_inv_put_threat event_ok_new)

lemma sd_step_inv: "sd_inv d \<Longrightarrow> sd_inv (sd_step d c)"
proof (cases c)
  case (OnProcesses now vm ps)
  moreover assume "sd_inv d"
  ultimately show ?thesis
    using sd_inv_vm [of d vm] by (auto simp: sd_AnalyzeProcessList_def intro: sd_inv_scan split: option.split)
next
  case (OnReload parse db)
  moreover assume "sd_inv d"
  ultimately show ?thesis
    by (simp add: sd_ReloadSignatures_def sd_inv_reload split: option.split sum.split)
qed (simp_all add: sd_inv_metrics sd_inv_traffic sd_inv_pause sd_inv_resume sd_inv_review sd_inv_screen)

lemma sd_inv_new: "sd_inv (NewSecurityDetector active)"
  by (rule sd_invI) (simp_all add: NewSecurityDetector_def)

interpretation sd: component sd_step sd_inv
  by unfold_locales (rule sd_step_inv)

text \<open>
  C31: The detector's tables are well formed in every run. An event is stored under its own id, has the level
  of its type, belongs to a machine or to a user as its type says, and is resolved only after a review; a
  machine's state is stored under its name and is never quarantine; and once there is an event the
  moderation is on.
\<close>

theorem detector_tables_ok:
  "sd_inv (foldl sd_step (NewSecurityDetector active) cs)"
  by (rule sd.run_inv) (rule sd_inv_new)

text \<open>
  A pause does not last. A machine that an administrator paused is merely flagged again as soon as a
  report raises an alarm that is not critical, or names a tool of the malware table first.
\<close>

theorem detector_pause_lost:
  assumes "two_alarms cpu gpu network" "\<not> critical_alarm cpu gpu network processes"
  shows "state_of vm (sd_PauseVM t0 vm d) = VMStatePaused \<and>
    state_of vm (snd (sd_AnalyzeMetrics now vm cpu gpu network processes (sd_PauseVM t0 vm d))) = VMStateFlagged"
proof -
  obtain t d' where a: "sd_AnalyzeMetrics now vm cpu gpu network processes (sd_PauseVM t0 vm d) = (t, d')"
    by (cases "sd_AnalyzeMetrics now vm cpu gpu network processes (sd_PauseVM t0 vm d)")
  have "state_of vm d' = VMStateFlagged"
    using a assms by (auto simp: sd_AnalyzeMetrics_def Let_def score_two score_critical)
  with a show ?thesis by (simp add: sd_PauseVM_def)
qed

theorem detector_pause_lost_witness:
  "state_of ''vm'' (snd (sd_AnalyzeMetrics 9 ''vm'' 95 90 150 10 (sd_PauseVM 5 ''vm'' (NewSecurityDetector False)))) = VMStateFlagged"
proof -
  have "two_alarms 95 90 150" "\<not> critical_alarm 95 90 150 10"
    by (simp_all add: two_alarms_def critical_alarm_def alarm_defs)
  from detector_pause_lost [OF this] show ?thesis by blast
qed

text \<open>A signature from the settings that is not in lower case never matches a process.\<close>

lemma upper_signature_never_matches: "to_lower s \<noteq> s \<Longrightarrow> to_lower proc \<noteq> s"
  by auto

text \<open>The statistics add up.\<close>

lemma stats_add_up:
  assumes "sh_Stats ks d = Answer 200 (SdCounts c)"
  shows "tc_Total c = int (length (sd_ListThreats ks False d))" "tc_Unresolved c = tc_Total c"
    "tc_Critical c + tc_High c + tc_Medium c + tc_Low c = tc_Total c"
proof -
  have "tc_Total (foldl count_level c0 ts) = tc_Total c0 \<and>
      tc_Critical (foldl count_level c0 ts) + tc_High (foldl count_level c0 ts) + tc_Medium (foldl count_level c0 ts) +
        tc_Low (foldl count_level c0 ts) =
      tc_Critical c0 + tc_High c0 + tc_Medium c0 + tc_Low c0 + int (length ts)" for c0 :: threat_counts and ts
    by (induction ts rule: rev_induct) (auto simp: count_level_def split: threat_level.split)
  with assms show "tc_Total c = int (length (sd_ListThreats ks False d))" "tc_Unresolved c = tc_Total c"
    "tc_Critical c + tc_High c + tc_Medium c + tc_Low c = tc_Total c"
    by (auto simp: sh_Stats_def Let_def)
qed

end
