(* ===== verification/Usage.thy ===== *)
theory Usage
  imports GoStrings
begin

text \<open>
  apps/gateway/internal/usage/usage.go: the record of what every user consumes, the quotas, and the
  invoices. Resource types are strings, since clients send them. Quantities are exact rationals. An
  operation that reads the clock several times gets one reading.
\<close>

section \<open>State\<close>

definition ResourceCPU :: string where "ResourceCPU = ''cpu_cores''"
definition ResourceRAM :: string where "ResourceRAM = ''ram_gb''"
definition ResourceStorage :: string where "ResourceStorage = ''storage_gb''"
definition ResourceGPU :: string where "ResourceGPU = ''gpu_hours''"
definition ResourceNetwork :: string where "ResourceNetwork = ''network_gb''"
definition ResourceSessions :: string where "ResourceSessions = ''sessions''"

lemmas resource_defs = ResourceCPU_def ResourceRAM_def ResourceStorage_def ResourceGPU_def
  ResourceNetwork_def ResourceSessions_def

record usage_record =
  ur_UserID :: string
  ur_Resource :: string
  ur_Value :: rat
  ur_Unit :: string
  ur_StartedAt :: time

type_synonym amounts = "string \<rightharpoonup> rat"

record usage_summary =
  su_UserID :: string
  su_PeriodStart :: time
  su_PeriodEnd :: time
  su_Resources :: amounts
  su_SessionCount :: int
  su_TotalUptimeHours :: rat

record usage_quota =
  qu_UserID :: string
  qu_Limits :: amounts
  qu_Usage :: amounts
  qu_Remaining :: amounts

record invoice_item =
  ii_Description :: string
  ii_Quantity :: rat
  ii_UnitPrice :: int
  ii_TotalCents :: int

record invoice =
  iv_ID :: string
  iv_UserID :: string
  iv_PeriodStart :: time
  iv_PeriodEnd :: time
  iv_Items :: "invoice_item list"
  iv_TotalCents :: int
  iv_Paid :: bool
  iv_CreatedAt :: time

record tracker =
  tr_records :: "string \<rightharpoonup> usage_record list"
  tr_quotas :: "string \<rightharpoonup> amounts"

text \<open>Reading a missing key of a map yields the zero value.\<close>

definition amount :: "amounts \<Rightarrow> string \<Rightarrow> rat" where
  "amount m k = (case m k of None \<Rightarrow> 0 | Some v \<Rightarrow> v)"

definition us_records :: "tracker \<Rightarrow> string \<Rightarrow> usage_record list" where
  "us_records t u = (case tr_records t u of None \<Rightarrow> [] | Some rs \<Rightarrow> rs)"

definition default_quotas :: amounts where
  "default_quotas = [ResourceCPU \<mapsto> 4, ResourceRAM \<mapsto> 8, ResourceStorage \<mapsto> 50, ResourceGPU \<mapsto> 0,
     ResourceNetwork \<mapsto> 100, ResourceSessions \<mapsto> 5]"

definition us_NewTracker :: tracker where
  "us_NewTracker = \<lparr>tr_records = Map.empty, tr_quotas = [''default'' \<mapsto> default_quotas]\<rparr>"

section \<open>Operations\<close>

definition thirty_days :: duration where
  "thirty_days = 30 * 24 * 60 * minute"

definition unitFor :: "string \<Rightarrow> string" where
  "unitFor r = (if r = ResourceCPU then ''core-seconds'' else if r = ResourceRAM then ''GB-seconds''
     else if r = ResourceStorage then ''GB-months'' else if r = ResourceGPU then ''GPU-seconds''
     else if r = ResourceNetwork then ''bytes'' else if r = ResourceSessions then ''count'' else ''units'')"

definition usage_entry :: "time \<Rightarrow> string \<Rightarrow> string \<Rightarrow> rat \<Rightarrow> usage_record" where
  "usage_entry now u res v =
     \<lparr>ur_UserID = u, ur_Resource = res, ur_Value = v, ur_Unit = unitFor res, ur_StartedAt = now\<rparr>"

definition us_Track :: "time \<Rightarrow> string \<Rightarrow> string \<Rightarrow> rat \<Rightarrow> tracker \<Rightarrow> tracker" where
  "us_Track now u res v t =
     (let records = us_records t u @ [usage_entry now u res v];
          records = (if 512 < length records
             then filter (\<lambda>r. now - thirty_days < ur_StartedAt r) records else records)
      in t\<lparr>tr_records := (tr_records t)(u \<mapsto> records)\<rparr>)"

definition add_amount :: "string \<Rightarrow> rat \<Rightarrow> amounts \<Rightarrow> amounts" where
  "add_amount k v m = m(k \<mapsto> amount m k + v)"

definition us_GetUsage :: "time \<Rightarrow> string \<Rightarrow> time \<Rightarrow> tracker \<Rightarrow> usage_summary" where
  "us_GetUsage now u since t =
     (let summary = \<lparr>su_UserID = u, su_PeriodStart = since, su_PeriodEnd = now, su_Resources = Map.empty,
            su_SessionCount = 0, su_TotalUptimeHours = 0\<rparr>;
          summary = foldl (\<lambda>s r. if ur_StartedAt r < since then s
              else s\<lparr>su_Resources := add_amount (ur_Resource r) (ur_Value r) (su_Resources s),
                     su_SessionCount := su_SessionCount s + (if ur_Resource r = ResourceSessions then 1 else 0)\<rparr>)
            summary (us_records t u)
      in summary\<lparr>su_TotalUptimeHours := amount (su_Resources summary) ResourceCPU / 3600\<rparr>)"

definition us_calculateUsage :: "time \<Rightarrow> string \<Rightarrow> tracker \<Rightarrow> amounts" where
  "us_calculateUsage now u t =
     (let since = now - thirty_days
      in foldl (\<lambda>m r. if ur_StartedAt r < since then m else add_amount (ur_Resource r) (ur_Value r) m)
           Map.empty (us_records t u))"

text \<open>A user without quotas of their own has the defaults; reading a missing map yields an empty one.\<close>

definition us_limits :: "string \<Rightarrow> tracker \<Rightarrow> amounts" where
  "us_limits u t = (case tr_quotas t u of Some l \<Rightarrow> l
     | None \<Rightarrow> (case tr_quotas t ''default'' of Some l \<Rightarrow> l | None \<Rightarrow> Map.empty))"

definition us_GetQuota :: "time \<Rightarrow> string \<Rightarrow> tracker \<Rightarrow> usage_quota" where
  "us_GetQuota now u t =
     (let limits = us_limits u t; usage = us_calculateUsage now u t
      in \<lparr>qu_UserID = u, qu_Limits = limits, qu_Usage = (\<lambda>k. map_option (\<lambda>_. amount usage k) (limits k)),
          qu_Remaining = (\<lambda>k. map_option (\<lambda>v. v - amount usage k) (limits k))\<rparr>)"

definition us_SetQuota :: "string \<Rightarrow> string \<Rightarrow> rat \<Rightarrow> tracker \<Rightarrow> tracker" where
  "us_SetQuota u res lmt t = t\<lparr>tr_quotas := (tr_quotas t)(u \<mapsto> (us_limits u t)(res \<mapsto> lmt))\<rparr>"

definition us_CheckQuota :: "time \<Rightarrow> string \<Rightarrow> string \<Rightarrow> rat \<Rightarrow> tracker \<Rightarrow> bool" where
  "us_CheckQuota now u res requested t =
     (case us_limits u t res of None \<Rightarrow> True
      | Some lmt \<Rightarrow> amount (us_calculateUsage now u t) res + requested \<le> lmt)"

definition unit_price :: "string \<Rightarrow> int" where
  "unit_price r = (if r = ResourceCPU then 50 else if r = ResourceRAM then 30 else if r = ResourceStorage then 5
     else if r = ResourceGPU then 200 else if r = ResourceNetwork then 10 else 0)"

definition item_for :: "string \<Rightarrow> rat \<Rightarrow> invoice_item" where
  "item_for r v = \<lparr>ii_Description = r @ '' usage'', ii_Quantity = v, ii_UnitPrice = unit_price r,
     ii_TotalCents = int_of_float (v * of_int (unit_price r))\<rparr>"

text \<open>\<open>ks\<close> is the order in which the loop meets the resources.\<close>

definition us_GenerateInvoice :: "time \<Rightarrow> string list \<Rightarrow> string \<Rightarrow> time \<Rightarrow> time \<Rightarrow> tracker \<Rightarrow> invoice" where
  "us_GenerateInvoice now ks u since until t =
     (let usage = su_Resources (us_GetUsage now u since t);
          (items, total) = foldl (\<lambda>(items, total) k. (case usage k of None \<Rightarrow> (items, total)
             | Some v \<Rightarrow> (items @ [item_for k v], wrap64 (total + ii_TotalCents (item_for k v))))) ([], 0) ks
      in \<lparr>iv_ID = ''inv_'' @ take 8 u @ CHR ''_'' # fmt_d (since div second), iv_UserID = u,
          iv_PeriodStart = since, iv_PeriodEnd = until, iv_Items = items, iv_TotalCents = total,
          iv_Paid = False, iv_CreatedAt = now\<rparr>)"

section \<open>Handlers\<close>

datatype us_body = UsError string | UsSummary usage_summary | UsQuota usage_quota | UsStatus string
  | UsInvoice invoice

text \<open>
  \<open>fmt.Sscanf\<close> with \<open>%d\<close>: white space except a newline, a sign, then as many digits as there are; what
  follows is not read. Without digits, or beyond 64 bits, there is an error.
\<close>

definition sscanf_d :: "string \<Rightarrow> int option" where
  "sscanf_d s =
     (let s = dropWhile (\<lambda>c. is_space c \<and> c \<noteq> CHR 0x0A) s;
          (neg, s) = (case s of [] \<Rightarrow> (False, [])
            | c # cs \<Rightarrow> if c = CHR ''-'' then (True, cs) else if c = CHR ''+'' then (False, cs) else (False, s));
          ds = takeWhile is_digit s; n = int (read_base 10 ds); v = (if neg then - n else n)
      in if ds = [] \<or> \<not> in64 v then None else Some v)"

definition usage_days :: "string \<Rightarrow> int" where
  "usage_days d = (if d = '''' then 7
     else case sscanf_d d of None \<Rightarrow> 7
       | Some n \<Rightarrow> if n < 1 then 1 else if 365 < n then 365 else n)"

definition us_HandleUsage :: "time \<Rightarrow> string \<Rightarrow> string \<Rightarrow> tracker \<Rightarrow> us_body answer" where
  "us_HandleUsage now userID d t =
     (if userID = '''' then Answer 400 (UsError ''userId required'')
      else Answer 200 (UsSummary (us_GetUsage now userID (now - usage_days d * 24 * 60 * minute) t)))"

definition us_HandleQuota ::
  "time \<Rightarrow> string \<Rightarrow> http_method \<Rightarrow> (string \<times> rat) option \<Rightarrow> tracker \<Rightarrow> us_body answer \<times> tracker" where
  "us_HandleQuota now userID meth body t =
     (if userID = '''' then (Answer 400 (UsError ''userId required''), t)
      else case meth of
        GET \<Rightarrow> (Answer 200 (UsQuota (us_GetQuota now userID t)), t)
      | PUT \<Rightarrow> (case body of
          None \<Rightarrow> (Answer 400 (UsError ''invalid json''), t)
        | Some (res, lmt) \<Rightarrow> (Answer 200 (UsStatus ''updated''), us_SetQuota userID res lmt t))
      | _ \<Rightarrow> (Answer 405 (UsError ''method not allowed''), t))"

definition us_HandleInvoice :: "time \<Rightarrow> string list \<Rightarrow> string \<Rightarrow> tracker \<Rightarrow> us_body answer" where
  "us_HandleInvoice now ks userID t =
     (if userID = '''' then Answer 400 (UsError ''userId required'')
      else Answer 200 (UsInvoice (us_GenerateInvoice now ks userID (now - thirty_days) now t)))"

section \<open>Sums\<close>

text \<open>What a list of records adds up to, for one resource, since a time.\<close>

definition used :: "string \<Rightarrow> time \<Rightarrow> usage_record list \<Rightarrow> rat" where
  "used res since rs = sum_list (map ur_Value (filter (\<lambda>r. since \<le> ur_StartedAt r \<and> ur_Resource r = res) rs))"

definition amounts_of :: "time \<Rightarrow> usage_record list \<Rightarrow> amounts" where
  "amounts_of since rs res =
     (if \<exists>r \<in> set rs. since \<le> ur_StartedAt r \<and> ur_Resource r = res then Some (used res since rs) else None)"

lemma used_snoc: "used res since (rs @ [r]) =
    used res since rs + (if since \<le> ur_StartedAt r \<and> ur_Resource r = res then ur_Value r else 0)"
  by (simp add: used_def)

lemma used_none: "\<not> (\<exists>r \<in> set rs. since \<le> ur_StartedAt r \<and> ur_Resource r = res) \<Longrightarrow> used res since rs = 0"
  by (simp add: used_def filter_empty_conv [THEN iffD2])

lemma amount_amounts_of [simp]: "amount (amounts_of since rs) res = used res since rs"
  by (simp add: amount_def amounts_of_def used_none)

lemma add_amount_snoc: "add_amount (ur_Resource r) (ur_Value r) (amounts_of since rs) =
    amounts_of since (rs @ [r])" if "since \<le> ur_StartedAt r"
  using that by (auto simp: fun_eq_iff add_amount_def amounts_of_def used_snoc amount_def used_none)

lemma amounts_of_skip: "ur_StartedAt r < since \<Longrightarrow> amounts_of since (rs @ [r]) = amounts_of since rs"
  by (auto simp: fun_eq_iff amounts_of_def used_snoc)

lemma amounts_of_Nil [simp]: "amounts_of since [] = Map.empty"
  by (simp add: amounts_of_def fun_eq_iff)

lemma calculateUsage_eq: "us_calculateUsage now u t = amounts_of (now - thirty_days) (us_records t u)"
proof -
  have "foldl (\<lambda>m r. if ur_StartedAt r < since then m else add_amount (ur_Resource r) (ur_Value r) m)
      Map.empty rs = amounts_of since rs" for since rs
    by (induction rs rule: rev_induct)
      (auto simp: add_amount_snoc amounts_of_skip)
  then show ?thesis by (simp add: us_calculateUsage_def Let_def)
qed

lemma GetUsage_Resources: "su_Resources (us_GetUsage now u since t) = amounts_of since (us_records t u)"
proof -
  have "su_Resources (foldl (\<lambda>s r. if ur_StartedAt r < since then s
        else s\<lparr>su_Resources := add_amount (ur_Resource r) (ur_Value r) (su_Resources s),
               su_SessionCount := su_SessionCount s + (if ur_Resource r = ResourceSessions then 1 else 0)\<rparr>)
      s rs) = amounts_of since rs" if "su_Resources s = Map.empty" for s rs
    using that
    by (induction rs rule: rev_induct)
      (auto simp: add_amount_snoc amounts_of_skip)
  note this [of "\<lparr>su_UserID = u, su_PeriodStart = since, su_PeriodEnd = now, su_Resources = Map.empty,
      su_SessionCount = 0, su_TotalUptimeHours = 0\<rparr>"]
  then show ?thesis unfolding us_GetUsage_def Let_def by simp
qed


section \<open>Runs\<close>

datatype us_call = CallTrack time string string rat | CallSetQuota time string string rat

fun us_step :: "tracker \<Rightarrow> us_call \<Rightarrow> tracker" where
  "us_step t (CallTrack now u res v) = us_Track now u res v t"
| "us_step t (CallSetQuota now u res l) = us_SetQuota u res l t"

fun call_time :: "us_call \<Rightarrow> time" where
  "call_time (CallTrack now u res v) = now"
| "call_time (CallSetQuota now u res l) = now"

fun sets_default :: "us_call \<Rightarrow> bool" where
  "sets_default (CallTrack now u res v) \<longleftrightarrow> False"
| "sets_default (CallSetQuota now u res l) \<longleftrightarrow> u = ''default''"

abbreviation us_run :: "us_call list \<Rightarrow> tracker" where
  "us_run cs \<equiv> foldl us_step us_NewTracker cs"

text \<open>What was ever tracked for a user, and the limit that was set last.\<close>

fun entries_for :: "string \<Rightarrow> us_call \<Rightarrow> usage_record list" where
  "entries_for u (CallTrack now u' res v) = (if u' = u then [usage_entry now u res v] else [])"
| "entries_for u (CallSetQuota now u' res l) = []"

definition us_history :: "us_call list \<Rightarrow> string \<Rightarrow> usage_record list" where
  "us_history cs u = concat (map (entries_for u) cs)"

fun limit_after :: "string \<Rightarrow> string \<Rightarrow> rat option \<Rightarrow> us_call \<Rightarrow> rat option" where
  "limit_after u res l (CallTrack now u' res' v) = l"
| "limit_after u res l (CallSetQuota now u' res' l') = (if u' = u \<and> res' = res then Some l' else l)"

definition last_limit :: "us_call list \<Rightarrow> string \<Rightarrow> string \<Rightarrow> rat option" where
  "last_limit cs u res = foldl (limit_after u res) (default_quotas res) cs"

text \<open>Pruning takes out only records that no window of thirty days reaches any more.\<close>

lemma us_records_new [simp]: "us_records us_NewTracker u = []"
  by (simp add: us_records_def us_NewTracker_def)

lemma us_records_quota [simp]: "us_records (us_SetQuota u' res l t) u = us_records t u"
  by (simp add: us_records_def us_SetQuota_def)

lemma us_records_Track: "us_records (us_Track now u' res v t) u =
    (if u = u' then (let rs = us_records t u @ [usage_entry now u res v] in
       if 512 < length rs then filter (\<lambda>r. now - thirty_days < ur_StartedAt r) rs else rs)
     else us_records t u)"
  by (simp add: us_records_def us_Track_def Let_def)

lemma thirty_days_pos [simp]: "0 < thirty_days"
  by (simp add: thirty_days_def minute_def second_def)

lemma usage_entry_sel [simp]: "ur_StartedAt (usage_entry now u res v) = now"
  "ur_Resource (usage_entry now u res v) = res" "ur_Value (usage_entry now u res v) = v"
  by (simp_all add: usage_entry_def)

lemma us_window_Track:
  assumes "now - thirty_days < b"
  shows "filter (\<lambda>r. b \<le> ur_StartedAt r) (us_records (us_Track now u' res v t) u) =
    filter (\<lambda>r. b \<le> ur_StartedAt r) (us_records t u @ (if u = u' then [usage_entry now u res v] else []))"
proof -
  have "filter (\<lambda>r. now - thirty_days < ur_StartedAt r \<and> b \<le> ur_StartedAt r) rs =
      filter (\<lambda>r. b \<le> ur_StartedAt r) rs" for rs :: "usage_record list"
    using assms by (intro filter_cong) auto
  then show ?thesis by (simp add: us_records_Track Let_def)
qed

lemma us_run_snoc: "us_run (cs @ [c]) = us_step (us_run cs) c"
  by simp

lemma us_kept:
  assumes "\<forall>c \<in> set cs. call_time c \<le> now" and "now - thirty_days < b"
  shows "filter (\<lambda>r. b \<le> ur_StartedAt r) (us_records (us_run cs) u) =
    filter (\<lambda>r. b \<le> ur_StartedAt r) (us_history cs u)"
  using assms(1)
proof (induction cs rule: rev_induct)
  case (snoc c cs)
  then have IH: "filter (\<lambda>r. b \<le> ur_StartedAt r) (us_records (us_run cs) u) =
      filter (\<lambda>r. b \<le> ur_StartedAt r) (us_history cs u)" by simp
  have "call_time c - thirty_days < b" using snoc.prems assms(2) by simp
  with IH show ?case
    by (cases c) (simp_all add: us_window_Track us_history_def)
qed (simp add: us_history_def)

lemma used_filter: "used res b rs = used res b (filter (\<lambda>r. b \<le> ur_StartedAt r) rs)"
  by (induction rs) (simp_all add: used_def)

lemma us_quotas_Track [simp]: "tr_quotas (us_Track now u res v t) = tr_quotas t"
  by (simp add: us_Track_def Let_def)

lemma us_limits_Track [simp]: "us_limits u' (us_Track now u res v t) = us_limits u' t"
  by (simp add: us_limits_def cong: option.case_cong)

lemma us_limits_run:
  assumes "\<forall>c \<in> set cs. \<not> sets_default c"
  shows "us_limits u (us_run cs) res = last_limit cs u res"
proof -
  have "tr_quotas (us_run cs) ''default'' = Some default_quotas \<and>
      (\<forall>u res. us_limits u (us_run cs) res = last_limit cs u res)"
    using assms
  proof (induction cs rule: rev_induct)
    case (snoc c cs)
    then have IH: "tr_quotas (us_run cs) ''default'' = Some default_quotas"
      "us_limits u (us_run cs) res = last_limit cs u res" for u res by auto
    show ?case
    proof (cases c)
      case (CallTrack now u res v)
      with IH show ?thesis by (simp add: last_limit_def)
    next
      case (CallSetQuota now u' res' l)
      with snoc.prems have "u' \<noteq> ''default''" by simp
      moreover have "us_limits u (us_SetQuota u' res' l (us_run cs)) =
          (if u = u' then (us_limits u' (us_run cs))(res' \<mapsto> l) else us_limits u (us_run cs))" for u
        using IH(1) \<open>u' \<noteq> ''default''\<close> by (simp add: us_SetQuota_def us_limits_def cong: option.case_cong)
      ultimately show ?thesis using CallSetQuota IH
        by (auto simp: last_limit_def us_SetQuota_def)
    qed
  qed (simp add: us_NewTracker_def us_limits_def last_limit_def split: option.split)
  then show ?thesis by simp
qed

text \<open>
  C30: The quota check is exact. Whatever was tracked and whatever limits were set, the check at a later
  time grants a request exactly when everything the user consumed of the resource within the last thirty
  days and the request stay within the limit set last, or the default limit, or there is no limit. The
  pruning of old records never changes the answer, and the remaining amounts shown to the user agree.
\<close>

theorem usage_quota_exact:
  assumes "\<forall>c \<in> set cs. call_time c < now" and "\<forall>c \<in> set cs. \<not> sets_default c"
  shows "(us_CheckQuota now u res x (us_run cs) \<longleftrightarrow>
           (case last_limit cs u res of None \<Rightarrow> True
            | Some l \<Rightarrow> used res (now - thirty_days) (us_history cs u) + x \<le> l)) \<and>
         qu_Remaining (us_GetQuota now u (us_run cs)) res =
           map_option (\<lambda>l. l - used res (now - thirty_days) (us_history cs u)) (last_limit cs u res)"
proof -
  have "\<forall>c \<in> set cs. call_time c \<le> now - 1" using assms(1) by force
  then have "used res (now - thirty_days) (us_records (us_run cs) u) = used res (now - thirty_days) (us_history cs u)"
    using us_kept [of cs "now - 1" "now - thirty_days" u]
      used_filter [of res "now - thirty_days" "us_records (us_run cs) u"]
      used_filter [of res "now - thirty_days" "us_history cs u"] by simp
  with us_limits_run [OF assms(2)] show ?thesis
    by (auto simp: us_CheckQuota_def us_GetQuota_def calculateUsage_eq Let_def split: option.split)
qed

definition ex_us_calls :: "us_call list" where
  "ex_us_calls = [CallSetQuota 5 ''u'' ''ram_gb'' 16, CallTrack 10 ''u'' ''ram_gb'' 12]"

lemma usage_quota_exact_witness:
  "us_CheckQuota 20 ''u'' ''ram_gb'' 4 (us_run ex_us_calls) \<and>
   \<not> us_CheckQuota 20 ''u'' ''ram_gb'' 5 (us_run ex_us_calls)"
proof -
  have "last_limit ex_us_calls ''u'' ''ram_gb'' = Some 16"
    by (simp add: last_limit_def ex_us_calls_def)
  moreover have "used ''ram_gb'' (20 - thirty_days) (us_history ex_us_calls ''u'') = 12"
    by (simp add: us_history_def ex_us_calls_def used_def usage_entry_def thirty_days_def minute_def second_def)
  moreover have "\<forall>c \<in> set ex_us_calls. call_time c < 20" "\<forall>c \<in> set ex_us_calls. \<not> sets_default c"
    by (simp_all add: ex_us_calls_def)
  ultimately show ?thesis
    using usage_quota_exact [of ex_us_calls 20 "''u''" "''ram_gb''" 4]
      usage_quota_exact [of ex_us_calls 20 "''u''" "''ram_gb''" 5] by simp
qed

section \<open>Long windows and invoices\<close>

text \<open>
  A query may reach back a year, but records are dropped after thirty days once there are more than 512:
  the answer is then less than what was consumed within the queried period.
\<close>

lemma replicate_snoc: "replicate (Suc n) x = replicate n x @ [x]"
  by (simp add: replicate_append_same)

lemma us_fill: "n \<le> 511 \<Longrightarrow> us_records (us_run (CallTrack 0 u res v # replicate n (CallTrack now u res v))) u =
    usage_entry 0 u res v # replicate n (usage_entry now u res v)"
proof (induction n)
  case (Suc n)
  then show ?case
    unfolding replicate_snoc [of n] append_Cons [symmetric] us_run_snoc
    by (simp add: us_records_Track Let_def del: replicate.simps foldl_Cons)
qed (simp add: us_records_Track)

lemma usage_year_loses:
  assumes "thirty_days \<le> now" and "v \<noteq> 0"
  shows "used res 0 (us_records (us_run (CallTrack 0 u res v # replicate 512 (CallTrack now u res v))) u) = 512 * v"
    and "used res 0 (us_history (CallTrack 0 u res v # replicate 512 (CallTrack now u res v)) u) = 513 * v"
proof -
  have now: "0 \<le> now" using assms(1) thirty_days_pos by linarith
  have split: "CallTrack 0 u res v # replicate 512 (CallTrack now u res v) =
      (CallTrack 0 u res v # replicate 511 (CallTrack now u res v)) @ [CallTrack now u res v]"
    using replicate_snoc [of 511 "CallTrack now u res v"] by (simp del: replicate.simps)
  have recs: "us_records (us_run (CallTrack 0 u res v # replicate 512 (CallTrack now u res v))) u =
      replicate 512 (usage_entry now u res v)"
    unfolding split us_run_snoc using us_fill [of 511 u res v now] assms(1) replicate_snoc [of 511 "usage_entry now u res v"]
    by (simp add: us_records_Track Let_def usage_entry_def del: replicate.simps foldl_Cons)
  show "used res 0 (us_records (us_run (CallTrack 0 u res v # replicate 512 (CallTrack now u res v))) u) = 512 * v"
    unfolding recs using now by (simp add: used_def filter_replicate sum_list_replicate)
  have "us_history (CallTrack 0 u res v # replicate 512 (CallTrack now u res v)) u =
      usage_entry 0 u res v # replicate 512 (usage_entry now u res v)"
    unfolding us_history_def by (simp add: map_replicate concat_replicate_single)
  then show "used res 0 (us_history (CallTrack 0 u res v # replicate 512 (CallTrack now u res v)) u) = 513 * v"
    using now by (simp add: used_def filter_replicate sum_list_replicate)
qed


lemma wrap64_add: "wrap64 (wrap64 a + b) = wrap64 (a + b)"
proof -
  have "((a + 2 ^ 63) mod 2 ^ 64 - 2 ^ 63 + b + 2 ^ 63) mod 2 ^ 64 = ((a + 2 ^ 63) mod 2 ^ 64 + b) mod 2 ^ 64"
    by (simp add: algebra_simps)
  also have "\<dots> = (a + 2 ^ 63 + b) mod 2 ^ 64" by (simp only: mod_add_left_eq)
  finally show ?thesis by (simp add: wrap64_def algebra_simps)
qed

lemma wrap64_0 [simp]: "wrap64 0 = 0"
  by (simp add: wrap64_def)

lemma invoice_fold:
  assumes "\<forall>k \<in> set ks. usage k = Some (f k)"
  shows "foldl (\<lambda>(items, total) k. (case usage k of None \<Rightarrow> (items, total)
      | Some v \<Rightarrow> (items @ [item_for k v], wrap64 (total + ii_TotalCents (item_for k v))))) ([], 0) ks =
    (map (\<lambda>k. item_for k (f k)) ks, wrap64 (sum_list (map (\<lambda>k. ii_TotalCents (item_for k (f k))) ks)))"
  using assms
  by (induction ks rule: rev_induct) (simp_all add: wrap64_add)

text \<open>
  An invoice has one item for each resource with a record in the period and no other, priced with the
  user's whole consumption in it, and its total is the sum of its items (as a 64-bit integer), whatever the
  order in which the resources are met. The end of the period plays no part: what was recorded after it
  is billed too.
\<close>

theorem invoice_exact:
  assumes "map_order (su_Resources (us_GetUsage now u since t)) ks"
  shows "iv_Items (us_GenerateInvoice now ks u since until t) =
      map (\<lambda>k. item_for k (used k since (us_records t u))) ks \<and>
    set ks = {ur_Resource r |r. r \<in> set (us_records t u) \<and> since \<le> ur_StartedAt r} \<and> distinct ks \<and>
    iv_TotalCents (us_GenerateInvoice now ks u since until t) =
      wrap64 (sum_list (map ii_TotalCents (iv_Items (us_GenerateInvoice now ks u since until t))))"
proof -
  have dom: "set ks = {ur_Resource r |r. r \<in> set (us_records t u) \<and> since \<le> ur_StartedAt r}"
    using map_order_set [OF assms] by (auto simp: GetUsage_Resources amounts_of_def split: if_splits)
  then have "\<forall>k \<in> set ks. amounts_of since (us_records t u) k = Some (used k since (us_records t u))"
    by (auto simp: amounts_of_def)
  note f = invoice_fold [OF this]
  show ?thesis
    using dom map_order_distinct [OF assms] f
    by (simp add: us_GenerateInvoice_def GetUsage_Resources Let_def comp_def)
qed

text \<open>The traffic of the hosts is recorded in bytes; each byte is billed like a gigabyte.\<close>

lemma invoice_charges_bytes:
  assumes "0 \<le> n" "in64 (10 * n)" "0 \<le> now"
  shows "iv_TotalCents (us_GenerateInvoice now [ResourceNetwork] u 0 now
    (us_Track now u ResourceNetwork (of_int n) us_NewTracker)) = 10 * n"
proof -
  define t where "t = us_Track now u ResourceNetwork (of_int n) us_NewTracker"
  have r: "us_records t u = [usage_entry now u ResourceNetwork (of_int n)]"
    by (simp add: t_def us_records_Track)
  have p: "unit_price ResourceNetwork = 10" by (simp add: unit_price_def resource_defs)
  have "map_order (su_Resources (us_GetUsage now u 0 t)) [ResourceNetwork]"
    using assms(3) by (auto simp: map_order_def GetUsage_Resources amounts_of_def r split: if_splits)
  from invoice_fold [of "[ResourceNetwork]" "amounts_of 0 (us_records t u)" "\<lambda>k. of_int n"]
  have "iv_TotalCents (us_GenerateInvoice now [ResourceNetwork] u 0 now t) =
      wrap64 (ii_TotalCents (item_for ResourceNetwork (of_int n)))"
    using assms(3) by (simp add: us_GenerateInvoice_def GetUsage_Resources amounts_of_def r used_def)
  also have "ii_TotalCents (item_for ResourceNetwork (of_int n)) = 10 * n"
    using int_of_float_of_int [OF assms(2)] by (simp add: item_for_def p mult.commute)
  finally show ?thesis using assms(2) by (simp add: t_def)
qed

definition ex_billed :: tracker where
  "ex_billed = us_Track 20 ''u'' ''ram_gb'' 2 (us_Track 10 ''u'' ''ram_gb'' 3 us_NewTracker)"

theorem invoice_exact_witness:
  "map ii_TotalCents (iv_Items (us_GenerateInvoice 30 [''ram_gb''] ''u'' 0 30 ex_billed)) = [150]"
proof -
  have r: "us_records ex_billed ''u'' = [usage_entry 10 ''u'' ''ram_gb'' 3, usage_entry 20 ''u'' ''ram_gb'' 2]"
    by (simp add: ex_billed_def us_records_Track)
  then have "map_order (su_Resources (us_GetUsage 30 ''u'' 0 ex_billed)) [''ram_gb'']"
    by (auto simp: map_order_def GetUsage_Resources amounts_of_def split: if_splits)
  from invoice_exact [OF this, where until = 30] show ?thesis
    using int_of_float_of_int [of 150]
    by (simp add: r item_for_def used_def unit_price_def resource_defs in64_def)
qed

text \<open>Whoever the handler's user is, a PUT sets that user's own limit to what the request asks for.\<close>

lemma quota_set_by_request:
  assumes "u \<noteq> ''''"
  shows "us_HandleQuota now u PUT (Some (res, l)) t = (Answer 200 (UsStatus ''updated''), us_SetQuota u res l t)"
    and "us_limits u (us_SetQuota u res l t) res = Some l"
  using assms by (simp_all add: us_HandleQuota_def us_SetQuota_def us_limits_def)

end
