(* ===== verification/Audio.thy ===== *)
theory Audio
  imports GoHttp
begin

text \<open>
  apps/gateway/internal/audio/audio.go: the audio sessions, the ring buffer in which each keeps the bytes not
  read yet, and the conversions between 16-bit samples and floating-point numbers. Bytes are numbers below
  256. The ring buffer refines a queue that keeps its newest bytes.
\<close>

section \<open>The ring buffer\<close>

record audio_buffer =
  ab_data :: "nat list"
  ab_writePos :: nat
  ab_readPos :: nat
  ab_size :: nat
  ab_ready :: bool

definition NewAudioBuffer :: "nat \<Rightarrow> audio_buffer" where
  "NewAudioBuffer n = \<lparr>ab_data = replicate n 0, ab_writePos = 0, ab_readPos = 0, ab_size = n, ab_ready = False\<rparr>"

text \<open>The built-in \<open>copy\<close> into a slice that starts at an index: how many were copied, and the array.\<close>

definition copy_at :: "nat \<Rightarrow> 'a list \<Rightarrow> 'a list \<Rightarrow> nat \<times> 'a list" where
  "copy_at i src dst = (let k = min (length src) (length dst - i) in (k, take i dst @ take k src @ drop (i + k) dst))"

definition availableLocked :: "audio_buffer \<Rightarrow> nat" where
  "availableLocked b =
     (if ab_readPos b \<le> ab_writePos b then ab_writePos b - ab_readPos b
      else ab_size b - ab_readPos b + ab_writePos b)"

definition ab_Write :: "nat list \<Rightarrow> audio_buffer \<Rightarrow> audio_buffer" where
  "ab_Write d b =
     (let n = length d
      in if ab_size b \<le> n then
           b\<lparr>ab_data := snd (copy_at 0 (drop (n - ab_size b) d) (ab_data b)), ab_writePos := 0,
             ab_readPos := (if 0 < ab_size b then 1 mod ab_size b else ab_readPos b), ab_ready := True\<rparr>
         else if n = 0 then b
         else
           let writable = ab_size b - availableLocked b;
               overtook = ab_ready b \<and> writable \<le> n;
               (firstLen, d1) = copy_at (ab_writePos b) d (ab_data b);
               d2 = (if firstLen < n then snd (copy_at 0 (drop firstLen d) d1) else d1);
               w = (ab_writePos b + n) mod ab_size b
           in b\<lparr>ab_data := d2, ab_writePos := w,
                ab_readPos := (if overtook then (w + 1) mod ab_size b else ab_readPos b), ab_ready := True\<rparr>)"

text \<open>What a call on the buffer answers; making a slice of a negative length panics.\<close>

datatype ab_result = AbOk | AbEOF | AbData "nat list" | AbCount nat | AbPanic

definition ab_Read :: "int \<Rightarrow> audio_buffer \<Rightarrow> ab_result \<times> audio_buffer" where
  "ab_Read n b =
     (if \<not> ab_ready b then (AbEOF, b)
      else if availableLocked b = 0 then (AbEOF, b)
      else
        let readSize = (if int (availableLocked b) < n then int (availableLocked b) else n)
        in if readSize < 0 then (AbPanic, b)
           else
             let k = nat readSize;
                 (firstLen, r1) = copy_at 0 (drop (ab_readPos b) (ab_data b)) (replicate k 0);
                 r2 = snd (copy_at firstLen (ab_data b) r1)
             in (AbData r2, b\<lparr>ab_readPos := (ab_readPos b + k) mod ab_size b\<rparr>))"

definition ab_Available :: "audio_buffer \<Rightarrow> nat" where
  "ab_Available b = availableLocked b"

definition ab_Clear :: "audio_buffer \<Rightarrow> audio_buffer" where
  "ab_Clear b = b\<lparr>ab_writePos := 0, ab_readPos := 0, ab_ready := False\<rparr>"

section \<open>Sessions\<close>

definition defaultSampleRate :: int where "defaultSampleRate = 48000"
definition defaultChannels :: int where "defaultChannels = 2"
definition defaultFrameSize :: int where "defaultFrameSize = 960"
definition maxBufferSize :: nat where "maxBufferSize = 1024 * 1024"
definition opusDefaultBitrate :: int where "opusDefaultBitrate = 64000"

record audio_config =
  ac_SampleRate :: int
  ac_Channels :: int
  ac_FrameSize :: int
  ac_Codec :: string
  ac_Bitrate :: int
  ac_Latency :: duration
  ac_EnableAEC :: bool
  ac_EnableNS :: bool
  ac_EnableAGC :: bool

record audio_session =
  as_SessionID :: string
  as_Active :: bool
  as_Config :: audio_config
  as_Buffer :: audio_buffer
  as_CreatedAt :: time
  as_UpdatedAt :: time
  as_BytesSent :: nat
  as_PacketsSent :: nat
  as_LastPacketSent :: "time option"

record audio_frame =
  af_Data :: "nat list"
  af_Timestamp :: time
  af_SampleRate :: int
  af_Channels :: int

type_synonym audio_streamer = "string \<rightharpoonup> audio_session"

definition NewAudioStreamer :: audio_streamer where
  "NewAudioStreamer = Map.empty"

definition audio_defaults :: "audio_config \<Rightarrow> audio_config" where
  "audio_defaults c =
     (let or = (\<lambda>x d. if x = 0 then d else x)
      in c\<lparr>ac_SampleRate := or (ac_SampleRate c) defaultSampleRate, ac_Channels := or (ac_Channels c) defaultChannels,
           ac_FrameSize := or (ac_FrameSize c) defaultFrameSize,
           ac_Codec := (if ac_Codec c = '''' then ''opus'' else ac_Codec c),
           ac_Bitrate := or (ac_Bitrate c) opusDefaultBitrate, ac_Latency := or (ac_Latency c) 20000000\<rparr>)"

definition ad_CreateSession :: "time \<Rightarrow> string \<Rightarrow> audio_config \<Rightarrow> audio_streamer \<Rightarrow> audio_session \<times> audio_streamer" where
  "ad_CreateSession now sid config s =
     (let session = \<lparr>as_SessionID = sid, as_Active = True, as_Config = audio_defaults config,
        as_Buffer = NewAudioBuffer maxBufferSize, as_CreatedAt = now, as_UpdatedAt = now, as_BytesSent = 0,
        as_PacketsSent = 0, as_LastPacketSent = None\<rparr>
      in (session, s(sid \<mapsto> session)))"

definition ad_GetSession :: "string \<Rightarrow> audio_streamer \<Rightarrow> string + audio_session" where
  "ad_GetSession sid s = (case s sid of None \<Rightarrow> Inl ''audio session not found'' | Some se \<Rightarrow> Inr se)"

definition ad_EndSession :: "string \<Rightarrow> audio_streamer \<Rightarrow> string option \<times> audio_streamer" where
  "ad_EndSession sid s = (if s sid \<noteq> None then (None, s(sid := None)) else (Some ''audio session not found'', s))"

definition ad_WriteFrame :: "time \<Rightarrow> string \<Rightarrow> nat list \<Rightarrow> audio_streamer \<Rightarrow> string option \<times> audio_streamer" where
  "ad_WriteFrame now sid d s = (case ad_GetSession sid s of
     Inl e \<Rightarrow> (Some e, s)
   | Inr se \<Rightarrow>
       if \<not> as_Active se then (Some ''session is not active'', s)
       else (None, s(sid \<mapsto> se\<lparr>as_Buffer := ab_Write d (as_Buffer se),
              as_BytesSent := (as_BytesSent se + length d) mod 2 ^ 64,
              as_PacketsSent := (as_PacketsSent se + 1) mod 2 ^ 64,
              as_LastPacketSent := Some now, as_UpdatedAt := now\<rparr>)))"

text \<open>\<open>None\<close> is the panic of a read of a negative length.\<close>

definition ad_ReadFrame ::
  "time \<Rightarrow> string \<Rightarrow> audio_streamer \<Rightarrow> ((string + audio_frame) \<times> audio_streamer) option" where
  "ad_ReadFrame now sid s = (case ad_GetSession sid s of
     Inl e \<Rightarrow> Some (Inl e, s)
   | Inr se \<Rightarrow>
       if \<not> as_Active se then Some (Inl ''session is not active'', s)
       else
         let c = as_Config se
         in case ab_Read (wrap64 (wrap64 (ac_FrameSize c * ac_Channels c) * 2)) (as_Buffer se) of
              (AbData d, b) \<Rightarrow>
                Some (Inr \<lparr>af_Data = d, af_Timestamp = now, af_SampleRate = ac_SampleRate c, af_Channels = ac_Channels c\<rparr>,
                      s(sid \<mapsto> se\<lparr>as_Buffer := b\<rparr>))
            | (AbPanic, b) \<Rightarrow> None
            | (_, b) \<Rightarrow> Some (Inl ''EOF'', s))"

text \<open>The three filters are switches without an effect.\<close>

definition ad_ProcessAudioData :: "string \<Rightarrow> nat list \<Rightarrow> audio_streamer \<Rightarrow> string + nat list" where
  "ad_ProcessAudioData sid d s = (case ad_GetSession sid s of Inl e \<Rightarrow> Inl e | Inr se \<Rightarrow> Inr d)"

record audio_stats =
  at_bytesSent :: nat
  at_packetsSent :: nat
  at_lastPacketSent :: "time option"
  at_bufferSize :: nat
  at_bufferAvailable :: nat
  at_active :: bool

definition ad_GetStats :: "string \<Rightarrow> audio_streamer \<Rightarrow> string + audio_stats" where
  "ad_GetStats sid s = (case ad_GetSession sid s of
     Inl e \<Rightarrow> Inl e
   | Inr se \<Rightarrow> Inr \<lparr>at_bytesSent = as_BytesSent se, at_packetsSent = as_PacketsSent se,
       at_lastPacketSent = as_LastPacketSent se, at_bufferSize = ab_size (as_Buffer se),
       at_bufferAvailable = ab_Available (as_Buffer se), at_active = as_Active se\<rparr>)"

section \<open>Samples\<close>

definition int16 :: "int \<Rightarrow> int" where
  "int16 x = (x + 2 ^ 15) mod 2 ^ 16 - 2 ^ 15"

fun EncodePCM16Float :: "nat list \<Rightarrow> rat list" where
  "EncodePCM16Float (lo # hi # d) = of_int (int16 (int (lo + 256 * hi))) / 32768 # EncodePCM16Float d"
| "EncodePCM16Float d = []"

definition sample_bytes :: "int \<Rightarrow> nat list" where
  "sample_bytes x = (let u = nat (x mod 2 ^ 16) in [u mod 256, u div 256])"

definition clamp_sample :: "rat \<Rightarrow> rat" where
  "clamp_sample x = (if 1 < x then 1 else if x < - 1 then - 1 else x)"

definition DecodePCM16Float :: "rat list \<Rightarrow> nat list" where
  "DecodePCM16Float samples = concat (map (\<lambda>x. sample_bytes (int16 (trunc (clamp_sample x * 32767)))) samples)"

definition DetectSilence :: "nat list \<Rightarrow> int \<Rightarrow> bool" where
  "DetectSilence d threshold \<longleftrightarrow>
     \<not> list_ex (\<lambda>x. trunc (x * 32768) > threshold \<or> trunc (x * 32768) < - threshold) (EncodePCM16Float d)"


section \<open>The ring buffer refines a queue\<close>

definition ab_inv :: "audio_buffer \<Rightarrow> bool" where
  "ab_inv b \<longleftrightarrow> length (ab_data b) = ab_size b \<and> ab_writePos b < ab_size b \<and> ab_readPos b < ab_size b \<and>
     (\<not> ab_ready b \<longrightarrow> ab_writePos b = ab_readPos b)"

text \<open>The array as seen from a position, and what has not been read.\<close>

abbreviation seen :: "nat \<Rightarrow> audio_buffer \<Rightarrow> nat list" where
  "seen i b \<equiv> drop i (ab_data b) @ take i (ab_data b)"

definition ab_abs :: "audio_buffer \<Rightarrow> nat list" where
  "ab_abs b = take (availableLocked b) (seen (ab_readPos b) b)"

lemma available_less: "ab_inv b \<Longrightarrow> availableLocked b < ab_size b"
  by (auto simp: ab_inv_def availableLocked_def)

lemma length_ab_abs: "ab_inv b \<Longrightarrow> length (ab_abs b) = availableLocked b"
  using available_less [of b] by (auto simp: ab_abs_def ab_inv_def)

text \<open>What has not been read ends where the next byte is written.\<close>

lemma seen_from_write:
  assumes "ab_inv b"
  shows "seen (ab_writePos b) b =
    drop (availableLocked b) (seen (ab_readPos b) b) @ take (availableLocked b) (seen (ab_readPos b) b)"
proof (cases "ab_readPos b \<le> ab_writePos b")
  case True
  let ?r = "ab_readPos b" and ?w = "ab_writePos b" and ?d = "ab_data b"
  have "take ?w ?d = take ?r ?d @ take (?w - ?r) (drop ?r ?d)"
    using True by (metis add_diff_inverse_nat not_less take_add)
  with True assms show ?thesis by (simp add: availableLocked_def ab_inv_def)
next
  case False
  let ?r = "ab_readPos b" and ?w = "ab_writePos b" and ?d = "ab_data b"
  have "drop ?w ?d = take (?r - ?w) (drop ?w ?d) @ drop ?r ?d"
    using False by (metis append_take_drop_id drop_drop le_add_diff_inverse2 nat_le_linear not_le)
  moreover have "take (?r - ?w) (drop ?w ?d) = drop ?w (take ?r ?d)" by (simp add: drop_take)
  ultimately show ?thesis using False assms by (simp add: availableLocked_def ab_inv_def min_def)
qed

text \<open>The bytes written, as seen from where the writing began.\<close>

definition ring_written :: "nat list \<Rightarrow> audio_buffer \<Rightarrow> nat list" where
  "ring_written d b =
     (let (firstLen, d1) = copy_at (ab_writePos b) d (ab_data b)
      in if firstLen < length d then snd (copy_at 0 (drop firstLen d) d1) else d1)"

lemma ring_written:
  assumes "ab_inv b" "length d < ab_size b"
  shows "length (ring_written d b) = ab_size b"
    and "drop (ab_writePos b) (ring_written d b) @ take (ab_writePos b) (ring_written d b) =
      d @ drop (length d) (seen (ab_writePos b) b)"
proof -
  let ?w = "ab_writePos b" and ?x = "ab_data b"
  have w: "?w < length ?x" "length ?x = ab_size b" using assms(1) by (simp_all add: ab_inv_def)
  have "length (ring_written d b) = ab_size b \<and>
    drop ?w (ring_written d b) @ take ?w (ring_written d b) = d @ drop (length d) (seen ?w b)"
  proof (cases "length d \<le> length ?x - ?w")
    case True
    then have "ring_written d b = take ?w ?x @ d @ drop (?w + length d) ?x"
      by (simp add: ring_written_def copy_at_def Let_def)
    with True w show ?thesis by (simp add: add.commute)
  next
    case False
    define k where "k = length ?x - ?w"
    have k: "k < length d" "length d - k \<le> ?w" using False w assms(2) by (auto simp: k_def)
    have m: "min (length d) (length ?x - ?w) = k" using k(1) by (simp add: k_def)
    have full: "?w + k = length ?x" using w(1) by (simp add: k_def)
    have "copy_at ?w d ?x = (k, take ?w ?x @ take k d)"
      unfolding copy_at_def Let_def m full by simp
    moreover have "snd (copy_at 0 (drop k d) (take ?w ?x @ take k d)) = drop k d @ drop (length d - k) (take ?w ?x @ take k d)"
    proof -
      have "min (length (drop k d)) (length (take ?w ?x @ take k d) - 0) = length d - k"
        using k w(1) assms(2) full by simp
      then show ?thesis by (simp add: copy_at_def Let_def)
    qed
    ultimately have "ring_written d b = drop k d @ drop (length d - k) (take ?w ?x @ take k d)"
      using k(1) by (simp add: ring_written_def)
    then have e: "ring_written d b = drop k d @ drop (length d - k) (take ?w ?x) @ take k d"
      using k w by simp
    have "length (drop k d @ drop (length d - k) (take ?w ?x)) = ?w" using k w by simp
    then have "drop ?w (ring_written d b) = take k d"
      "take ?w (ring_written d b) = drop k d @ drop (length d - k) (take ?w ?x)"
      unfolding e append_assoc [symmetric] by simp_all
    moreover have "length (ring_written d b) = length ?x" using k w full by (simp add: e)
    moreover have "drop (length d) (drop ?w ?x @ take ?w ?x) = drop (length d - k) (take ?w ?x)"
      using k(1) by (simp add: k_def)
    ultimately show ?thesis using w by simp
  qed
  then show "length (ring_written d b) = ab_size b"
    "drop ?w (ring_written d b) @ take ?w (ring_written d b) = d @ drop (length d) (seen ?w b)" by blast+
qed


lemma seen_rotate: "i < length x \<Longrightarrow> drop i x @ take i x = rotate i x"
  by (simp add: rotate_drop_take)

lemma rotate_mod_add: "length x = n \<Longrightarrow> rotate ((i + j) mod n) x = rotate j (rotate i x)"
  by (metis add.commute rotate_conv_mod rotate_rotate)

lemma available_unique:
  assumes "ab_readPos b < ab_size b" "a < ab_size b" "ab_writePos b = (ab_readPos b + a) mod ab_size b"
  shows "availableLocked b = a"
proof (cases "ab_readPos b + a < ab_size b")
  case True
  with assms show ?thesis by (simp add: availableLocked_def)
next
  case False
  moreover have "ab_readPos b + a - ab_size b < ab_size b" using assms(1,2) by linarith
  ultimately have "ab_writePos b + ab_size b = ab_readPos b + a" using assms(3) by (simp add: mod_if)
  with assms(1,2) show ?thesis by (auto simp: availableLocked_def)
qed

lemma write_from_read: "ab_inv b \<Longrightarrow> ab_writePos b = (ab_readPos b + availableLocked b) mod ab_size b"
  by (auto simp: ab_inv_def availableLocked_def mod_if)

lemma ab_Write_short:
  "length d < ab_size b \<Longrightarrow> d \<noteq> [] \<Longrightarrow> ab_Write d b =
    b\<lparr>ab_data := ring_written d b, ab_writePos := (ab_writePos b + length d) mod ab_size b,
      ab_readPos := (if ab_ready b \<and> ab_size b - availableLocked b \<le> length d
        then (ab_writePos b + (length d + 1)) mod ab_size b else ab_readPos b), ab_ready := True\<rparr>"
  by (auto simp: ab_Write_def ring_written_def Let_def split_beta mod_Suc_eq)

text \<open>A write that fits, and one that runs over what has not been read.\<close>

lemma write_fits:
  assumes inv: "ab_inv b" and d: "availableLocked b + length d < ab_size b" "d \<noteq> []"
  shows "ab_inv (ab_Write d b) \<and> ab_abs (ab_Write d b) = ab_abs b @ d"
proof -
  let ?N = "ab_size b" and ?r = "ab_readPos b" and ?w = "ab_writePos b" and ?a = "availableLocked b" and ?n = "length d"
  define y where "y = ring_written d b"
  have N: "length (ab_data b) = ?N" "?r < ?N" "?w < ?N" using inv by (simp_all add: ab_inv_def)
  have short: "?n < ?N" using d(1) by simp
  have eq: "ab_Write d b = b\<lparr>ab_data := y, ab_writePos := (?w + ?n) mod ?N, ab_readPos := ?r, ab_ready := True\<rparr>"
  proof -
    have "\<not> ?N - ?a \<le> ?n" using d(1) by linarith
    then show ?thesis using ab_Write_short [OF short d(2)] by (simp add: y_def)
  qed
  have y: "length y = ?N" "drop ?w y @ take ?w y = d @ drop ?n (seen ?w b)"
    using ring_written [OF inv short] by (simp_all add: y_def)
  have "(?w + ?n) mod ?N = (?r + (?a + ?n)) mod ?N"
    using write_from_read [OF inv] by (simp add: mod_add_left_eq add.assoc)
  then have av: "availableLocked (ab_Write d b) = ?a + ?n"
    using N d(1) by (intro available_unique) (simp_all add: eq)
  define R where "R = rotate ?r (ab_data b)"
  define R' where "R' = rotate ?r y"
  have len: "length R = ?N" "length R' = ?N" using N y by (simp_all add: R_def R'_def)
  have "rotate ?w y = rotate ?a R'"
    unfolding R'_def using write_from_read [OF inv] rotate_mod_add [OF y(1), of ?r ?a] by simp
  also have "\<dots> = drop ?a R' @ take ?a R'" using len d(1) by (simp add: rotate_drop_take)
  finally have "drop ?a R' @ take ?a R' = d @ drop ?n (drop ?a R @ take ?a R)"
    using y seen_from_write [OF inv] N by (simp add: seen_rotate R_def)
  also have "\<dots> = (d @ drop (?a + ?n) R) @ take ?a R" using len d(1) by (simp add: add.commute)
  finally have "drop ?a R' = d @ drop (?a + ?n) R \<and> take ?a R' = take ?a R"
    by (subst (asm) append_eq_append_conv) (use len d(1) in auto)
  then have "take (?a + ?n) R' = take ?a R @ d" by (simp add: take_add)
  then have "ab_abs (ab_Write d b) = ab_abs b @ d"
    using N y unfolding ab_abs_def av by (simp add: eq seen_rotate R_def R'_def)
  moreover have "ab_inv (ab_Write d b)" using N y by (simp add: eq ab_inv_def)
  ultimately show ?thesis by blast
qed

lemma write_overtakes:
  assumes inv: "ab_inv b" and d: "ab_size b \<le> availableLocked b + length d" "length d < ab_size b"
  shows "ab_inv (ab_Write d b) \<and> ab_abs (ab_Write d b) = keep_last (ab_size b - 1) (ab_abs b @ d)"
proof -
  let ?N = "ab_size b" and ?w = "ab_writePos b" and ?a = "availableLocked b" and ?n = "length d"
  define y where "y = ring_written d b"
  have N: "length (ab_data b) = ?N" "ab_readPos b < ?N" "?w < ?N" using inv by (simp_all add: ab_inv_def)
  have a: "?a < ?N" using available_less [OF inv] .
  then have ne: "d \<noteq> []" using d(1) by auto
  have "ab_ready b" using inv d(1) ne d(2) by (auto simp: ab_inv_def availableLocked_def)
  then have eq: "ab_Write d b = b\<lparr>ab_data := y, ab_writePos := (?w + ?n) mod ?N,
      ab_readPos := (?w + (?n + 1)) mod ?N, ab_ready := True\<rparr>"
    using ab_Write_short [OF d(2) ne] d(1) by (simp add: y_def)
  have y: "length y = ?N" "drop ?w y @ take ?w y = d @ drop ?n (seen ?w b)"
    using ring_written [OF inv d(2)] by (simp_all add: y_def)
  have "(?w + ?n) mod ?N = ((?w + (?n + 1)) mod ?N + (?N - 1)) mod ?N"
  proof -
    have "?w + (?n + 1) + (?N - 1) = ?w + ?n + ?N" using N by linarith
    then show ?thesis unfolding mod_add_left_eq by simp
  qed
  then have av: "availableLocked (ab_Write d b) = ?N - 1"
    using N by (intro available_unique) (simp_all add: eq)
  define R where "R = seen (ab_readPos b) b"
  define V where "V = seen ?w b"
  have V: "V = drop ?a R @ take ?a R" "length V = ?N" "length R = ?N"
    using seen_from_write [OF inv] N by (simp_all add: V_def R_def)
  have "rotate ?w y = d @ drop ?n V" unfolding V_def using y seen_rotate [of ?w y] N by simp
  moreover have "drop ?n V = [V ! ?n] @ drop (?n + 1) V" using V(2) d(2) by (simp add: Cons_nth_drop_Suc)
  ultimately have "rotate (?n + 1) (rotate ?w y) = rotate (?n + 1) ((d @ [V ! ?n]) @ drop (?n + 1) V)"
    by (simp only: append_assoc)
  also have "\<dots> = drop (?n + 1) V @ d @ [V ! ?n]"
    using rotate_append [of "d @ [V ! ?n]" "drop (?n + 1) V"] by simp
  finally have "seen (ab_readPos (ab_Write d b)) (ab_Write d b) = drop (?n + 1) V @ d @ [V ! ?n]"
    using N y rotate_mod_add [OF y(1), of ?w "?n + 1"] by (simp add: eq seen_rotate)
  then have "ab_abs (ab_Write d b) = drop (?n + 1) V @ d"
    using V d(2) unfolding ab_abs_def av by simp
  also have "drop (?n + 1) V = drop (?n + 1 - (?N - ?a)) (take ?a R)" using V d by simp
  also have "\<dots> @ d = keep_last (?N - 1) (ab_abs b @ d)"
  proof -
    have "?a + ?n - (?N - 1) = ?n + 1 - (?N - ?a)" "?n + 1 - (?N - ?a) \<le> ?a" using a d by auto
    moreover have "ab_abs b = take ?a R" by (simp only: ab_abs_def R_def)
    moreover have "length (take ?a R) = ?a" using V(3) a by simp
    ultimately show ?thesis by (simp only: keep_last_def length_append drop_append) simp
  qed
  finally have "ab_abs (ab_Write d b) = keep_last (?N - 1) (ab_abs b @ d)" .
  moreover have "ab_inv (ab_Write d b)" using N y by (simp add: eq ab_inv_def)
  ultimately show ?thesis by blast
qed


lemma write_full:
  assumes inv: "ab_inv b" and d: "ab_size b \<le> length d"
  shows "ab_inv (ab_Write d b) \<and> ab_abs (ab_Write d b) = keep_last (ab_size b - 1) (ab_abs b @ d)"
proof -
  let ?N = "ab_size b" and ?n = "length d"
  define e where "e = drop (?n - ?N) d"
  have N: "0 < ?N" "length (ab_data b) = ?N" using inv by (auto simp: ab_inv_def)
  have e: "length e = ?N" using d by (simp add: e_def)
  have "snd (copy_at 0 e (ab_data b)) = e" using e N by (simp add: copy_at_def Let_def)
  then have eq: "ab_Write d b = b\<lparr>ab_data := e, ab_writePos := 0, ab_readPos := 1 mod ?N, ab_ready := True\<rparr>"
    using d N by (simp add: ab_Write_def e_def)
  have "keep_last (?N - 1) (ab_abs b @ d) = drop 1 e"
  proof -
    have "length (ab_abs b) + ?n - (?N - 1) = length (ab_abs b) + (1 + (?n - ?N))" using d N by linarith
    moreover have "1 + (?n - ?N) = ?n - ?N + 1" by simp
    ultimately show ?thesis by (simp add: keep_last_def e_def Suc_diff_le [OF d])
  qed
  moreover have "ab_abs (ab_Write d b) = drop 1 e"
    using N e by (cases "?N = 1") (simp_all add: ab_abs_def availableLocked_def eq)
  moreover have "ab_inv (ab_Write d b)" using N e by (simp add: eq ab_inv_def)
  ultimately show ?thesis by simp
qed

lemma ab_Write_ok:
  assumes inv: "ab_inv b"
  shows "ab_inv (ab_Write d b) \<and> ab_abs (ab_Write d b) = keep_last (ab_size b - 1) (ab_abs b @ d) \<and>
    ab_size (ab_Write d b) = ab_size b"
proof -
  have size: "ab_size (ab_Write d b) = ab_size b" by (simp add: ab_Write_def Let_def split_beta)
  have len: "length (ab_abs b) = availableLocked b" "availableLocked b < ab_size b"
    using length_ab_abs [OF inv] available_less [OF inv] by simp_all
  consider "d = []" | "d \<noteq> []" "availableLocked b + length d < ab_size b" | "ab_size b \<le> length d"
    | "length d < ab_size b" "ab_size b \<le> availableLocked b + length d" by linarith
  then show ?thesis
  proof cases
    case 1
    with inv len show ?thesis by (simp add: ab_Write_def keep_last_short)
  next
    case 2
    with write_fits [OF inv 2(2,1)] len size show ?thesis by (simp add: keep_last_short)
  next
    case 3
    with write_full [OF inv 3] size show ?thesis by simp
  next
    case 4
    with write_overtakes [OF inv 4(2,1)] size show ?thesis by simp
  qed
qed

lemma read_bytes:
  assumes "r < length x" "k \<le> length x"
  shows "(let (f, r1) = copy_at 0 (drop r x) (replicate k 0) in snd (copy_at f x r1)) =
    take k (drop r x @ take r x)"
proof (cases "k \<le> length x - r")
  case True
  then show ?thesis by (simp add: copy_at_def Let_def min_def)
next
  case False
  then have "min (length x - r) k = length x - r" "min (length x) (k - (length x - r)) = k - (length x - r)"
    "min (k - (length x - r)) r = k - (length x - r)" using assms by auto
  with assms show ?thesis by (simp add: copy_at_def Let_def)
qed

lemma take_seen_on: "k \<le> a \<Longrightarrow> a \<le> length xs \<Longrightarrow> take (a - k) (drop k xs @ take k xs) = drop k (take a xs)"
  by (simp add: drop_take)

lemma ab_Read_some:
  assumes inv: "ab_inv b" and "ab_abs b \<noteq> []" "0 \<le> n"
  defines "k \<equiv> min (availableLocked b) (nat n)"
  shows "ab_Read n b = (AbData (take k (ab_abs b)), b\<lparr>ab_readPos := (ab_readPos b + k) mod ab_size b\<rparr>) \<and>
    ab_inv (b\<lparr>ab_readPos := (ab_readPos b + k) mod ab_size b\<rparr>) \<and>
    ab_abs (b\<lparr>ab_readPos := (ab_readPos b + k) mod ab_size b\<rparr>) = drop k (ab_abs b)"
proof -
  let ?N = "ab_size b" and ?r = "ab_readPos b" and ?a = "availableLocked b"
  let ?b = "b\<lparr>ab_readPos := (?r + k) mod ?N\<rparr>"
  have N: "length (ab_data b) = ?N" "?r < ?N" "ab_writePos b < ?N" using inv by (simp_all add: ab_inv_def)
  have a: "?a < ?N" "0 < ?a"
    using available_less [OF inv] length_ab_abs [OF inv] assms(2) by (simp_all flip: length_greater_0_conv)
  have k: "k \<le> ?a" by (simp add: k_def)
  have ready: "ab_ready b" using inv a by (auto simp: ab_inv_def availableLocked_def)
  have size: "(if int ?a < n then int ?a else n) = int k" using assms(3) by (auto simp: k_def)
  have "(let (f, r1) = copy_at 0 (drop ?r (ab_data b)) (replicate k 0) in snd (copy_at f (ab_data b) r1)) =
      take k (ab_abs b)"
  proof -
    have "take k (ab_abs b) = take k (seen ?r b)" using k unfolding ab_abs_def by (simp add: min_def)
    then show ?thesis using read_bytes [of ?r "ab_data b" k] N a k by simp
  qed
  then have "ab_Read n b = (AbData (take k (ab_abs b)), ?b)"
    using ready a(2) unfolding ab_Read_def size by (simp add: Let_def split_beta)
  moreover have inv': "ab_inv ?b" using N ready by (simp add: ab_inv_def)
  moreover have "ab_abs ?b = drop k (ab_abs b)"
  proof -
    have "((?r + k) mod ?N + (?a - k)) mod ?N = (?r + ?a) mod ?N"
      unfolding mod_add_left_eq using k by simp
    then have "availableLocked ?b = ?a - k"
      using N a write_from_read [OF inv] by (intro available_unique) simp_all
    moreover have "seen (ab_readPos ?b) ?b = rotate k (seen ?r b)"
      using N rotate_mod_add [OF N(1), of ?r k] by (simp add: seen_rotate)
    moreover have "rotate k (seen ?r b) = drop k (seen ?r b) @ take k (seen ?r b)"
      using N a k by (simp add: rotate_drop_take)
    moreover have "take (?a - k) (drop k (seen ?r b) @ take k (seen ?r b)) = drop k (take ?a (seen ?r b))"
      using N a k by (intro take_seen_on) simp_all
    ultimately show ?thesis unfolding ab_abs_def by metis
  qed
  ultimately show ?thesis by blast
qed

datatype ab_call = AbWrite "nat list" | AbRead int | AbAvailable | AbClear

fun ab_exec :: "audio_buffer \<Rightarrow> ab_call \<Rightarrow> ab_result \<times> audio_buffer" where
  "ab_exec b (AbWrite d) = (AbOk, ab_Write d b)"
| "ab_exec b (AbRead n) = ab_Read n b"
| "ab_exec b AbAvailable = (AbCount (ab_Available b), b)"
| "ab_exec b AbClear = (AbOk, ab_Clear b)"

text \<open>The specification: a queue of bytes that keeps its newest ones. Its state carries the capacity.\<close>

fun byte_queue :: "nat \<times> nat list \<Rightarrow> ab_call \<Rightarrow> ab_result \<times> nat \<times> nat list" where
  "byte_queue (c, q) (AbWrite d) = (AbOk, c, keep_last c (q @ d))"
| "byte_queue (c, q) (AbRead n) =
     (if q = [] then (AbEOF, c, q) else if n < 0 then (AbPanic, c, q) else (AbData (take (nat n) q), c, drop (nat n) q))"
| "byte_queue (c, q) AbAvailable = (AbCount (length q), c, q)"
| "byte_queue (c, q) AbClear = (AbOk, c, [])"

definition ring_abs :: "audio_buffer \<Rightarrow> nat \<times> nat list" where
  "ring_abs b = (ab_size b - 1, ab_abs b)"

lemma ab_step_ok: "ab_inv b \<Longrightarrow> ab_exec b c = (r, b') \<Longrightarrow> ab_inv b' \<and> byte_queue (ring_abs b) c = (r, ring_abs b')"
proof (cases c)
  case (AbWrite d)
  assume "ab_inv b" "ab_exec b c = (r, b')"
  with ab_Write_ok [of b d] AbWrite show ?thesis by (auto simp: ring_abs_def)
next
  case (AbRead n)
  assume inv: "ab_inv b" and e: "ab_exec b c = (r, b')"
  have len: "length (ab_abs b) = availableLocked b" using length_ab_abs [OF inv] .
  consider "ab_abs b = []" | "ab_abs b \<noteq> []" "n < 0" | "ab_abs b \<noteq> []" "0 \<le> n" by linarith
  then show ?thesis
  proof cases
    case 1
    with len have "availableLocked b = 0" by simp
    with 1 inv e AbRead show ?thesis by (auto simp: ab_Read_def ring_abs_def split: if_splits)
  next
    case 2
    with len have "availableLocked b \<noteq> 0" by (simp flip: length_greater_0_conv)
    moreover from this inv have "ab_ready b" by (auto simp: ab_inv_def availableLocked_def)
    ultimately show ?thesis using 2 inv e AbRead by (auto simp: ab_Read_def ring_abs_def)
  next
    case 3
    have "take (min (length (ab_abs b)) (nat n)) (ab_abs b) = take (nat n) (ab_abs b)"
      "drop (min (length (ab_abs b)) (nat n)) (ab_abs b) = drop (nat n) (ab_abs b)"
      by (simp_all add: min_def)
    with ab_Read_some [OF inv 3] e AbRead 3 show ?thesis by (auto simp: ring_abs_def len)
  qed
next
  case AbAvailable
  assume "ab_inv b" "ab_exec b c = (r, b')"
  with AbAvailable length_ab_abs [of b] show ?thesis by (auto simp: ring_abs_def ab_Available_def)
next
  case AbClear
  assume "ab_inv b" "ab_exec b c = (r, b')"
  with AbClear show ?thesis by (auto simp: ring_abs_def ab_Clear_def ab_inv_def ab_abs_def availableLocked_def)
qed

interpretation ring: simulation "\<lambda>b c r b'. ab_exec b c = (r, b')" ab_inv ring_abs byte_queue
  by unfold_locales (use ab_step_ok in blast)+

lemma ab_inv_new: "0 < n \<Longrightarrow> ab_inv (NewAudioBuffer n)"
  by (simp add: ab_inv_def NewAudioBuffer_def)

text \<open>
  C29: The ring buffer is a queue. Every sequence of writes, reads, queries and resets on a new buffer answers
  exactly what a queue answers that keeps its newest bytes, one fewer than the size of the array: bytes
  come out in the order they went in, and a write that runs over unread bytes loses the oldest ones.
\<close>

theorem audio_ring_refines_queue:
  assumes "0 < n" "runs (\<lambda>b c r b'. ab_exec b c = (r, b')) (NewAudioBuffer n) tr b"
  shows "spec_run byte_queue (n - 1, []) (map fst tr) = (map snd tr, ring_abs b)"
  using ring.runs_refine [OF assms(2) ab_inv_new [OF assms(1)]]
  by (simp add: ring_abs_def ab_abs_def availableLocked_def NewAudioBuffer_def)

definition ex_ring :: audio_buffer where
  "ex_ring = \<lparr>ab_data = [4, 5, 3], ab_writePos = 2, ab_readPos = 1, ab_size = 3, ab_ready = True\<rparr>"

theorem audio_ring_refines_queue_witness:
  "spec_run byte_queue (2, []) [AbWrite [1, 2], AbWrite [3], AbWrite [4, 5], AbRead 1] =
    ([AbOk, AbOk, AbOk, AbData [4]], ring_abs ex_ring)"
proof -
  have s: "fst (ab_exec b c) = r \<Longrightarrow> snd (ab_exec b c) = b' \<Longrightarrow> ab_exec b c = (r, b')" for b c r b'
    by (cases "ab_exec b c") simp
  have "runs (\<lambda>b c r b'. ab_exec b c = (r, b')) (NewAudioBuffer 3)
    [(AbWrite [1, 2], AbOk), (AbWrite [3], AbOk), (AbWrite [4, 5], AbOk), (AbRead 1, AbData [4])] ex_ring"
    by (rule runs_Cons, rule s, (code_simp | rule refl)+)+ (rule runs_Nil)
  from audio_ring_refines_queue [OF _ this] show ?thesis by simp
qed


section \<open>Samples\<close>

text \<open>
  Converting samples to floating-point numbers and back is not the identity: the divisor is 32768 and the
  factor 32767, so every sample but silence moves one step towards it.
\<close>

definition is_sample :: "int \<Rightarrow> bool" where
  "is_sample x \<longleftrightarrow> - 32768 \<le> x \<and> x \<le> 32767"

lemma encode_samples:
  "\<forall>x \<in> set xs. is_sample x \<Longrightarrow> EncodePCM16Float (concat (map sample_bytes xs)) = map (\<lambda>x. of_int x / 32768) xs"
proof (induction xs)
  case (Cons x xs)
  then have x: "- 32768 \<le> x" "x \<le> 32767" by (simp_all add: is_sample_def)
  have "nat (x mod 65536) mod 256 + 256 * (nat (x mod 65536) div 256) = nat (x mod 65536)" by simp
  moreover have "(x mod 65536 + 32768) mod 65536 - 32768 = x"
    unfolding mod_add_left_eq using x by (subst mod_pos_pos_trivial) simp_all
  ultimately have "sample_bytes x = [nat (x mod 65536) mod 256, nat (x mod 65536) div 256] \<and>
      int16 (int (nat (x mod 65536) mod 256 + 256 * (nat (x mod 65536) div 256))) = x"
    by (simp add: sample_bytes_def Let_def int16_def)
  with Cons show ?case by (auto simp del: of_nat_add)
qed simp

lemma trunc_sample: "is_sample x \<Longrightarrow> trunc (of_int x / 32768 * 32767) = x - sgn x"
proof -
  assume "is_sample x"
  then have x: "- 32768 \<le> x" "x \<le> 32767" by (simp_all add: is_sample_def)
  have e: "of_int x / 32768 * 32767 = of_int x - of_int x / (32768 :: rat)" by simp
  have "(of_int x :: rat) \<le> of_int 32767" "of_int (- 32768) \<le> (of_int x :: rat)"
    using x by (simp_all only: of_int_le_iff)
  then have b: "(of_int x :: rat) \<le> 32767" "(- 32768 :: rat) \<le> of_int x" by simp_all
  consider "x = 0" | "0 < x" | "x < 0" by linarith
  then show ?thesis
  proof cases
    case 2
    then have "(1 :: rat) \<le> of_int x" by simp
    with b have "\<lfloor>of_int x - of_int x / (32768 :: rat)\<rfloor> = x - 1" by (intro floor_unique) simp_all
    with 2 show ?thesis unfolding e trunc_def using b by simp
  next
    case 3
    then have "of_int x \<le> (- 1 :: rat)" by simp
    with b have "\<lceil>of_int x - of_int x / (32768 :: rat)\<rceil> = x + 1" by (intro ceiling_unique) simp_all
    with 3 show ?thesis unfolding e trunc_def using b by simp
  qed (simp add: trunc_def)
qed

lemma pcm_conversion_loses_step:
  "\<forall>x \<in> set xs. is_sample x \<Longrightarrow>
    DecodePCM16Float (EncodePCM16Float (concat (map sample_bytes xs))) = concat (map (\<lambda>x. sample_bytes (x - sgn x)) xs)"
proof -
  assume s: "\<forall>x \<in> set xs. is_sample x"
  have "sample_bytes (int16 (trunc (clamp_sample (of_int x / 32768) * 32767))) = sample_bytes (x - sgn x)"
    if "x \<in> set xs" for x
  proof -
    have x: "is_sample x" using s that by blast
    then have c: "clamp_sample (of_int x / 32768) = of_int x / 32768" by (simp add: clamp_sample_def is_sample_def)
    have i: "int16 (x - sgn x) = x - sgn x"
      using x by (simp add: int16_def is_sample_def sgn_if)
    show ?thesis unfolding c trunc_sample [OF x] i ..
  qed
  then show ?thesis unfolding encode_samples [OF s] DecodePCM16Float_def by (simp add: comp_def cong: map_cong)
qed

end
