(* ===== verification/Gaming.thy ===== *)
theory Gaming
  imports GoFloat GoStrings
begin

text \<open>
  apps/gateway/internal/gaming/gaming.go: the gaming sessions with their controllers, the score of their
  performance and the targets that a mode sets. Measurements are \<open>float64\<close> values (\<open>GoFloat\<close>).
\<close>

datatype motion_data = MotionData (md_Accelerometer: "f64 list") (md_Gyroscope: "f64 list") (md_Timestamp: time)

datatype button_state = ButtonState (bs_Index: int) (bs_Pressed: bool) (bs_Value: f64)

record controller_state =
  ct_ID :: string
  ct_Vendor :: string
  ct_Connected :: bool
  ct_Buttons :: "button_state list"
  ct_Axes :: "f64 list"
  ct_Timestamp :: time
  ct_RumbleEnabled :: bool
  ct_RumbleIntensity :: f64
  ct_MotionData :: "motion_data option"

record gpu_profile =
  gp_Model :: string
  gp_VRAMGB :: f64
  gp_EncoderSupport :: "string list"
  gp_CurrentStreams :: int
  gp_MaxStreams :: int
  gp_Utilization :: f64
  gp_Temperature :: f64
  gp_ClockSpeed :: f64

record network_profile =
  np_Protocol :: string
  np_PacketLoss :: f64
  np_Jitter :: f64
  np_RTT :: f64
  np_Bandwidth :: f64
  np_NetworkQuality :: f64
  np_SimulatedLag :: bool
  np_PacketReordering :: bool
  np_NetworkOptimization :: bool

record performance_metrics =
  pm_FPS :: f64
  pm_FrameTime :: f64
  pm_Bitrate :: f64
  pm_Latency :: f64
  pm_DroppedFrames :: int
  pm_StutterCount :: int
  pm_Score :: f64
  pm_TargetFPS :: int
  pm_TargetLatency :: f64
  pm_LastSampledAt :: "time option"

record gaming_session =
  gs_SessionID :: string
  gs_Active :: bool
  gs_Mode :: string
  gs_ControllerState :: "string \<rightharpoonup> controller_state"
  gs_GPUProfile :: gpu_profile
  gs_NetworkProfile :: network_profile
  gs_PerformanceMetrics :: performance_metrics
  gs_CreatedAt :: time
  gs_UpdatedAt :: time

text \<open>The fields of a configuration that a session takes over.\<close>

record gaming_config =
  gc_Mode :: string
  gc_TargetFPS :: int
  gc_TargetLatency :: f64

type_synonym gaming_manager = "string \<rightharpoonup> gaming_session"

definition NewGamingManager :: gaming_manager where
  "NewGamingManager = Map.empty"

definition new_gaming_session :: "time \<Rightarrow> string \<Rightarrow> gaming_config \<Rightarrow> gaming_session" where
  "new_gaming_session now sid c =
     \<lparr>gs_SessionID = sid, gs_Active = True, gs_Mode = gc_Mode c, gs_ControllerState = Map.empty,
      gs_GPUProfile = \<lparr>gp_Model = [], gp_VRAMGB = Fin 0, gp_EncoderSupport = [], gp_CurrentStreams = 0, gp_MaxStreams = 10, gp_Utilization = Fin 0, gp_Temperature = Fin 0, gp_ClockSpeed = Fin 0\<rparr>,
      gs_NetworkProfile = \<lparr>np_Protocol = ''webrtc'', np_PacketLoss = Fin 0, np_Jitter = Fin 0, np_RTT = Fin 0,
        np_Bandwidth = Fin 0, np_NetworkQuality = Fin 0, np_SimulatedLag = False, np_PacketReordering = False,
        np_NetworkOptimization = False\<rparr>,
      gs_PerformanceMetrics = \<lparr>pm_FPS = Fin 0, pm_FrameTime = Fin 0, pm_Bitrate = Fin 0, pm_Latency = Fin 0, pm_DroppedFrames = 0,
        pm_StutterCount = 0, pm_Score = Fin 0, pm_TargetFPS = gc_TargetFPS c, pm_TargetLatency = gc_TargetLatency c,
        pm_LastSampledAt = None\<rparr>,
      gs_CreatedAt = now, gs_UpdatedAt = now\<rparr>"

definition gm_CreateGamingSession :: "time \<Rightarrow> string \<Rightarrow> gaming_config \<Rightarrow> gaming_manager \<Rightarrow> gaming_session \<times> gaming_manager" where
  "gm_CreateGamingSession now sid c m = (let se = new_gaming_session now sid c in (se, m(sid \<mapsto> se)))"

definition gm_GetGamingSession :: "string \<Rightarrow> gaming_manager \<Rightarrow> string + gaming_session" where
  "gm_GetGamingSession sid m = (case m sid of None \<Rightarrow> Inl ''gaming session not found'' | Some se \<Rightarrow> Inr se)"

definition gm_EndGamingSession :: "string \<Rightarrow> gaming_manager \<Rightarrow> string option \<times> gaming_manager" where
  "gm_EndGamingSession sid m = (if m sid \<noteq> None then (None, m(sid := None)) else (Some ''gaming session not found'', m))"

section \<open>Controllers\<close>

definition gm_RegisterController :: "time \<Rightarrow> string \<Rightarrow> string \<Rightarrow> string \<Rightarrow> gaming_manager \<Rightarrow> string option \<times> gaming_manager" where
  "gm_RegisterController now sid cid vendor m = (case gm_GetGamingSession sid m of
     Inl e \<Rightarrow> (Some e, m)
   | Inr se \<Rightarrow>
       let c = \<lparr>ct_ID = cid, ct_Vendor = vendor, ct_Connected = True,
             ct_Buttons = replicate 20 (ButtonState 0 False (Fin 0)), ct_Axes = replicate 6 (Fin 0), ct_Timestamp = now,
             ct_RumbleEnabled = False, ct_RumbleIntensity = Fin 0, ct_MotionData = None\<rparr>
       in (None, m(sid \<mapsto> se\<lparr>gs_ControllerState := (gs_ControllerState se)(cid \<mapsto> c), gs_UpdatedAt := now\<rparr>)))"

definition gm_UnregisterController :: "time \<Rightarrow> string \<Rightarrow> string \<Rightarrow> gaming_manager \<Rightarrow> string option \<times> gaming_manager" where
  "gm_UnregisterController now sid cid m = (case gm_GetGamingSession sid m of
     Inl e \<Rightarrow> (Some e, m)
   | Inr se \<Rightarrow>
       (case gs_ControllerState se cid of
          None \<Rightarrow> (None, m)
        | Some c \<Rightarrow> (None, m(sid \<mapsto> se\<lparr>gs_ControllerState := (gs_ControllerState se)(cid \<mapsto> c\<lparr>ct_Connected := False\<rparr>),
            gs_UpdatedAt := now\<rparr>))))"

text \<open>The three operations that change a registered controller have the same frame.\<close>

definition edit_controller ::
  "time \<Rightarrow> string \<Rightarrow> string \<Rightarrow> (controller_state \<Rightarrow> controller_state) \<Rightarrow> gaming_manager \<Rightarrow> string option \<times> gaming_manager" where
  "edit_controller now sid cid f m = (case gm_GetGamingSession sid m of
     Inl e \<Rightarrow> (Some e, m)
   | Inr se \<Rightarrow>
       (case gs_ControllerState se cid of
          None \<Rightarrow> (Some ''controller not found'', m)
        | Some c \<Rightarrow> (None, m(sid \<mapsto> se\<lparr>gs_ControllerState := (gs_ControllerState se)(cid \<mapsto> f c), gs_UpdatedAt := now\<rparr>))))"

definition gm_UpdateControllerState ::
  "time \<Rightarrow> string \<Rightarrow> string \<Rightarrow> button_state list \<Rightarrow> f64 list \<Rightarrow> gaming_manager \<Rightarrow> string option \<times> gaming_manager" where
  "gm_UpdateControllerState now sid cid buttons axes =
     edit_controller now sid cid (\<lambda>c. c\<lparr>ct_Buttons := buttons, ct_Axes := axes, ct_Timestamp := now\<rparr>)"

definition gm_SetControllerRumble ::
  "time \<Rightarrow> string \<Rightarrow> string \<Rightarrow> bool \<Rightarrow> f64 \<Rightarrow> gaming_manager \<Rightarrow> string option \<times> gaming_manager" where
  "gm_SetControllerRumble now sid cid enabled intensity =
     edit_controller now sid cid (\<lambda>c. c\<lparr>ct_RumbleEnabled := enabled, ct_RumbleIntensity := intensity\<rparr>)"

definition gm_UpdateMotionData ::
  "time \<Rightarrow> string \<Rightarrow> string \<Rightarrow> f64 list \<Rightarrow> f64 list \<Rightarrow> gaming_manager \<Rightarrow> string option \<times> gaming_manager" where
  "gm_UpdateMotionData now sid cid acc gyro =
     edit_controller now sid cid (\<lambda>c. c\<lparr>ct_MotionData := Some (MotionData acc gyro now)\<rparr>)"

definition gm_GetControllerState :: "string \<Rightarrow> string \<Rightarrow> gaming_manager \<Rightarrow> string + controller_state" where
  "gm_GetControllerState sid cid m = (case gm_GetGamingSession sid m of
     Inl e \<Rightarrow> Inl e
   | Inr se \<Rightarrow> (case gs_ControllerState se cid of None \<Rightarrow> Inl ''controller not found'' | Some c \<Rightarrow> Inr c))"

definition gm_GetAllControllers :: "string list \<Rightarrow> string \<Rightarrow> gaming_manager \<Rightarrow> string + controller_state list" where
  "gm_GetAllControllers ks sid m = (case gm_GetGamingSession sid m of
     Inl e \<Rightarrow> Inl e | Inr se \<Rightarrow> Inr (filter ct_Connected (map_values (gs_ControllerState se) ks)))"

section \<open>Measurements\<close>

definition capped :: "f64 \<Rightarrow> f64 \<Rightarrow> f64" where
  "capped hi x = (if flt hi x then hi else x)"

definition floored :: "f64 \<Rightarrow> f64" where
  "floored x = (if flt x (Fin 0) then Fin 0 else x)"

definition calculatePerformanceScore :: "performance_metrics \<Rightarrow> f64" where
  "calculatePerformanceScore pm =
     (let fpsScore = capped (Fin 40) (fmul (fdiv (pm_FPS pm) (f_of_int (pm_TargetFPS pm))) (Fin 40));
          latencyScore = floored (fmul (fsub (Fin 1) (fdiv (pm_Latency pm) (pm_TargetLatency pm))) (Fin 30));
          bitrateScore = capped (Fin 20) (fmul (fdiv (pm_Bitrate pm) (Fin 20000)) (Fin 20));
          stabilityScore = floored (fsub (Fin 10) (f_of_int (pm_StutterCount pm)))
      in fadd (fadd (fadd (fadd (Fin 0) fpsScore) latencyScore) bitrateScore) stabilityScore)"

definition gm_UpdatePerformanceMetrics ::
  "time \<Rightarrow> string \<Rightarrow> f64 \<Rightarrow> f64 \<Rightarrow> f64 \<Rightarrow> f64 \<Rightarrow> gaming_manager \<Rightarrow> string option \<times> gaming_manager" where
  "gm_UpdatePerformanceMetrics now sid fps frameTime bitrate latency m = (case gm_GetGamingSession sid m of
     Inl e \<Rightarrow> (Some e, m)
   | Inr se \<Rightarrow>
       let pm = (gs_PerformanceMetrics se)\<lparr>pm_FPS := fps, pm_FrameTime := frameTime, pm_Bitrate := bitrate,
             pm_Latency := latency, pm_LastSampledAt := Some now\<rparr>;
           pm = pm\<lparr>pm_Score := calculatePerformanceScore pm\<rparr>;
           pm = (if flt (fmul (fdiv (Fin 1000) (f_of_int (pm_TargetFPS pm))) (Fin 2)) frameTime
                 then pm\<lparr>pm_StutterCount := wrap64 (pm_StutterCount pm + 1)\<rparr> else pm)
       in (None, m(sid \<mapsto> se\<lparr>gs_PerformanceMetrics := pm, gs_UpdatedAt := now\<rparr>)))"

definition gm_calculatePerformanceMetrics :: "string \<Rightarrow> gaming_manager \<Rightarrow> string + performance_metrics" where
  "gm_calculatePerformanceMetrics sid m = (case gm_GetGamingSession sid m of
     Inl e \<Rightarrow> Inl e | Inr se \<Rightarrow> Inr (gs_PerformanceMetrics se))"

definition gm_OptimizeForMode :: "time \<Rightarrow> string \<Rightarrow> string \<Rightarrow> gaming_manager \<Rightarrow> string option \<times> gaming_manager" where
  "gm_OptimizeForMode now sid mode m = (case gm_GetGamingSession sid m of
     Inl e \<Rightarrow> (Some e, m)
   | Inr se \<Rightarrow>
       let set_targets = (\<lambda>lat fps. se\<lparr>gs_PerformanceMetrics :=
             (gs_PerformanceMetrics se)\<lparr>pm_TargetLatency := Fin lat, pm_TargetFPS := fps\<rparr>\<rparr>);
           se = (if mode = ''competitive'' then
                   (set_targets 10 144)\<lparr>gs_NetworkProfile := (gs_NetworkProfile se)\<lparr>np_NetworkOptimization := True\<rparr>\<rparr>
                 else if mode = ''standard'' then set_targets 20 60
                 else if mode = ''casual'' then set_targets 50 30
                 else if mode = ''vr'' then set_targets 5 90
                 else se)
       in (None, m(sid \<mapsto> se\<lparr>gs_Mode := mode, gs_UpdatedAt := now\<rparr>)))"

definition gm_UpdateGPUProfile ::
  "time \<Rightarrow> string \<Rightarrow> f64 \<Rightarrow> f64 \<Rightarrow> f64 \<Rightarrow> gaming_manager \<Rightarrow> string option \<times> gaming_manager" where
  "gm_UpdateGPUProfile now sid util temp clock m = (case gm_GetGamingSession sid m of
     Inl e \<Rightarrow> (Some e, m)
   | Inr se \<Rightarrow> (None, m(sid \<mapsto> se\<lparr>gs_GPUProfile := (gs_GPUProfile se)\<lparr>gp_Utilization := util, gp_Temperature := temp,
       gp_ClockSpeed := clock\<rparr>, gs_UpdatedAt := now\<rparr>)))"

definition calculateNetworkQuality :: "f64 \<Rightarrow> f64 \<Rightarrow> f64 \<Rightarrow> f64" where
  "calculateNetworkQuality loss jitter rtt =
     floored (fsub (fsub (fsub (Fin 100) (fmul loss (Fin 100))) (fmul jitter (Fin 2))) (fmul rtt (Fin (1 / 2))))"

definition gm_UpdateNetworkProfile ::
  "time \<Rightarrow> string \<Rightarrow> f64 \<Rightarrow> f64 \<Rightarrow> f64 \<Rightarrow> f64 \<Rightarrow> gaming_manager \<Rightarrow> string option \<times> gaming_manager" where
  "gm_UpdateNetworkProfile now sid loss jitter rtt bandwidth m = (case gm_GetGamingSession sid m of
     Inl e \<Rightarrow> (Some e, m)
   | Inr se \<Rightarrow> (None, m(sid \<mapsto> se\<lparr>gs_NetworkProfile := (gs_NetworkProfile se)\<lparr>np_PacketLoss := loss, np_Jitter := jitter,
       np_RTT := rtt, np_Bandwidth := bandwidth, np_NetworkQuality := calculateNetworkQuality loss jitter rtt\<rparr>,
       gs_UpdatedAt := now\<rparr>)))"

section \<open>Runs\<close>

datatype gm_call = GmCreate time string gaming_config | GmEnd string | GmRegister time string string string
  | GmUnregister time string string | GmController time string string "button_state list" "f64 list"
  | GmRumble time string string bool f64 | GmMotion time string string "f64 list" "f64 list"
  | GmMetrics time string f64 f64 f64 f64 | GmOptimize time string string
  | GmGPU time string f64 f64 f64 | GmNetwork time string f64 f64 f64 f64

fun gm_step :: "gaming_manager \<Rightarrow> gm_call \<Rightarrow> gaming_manager" where
  "gm_step m (GmCreate now sid c) = snd (gm_CreateGamingSession now sid c m)"
| "gm_step m (GmEnd sid) = snd (gm_EndGamingSession sid m)"
| "gm_step m (GmRegister now sid cid v) = snd (gm_RegisterController now sid cid v m)"
| "gm_step m (GmUnregister now sid cid) = snd (gm_UnregisterController now sid cid m)"
| "gm_step m (GmController now sid cid bs ax) = snd (gm_UpdateControllerState now sid cid bs ax m)"
| "gm_step m (GmRumble now sid cid b x) = snd (gm_SetControllerRumble now sid cid b x m)"
| "gm_step m (GmMotion now sid cid a g) = snd (gm_UpdateMotionData now sid cid a g m)"
| "gm_step m (GmMetrics now sid a b c d) = snd (gm_UpdatePerformanceMetrics now sid a b c d m)"
| "gm_step m (GmOptimize now sid mode) = snd (gm_OptimizeForMode now sid mode m)"
| "gm_step m (GmGPU now sid a b c) = snd (gm_UpdateGPUProfile now sid a b c m)"
| "gm_step m (GmNetwork now sid a b c d) = snd (gm_UpdateNetworkProfile now sid a b c d m)"

text \<open>Sessions and controllers are stored under their ids; a stutter is counted, never forgotten.\<close>

definition controllers_ok :: "(string \<rightharpoonup> controller_state) \<Rightarrow> bool" where
  "controllers_ok cs \<longleftrightarrow> (\<forall>cid c. cs cid = Some c \<longrightarrow> ct_ID c = cid)"

definition gs_ok :: "string \<Rightarrow> gaming_session \<Rightarrow> bool" where
  "gs_ok sid se \<longleftrightarrow> gs_SessionID se = sid \<and> gs_Active se \<and> controllers_ok (gs_ControllerState se) \<and>
     np_Protocol (gs_NetworkProfile se) = ''webrtc''"

definition gm_inv :: "gaming_manager \<Rightarrow> bool" where
  "gm_inv m \<longleftrightarrow> (\<forall>sid se. m sid = Some se \<longrightarrow> gs_ok sid se)"

lemma gm_inv_upd: "gm_inv m \<Longrightarrow> gs_ok sid se \<Longrightarrow> gm_inv (m(sid \<mapsto> se))"
  by (simp add: gm_inv_def)

lemma gm_inv_get: "gm_inv m \<Longrightarrow> gm_GetGamingSession sid m = Inr se \<Longrightarrow> gs_ok sid se"
  by (simp add: gm_inv_def gm_GetGamingSession_def split: option.splits)

lemma controllers_ok_upd: "controllers_ok cs \<Longrightarrow> ct_ID c = cid \<Longrightarrow> controllers_ok (cs(cid \<mapsto> c))"
  by (simp add: controllers_ok_def)

lemma controllers_ok_get: "controllers_ok cs \<Longrightarrow> cs cid = Some c \<Longrightarrow> ct_ID c = cid"
  by (simp add: controllers_ok_def)

lemma gs_ok_edit:
  "gs_ok sid se \<Longrightarrow> gs_ok sid (se\<lparr>gs_UpdatedAt := now\<rparr>)"
  "gs_ok sid se \<Longrightarrow> gs_ok sid (se\<lparr>gs_PerformanceMetrics := pm\<rparr>)"
  "gs_ok sid se \<Longrightarrow> gs_ok sid (se\<lparr>gs_GPUProfile := gp\<rparr>)"
  "gs_ok sid se \<Longrightarrow> gs_ok sid (se\<lparr>gs_Mode := mode\<rparr>)"
  "gs_ok sid se \<Longrightarrow> np_Protocol np = ''webrtc'' \<Longrightarrow> gs_ok sid (se\<lparr>gs_NetworkProfile := np\<rparr>)"
  "gs_ok sid se \<Longrightarrow> controllers_ok cs \<Longrightarrow> gs_ok sid (se\<lparr>gs_ControllerState := cs\<rparr>)"
  by (simp_all add: gs_ok_def)

lemma gs_ok_parts: "gs_ok sid se \<Longrightarrow> controllers_ok (gs_ControllerState se)"
  "gs_ok sid se \<Longrightarrow> np_Protocol (gs_NetworkProfile se) = ''webrtc''"
  by (simp_all add: gs_ok_def)

lemma gm_inv_edit:
  assumes "gm_inv m" and "\<And>c. ct_ID (f c) = ct_ID c"
  shows "gm_inv (snd (edit_controller now sid cid f m))"
proof (cases "gm_GetGamingSession sid m")
  case (Inr se)
  have ok: "gs_ok sid se" using gm_inv_get [OF assms(1) Inr] .
  show ?thesis
  proof (cases "gs_ControllerState se cid")
    case (Some c)
    then have "ct_ID (f c) = cid" using controllers_ok_get [OF gs_ok_parts(1) [OF ok]] assms(2) by simp
    then show ?thesis using Inr Some assms(1) ok gs_ok_parts(1) [OF ok]
      by (simp add: edit_controller_def) (intro gm_inv_upd gs_ok_edit controllers_ok_upd, auto)
  qed (use Inr assms(1) in \<open>simp add: edit_controller_def\<close>)
qed (use assms(1) in \<open>simp add: edit_controller_def\<close>)

lemma gm_step_inv: "gm_inv m \<Longrightarrow> gm_inv (gm_step m c)"
proof (cases c)
  case (GmCreate now sid c)
  moreover assume "gm_inv m"
  ultimately show ?thesis
    by (auto simp: gm_CreateGamingSession_def Let_def new_gaming_session_def gs_ok_def controllers_ok_def intro: gm_inv_upd)
next
  case (GmEnd sid)
  moreover assume "gm_inv m"
  ultimately show ?thesis by (simp add: gm_EndGamingSession_def gm_inv_def)
next
  case (GmRegister now sid cid v)
  moreover assume "gm_inv m"
  ultimately show ?thesis
    by (cases "gm_GetGamingSession sid m")
      (auto simp: gm_RegisterController_def Let_def intro!: gm_inv_upd gs_ok_edit controllers_ok_upd
        intro: gs_ok_parts dest: gm_inv_get)
next
  case (GmUnregister now sid cid)
  moreover assume inv: "gm_inv m"
  have "snd (gm_UnregisterController now sid cid m) = snd (edit_controller now sid cid (\<lambda>c. c\<lparr>ct_Connected := False\<rparr>) m)"
    by (simp add: gm_UnregisterController_def edit_controller_def split: sum.split option.split)
  ultimately show ?thesis using gm_inv_edit [OF inv, of "\<lambda>c. c\<lparr>ct_Connected := False\<rparr>" now sid cid] by simp
next
  case (GmMetrics now sid a b c d)
  moreover assume "gm_inv m"
  ultimately show ?thesis
    by (cases "gm_GetGamingSession sid m")
      (auto simp: gm_UpdatePerformanceMetrics_def Let_def intro!: gm_inv_upd gs_ok_edit dest: gm_inv_get)
next
  case (GmOptimize now sid mode)
  moreover assume inv: "gm_inv m"
  have "gm_inv (snd (gm_OptimizeForMode now sid mode m))"
  proof (cases "gm_GetGamingSession sid m")
    case (Inr se)
    have "gs_ok sid se" using gm_inv_get [OF inv Inr] .
    then show ?thesis
      unfolding gm_OptimizeForMode_def Inr Let_def sum.case snd_conv
      by (intro gm_inv_upd [OF inv]) (simp add: gs_ok_def)
  qed (use inv in \<open>simp add: gm_OptimizeForMode_def\<close>)
  ultimately show ?thesis by simp
next
  case (GmGPU now sid a b c)
  moreover assume "gm_inv m"
  ultimately show ?thesis
    by (cases "gm_GetGamingSession sid m")
      (auto simp: gm_UpdateGPUProfile_def intro!: gm_inv_upd gs_ok_edit dest: gm_inv_get)
next
  case (GmNetwork now sid a b c d)
  moreover assume "gm_inv m"
  ultimately show ?thesis
    by (cases "gm_GetGamingSession sid m")
      (auto simp: gm_UpdateNetworkProfile_def gs_ok_parts(2) intro!: gm_inv_upd gs_ok_edit dest: gm_inv_get)
qed (auto simp: gm_UpdateControllerState_def gm_SetControllerRumble_def gm_UpdateMotionData_def intro: gm_inv_edit)

interpretation gm: component gm_step gm_inv
  by unfold_locales (rule gm_step_inv)

lemma gm_run_ok: "foldl gm_step NewGamingManager cs sid = Some se \<Longrightarrow> gs_ok sid se"
proof -
  have "gm_inv NewGamingManager" by (simp add: gm_inv_def NewGamingManager_def)
  from gm.run_inv [OF this, of cs]
  show "foldl gm_step NewGamingManager cs sid = Some se \<Longrightarrow> gs_ok sid se" by (simp add: gm_inv_def)
qed

section \<open>The score\<close>

lemma score_range:
  assumes "pm_FPS pm = Fin fps" "pm_Latency pm = Fin lat" "pm_Bitrate pm = Fin br" "pm_TargetLatency pm = Fin tgt"
    and "0 \<le> fps" "0 \<le> lat" "0 \<le> br" "0 < tgt" "0 < pm_TargetFPS pm" "0 \<le> pm_StutterCount pm"
  shows "\<exists>q. calculatePerformanceScore pm = Fin q \<and> 0 \<le> q \<and> q \<le> 100"
proof -
  define a where "a = min 40 (fps / of_int (pm_TargetFPS pm) * 40)"
  define b where "b = max 0 ((1 - lat / tgt) * 30)"
  define c where "c = min 20 (br / 20000 * 20)"
  define d where "d = max (0::rat) (10 - of_int (pm_StutterCount pm))"
  have "calculatePerformanceScore pm = Fin (a + b + c + d)"
    using assms by (auto simp: calculatePerformanceScore_def capped_def floored_def Let_def a_def b_def c_def d_def min_def max_def)
  moreover have "0 \<le> a" "a \<le> 40" "0 \<le> c" "c \<le> 20" "0 \<le> d" "d \<le> 10" using assms by (simp_all add: a_def c_def d_def)
  moreover have "0 \<le> b" "b \<le> 30" using assms by (simp_all add: b_def)
  ultimately show ?thesis by auto
qed

text \<open>
  The score is not bounded in general: a negative latency, which a client can report, pushes it over 100.
\<close>

lemma score_over_100:
  "calculatePerformanceScore \<lparr>pm_FPS = Fin 60, pm_FrameTime = Fin 16, pm_Bitrate = Fin 20000, pm_Latency = Fin (- 20), pm_DroppedFrames = 0,
     pm_StutterCount = 0, pm_Score = Fin 0, pm_TargetFPS = 60, pm_TargetLatency = Fin 20, pm_LastSampledAt = None\<rparr> = Fin 130"
  by (simp add: calculatePerformanceScore_def capped_def floored_def Let_def)

end
