(* ===== verification/InputDevices.thy ===== *)
theory InputDevices
  imports GoStrings
begin

text \<open>
  apps/gateway/internal/input/input.go: the input sessions with their devices, and the dispatch of an input
  event. An event carries what the standard library's decoder makes of its data for the struct of its type:
  the error, if any, and for a gamepad its id. Passing an event on to a machine is not implemented in the
  source: the handlers only decode and log.
\<close>

record device_capabilities =
  dc_ButtonCount :: int
  dc_AxisCount :: int
  dc_SupportsRumble :: bool
  dc_SupportsMotion :: bool
  dc_SupportsTouch :: bool
  dc_SupportsPressure :: bool

record input_device =
  id_ID :: string
  id_Kind :: string
  id_Connected :: bool
  id_LastActive :: time
  id_Capabilities :: device_capabilities

record session_input =
  si_SessionID :: string
  si_Active :: bool
  si_InputDevices :: "string \<rightharpoonup> input_device"
  si_CreatedAt :: time
  si_UpdatedAt :: time

record input_event =
  ie_Type :: string
  ie_DecodeError :: "string option"
  ie_GamepadID :: string

type_synonym input_manager = "string \<rightharpoonup> session_input"

definition NewInputManager :: input_manager where
  "NewInputManager = Map.empty"

definition im_RegisterSession :: "time \<Rightarrow> string \<Rightarrow> input_manager \<Rightarrow> input_manager" where
  "im_RegisterSession now sid m = m(sid \<mapsto> \<lparr>si_SessionID = sid, si_Active = True, si_InputDevices = Map.empty,
     si_CreatedAt = now, si_UpdatedAt = now\<rparr>)"

definition im_UnregisterSession :: "string \<Rightarrow> input_manager \<Rightarrow> input_manager" where
  "im_UnregisterSession sid m = m(sid := None)"

definition im_GetSession :: "string \<Rightarrow> input_manager \<Rightarrow> string + session_input" where
  "im_GetSession sid m = (case m sid of None \<Rightarrow> Inl ''session not found'' | Some se \<Rightarrow> Inr se)"

definition im_RegisterDevice :: "time \<Rightarrow> string \<Rightarrow> input_device \<Rightarrow> input_manager \<Rightarrow> string option \<times> input_manager" where
  "im_RegisterDevice now sid dev m = (case im_GetSession sid m of
     Inl e \<Rightarrow> (Some e, m)
   | Inr se \<Rightarrow> (None, m(sid \<mapsto> se\<lparr>si_InputDevices :=
       (si_InputDevices se)(id_ID dev \<mapsto> dev\<lparr>id_Connected := True, id_LastActive := now\<rparr>), si_UpdatedAt := now\<rparr>)))"

definition im_UnregisterDevice :: "time \<Rightarrow> string \<Rightarrow> string \<Rightarrow> input_manager \<Rightarrow> string option \<times> input_manager" where
  "im_UnregisterDevice now sid did m = (case im_GetSession sid m of
     Inl e \<Rightarrow> (Some e, m)
   | Inr se \<Rightarrow>
       (case si_InputDevices se did of
          None \<Rightarrow> (None, m)
        | Some dev \<Rightarrow> (None, m(sid \<mapsto> se\<lparr>si_InputDevices := (si_InputDevices se)(did \<mapsto> dev\<lparr>id_Connected := False\<rparr>),
            si_UpdatedAt := now\<rparr>))))"

text \<open>The device of an event; the empty id stands for none.\<close>

definition event_device :: "input_event \<Rightarrow> string" where
  "event_device ev =
     (let ty = ie_Type ev
      in if ty \<in> {''input.mouse.move'', ''input.mouse.down'', ''input.mouse.up'', ''input.mouse.click'',
                  ''input.mouse.dblclick'', ''input.scroll''} then ''mouse''
         else if ty \<in> {''input.keyboard.press'', ''input.keyboard.release''} then ''keyboard''
         else if ty \<in> {''input.touch.start'', ''input.touch.move'', ''input.touch.end'', ''input.touch.cancel''} then ''touch''
         else if ty = ''input.gamepad'' \<and> ie_DecodeError ev = None then ie_GamepadID ev
         else '''')"

definition touch_device :: "time \<Rightarrow> string \<Rightarrow> session_input \<Rightarrow> session_input" where
  "touch_device now did se =
     (if did \<noteq> '''' then
        (case si_InputDevices se did of
           None \<Rightarrow> se
         | Some dev \<Rightarrow> se\<lparr>si_InputDevices := (si_InputDevices se)(did \<mapsto> dev\<lparr>id_LastActive := now\<rparr>)\<rparr>)
      else se)"

definition known_event :: "string \<Rightarrow> bool" where
  "known_event ty \<longleftrightarrow> ty \<in> {''input.mouse.move'', ''input.mouse.down'', ''input.mouse.up'', ''input.mouse.click'',
     ''input.mouse.dblclick'', ''input.keyboard.press'', ''input.keyboard.release'', ''input.scroll'',
     ''input.touch.start'', ''input.touch.move'', ''input.touch.end'', ''input.touch.cancel'', ''input.gamepad''}"

text \<open>The six handlers decode the data for the struct of the type and log it.\<close>

definition im_handle :: "input_event \<Rightarrow> string option" where
  "im_handle ev = ie_DecodeError ev"

definition im_HandleInputEvent :: "time \<Rightarrow> string \<Rightarrow> input_event \<Rightarrow> input_manager \<Rightarrow> string option \<times> input_manager" where
  "im_HandleInputEvent now sid ev m = (case im_GetSession sid m of
     Inl e \<Rightarrow> (Some e, m)
   | Inr se \<Rightarrow>
       (if known_event (ie_Type ev) then im_handle ev else Some ''unknown input event type'',
        m(sid \<mapsto> touch_device now (event_device ev) (se\<lparr>si_UpdatedAt := now\<rparr>))))"

definition im_GetActiveDevices :: "string list \<Rightarrow> string \<Rightarrow> input_manager \<Rightarrow> string + input_device list" where
  "im_GetActiveDevices ks sid m = (case im_GetSession sid m of
     Inl e \<Rightarrow> Inl e | Inr se \<Rightarrow> Inr (filter id_Connected (map_values (si_InputDevices se) ks)))"

section \<open>What an event does\<close>

text \<open>
  An event never adds, removes, renames, connects or disconnects a device, and of its session only: it
  moves the time at which the one device was active. A device that was disconnected is moved too.
\<close>

definition same_device :: "input_device \<Rightarrow> input_device \<Rightarrow> bool" where
  "same_device d d' \<longleftrightarrow> id_ID d' = id_ID d \<and> id_Kind d' = id_Kind d \<and> id_Connected d' = id_Connected d"

lemma input_event_frame:
  assumes "im_HandleInputEvent now sid ev m = (r, m')"
  shows "dom m' = dom m \<and> (\<forall>k. k \<noteq> sid \<longrightarrow> m' k = m k) \<and>
    (\<forall>se se' did. m sid = Some se \<longrightarrow> m' sid = Some se' \<longrightarrow>
       rel_option same_device (si_InputDevices se did) (si_InputDevices se' did) \<and>
       (did \<noteq> event_device ev \<longrightarrow> si_InputDevices se' did = si_InputDevices se did))"
proof (cases "m sid")
  case None
  with assms show ?thesis by (auto simp: im_HandleInputEvent_def im_GetSession_def)
next
  case (Some se)
  have refl: "rel_option same_device x x" for x by (cases x) (simp_all add: same_device_def)
  have m': "m' = m(sid \<mapsto> touch_device now (event_device ev) (se\<lparr>si_UpdatedAt := now\<rparr>))"
    using assms Some by (auto simp: im_HandleInputEvent_def im_GetSession_def)
  then have "dom m' = dom m" "\<forall>k. k \<noteq> sid \<longrightarrow> m' k = m k" using Some by (auto simp: dom_def)
  moreover have "rel_option same_device (si_InputDevices se did)
        (si_InputDevices (touch_device now (event_device ev) (se\<lparr>si_UpdatedAt := now\<rparr>)) did) \<and>
      (did \<noteq> event_device ev \<longrightarrow>
        si_InputDevices (touch_device now (event_device ev) (se\<lparr>si_UpdatedAt := now\<rparr>)) did = si_InputDevices se did)" for did
    by (simp add: touch_device_def refl split: option.split) (simp add: same_device_def)
  ultimately show ?thesis using m' Some by simp
qed

text \<open>Exactly the decodable events of a known type in a registered session are processed.\<close>

lemma input_event_answer:
  "fst (im_HandleInputEvent now sid ev m) = None \<longleftrightarrow>
    sid \<in> dom m \<and> known_event (ie_Type ev) \<and> ie_DecodeError ev = None"
  by (auto simp: im_HandleInputEvent_def im_GetSession_def im_handle_def split: option.split)

end
