(* ===== verification/SessionRecording.thy ===== *)
theory SessionRecording
  imports GoStrings
begin

text \<open>
  apps/gateway/internal/tunnel/session_recording.go: the recordings of sessions. The file belongs to the
  operating system: creating it and writing to it give the result that is an argument of the operation, and
  what is kept of it is whether the handle is open.
\<close>

definition sessionRecordingMaxSize :: int where
  "sessionRecordingMaxSize = 2 * 1024 * 1024 * 1024"

datatype recording_state = RecordingStateIdle | RecordingStateActive | RecordingStateStopped

record recording_session =
  rc_SessionID :: string
  rc_State :: recording_state
  rc_StartedAt :: time
  rc_EndedAt :: "time option"
  rc_FilePath :: string
  rc_File :: bool
  rc_BytesWritten :: int
  rc_Quality :: string

record recording_config =
  rg_Quality :: string
  rg_Format :: string

type_synonym session_recorder = "string \<rightharpoonup> recording_session"

definition NewSessionRecorder :: session_recorder where
  "NewSessionRecorder = Map.empty"

definition sr_StartRecording ::
  "string \<Rightarrow> string option \<Rightarrow> time \<Rightarrow> string \<Rightarrow> recording_config \<Rightarrow> session_recorder \<Rightarrow> (string + recording_session) \<times> session_recorder" where
  "sr_StartRecording tmp create_err now sid c r =
     (if r sid \<noteq> None then (Inl ''session already being recorded'', r)
      else case create_err of
        Some e \<Rightarrow> (Inl e, r)
      | None \<Rightarrow>
          let se = \<lparr>rc_SessionID = sid, rc_State = RecordingStateActive, rc_StartedAt = now, rc_EndedAt = None,
                rc_FilePath = tmp @ ''/freecompute-recording-'' @ sid @ ''.raw'', rc_File = True, rc_BytesWritten = 0,
                rc_Quality = (if rg_Quality c = '''' then ''medium'' else rg_Quality c)\<rparr>
          in (Inr se, r(sid \<mapsto> se)))"

definition sr_StopRecording :: "time \<Rightarrow> string \<Rightarrow> session_recorder \<Rightarrow> string option \<times> session_recorder" where
  "sr_StopRecording now sid r = (case r sid of
     None \<Rightarrow> (Some ''session not being recorded'', r)
   | Some se \<Rightarrow> (None, r(sid \<mapsto> se\<lparr>rc_State := RecordingStateStopped, rc_EndedAt := Some now, rc_File := False\<rparr>)))"

text \<open>\<open>n\<close> and \<open>write_err\<close> are what the write to the file returns.\<close>

definition sr_RecordFrame ::
  "time \<Rightarrow> nat \<Rightarrow> string option \<Rightarrow> string \<Rightarrow> session_recorder \<Rightarrow> string option \<times> session_recorder" where
  "sr_RecordFrame now n write_err sid r = (case r sid of
     None \<Rightarrow> (None, r)
   | Some se \<Rightarrow>
       if rc_State se \<noteq> RecordingStateActive then (None, r)
       else if \<not> rc_File se then (Some ''recording file not open'', r)
       else
         let se = (if 0 < n then se\<lparr>rc_BytesWritten := wrap64 (rc_BytesWritten se + int n)\<rparr> else se);
             r = r(sid \<mapsto> se)
         in if sessionRecordingMaxSize < rc_BytesWritten se then
              (Some ''recording max size exceeded'', snd (sr_StopRecording now sid r))
            else (write_err, r))"

definition sr_GetRecording :: "string \<Rightarrow> session_recorder \<Rightarrow> string + recording_session" where
  "sr_GetRecording sid r = (case r sid of None \<Rightarrow> Inl ''no recording for session'' | Some se \<Rightarrow> Inr se)"

definition sr_ListRecordings :: "string list \<Rightarrow> session_recorder \<Rightarrow> recording_session list" where
  "sr_ListRecordings ks r = map_values r ks"

definition sr_DeleteRecording :: "string \<Rightarrow> session_recorder \<Rightarrow> string option \<times> session_recorder" where
  "sr_DeleteRecording sid r = (case r sid of
     None \<Rightarrow> (Some ''no recording for session'', r) | Some se \<Rightarrow> (None, r(sid := None)))"

definition sr_BlockingWriter :: "string \<Rightarrow> session_recorder \<Rightarrow> string + string" where
  "sr_BlockingWriter sid r = (case sr_GetRecording sid r of Inl e \<Rightarrow> Inl e | Inr se \<Rightarrow> Inr sid)"

record recorder_stats =
  rt_active :: nat
  rt_total :: nat
  rt_totalBytes :: int
  rt_maxBytes :: int

definition sr_Stats :: "string list \<Rightarrow> session_recorder \<Rightarrow> recorder_stats" where
  "sr_Stats ks r =
     (let rs = map_values r ks
      in \<lparr>rt_active = length (filter (\<lambda>se. rc_State se = RecordingStateActive) rs), rt_total = length rs,
          rt_totalBytes = foldl (\<lambda>n se. wrap64 (n + rc_BytesWritten se)) 0 rs, rt_maxBytes = sessionRecordingMaxSize\<rparr>)"

definition DefaultRecordingConfig :: recording_config where
  "DefaultRecordingConfig = \<lparr>rg_Quality = ''medium'', rg_Format = ''mp4''\<rparr>"

section \<open>Recordings in a run\<close>

datatype sr_call = SrStart string "string option" time string recording_config | SrStop time string
  | SrFrame time nat "string option" string | SrDelete string

fun sr_step :: "session_recorder \<Rightarrow> sr_call \<Rightarrow> session_recorder" where
  "sr_step r (SrStart tmp e now sid c) = snd (sr_StartRecording tmp e now sid c r)"
| "sr_step r (SrStop now sid) = snd (sr_StopRecording now sid r)"
| "sr_step r (SrFrame now n e sid) = snd (sr_RecordFrame now n e sid r)"
| "sr_step r (SrDelete sid) = snd (sr_DeleteRecording sid r)"

text \<open>
  A recording is stored under its session, is active exactly while its file is open, has an end exactly when
  it is stopped, and an active one has not passed the largest size.
\<close>

definition rc_ok :: "string \<Rightarrow> recording_session \<Rightarrow> bool" where
  "rc_ok sid se \<longleftrightarrow> rc_SessionID se = sid \<and> rc_State se \<noteq> RecordingStateIdle \<and>
     (rc_File se \<longleftrightarrow> rc_State se = RecordingStateActive) \<and> (rc_EndedAt se = None \<longleftrightarrow> rc_State se = RecordingStateActive) \<and>
     (rc_State se = RecordingStateActive \<longrightarrow> rc_BytesWritten se \<le> sessionRecordingMaxSize)"

definition sr_inv :: "session_recorder \<Rightarrow> bool" where
  "sr_inv r \<longleftrightarrow> (\<forall>sid se. r sid = Some se \<longrightarrow> rc_ok sid se)"

lemma sr_inv_upd: "sr_inv r \<Longrightarrow> rc_ok sid se \<Longrightarrow> sr_inv (r(sid \<mapsto> se))"
  by (simp add: sr_inv_def)

lemma sr_inv_get: "sr_inv r \<Longrightarrow> r sid = Some se \<Longrightarrow> rc_ok sid se"
  by (simp add: sr_inv_def)

lemma sr_step_inv: "sr_inv r \<Longrightarrow> sr_inv (sr_step r c)"
proof (cases c)
  case (SrStart tmp e now sid c)
  moreover assume "sr_inv r"
  ultimately show ?thesis
    by (auto simp: sr_StartRecording_def Let_def rc_ok_def sessionRecordingMaxSize_def intro: sr_inv_upd split: option.split)
next
  case (SrStop now sid)
  moreover assume inv: "sr_inv r"
  ultimately show ?thesis
    by (auto simp: sr_StopRecording_def rc_ok_def split: option.split intro!: sr_inv_upd dest: sr_inv_get)
next
  case (SrFrame now n e sid)
  moreover assume inv: "sr_inv r"
  have "sr_inv (snd (sr_RecordFrame now n e sid r))"
  proof (cases "r sid")
    case (Some se)
    then have "rc_ok sid se" using inv by (rule sr_inv_get [rotated])
    with inv Some show ?thesis
      by (simp add: sr_RecordFrame_def sr_StopRecording_def Let_def) (intro conjI impI sr_inv_upd, simp_all add: rc_ok_def)
  qed (use inv in \<open>simp add: sr_RecordFrame_def\<close>)
  ultimately show ?thesis by simp
next
  case (SrDelete sid)
  moreover assume "sr_inv r"
  ultimately show ?thesis by (simp add: sr_DeleteRecording_def sr_inv_def split: option.split)
qed

interpretation sr: component sr_step sr_inv
  by unfold_locales (rule sr_step_inv)

lemma sr_run_ok: "foldl sr_step NewSessionRecorder cs sid = Some se \<Longrightarrow> rc_ok sid se"
proof -
  have "sr_inv NewSessionRecorder" by (simp add: sr_inv_def NewSessionRecorder_def)
  from sr.run_inv [OF this, of cs]
  show "foldl sr_step NewSessionRecorder cs sid = Some se \<Longrightarrow> rc_ok sid se" by (simp add: sr_inv_def)
qed

text \<open>A session that has a recording, stopped or not, cannot be recorded again until the recording is deleted.\<close>

lemma recording_kept: "r sid \<noteq> None \<Longrightarrow> c \<noteq> SrDelete sid \<Longrightarrow> sr_step r c sid \<noteq> None"
  by (cases c)
    (auto simp: sr_StartRecording_def sr_StopRecording_def sr_RecordFrame_def sr_DeleteRecording_def Let_def split: option.split)

lemma recorded_once:
  "r sid \<noteq> None \<Longrightarrow> SrDelete sid \<notin> set cs \<Longrightarrow>
    fst (sr_StartRecording tmp e now sid c (foldl sr_step r cs)) = Inl ''session already being recorded''"
proof (induction cs arbitrary: r)
  case (Cons x cs)
  then show ?case using recording_kept [of r sid x] by auto
qed (simp add: sr_StartRecording_def)

end
