(* ===== verification/GatewayAccess.thy ===== *)
theory GatewayAccess
  imports Auth SessionManager WebRtc RateLimit FileTransfer GoHttp TunnelRoutes Detector Usage Audio Gaming
    InputDevices SessionRecording
begin

text \<open>
  apps/gateway/internal/tunnel/server.go (and auth.go): the state of the gateway's server, the middleware that
  decides who enters a handler, and the table of routes. The managers are those of the other theories. A
  handler takes the user in the context of the request, if any, the request, the time and the state.
\<close>

section \<open>State\<close>

datatype tailscale_vm = TailscaleVM (tv_ID: string) (tv_Name: string) (tv_TailIP: string)

record tailscale_host =
  th_TailscaleIP :: string
  th_HostName :: string
  th_VMs :: "tailscale_vm list"
  th_LastSeen :: time

record user_tailscale =
  ut_UserID :: string
  ut_TailscaleIP :: string
  ut_HostName :: string
  ut_ProxyMode :: string
  ut_CreatedAt :: time
  ut_ExpiresAt :: time

record gateway =
  gw_TunnelToken :: string
  gw_MaxConnsPerUser :: int
  gw_CDNHostname :: string
  gw_EdgeHostname :: string
  gw_APIHostname :: string
  gw_auth :: auth_manager
  gw_sessions :: session_manager
  gw_webrtc :: webrtc_server
  gw_input :: input_manager
  gw_audio :: audio_streamer
  gw_transfers :: transfer_manager
  gw_clipboards :: clipboards
  gw_gaming :: gaming_manager
  gw_detector :: detector
  gw_usage :: tracker
  gw_recorder :: session_recorder
  gw_tailscaleHosts :: "string \<rightharpoonup> tailscale_host"
  gw_userTailscale :: "string \<rightharpoonup> user_tailscale"
  gw_limiter :: limiter
  gw_userConns :: "string \<rightharpoonup> int"
  gw_signals :: "string option list"

text \<open>
  The server as it starts. The account manager has loaded its accounts and made its administrator; the
  detector has loaded its signatures. The table of hosts is new and empty. \<open>gw_signals\<close> holds the signalling
  connections in the order in which they were opened, each with its session while it is open.
\<close>

definition server_codecs :: codec_support where
  "server_codecs = \<lparr>cs_H263 = False, cs_H264 = True, cs_H265 = True, cs_AV1 = False, cs_VP8 = True, cs_VP9 = True,
     cs_Opus = True, cs_AAC = True, cs_HardwareAccel = True\<rparr>"

definition gw_NewServer ::
  "string \<Rightarrow> int \<Rightarrow> string \<Rightarrow> string \<Rightarrow> string \<Rightarrow> int \<Rightarrow> auth_manager \<Rightarrow> detector \<Rightarrow> gateway" where
  "gw_NewServer token conns cdn edge api rpm am det =
     \<lparr>gw_TunnelToken = token, gw_MaxConnsPerUser = conns, gw_CDNHostname = cdn, gw_EdgeHostname = edge,
      gw_APIHostname = api, gw_auth = am, gw_sessions = NewSessionManager NewHostAllocator,
      gw_webrtc = wr_NewServer server_codecs '''' '''', gw_input = NewInputManager, gw_audio = NewAudioStreamer,
      gw_transfers = NewTransferManager, gw_clipboards = Map.empty, gw_gaming = NewGamingManager, gw_detector = det,
      gw_usage = us_NewTracker, gw_recorder = NewSessionRecorder, gw_tailscaleHosts = Map.empty,
      gw_userTailscale = Map.empty, gw_limiter = NewLimiter (quot rpm 60) (quot rpm 4), gw_userConns = Map.empty, gw_signals = []\<rparr>"

type_synonym 'b gw_handler = "user option \<Rightarrow> request \<Rightarrow> time \<Rightarrow> gateway \<Rightarrow> 'b auth_body answer \<times> gateway"

abbreviation refuse :: "int \<Rightarrow> string \<Rightarrow> 'b auth_body answer" where
  "refuse code msg \<equiv> Answer code (AuthFailure msg)"

section \<open>Who is calling\<close>

definition gw_validate :: "string \<Rightarrow> time \<Rightarrow> gateway \<Rightarrow> (auth_error + user) \<times> gateway" where
  "gw_validate token now g = (let (r, m) = am_ValidateToken token now (gw_auth g) in (r, g\<lparr>gw_auth := m\<rparr>))"

text \<open>\<open>auth.AuthMiddleware\<close>, \<open>auth.RequireAuth\<close> and \<open>auth.RequireRole\<close> around a handler of the server.\<close>

definition gw_AuthMiddleware :: "'b gw_handler \<Rightarrow> 'b gw_handler" where
  "gw_AuthMiddleware nxt user r now g =
     (let token = bearerToken (hdr_get (rq_Header r) ''Authorization'')
      in if token \<noteq> '''' then
           (case gw_validate token now g of
              (Inl _, g) \<Rightarrow> nxt user r now g
            | (Inr u, g) \<Rightarrow> nxt (Some u) r now g)
         else nxt user r now g)"

definition gw_RequireAuth :: "'b gw_handler \<Rightarrow> 'b gw_handler" where
  "gw_RequireAuth nxt user r now g =
     (let token = bearerToken (hdr_get (rq_Header r) ''Authorization'')
      in if token = '''' then (refuse 401 ''missing authorization header'', g)
         else case gw_validate token now g of
           (Inl _, g) \<Rightarrow> (refuse 401 ''invalid token'', g)
         | (Inr u, g) \<Rightarrow> nxt (Some u) r now g)"

definition gw_RequireRole :: "int \<Rightarrow> 'b gw_handler \<Rightarrow> 'b gw_handler" where
  "gw_RequireRole lvl nxt user r now g =
     (let token = bearerToken (hdr_get (rq_Header r) ''Authorization'')
      in if token = '''' then (refuse 401 ''unauthorized'', g)
         else case gw_validate token now g of
           (Inl _, g) \<Rightarrow> (refuse 401 ''invalid token'', g)
         | (Inr u, g) \<Rightarrow>
             if roleLevel (us_Role u) < lvl then (refuse 403 ''forbidden'', g) else nxt (Some u) r now g)"

text \<open>The token of a host agent: a bearer token or the header of its own.\<close>

definition caller_token :: "request \<Rightarrow> string" where
  "caller_token r =
     (let token = bearerToken (hdr_get (rq_Header r) ''Authorization'')
      in if token = '''' then hdr_get (rq_Header r) ''X-FreeCompute-Tunnel-Token'' else token)"

definition gw_requireTunnelToken :: "'b gw_handler \<Rightarrow> 'b gw_handler" where
  "gw_requireTunnelToken nxt user r now g =
     (let token = caller_token r
      in if gw_TunnelToken g \<noteq> '''' \<and> token = gw_TunnelToken g then nxt user r now g
         else case gw_validate token now g of
           (Inr u, g) \<Rightarrow> if RoleAdmin \<le> roleLevel (us_Role u) then nxt user r now g else (refuse 401 ''unauthorized'', g)
         | (Inl _, g) \<Rightarrow> (refuse 401 ''unauthorized'', g))"

definition sessionOwner :: "string \<Rightarrow> gateway \<Rightarrow> string option" where
  "sessionOwner sid g = (case sm_GetSession sid (gw_sessions g) of
     Inr p \<Rightarrow> Some (se_UserID (sm_session (gw_sessions g) p))
   | Inl _ \<Rightarrow> (case wr_GetSession sid (gw_webrtc g) of
       Inr p \<Rightarrow> Some (ws_ClientID (wr_at (gw_webrtc g) p))
     | Inl _ \<Rightarrow> None))"

definition sessionOwnerFromPath :: "string \<Rightarrow> string \<Rightarrow> gateway \<Rightarrow> string option" where
  "sessionOwnerFromPath path pre g =
     (let sid = path_id pre path in if sid = '''' then None else sessionOwner sid g)"

definition owns_or_admin :: "string \<Rightarrow> user \<Rightarrow> bool" where
  "owns_or_admin owner u \<longleftrightarrow> \<not> (owner \<noteq> us_ID u \<and> roleLevel (us_Role u) < RoleAdmin)"

definition gw_requireSessionOwner :: "string \<Rightarrow> 'b gw_handler \<Rightarrow> 'b gw_handler" where
  "gw_requireSessionOwner pre nxt = gw_RequireAuth (\<lambda>user r now g. case user of
     None \<Rightarrow> (refuse 401 ''unauthorized'', g)
   | Some u \<Rightarrow>
       (case sessionOwnerFromPath (rq_Path r) pre g of
          None \<Rightarrow> (refuse 404 ''session not found'', g)
        | Some owner \<Rightarrow> if owns_or_admin owner u then nxt user r now g else (refuse 403 ''forbidden'', g)))"

definition gw_requireSessionIngest :: "string \<Rightarrow> 'b gw_handler \<Rightarrow> 'b gw_handler" where
  "gw_requireSessionIngest pre nxt user r now g =
     (let token = caller_token r
      in if gw_TunnelToken g \<noteq> '''' \<and> token = gw_TunnelToken g then nxt user r now g
         else case gw_validate token now g of
           (Inl _, g) \<Rightarrow> (refuse 401 ''unauthorized'', g)
         | (Inr u, g) \<Rightarrow>
             (case sessionOwnerFromPath (rq_Path r) pre g of
                None \<Rightarrow> (refuse 404 ''session not found'', g)
              | Some owner \<Rightarrow> if owns_or_admin owner u then nxt (Some u) r now g else (refuse 403 ''forbidden'', g)))"

text \<open>The handlers of usage and storage find the caller's id in the query.\<close>

definition gw_injectUser :: "'b gw_handler \<Rightarrow> 'b gw_handler" where
  "gw_injectUser nxt = gw_RequireAuth (\<lambda>user r now g. case user of
     None \<Rightarrow> (refuse 401 ''unauthorized'', g)
   | Some u \<Rightarrow> nxt user (r\<lparr>rq_Query := filter (\<lambda>(k, vs). k \<noteq> ''userId'') (rq_Query r) @ [(''userId'', [us_ID u])]\<rparr>) now g)"

section \<open>Limits\<close>

definition clientIP :: "request \<Rightarrow> string" where
  "clientIP r =
     (let xff = hdr_get (rq_Header r) ''X-Forwarded-For''
      in if xff \<noteq> '''' then trim_space (hd (split_on (CHR '','') xff)) else hdr_get (rq_Header r) ''X-Real-IP'')"

definition rate_key :: "request \<Rightarrow> string" where
  "rate_key r = (let ip = clientIP r in if ip = '''' then rq_RemoteAddr r else ip)"

definition gw_rateLimitByIP :: "'b gw_handler \<Rightarrow> 'b gw_handler" where
  "gw_rateLimitByIP nxt user r now g =
     (let (ok, l) = rl_Allow (rate_key r) now (gw_limiter g); g = g\<lparr>gw_limiter := l\<rparr>
      in if \<not> ok then (refuse 429 ''rate limit exceeded'', g) else nxt user r now g)"

definition gw_rateLimitByUser :: "'b gw_handler \<Rightarrow> 'b gw_handler" where
  "gw_rateLimitByUser nxt user r now g = (case user of
     None \<Rightarrow> nxt user r now g
   | Some u \<Rightarrow>
       (let (ok, l) = rl_AllowUser (us_ID u) now (gw_limiter g); g = g\<lparr>gw_limiter := l\<rparr>
        in if \<not> ok then (refuse 429 ''rate limit exceeded'', g) else nxt user r now g))"

definition gw_rateLimitByIPAndUser :: "'b gw_handler \<Rightarrow> 'b gw_handler" where
  "gw_rateLimitByIPAndUser nxt = gw_rateLimitByIP (gw_rateLimitByUser nxt)"

definition int32 :: "int \<Rightarrow> int" where
  "int32 x = (x + 2 ^ 31) mod 2 ^ 32 - 2 ^ 31"

definition gw_incrementUserConns :: "string \<Rightarrow> gateway \<Rightarrow> bool \<times> gateway" where
  "gw_incrementUserConns uid g =
     (if uid = '''' then (True, g)
      else if gw_MaxConnsPerUser g \<le> 0 then (True, g)
      else
        let current = (case gw_userConns g uid of None \<Rightarrow> 0 | Some n \<Rightarrow> n)
        in if int32 (gw_MaxConnsPerUser g) \<le> current then (False, g)
           else (True, g\<lparr>gw_userConns := (gw_userConns g)(uid \<mapsto> int32 (current + 1))\<rparr>))"

definition gw_decrementUserConns :: "string \<Rightarrow> gateway \<Rightarrow> gateway" where
  "gw_decrementUserConns uid g =
     (if uid = '''' then g
      else case gw_userConns g uid of
        None \<Rightarrow> g
      | Some current \<Rightarrow>
          let newVal = int32 (current - 1)
          in if newVal \<le> 0 then g\<lparr>gw_userConns := (gw_userConns g)(uid := None)\<rparr>
             else g\<lparr>gw_userConns := (gw_userConns g)(uid \<mapsto> newVal)\<rparr>)"

section \<open>Headers of every answer\<close>

definition has_suffix :: "string \<Rightarrow> string \<Rightarrow> bool" where
  "has_suffix s suf \<longleftrightarrow> suf = drop (length s - length suf) s"

fun origin_of_hosts :: "string \<Rightarrow> string list \<Rightarrow> string" where
  "origin_of_hosts origin [] = ''''"
| "origin_of_hosts origin (host # hosts) =
     (if host = '''' then origin_of_hosts origin hosts
      else if origin = ''https://'' @ host \<or> origin = ''http://'' @ host then origin
      else if has_suffix origin (''.'' @ host) then origin
      else origin_of_hosts origin hosts)"

definition resolveAllowedOrigin :: "string \<Rightarrow> gateway \<Rightarrow> string" where
  "resolveAllowedOrigin origin g =
     (if origin = '''' then ''''
      else if has_prefix origin ''http://localhost:'' \<or> has_prefix origin ''http://127.0.0.1:'' \<or>
        has_prefix origin ''https://localhost:'' then origin
      else origin_of_hosts origin [gw_CDNHostname g, gw_EdgeHostname g, gw_APIHostname g])"

definition withCommonHeaders :: "gateway \<Rightarrow> (writer \<Rightarrow> writer) \<Rightarrow> request \<Rightarrow> writer \<Rightarrow> writer" where
  "withCommonHeaders g nxt r w =
     (let w = w_edit (hdr_set ''X-Content-Type-Options'' ''nosniff'') w;
          w = w_edit (hdr_set ''X-Frame-Options'' ''DENY'') w;
          w = w_edit (hdr_set ''Referrer-Policy'' ''no-referrer'') w;
          allowed = resolveAllowedOrigin (hdr_get (rq_Header r) ''Origin'') g;
          w = (if allowed \<noteq> '''' then
                 w_edit (hdr_set ''Vary'' ''Origin'')
                  (w_edit (hdr_set ''Access-Control-Allow-Credentials'' ''true'')
                    (w_edit (hdr_set ''Access-Control-Allow-Origin'' allowed) w))
               else w);
          w = w_edit (hdr_set ''Access-Control-Allow-Methods'' ''GET, POST, PUT, DELETE, OPTIONS, PATCH'') w;
          w = w_edit (hdr_set ''Access-Control-Allow-Headers''
                ''Content-Type, Authorization, X-FreeCompute-Tunnel-Token, X-Requested-With'') w;
          w = w_edit (hdr_set ''Access-Control-Max-Age'' ''86400'') w
      in if rq_Method r = ''OPTIONS'' then w_WriteHeader 204 w else nxt w)"

text \<open>The check of the tunnel token on a tunnel route; a nil route means the list of the routes.\<close>

definition gw_authorize :: "route_config option \<Rightarrow> request \<Rightarrow> gateway \<Rightarrow> bool" where
  "gw_authorize route r g =
     (if (case route of None \<Rightarrow> False | Some rt \<Rightarrow> \<not> rt_AuthRequired (gw_TunnelToken g) rt) then True
      else if gw_TunnelToken g = '''' then True
      else caller_token r = gw_TunnelToken g)"

definition routeIDFromPath :: "string \<Rightarrow> string \<Rightarrow> string \<times> string" where
  "routeIDFromPath pre path =
     (let trimmed = trim_prefix (trim_prefix path pre) ''/''
      in if trimmed = '''' then ('''', '''')
         else let i = takeWhile (\<lambda>c. c \<noteq> CHR ''/'') trimmed; rest = dropWhile (\<lambda>c. c \<noteq> CHR ''/'') trimmed
              in if rest = '''' then (i, '''') else (i, rest))"


section \<open>The table of routes\<close>

text \<open>What stands around a handler; the innermost is the last one.\<close>

datatype guard = Open | WithUser | Signed | SignedWithId | Role int | RoleOnly int | Owner string | Ingest string
  | AgentToken | RateIP guard | RateIPUser guard

fun behind :: "guard \<Rightarrow> 'b gw_handler \<Rightarrow> 'b gw_handler" where
  "behind Open nxt = nxt"
| "behind WithUser nxt = gw_AuthMiddleware nxt"
| "behind Signed nxt = gw_RequireAuth nxt"
| "behind SignedWithId nxt = gw_injectUser nxt"
| "behind (Role lvl) nxt = gw_RequireAuth (gw_RequireRole lvl nxt)"
| "behind (RoleOnly lvl) nxt = gw_RequireRole lvl nxt"
| "behind (Owner pre) nxt = gw_requireSessionOwner pre nxt"
| "behind (Ingest pre) nxt = gw_requireSessionIngest pre nxt"
| "behind AgentToken nxt = gw_requireTunnelToken nxt"
| "behind (RateIP gd) nxt = gw_rateLimitByIP (behind gd nxt)"
| "behind (RateIPUser gd) nxt = gw_rateLimitByIPAndUser (behind gd nxt)"

abbreviation "ModRole \<equiv> Role RoleModerator"
abbreviation "AdminRole \<equiv> Role RoleAdmin"

text \<open>The patterns in the order in which they are registered.\<close>

definition gateway_routes :: "bool \<Rightarrow> (string \<times> guard) list" where
  "gateway_routes speedtest =
   [(''/'', Open), (''/healthz'', Open), (''/capabilities'', Open), (''/routes'', Signed),
    (''/proxy/'', RateIPUser Open), (''/browsing/modes'', Open), (''/connect/'', RateIPUser Open), (''/ssh/'', Open),
    (''/ws/'', RateIPUser Open), (''/agent/'', Open), (''/signal/'', Open), (''/webrtc/'', RateIPUser WithUser),
    (''/sessions'', WithUser), (''/sessions/'', WithUser), (''/input/'', Owner ''/input/''), (''/audio/'', Owner ''/audio/''),
    (''/transfer/'', Signed), (''/clipboard/'', Owner ''/clipboard/''), (''/gaming/'', Owner ''/gaming/''),
    (''/media/'', Ingest ''/media/''), (''/data/'', Ingest ''/data/''), (''/keyframe/'', Owner ''/keyframe/''),
    (''/tailscale/register'', AgentToken), (''/tailscale/hosts'', Signed), (''/tailscale/user'', Signed),
    (''/tailscale/proxy'', AgentToken), (''/hosts/'', Open), (''/hosts/register'', AgentToken), (''/hosts/metrics'', AgentToken),
    (''/admin/dashboard'', ModRole), (''/admin/health'', ModRole), (''/admin/users'', ModRole),
    (''/admin/users/delete'', AdminRole), (''/admin/threats'', ModRole), (''/admin/threats/review'', ModRole),
    (''/admin/vm/pause'', ModRole), (''/admin/vm/resume'', ModRole), (''/admin/settings'', AdminRole),
    (''/admin/auto-detect'', AdminRole), (''/security/metrics'', AdminRole), (''/security/process'', AdminRole),
    (''/security/stats'', AdminRole), (''/auth/preferences'', RateIP Signed), (''/auth/personalization/sync-request'', Signed),
    (''/admin/personalization/sync-approve'', ModRole), (''/admin/role'', AdminRole), (''/reports'', Signed),
    (''/reports/list'', RoleOnly RoleModerator), (''/reports/action'', RoleOnly RoleModerator),
    (''/auth/register'', RateIP Open), (''/auth/login'', RateIP Open), (''/auth/profile'', Signed),
    (''/auth/tailscale-ip'', Signed), (''/metrics'', Open), (''/health/detail'', Open), (''/images'', Signed),
    (''/images/'', Signed), (''/snapshots'', Signed), (''/snapshots/'', Signed), (''/keys'', Signed), (''/keys/'', Signed),
    (''/prewarm'', Open)] @
   (if speedtest then [(''/api/v1/speedtest'', Signed)] else []) @
   [(''/sessions/recordings'', AdminRole), (''/sessions/recordings/'', AdminRole), (''/firewall/rules'', ModRole),
    (''/firewall/rules/'', ModRole), (''/firewall/groups'', ModRole), (''/firewall/assign'', ModRole),
    (''/usage'', SignedWithId), (''/quota'', SignedWithId), (''/invoice'', SignedWithId), (''/storage/list'', SignedWithId),
    (''/storage/upload'', SignedWithId), (''/storage/download'', SignedWithId), (''/storage/delete'', SignedWithId)]"

text \<open>
  \<open>http.ServeMux\<close> on a clean path: a pattern with a final slash stands for everything below it, another one
  for itself, and the longest pattern that matches wins.
\<close>

definition mux_match :: "string \<Rightarrow> string \<Rightarrow> bool" where
  "mux_match path pat = (if has_suffix pat ''/'' then has_prefix path pat else path = pat)"

fun mux_find :: "string \<Rightarrow> (string \<times> guard) list \<Rightarrow> (string \<times> guard) option" where
  "mux_find path [] = None"
| "mux_find path ((pat, gd) # rs) =
     (case mux_find path rs of
        None \<Rightarrow> if mux_match path pat then Some (pat, gd) else None
      | Some (pat', gd') \<Rightarrow> if mux_match path pat \<and> length pat' < length pat then Some (pat, gd) else Some (pat', gd'))"

section \<open>Who enters a handler\<close>

text \<open>A handler that reports the user it finds in the context.\<close>

definition probe :: "user option gw_handler" where
  "probe user r now g = (Answer 200 (AuthOk user), g)"

definition enters :: "guard \<Rightarrow> request \<Rightarrow> time \<Rightarrow> gateway \<Rightarrow> user option \<Rightarrow> bool" where
  "enters gd r now g user \<longleftrightarrow> ans_body (fst (behind gd probe None r now g)) = AuthOk user"

text \<open>A live token, issued to the user by a registration or a login, for an account that exists.\<close>

definition signed_in :: "(string \<times> string \<times> time) list \<Rightarrow> string \<Rightarrow> time \<Rightarrow> gateway \<Rightarrow> user \<Rightarrow> bool" where
  "signed_in issued token now g u \<longleftrightarrow>
     (\<exists>e. (token, us_ID u, e) \<in> set issued \<and> now \<le> e) \<and> am_users (gw_auth g) (us_ID u) = Some u"

text \<open>What a guard promises, in terms of tokens, roles and sessions.\<close>

abbreviation bearer_of :: "request \<Rightarrow> string" where
  "bearer_of r \<equiv> bearerToken (hdr_get (rq_Header r) ''Authorization'')"

definition agent_call :: "request \<Rightarrow> gateway \<Rightarrow> bool" where
  "agent_call r g \<longleftrightarrow> gw_TunnelToken g \<noteq> '''' \<and> caller_token r = gw_TunnelToken g"

fun promises :: "guard \<Rightarrow> (string \<times> string \<times> time) list \<Rightarrow> request \<Rightarrow> time \<Rightarrow> gateway \<Rightarrow> user option \<Rightarrow> bool" where
  "promises Open issued r now g user \<longleftrightarrow> user = None"
| "promises WithUser issued r now g user \<longleftrightarrow> (case user of None \<Rightarrow> True | Some u \<Rightarrow> signed_in issued (bearer_of r) now g u)"
| "promises Signed issued r now g user \<longleftrightarrow> (\<exists>u. user = Some u \<and> signed_in issued (bearer_of r) now g u)"
| "promises SignedWithId issued r now g user \<longleftrightarrow> (\<exists>u. user = Some u \<and> signed_in issued (bearer_of r) now g u)"
| "promises (Role lvl) issued r now g user \<longleftrightarrow>
     (\<exists>u. user = Some u \<and> signed_in issued (bearer_of r) now g u \<and> lvl \<le> roleLevel (us_Role u))"
| "promises (RoleOnly lvl) issued r now g user \<longleftrightarrow>
     (\<exists>u. user = Some u \<and> signed_in issued (bearer_of r) now g u \<and> lvl \<le> roleLevel (us_Role u))"
| "promises (Owner pre) issued r now g user \<longleftrightarrow>
     (\<exists>u owner. user = Some u \<and> signed_in issued (bearer_of r) now g u \<and>
       sessionOwnerFromPath (rq_Path r) pre g = Some owner \<and> (owner = us_ID u \<or> RoleAdmin \<le> roleLevel (us_Role u)))"
| "promises (Ingest pre) issued r now g user \<longleftrightarrow>
     agent_call r g \<and> user = None \<or>
     (\<exists>u owner. user = Some u \<and> signed_in issued (caller_token r) now g u \<and>
       sessionOwnerFromPath (rq_Path r) pre g = Some owner \<and> (owner = us_ID u \<or> RoleAdmin \<le> roleLevel (us_Role u)))"
| "promises AgentToken issued r now g user \<longleftrightarrow>
     user = None \<and> (agent_call r g \<or> (\<exists>u. signed_in issued (caller_token r) now g u \<and> RoleAdmin \<le> roleLevel (us_Role u)))"
| "promises (RateIP gd) issued r now g user \<longleftrightarrow> promises gd issued r now g user"
| "promises (RateIPUser gd) issued r now g user \<longleftrightarrow> promises gd issued r now g user"


abbreviation gw_reached ::
  "(nat list \<Rightarrow> string \<Rightarrow> nat list) \<Rightarrow> (string \<Rightarrow> string \<Rightarrow> bool) \<Rightarrow> nat list \<Rightarrow> users_table option \<Rightarrow> au_call list \<Rightarrow>
     (string \<times> string \<times> time) list \<Rightarrow> gateway \<Rightarrow> bool" where
  "gw_reached mac check secret db cs issued g \<equiv> au_run mac check secret db cs = (issued, gw_auth g)"

lemma validate_users: "am_users (snd (am_ValidateToken tok now m)) = am_users m"
  by (simp add: am_ValidateToken_def Let_def split: option.split)

lemma gw_validate_sel [simp]:
  "gw_sessions (snd (gw_validate tok now g)) = gw_sessions g" "gw_webrtc (snd (gw_validate tok now g)) = gw_webrtc g"
  "gw_TunnelToken (snd (gw_validate tok now g)) = gw_TunnelToken g"
  "am_users (gw_auth (snd (gw_validate tok now g))) = am_users (gw_auth g)"
  by (simp_all add: gw_validate_def split_beta validate_users)

lemma owner_cong:
  "gw_sessions g' = gw_sessions g \<Longrightarrow> gw_webrtc g' = gw_webrtc g \<Longrightarrow>
    sessionOwnerFromPath path pre g' = sessionOwnerFromPath path pre g"
  unfolding sessionOwnerFromPath_def sessionOwner_def by presburger

lemma owner_validate [simp]: "sessionOwnerFromPath path pre (snd (gw_validate tok now g)) = sessionOwnerFromPath path pre g"
  by (rule owner_cong) simp_all

lemma signed_in_validate [simp]: "signed_in issued tok now (snd (gw_validate tok' now' g)) u = signed_in issued tok now g u"
  by (simp add: signed_in_def)

lemma gw_validate_reached:
  assumes "gw_reached mac check secret db cs issued g"
  shows "gw_reached mac check secret db (cs @ [AuValidate tok now]) issued (snd (gw_validate tok now g))"
  using assms by (simp add: gw_validate_def au_step_def au_exec_def split_beta)

lemma gw_validate_signed:
  assumes "gw_reached mac check secret db cs issued g" "fst (gw_validate tok now g) = Inr u"
  shows "signed_in issued tok now g u"
proof -
  have "fst (am_ValidateToken tok now (gw_auth g)) = Inr u" using assms(2) by (simp add: gw_validate_def split_beta)
  from au_token_issued [OF assms(1) this] show ?thesis by (simp add: signed_in_def)
qed

lemma owns_or_admin_iff: "owns_or_admin owner u \<longleftrightarrow> owner = us_ID u \<or> RoleAdmin \<le> roleLevel (us_Role u)"
  by (auto simp: owns_or_admin_def)

lemma RequireAuth_enters:
  assumes "gw_reached mac check secret db cs issued g"
    and "ans_body (fst (gw_RequireAuth nxt user r now g)) = AuthOk x"
  obtains u cs' g' where "signed_in issued (bearer_of r) now g u" "gw_reached mac check secret db cs' issued g'"
    "g' = snd (gw_validate (bearer_of r) now g)" "ans_body (fst (nxt (Some u) r now g')) = AuthOk x"
proof -
  obtain res g' where v: "gw_validate (bearer_of r) now g = (res, g')" by fastforce
  with assms(2) obtain u where u: "res = Inr u" "ans_body (fst (nxt (Some u) r now g')) = AuthOk x"
    by (auto simp: gw_RequireAuth_def Let_def split: if_splits sum.splits)
  show thesis
    by (rule that [OF gw_validate_signed [OF assms(1)] gw_validate_reached [OF assms(1), of "bearer_of r" now] refl])
      (use u v in simp_all)
qed

lemma RequireRole_enters:
  assumes "gw_reached mac check secret db cs issued g"
    and "ans_body (fst (gw_RequireRole lvl probe user r now g)) = AuthOk x"
  shows "\<exists>u. x = Some u \<and> signed_in issued (bearer_of r) now g u \<and> lvl \<le> roleLevel (us_Role u)"
proof -
  obtain res g' where v: "gw_validate (bearer_of r) now g = (res, g')" by fastforce
  with assms(2) obtain u where u: "res = Inr u" "lvl \<le> roleLevel (us_Role u)" "x = Some u"
    by (auto simp: gw_RequireRole_def Let_def probe_def split: if_splits sum.splits)
  with gw_validate_signed [OF assms(1), of "bearer_of r" now u] v show ?thesis by simp
qed

lemma Ingest_enters:
  assumes "gw_reached mac check secret db cs issued g" "\<not> agent_call r g"
    and "ans_body (fst (gw_requireSessionIngest pre probe user r now g)) = AuthOk x"
  shows "\<exists>u owner. x = Some u \<and> signed_in issued (caller_token r) now g u \<and>
    sessionOwnerFromPath (rq_Path r) pre g = Some owner \<and> (owner = us_ID u \<or> RoleAdmin \<le> roleLevel (us_Role u))"
proof -
  obtain res g' where v: "gw_validate (caller_token r) now g = (res, g')" by fastforce
  have g': "sessionOwnerFromPath (rq_Path r) pre g' = sessionOwnerFromPath (rq_Path r) pre g"
    using owner_validate [of "rq_Path r" pre "caller_token r" now g] by (simp add: v)
  from assms(2,3) v obtain u where u: "res = Inr u"
    by (cases res) (auto simp: gw_requireSessionIngest_def Let_def agent_call_def)
  have "signed_in issued (caller_token r) now g u" by (rule gw_validate_signed [OF assms(1)]) (simp add: v u)
  moreover have "\<exists>owner. x = Some u \<and> sessionOwnerFromPath (rq_Path r) pre g = Some owner \<and> owns_or_admin owner u"
    using assms(2,3) unfolding gw_requireSessionIngest_def agent_call_def Let_def v u
    by (cases "sessionOwnerFromPath (rq_Path r) pre g") (auto simp: g' probe_def split: if_splits)
  ultimately show ?thesis by (auto simp: owns_or_admin_iff)
qed

lemma AgentToken_enters:
  assumes "gw_reached mac check secret db cs issued g" "\<not> agent_call r g"
    and "ans_body (fst (gw_requireTunnelToken probe user r now g)) = AuthOk x"
  shows "x = user \<and> (\<exists>u. signed_in issued (caller_token r) now g u \<and> RoleAdmin \<le> roleLevel (us_Role u))"
proof -
  obtain res g' where v: "gw_validate (caller_token r) now g = (res, g')" by fastforce
  from assms(2,3) v obtain u where u: "res = Inr u"
    by (cases res) (auto simp: gw_requireTunnelToken_def Let_def agent_call_def)
  have "signed_in issued (caller_token r) now g u" by (rule gw_validate_signed [OF assms(1)]) (simp add: v u)
  moreover have "x = user \<and> RoleAdmin \<le> roleLevel (us_Role u)"
    using assms(2,3) unfolding gw_requireTunnelToken_def agent_call_def Let_def v u
    by (auto simp: probe_def split: if_splits)
  ultimately show ?thesis by blast
qed

lemma promises_limiter [simp]: "promises gd issued r now (g\<lparr>gw_limiter := l\<rparr>) user = promises gd issued r now g user"
proof -
  have "signed_in issued tok now (g\<lparr>gw_limiter := l\<rparr>) u = signed_in issued tok now g u" for tok u
    by (simp add: signed_in_def)
  moreover have "sessionOwnerFromPath path pre (g\<lparr>gw_limiter := l\<rparr>) = sessionOwnerFromPath path pre g" for path pre
    by (rule owner_cong) simp_all
  ultimately show ?thesis by (induction gd) (simp_all add: agent_call_def split: option.split)
qed

text \<open>Every guard keeps its promise in every run of the account manager.\<close>

lemma guards_sound:
  "gw_reached mac check secret db cs issued g \<Longrightarrow> enters gd r now g user \<Longrightarrow> promises gd issued r now g user"
proof (induction gd arbitrary: g)
  case Open
  then show ?case by (simp add: enters_def probe_def)
next
  case WithUser
  obtain res g' where v: "gw_validate (bearer_of r) now g = (res, g')" by fastforce
  with WithUser(2) gw_validate_signed [OF WithUser(1), of "bearer_of r" now] show ?case
    by (cases res) (auto simp: enters_def gw_AuthMiddleware_def Let_def probe_def split: if_splits)
next
  case Signed
  from Signed(2) have "ans_body (fst (gw_RequireAuth probe None r now g)) = AuthOk user" by (simp add: enters_def)
  from RequireAuth_enters [OF Signed(1) this] show ?case by (auto simp: probe_def)
next
  case SignedWithId
  from SignedWithId(2) have "ans_body (fst (gw_injectUser probe None r now g)) = AuthOk user" by (simp add: enters_def)
  from RequireAuth_enters [OF SignedWithId(1) this [unfolded gw_injectUser_def]] show ?case by (auto simp: probe_def)
next
  case (Role lvl)
  from Role(2) have "ans_body (fst (gw_RequireAuth (gw_RequireRole lvl probe) None r now g)) = AuthOk user"
    by (simp add: enters_def)
  from RequireAuth_enters [OF Role(1) this] obtain u cs' where
    "gw_reached mac check secret db cs' issued (snd (gw_validate (bearer_of r) now g))"
    "ans_body (fst (gw_RequireRole lvl probe (Some u) r now (snd (gw_validate (bearer_of r) now g)))) = AuthOk user"
    by metis
  from RequireRole_enters [OF this] show ?case by simp
next
  case (RoleOnly lvl)
  from RoleOnly(2) have "ans_body (fst (gw_RequireRole lvl probe None r now g)) = AuthOk user" by (simp add: enters_def)
  from RequireRole_enters [OF RoleOnly(1) this] show ?case by simp
next
  case (Owner pre)
  from Owner(2) have "ans_body (fst (gw_requireSessionOwner pre probe None r now g)) = AuthOk user"
    by (simp add: enters_def)
  then obtain u g' where u: "signed_in issued (bearer_of r) now g u" "g' = snd (gw_validate (bearer_of r) now g)" and
    e: "ans_body (fst (case sessionOwnerFromPath (rq_Path r) pre g' of
       None \<Rightarrow> (refuse 404 ''session not found'', g')
     | Some owner \<Rightarrow> if owns_or_admin owner u then probe (Some u) r now g' else (refuse 403 ''forbidden'', g'))) = AuthOk user"
    unfolding gw_requireSessionOwner_def by (rule RequireAuth_enters [OF Owner(1)]) simp
  have "sessionOwnerFromPath (rq_Path r) pre g' = sessionOwnerFromPath (rq_Path r) pre g" using u(2) by simp
  with u(1) e show ?case
    by (cases "sessionOwnerFromPath (rq_Path r) pre g") (auto simp: probe_def owns_or_admin_iff split: if_splits)
next
  case (Ingest pre)
  show ?case
  proof (cases "agent_call r g")
    case True
    with Ingest(2) show ?thesis
      by (simp add: enters_def gw_requireSessionIngest_def Let_def agent_call_def probe_def)
  next
    case False
    from Ingest_enters [OF Ingest(1) this] Ingest(2) show ?thesis by (simp add: enters_def)
  qed
next
  case AgentToken
  show ?case
  proof (cases "agent_call r g")
    case True
    with AgentToken(2) show ?thesis
      by (simp add: enters_def gw_requireTunnelToken_def Let_def agent_call_def probe_def)
  next
    case False
    from AgentToken_enters [OF AgentToken(1) this] AgentToken(2) show ?thesis by (simp add: enters_def)
  qed
next
  case (RateIP gd)
  obtain ok l where a: "rl_Allow (rate_key r) now (gw_limiter g) = (ok, l)" by fastforce
  with RateIP.prems(2) have "enters gd r now (g\<lparr>gw_limiter := l\<rparr>) user"
    by (auto simp: enters_def gw_rateLimitByIP_def Let_def split: if_splits)
  then show ?case using RateIP.IH [of "g\<lparr>gw_limiter := l\<rparr>"] RateIP.prems(1) by simp
next
  case (RateIPUser gd)
  obtain ok l where a: "rl_Allow (rate_key r) now (gw_limiter g) = (ok, l)" by fastforce
  with RateIPUser.prems(2) have "enters gd r now (g\<lparr>gw_limiter := l\<rparr>) user"
    by (auto simp: enters_def gw_rateLimitByIPAndUser_def gw_rateLimitByIP_def gw_rateLimitByUser_def Let_def split: if_splits)
  then show ?case using RateIPUser.IH [of "g\<lparr>gw_limiter := l\<rparr>"] RateIPUser.prems(1) by simp
qed


section \<open>What the table promises\<close>

lemma mux_find_best:
  "mux_find path rs = Some (pat, gd) \<Longrightarrow>
    (pat, gd) \<in> set rs \<and> mux_match path pat \<and> (\<forall>(pat', gd') \<in> set rs. mux_match path pat' \<longrightarrow> length pat' \<le> length pat)"
proof (induction path rs arbitrary: pat gd rule: mux_find.induct)
  case (2 path p g rs)
  show ?case
  proof (cases "mux_find path rs")
    case None
    have "\<not> mux_match path pat'" if "(pat', gd') \<in> set rs" for pat' gd'
      using None that by (induction path rs rule: mux_find.induct) (auto split: option.splits if_splits)
    with None 2(2) show ?thesis by (auto split: if_splits)
  next
    case (Some x)
    then obtain p' g' where x: "mux_find path rs = Some (p', g')" by (cases x) simp
    from 2(1) [OF this] 2(2) x show ?thesis by (auto split: if_splits)
  qed
qed simp

text \<open>Whether a pattern can match a path below a prefix.\<close>

definition can_match :: "string \<Rightarrow> string \<Rightarrow> bool" where
  "can_match pre pat \<longleftrightarrow> has_prefix pat pre \<or> has_suffix pat ''/'' \<and> has_prefix pre pat"

lemma prefixes_comparable: "has_prefix s a \<Longrightarrow> has_prefix s b \<Longrightarrow> has_prefix a b \<or> has_prefix b a"
  by (auto simp: has_prefix_iff append_eq_append_conv2)

lemma match_below: "mux_match path pat \<Longrightarrow> has_prefix path pre \<Longrightarrow> can_match pre pat"
  using prefixes_comparable [of path pat pre] by (auto simp: mux_match_def can_match_def split: if_splits)

fun role_of :: "guard \<Rightarrow> int" where
  "role_of (Role lvl) = lvl"
| "role_of (RoleOnly lvl) = lvl"
| "role_of gd = -1"

definition staff_areas :: "string list" where
  "staff_areas = [''/admin/'', ''/firewall/'', ''/security/'', ''/sessions/recordings/'']"

definition session_areas :: "string list" where
  "session_areas = [''/input/'', ''/audio/'', ''/clipboard/'', ''/gaming/'', ''/keyframe/'', ''/media/'', ''/data/'']"

definition tunnel_areas :: "string list" where
  "tunnel_areas = [''/proxy/'', ''/connect/'', ''/ssh/'', ''/ws/'', ''/agent/'']"

lemma staff_table:
  "list_all (\<lambda>pre. list_all (\<lambda>(pat, gd). can_match pre pat \<longrightarrow> pat = ''/'' \<or> RoleModerator \<le> role_of gd \<or>
     pre = ''/sessions/recordings/'' \<and> pat = ''/sessions/'') (gateway_routes sp)) staff_areas"
  by (cases sp) (simp_all, code_simp+)

lemma session_table:
  "list_all (\<lambda>pre. list_all (\<lambda>(pat, gd). can_match pre pat \<longrightarrow> pat = ''/'' \<or>
     pat = pre \<and> (gd = Owner pre \<or> gd = Ingest pre \<and> (pre = ''/media/'' \<or> pre = ''/data/''))) (gateway_routes sp)) session_areas"
  by (cases sp) (simp_all, code_simp+)

lemma session_listed:
  "list_all (\<lambda>pre. has_suffix pre ''/'' \<and> 1 < length pre \<and> pre \<in> set (map fst (gateway_routes sp))) session_areas"
  by (cases sp) (simp_all, code_simp+)

lemma tunnel_table:
  "list_all (\<lambda>pre. list_all (\<lambda>(pat, gd). can_match pre pat \<longrightarrow> gd = Open \<or> gd = RateIPUser Open)
     (gateway_routes sp)) tunnel_areas"
  by (cases sp) (simp_all, code_simp+)


lemma table_entry:
  assumes "list_all (\<lambda>pre. list_all (\<lambda>(pat, gd). can_match pre pat \<longrightarrow> P pre pat gd) rs) areas"
    and "pre \<in> set areas" "has_prefix path pre" "mux_find path rs = Some (pat, gd)"
  shows "P pre pat gd"
proof -
  have m: "(pat, gd) \<in> set rs" "mux_match path pat" using mux_find_best [OF assms(4)] by auto
  have "list_all (\<lambda>(pat, gd). can_match pre pat \<longrightarrow> P pre pat gd) rs" using assms(1,2) by (auto simp: list_all_iff)
  with m(1) have "can_match pre pat \<longrightarrow> P pre pat gd" by (auto simp: list_all_iff)
  then show ?thesis using match_below [OF m(2) assms(3)] by blast
qed

lemma longest:
  assumes "pre \<in> set (map fst (gateway_routes sp))" "has_suffix pre ''/''" "has_prefix path pre"
    and "mux_find path (gateway_routes sp) = Some (pat, gd)"
  shows "length pre \<le> length pat"
proof -
  have "mux_match path pre" using assms(2,3) by (simp add: mux_match_def)
  with mux_find_best [OF assms(4)] assms(1) show ?thesis by fastforce
qed

lemma longest_recordings:
  "has_prefix path ''/sessions/recordings/'' \<Longrightarrow> mux_find path (gateway_routes sp) = Some (pat, gd) \<Longrightarrow> pat \<noteq> ''/sessions/''"
proof
  assume p: "has_prefix path ''/sessions/recordings/''" and f: "mux_find path (gateway_routes sp) = Some (pat, gd)"
    and "pat = ''/sessions/''"
  moreover have "''/sessions/recordings/'' \<in> set (map fst (gateway_routes sp))" by (simp add: gateway_routes_def)
  moreover have "has_suffix ''/sessions/recordings/'' ''/''" by code_simp
  ultimately have "length ''/sessions/recordings/'' \<le> length ''/sessions/''" using longest [OF _ _ p f] by blast
  then show False by simp
qed

text \<open>Below the area of a session the router finds that area's handler.\<close>

lemma session_route:
  assumes "pre \<in> set session_areas" "has_prefix path pre" "mux_find path (gateway_routes sp) = Some (pat, gd)"
  shows "pat = pre \<and> (gd = Owner pre \<or> gd = Ingest pre \<and> (pre = ''/media/'' \<or> pre = ''/data/''))"
proof -
  have l: "has_suffix pre ''/''" "1 < length pre" "pre \<in> set (map fst (gateway_routes sp))"
    using session_listed [of sp] assms(1) by (simp_all only: list_all_iff)
  have "length pre \<le> length pat" by (rule longest [OF l(3,1) assms(2,3)])
  with l(2) have "pat \<noteq> ''/''" by auto
  with table_entry [OF session_table assms] show ?thesis by blast
qed

text \<open>
  C9: The staff areas are closed. For every path under /admin/, /firewall/, /security/ and
  /sessions/recordings/ the router picks the redirect of the root or a handler that is entered only with a
  bearer token which a registration or login issued to an account that exists, whose expiry has not
  passed, and whose role is moderator or higher, in every run of the account manager.
\<close>

theorem gateway_staff_areas_closed:
  assumes "gw_reached mac check secret db cs issued g"
    and "pre \<in> set staff_areas" "has_prefix path pre" "mux_find path (gateway_routes sp) = Some (pat, gd)"
    and "enters gd r now g user"
  shows "pat = ''/'' \<or> (\<exists>u. user = Some u \<and> signed_in issued (bearer_of r) now g u \<and> RoleModerator \<le> roleLevel (us_Role u))"
proof -
  have "pat = ''/'' \<or> RoleModerator \<le> role_of gd \<or> pre = ''/sessions/recordings/'' \<and> pat = ''/sessions/''"
    by (rule table_entry [OF staff_table assms(2-4)])
  then have "pat = ''/'' \<or> RoleModerator \<le> role_of gd" using longest_recordings assms(3,4) by blast
  then show ?thesis
  proof
    assume role: "RoleModerator \<le> role_of gd"
    with guards_sound [OF assms(1,5)] show ?thesis by (cases gd) (auto simp: RoleModerator_def)
  qed simp
qed

text \<open>
  C8: A session is reached only by its owner. For every path under the areas of a session (input, audio,
  clipboard, gaming, keyframes, media, data) the handler that the router picks is entered only by the
  account to which the session belongs or by an administrator, with a live token issued to that account,
  or, for media and data, by a host agent with the configured token; in every run of the account manager.
\<close>

theorem gateway_session_areas_owned:
  assumes "gw_reached mac check secret db cs issued g"
    and "pre \<in> set session_areas" "has_prefix path pre" "mux_find path (gateway_routes sp) = Some (pat, gd)"
    and "enters gd r now g user" "rq_Path r = path"
  shows "agent_call r g \<and> pre \<in> {''/media/'', ''/data/''} \<or>
    (\<exists>u owner. user = Some u \<and> signed_in issued (caller_token r) now g u \<and>
      sessionOwner (path_id pre path) g = Some owner \<and> (owner = us_ID u \<or> RoleAdmin \<le> roleLevel (us_Role u)))"
proof -
  have gd: "gd = Owner pre \<or> gd = Ingest pre \<and> (pre = ''/media/'' \<or> pre = ''/data/'')"
    using session_route [OF assms(2-4)] by blast
  have b: "signed_in issued (caller_token r) now g u" if "signed_in issued (bearer_of r) now g u" "bearer_of r \<noteq> ''''" for u
    using that by (simp add: caller_token_def Let_def)
  have own: "bearer_of r \<noteq> ''''" if "gd = Owner pre"
    using assms(5) that by (auto simp: enters_def gw_requireSessionOwner_def gw_RequireAuth_def)
  have o: "sessionOwner (path_id pre path) g = Some owner" if "sessionOwnerFromPath path pre g = Some owner" for owner
    using that by (simp add: sessionOwnerFromPath_def Let_def split: if_splits)
  from gd show ?thesis
  proof (elim disjE conjE)
    assume "gd = Owner pre"
    with guards_sound [OF assms(1,5)] own b o assms(6) show ?thesis by auto
  next
    assume "gd = Ingest pre" "pre = ''/media/''"
    with guards_sound [OF assms(1,5)] o assms(6) show ?thesis by auto
  next
    assume "gd = Ingest pre" "pre = ''/data/''"
    with guards_sound [OF assms(1,5)] o assms(6) show ?thesis by auto
  qed
qed

text \<open>
  The limit of connections per user never applies. Every handler that opens a tunnel (proxy, connect,
  ssh, websocket and agent) counts the connection only for the user in the context of the request, and the
  routes put none there, whatever token the request carries.
\<close>

theorem gateway_tunnels_anonymous:
  assumes "pre \<in> set tunnel_areas" "has_prefix path pre" "mux_find path (gateway_routes sp) = Some (pat, gd)"
    and "enters gd r now g user"
  shows "user = None"
proof -
  have "gd = Open \<or> gd = RateIPUser Open" by (rule table_entry [OF tunnel_table assms(1-3)])
  with assms(4) show ?thesis
    by (auto simp: enters_def gw_rateLimitByIPAndUser_def gw_rateLimitByIP_def gw_rateLimitByUser_def probe_def Let_def
        split: prod.splits if_splits)
qed


section \<open>The limits\<close>

definition with_xff :: "string \<Rightarrow> request \<Rightarrow> request" where
  "with_xff v r = r\<lparr>rq_Header := hdr_set ''X-Forwarded-For'' v (rq_Header r)\<rparr>"

text \<open>Whether the requests, one after the other at one time, get past the limit.\<close>

fun rate_run :: "request list \<Rightarrow> time \<Rightarrow> gateway \<Rightarrow> bool list" where
  "rate_run [] now g = []"
| "rate_run (r # rs) now g =
     (let (a, g') = behind (RateIP Open) probe None r now g in (ans_status a \<noteq> 429) # rate_run rs now g')"

lemma rate_key_xff:
  assumes "v \<noteq> ''''" "CHR '','' \<notin> set v" "trim_space v = v"
  shows "rate_key (with_xff v r) = v"
proof -
  have "canonical_key ''X-Forwarded-For'' = ''X-Forwarded-For''" by code_simp
  then have "hdr_get (rq_Header (with_xff v r)) ''X-Forwarded-For'' = v"
    by (simp add: with_xff_def hdr_set_def hdr_get_def)
  with assms show ?thesis by (simp add: rate_key_def clientIP_def Let_def split_on_plain)
qed

lemma fresh_key_passes:
  "1 \<le> li_burst l \<Longrightarrow> li_items l k = None \<Longrightarrow>
    rl_Allow k now l = (True, l\<lparr>li_items := (li_items l)(k \<mapsto> \<lparr>tb_tokens = li_burst l - 1, tb_lastSeen = now\<rparr>)\<rparr>)"
  by (simp add: rl_Allow_def rl_addToken_def Let_def seconds_def)

text \<open>
  The limit on logins and registrations counts what the client claims. The key of the bucket is the
  X-Forwarded-For header as sent, so any number of requests at the same instant pass, as long as each
  names another address that has not been used.
\<close>

theorem gateway_rate_limit_by_claim:
  assumes "1 \<le> li_burst (gw_limiter g)" "distinct vs"
    and "\<forall>v \<in> set vs. v \<noteq> '''' \<and> CHR '','' \<notin> set v \<and> trim_space v = v \<and> li_items (gw_limiter g) v = None"
  shows "rate_run (map (\<lambda>v. with_xff v r) vs) now g = replicate (length vs) True"
  using assms
proof (induction vs arbitrary: g)
  case (Cons v vs)
  define l where "l = (gw_limiter g)\<lparr>li_items := (li_items (gw_limiter g))(v \<mapsto>
      \<lparr>tb_tokens = li_burst (gw_limiter g) - 1, tb_lastSeen = now\<rparr>)\<rparr>"
  have "rl_Allow (rate_key (with_xff v r)) now (gw_limiter g) = (True, l)"
    using Cons.prems fresh_key_passes [of "gw_limiter g" v now] by (simp add: rate_key_xff l_def)
  then have "behind (RateIP Open) probe None (with_xff v r) now g = (Answer 200 (AuthOk None), g\<lparr>gw_limiter := l\<rparr>)"
    by (simp add: gw_rateLimitByIP_def Let_def probe_def)
  moreover have "rate_run (map (\<lambda>v. with_xff v r) vs) now (g\<lparr>gw_limiter := l\<rparr>) = replicate (length vs) True"
    using Cons.prems by (intro Cons.IH) (auto simp: l_def)
  ultimately show ?case by simp
qed simp

text \<open>
  A user's connections are counted within the limit: the counts of the table are positive, and never above
  it as long as it is a 32-bit number.
\<close>

definition conns_ok :: "gateway \<Rightarrow> bool" where
  "conns_ok g \<longleftrightarrow> 0 < gw_MaxConnsPerUser g \<and> gw_MaxConnsPerUser g < 2 ^ 31 \<and>
     (\<forall>uid n. gw_userConns g uid = Some n \<longrightarrow> 0 < n \<and> n \<le> gw_MaxConnsPerUser g)"

lemma int32_same: "- (2 ^ 31) \<le> x \<Longrightarrow> x < 2 ^ 31 \<Longrightarrow> int32 x = x"
  by (simp add: int32_def)

lemma conns_increment:
  assumes "conns_ok g"
  shows "conns_ok (snd (gw_incrementUserConns uid g))"
proof -
  define n where "n = (case gw_userConns g uid of None \<Rightarrow> 0 | Some n \<Rightarrow> n)"
  have n: "0 \<le> n" "n \<le> gw_MaxConnsPerUser g" "gw_MaxConnsPerUser g < 2 ^ 31" "0 < gw_MaxConnsPerUser g"
    using assms by (auto simp: n_def conns_ok_def intro: less_imp_le split: option.split)
  then have i: "int32 (gw_MaxConnsPerUser g) = gw_MaxConnsPerUser g" by (intro int32_same) auto
  have "int32 (n + 1) = n + 1" if "n < gw_MaxConnsPerUser g" using n that by (intro int32_same) auto
  with n i assms show ?thesis
    by (auto simp: gw_incrementUserConns_def Let_def n_def [symmetric] conns_ok_def)
qed

lemma conns_decrement: "conns_ok g \<Longrightarrow> conns_ok (gw_decrementUserConns uid g)"
proof -
  assume ok: "conns_ok g"
  have "int32 (n - 1) = n - 1" if "gw_userConns g uid = Some n" for n
    using ok that by (intro int32_same) (force simp: conns_ok_def)+
  with ok show ?thesis by (force simp: gw_decrementUserConns_def Let_def conns_ok_def split: option.split)
qed

lemma conns_refused: "conns_ok g \<Longrightarrow> uid \<noteq> '''' \<Longrightarrow>
    fst (gw_incrementUserConns uid g) = False \<longleftrightarrow> gw_userConns g uid = Some (gw_MaxConnsPerUser g)"
proof -
  assume ok: "conns_ok g" and "uid \<noteq> ''''"
  then have "int32 (gw_MaxConnsPerUser g) = gw_MaxConnsPerUser g" by (intro int32_same) (auto simp: conns_ok_def)
  then show ?thesis using ok \<open>uid \<noteq> ''''\<close>
    by (force simp: gw_incrementUserConns_def Let_def conns_ok_def split: option.split)
qed

text \<open>The origins that are echoed.\<close>

definition origin_of_host :: "string \<Rightarrow> string \<Rightarrow> bool" where
  "origin_of_host origin host \<longleftrightarrow> host \<noteq> '''' \<and>
     (origin = ''https://'' @ host \<or> origin = ''http://'' @ host \<or> has_suffix origin (''.'' @ host))"

lemma origin_of_hosts_exact:
  "origin_of_hosts origin hosts = (if \<exists>host \<in> set hosts. origin_of_host origin host then origin else '''')"
proof (induction hosts)
  case (Cons h hs)
  have "origin_of_hosts origin (h # hs) = (if origin_of_host origin h then origin else origin_of_hosts origin hs)"
    unfolding origin_of_hosts.simps origin_of_host_def by argo
  with Cons show ?case by simp
qed simp

lemma allowed_origin_exact:
  "origin \<noteq> '''' \<Longrightarrow> resolveAllowedOrigin origin g = (if has_prefix origin ''http://localhost:'' \<or>
     has_prefix origin ''http://127.0.0.1:'' \<or> has_prefix origin ''https://localhost:'' \<or>
     origin_of_host origin (gw_CDNHostname g) \<or> origin_of_host origin (gw_EdgeHostname g) \<or>
     origin_of_host origin (gw_APIHostname g) then origin else '''')"
  unfolding resolveAllowedOrigin_def origin_of_hosts_exact by simp

section \<open>Examples\<close>

definition ex_rtc :: ws_request where
  "ex_rtc = \<lparr>wr_ClientID = ''user_020304'', wr_VideoCodecs = [''h264'', ''vp8'', ''vp9''], wr_AudioCodecs = [''opus'', ''aac''],
     wr_Preset = ''safe'', wr_EncodingMode = '''', wr_Region = '''', wr_GPURequired = False, wr_Width = 1920,
     wr_Height = 1080, wr_RefreshRate = 60, wr_RequestedFPS = 0, wr_LatencyTarget = 0\<rparr>"

definition ex_gateway :: gateway where
  "ex_gateway = (let g = gw_NewServer ''agent'' 2 '''' '''' '''' 600 (snd ex_auth) (NewSecurityDetector False) in
     g\<lparr>gw_webrtc := wr_step (gw_webrtc g) (WrCreate (Some [1]) None 5 ex_rtc)\<rparr>)"

definition ex_request :: "string \<Rightarrow> request" where
  "ex_request path = \<lparr>rq_Method = ''GET'', rq_Host = ''h'', rq_Path = path, rq_URL = path, rq_Query = [],
     rq_Header = hdr_set ''Authorization'' (''Bearer '' @ ex_tok) Map.empty, rq_RemoteAddr = ''10.0.0.1:5''\<rparr>"

lemma ex_reached: "gw_reached ex_mac (=) [9] (Some []) ex_accounts (fst ex_auth) ex_gateway"
  by (simp add: ex_gateway_def gw_NewServer_def Let_def)

lemma ex_bearer: "bearer_of (ex_request path) = ex_tok"
proof -
  have "hdr_get (rq_Header (ex_request path)) ''Authorization'' = ''Bearer '' @ ex_tok"
    by (simp add: ex_request_def hdr_set_def hdr_get_def del: append.simps)
  then show ?thesis
    unfolding bearerToken_def trim_prefix_append using has_prefix_append [of "''Bearer ''" ex_tok] ex_tok(1)
    by (simp del: append.simps)
qed

lemma ex_validate: "\<exists>g'. gw_validate ex_tok 7 ex_gateway = (Inr ex_ann, g') \<and> fst (gw_validate ex_tok 7 g') = Inr ex_ann"
proof -
  have "gw_auth ex_gateway = snd ex_auth" by (simp add: ex_gateway_def gw_NewServer_def Let_def)
  moreover have "wrap64 1 = 1" "wrap64 2 = 2" by code_simp+
  ultimately show ?thesis
    unfolding gw_validate_def am_ValidateToken_def ex_auth_eq by (simp add: Let_def ex_tok minute_def second_def)
qed

theorem gateway_staff_areas_closed_witness:
  "\<exists>u. Some ex_ann = Some u \<and> signed_in (fst ex_auth) (bearer_of (ex_request ''/admin/users'')) 7 ex_gateway u \<and>
    RoleModerator \<le> roleLevel (us_Role u)"
proof -
  obtain g' where v: "gw_validate ex_tok 7 ex_gateway = (Inr ex_ann, g')" "fst (gw_validate ex_tok 7 g') = Inr ex_ann"
    using ex_validate by blast
  have r: "roleLevel (us_Role ex_ann) = RoleAdmin" by code_simp
  have "enters ModRole (ex_request ''/admin/users'') 7 ex_gateway (Some ex_ann)"
    using v r by (simp add: enters_def gw_RequireAuth_def gw_RequireRole_def ex_bearer ex_tok probe_def split_beta
        RoleModerator_def RoleAdmin_def)
  moreover have "mux_find ''/admin/users'' (gateway_routes False) = Some (''/admin/users'', ModRole)" by code_simp
  moreover have "''/admin/'' \<in> set staff_areas" "has_prefix ''/admin/users'' ''/admin/''" by code_simp+
  ultimately have "''/admin/users'' = ''/'' \<or> (\<exists>u. Some ex_ann = Some u \<and>
      signed_in (fst ex_auth) (bearer_of (ex_request ''/admin/users'')) 7 ex_gateway u \<and> RoleModerator \<le> roleLevel (us_Role u))"
    using gateway_staff_areas_closed [OF ex_reached] by blast
  then show ?thesis by simp
qed


lemma create_then_owner:
  assumes "wr_slots s < 1000"
  shows "\<exists>p. wr_GetSession (generateSessionID rnd now) (wr_step s (WrCreate rnd None now req)) = Inr p \<and>
    ws_ClientID (wr_at (wr_step s (WrCreate rnd None now req)) p) = wr_ClientID req"
  using assms select_profile [of "wr_codecSupport s" "wr_VideoCodecs req" "wr_Preset req"
      "if wr_EncodingMode req = '''' then ''balanced'' else wr_EncodingMode req" "cs_HardwareAccel (wr_codecSupport s)"]
  by (auto simp: wr_CreateSession_def maxConcurrentSessions_def Let_def wr_GetSession_def wr_at_def new_ws_session_def)

lemma ex_owner: "sessionOwner ''sess_01'' ex_gateway = Some ''user_020304''"
proof -
  have "sm_GetSession ''sess_01'' (gw_sessions ex_gateway) = Inl ''session not found''"
    by (simp add: ex_gateway_def gw_NewServer_def Let_def sm_GetSession_def NewSessionManager_def)
  moreover have "generateSessionID (Some [1]) 5 = ''sess_01''" by code_simp
  moreover have "gw_webrtc ex_gateway = wr_step (wr_NewServer server_codecs '''' '''')
      (WrCreate (Some [1]) None 5 ex_rtc)"
    by (simp add: ex_gateway_def gw_NewServer_def Let_def del: wr_step.simps)
  moreover have "wr_slots (wr_NewServer server_codecs '''' '''') < 1000" by (simp add: wr_NewServer_def)
  ultimately show ?thesis
    using create_then_owner [of "wr_NewServer server_codecs '''' ''''" "Some [1]" 5 ex_rtc]
    by (auto simp: sessionOwner_def ex_rtc_def simp del: wr_step.simps)
qed

theorem gateway_session_areas_owned_witness:
  "\<exists>u owner. Some ex_ann = Some u \<and> signed_in (fst ex_auth) (caller_token (ex_request ''/input/sess_01'')) 7 ex_gateway u \<and>
    sessionOwner (path_id ''/input/'' ''/input/sess_01'') ex_gateway = Some owner \<and>
    (owner = us_ID u \<or> RoleAdmin \<le> roleLevel (us_Role u))"
proof -
  obtain g' where v: "gw_validate ex_tok 7 ex_gateway = (Inr ex_ann, g')" "fst (gw_validate ex_tok 7 g') = Inr ex_ann"
    using ex_validate by blast
  have p: "path_id ''/input/'' ''/input/sess_01'' = ''sess_01''" by code_simp
  have "sessionOwnerFromPath ''/input/sess_01'' ''/input/'' g' = sessionOwnerFromPath ''/input/sess_01'' ''/input/'' ex_gateway"
    using arg_cong [OF v(1), of snd] by (metis owner_validate snd_conv)
  also have "\<dots> = Some ''user_020304''" by (simp add: sessionOwnerFromPath_def p ex_owner)
  finally have o: "sessionOwnerFromPath ''/input/sess_01'' ''/input/'' g' = Some ''user_020304''" .
  have e: "enters (Owner ''/input/'') (ex_request ''/input/sess_01'') 7 ex_gateway (Some ex_ann)"
  proof -
    have "rq_Path (ex_request ''/input/sess_01'') = ''/input/sess_01''" "us_ID ex_ann = ''user_020304''"
      by (simp_all add: ex_request_def ex_ann_def)
    with v o show ?thesis
      by (simp add: enters_def gw_requireSessionOwner_def gw_RequireAuth_def ex_bearer ex_tok probe_def owns_or_admin_def)
  qed
  have "mux_find ''/input/sess_01'' (gateway_routes False) = Some (''/input/'', Owner ''/input/'')" by code_simp
  moreover have "''/input/'' \<in> set session_areas" "has_prefix ''/input/sess_01'' ''/input/''" by code_simp+
  moreover have "rq_Path (ex_request ''/input/sess_01'') = ''/input/sess_01''" by (simp add: ex_request_def)
  ultimately have "agent_call (ex_request ''/input/sess_01'') ex_gateway \<and> ''/input/'' \<in> {''/media/'', ''/data/''} \<or>
    (\<exists>u owner. Some ex_ann = Some u \<and> signed_in (fst ex_auth) (caller_token (ex_request ''/input/sess_01'')) 7 ex_gateway u \<and>
      sessionOwner (path_id ''/input/'' ''/input/sess_01'') ex_gateway = Some owner \<and>
      (owner = us_ID u \<or> RoleAdmin \<le> roleLevel (us_Role u)))"
    using gateway_session_areas_owned [OF ex_reached] e by blast
  then show ?thesis by simp
qed

theorem gateway_tunnels_anonymous_witness:
  "enters (RateIPUser Open) (ex_request ''/ws/x'') 7 ex_gateway None \<and> (None :: user option) = None"
proof -
  have e: "enters (RateIPUser Open) (ex_request ''/ws/x'') 7 ex_gateway None"
  proof -
    have "fst (rl_Allow (rate_key (ex_request ''/ws/x'')) 7 (gw_limiter ex_gateway))"
      using fresh_key_passes [of "gw_limiter ex_gateway"]
      by (simp add: ex_gateway_def gw_NewServer_def Let_def NewLimiter_def quot_def)
    then show ?thesis
      by (simp add: enters_def gw_rateLimitByIPAndUser_def gw_rateLimitByIP_def gw_rateLimitByUser_def probe_def Let_def split_beta)
  qed
  have "mux_find ''/ws/x'' (gateway_routes False) = Some (''/ws/'', RateIPUser Open)" by code_simp
  moreover have "''/ws/'' \<in> set tunnel_areas" "has_prefix ''/ws/x'' ''/ws/''" by code_simp+
  ultimately show ?thesis using gateway_tunnels_anonymous e by blast
qed

theorem gateway_rate_limit_by_claim_witness:
  "rate_run (map (\<lambda>v. with_xff v (ex_request ''/auth/login'')) [''1.1.1.1'', ''1.1.1.2'', ''1.1.1.3'']) 7 ex_gateway =
    replicate (length [''1.1.1.1'', ''1.1.1.2'', ''1.1.1.3'']) True"
proof (rule gateway_rate_limit_by_claim)
  show "1 \<le> li_burst (gw_limiter ex_gateway)"
    by (simp add: ex_gateway_def gw_NewServer_def Let_def NewLimiter_def quot_def)
  have "li_items (gw_limiter ex_gateway) = Map.empty"
    by (simp add: ex_gateway_def gw_NewServer_def Let_def NewLimiter_def)
  moreover have "\<forall>v \<in> set [''1.1.1.1'', ''1.1.1.2'', ''1.1.1.3'']. v \<noteq> '''' \<and> CHR '','' \<notin> set v \<and> trim_space v = v"
    by code_simp
  ultimately show "\<forall>v \<in> set [''1.1.1.1'', ''1.1.1.2'', ''1.1.1.3'']. v \<noteq> '''' \<and> CHR '','' \<notin> set v \<and> trim_space v = v \<and>
      li_items (gw_limiter ex_gateway) v = None" by simp
qed simp

end
