(* ===== verification/GatewayServer.thy ===== *)
theory GatewayServer
  imports GatewayAccess
begin

text \<open>
  apps/gateway/internal/tunnel/server.go, second part: the handlers of the server over the managers of the
  other theories, one request as a step of the whole gateway, and what holds of the gateway in every run.
  The body of a request is given by what each decoder makes of it (\<open>None\<close> when it fails); the clock, random
  identifiers, the orders in which maps are ranged over and the answers of the database and the file system
  are read from an environment.
\<close>

section \<open>Requests, environment, answers\<close>

record bodies =
  bd_length :: int
  bd_session :: "create_request option"
  bd_webrtc :: "ws_request option"
  bd_reason :: "string option"
  bd_event :: "input_event option"
  bd_frame :: "nat list option"
  bd_transfer :: "(string \<times> transfer_direction \<times> string \<times> int \<times> string) option"
  bd_chunk :: "chunk_request option"
  bd_clip :: "(string \<times> string) option"
  bd_gaming :: "gaming_config option"
  bd_action :: "string option"
  bd_register :: "(string \<times> string) option"
  bd_update :: "(string \<times> button_state list \<times> f64 list) option"
  bd_rumble :: "(string \<times> bool \<times> f64) option"
  bd_metrics :: "(f64 \<times> f64 \<times> f64 \<times> f64) option"
  bd_mode :: "string option"
  bd_tailscale :: "(string \<times> string \<times> tailscale_vm list) option"
  bd_mapping :: "(string \<times> string \<times> string \<times> string) option"
  bd_target :: "(string \<times> int) option"
  bd_object :: "(string \<rightharpoonup> json) option"
  bd_recording :: "recording_config option"
  bd_bytes :: "nat list"
  bd_reads :: "nat list list"
  bd_readError :: "string option"

record gw_env =
  ge_session :: sm_env
  ge_random :: "nat list option"
  ge_pion :: "string option"
  ge_transferID :: string
  ge_accepts :: "nat list \<Rightarrow> bool"
  ge_send :: "string option"
  ge_hosts :: "string list"
  ge_sessions :: "string list"
  ge_webrtcs :: "string list"
  ge_recordings :: "string list"
  ge_vmUser :: "string \<rightharpoonup> string"
  ge_tmp :: string
  ge_create :: "string option"
  ge_upgrade :: "int option"

datatype listed =
    ListedSession string session_state session_mode session_type resource_class string string
  | ListedRtc ws_entry

datatype gw_body = GwStatus string | GwRtcCreated ws_response | GwFallback ws_response | GwCreated create_response
  | GwSession session | GwSessions "listed list" | GwAudio string "nat list" | GwTransfer file_transfer
  | GwChunk chunk_response | GwClipboard clipboard_data | GwGaming gaming_session
  | GwMedia "nat list list" "wr_body option" | GwData "nat list option" wr_body | GwKeyframe wr_body
  | GwTailscaleHosts "tailscale_host list" | GwMapping user_tailscale
  | GwProxy (px_route: string) (px_proxyUrl: string) (px_wsUrl: string) (px_connectUrl: string)
  | GwHosts | GwRecordings "recording_session list" | GwRecording string string | GwDropped | GwRoutes
  | GwTime time | GwRedirect string | GwSignal "string option" | GwPreflight

type_synonym handler = "gw_body gw_handler"

abbreviation reply :: "int \<Rightarrow> gw_body \<Rightarrow> gw_body auth_body answer" where
  "reply code b \<equiv> Answer code (AuthOk b)"

abbreviation not_allowed :: "gw_body auth_body answer" where
  "not_allowed \<equiv> refuse 405 ''method not allowed''"

abbreviation bad_body :: "gw_body auth_body answer" where
  "bad_body \<equiv> refuse 400 ''invalid request body''"

text \<open>The handlers that begin with the identifier of a session in the path.\<close>

definition with_id :: "string \<Rightarrow> (string \<Rightarrow> handler) \<Rightarrow> handler" where
  "with_id pre h user r now g =
     (let sid = path_id pre (rq_Path r)
      in if sid = '''' then (refuse 400 ''session ID required'', g) else h sid user r now g)"

section \<open>WebRTC sessions\<close>

definition webrtc_defaults :: "user option \<Rightarrow> time \<Rightarrow> ws_request \<Rightarrow> ws_request" where
  "webrtc_defaults user now req =
     (let req = (case user of
            Some u \<Rightarrow> req\<lparr>wr_ClientID := us_ID u\<rparr>
          | None \<Rightarrow> if wr_ClientID req = '''' then req\<lparr>wr_ClientID := ''anon-'' @ fmt_x now\<rparr> else req);
          req = (if wr_Preset req = '''' then req\<lparr>wr_Preset := ''safe''\<rparr> else req);
          req = (if wr_VideoCodecs req = [] then req\<lparr>wr_VideoCodecs := [''h264'', ''vp8'', ''vp9'']\<rparr> else req);
          req = (if wr_AudioCodecs req = [] then req\<lparr>wr_AudioCodecs := [''opus'', ''aac'']\<rparr> else req);
          req = (if wr_Width req = 0 then req\<lparr>wr_Width := 1920\<rparr> else req);
          req = (if wr_Height req = 0 then req\<lparr>wr_Height := 1080\<rparr> else req);
          req = (if wr_RefreshRate req = 0 then req\<lparr>wr_RefreshRate := 60\<rparr> else req);
          req = (if wr_RequestedFPS req = 0 then req\<lparr>wr_RequestedFPS := 60\<rparr> else req);
          req = (if wr_LatencyTarget req = 0 then req\<lparr>wr_LatencyTarget := 50\<rparr> else req)
      in req)"

definition handleCreateWebRTCSession :: "gw_env \<Rightarrow> bodies \<Rightarrow> handler" where
  "handleCreateWebRTCSession env b user r now g = (case bd_webrtc b of
     None \<Rightarrow> (bad_body, g)
   | Some req \<Rightarrow>
       (case wr_CreateSession (ge_random env) (ge_pion env) now (webrtc_defaults user now req) (gw_webrtc g) of
          (Inl e, w) \<Rightarrow> (refuse 500 e, g\<lparr>gw_webrtc := w\<rparr>)
        | (Inr resp, w) \<Rightarrow> (reply 201 (GwRtcCreated resp), g\<lparr>gw_webrtc := w\<rparr>)))"

definition handleWebRTC :: "gw_env \<Rightarrow> bodies \<Rightarrow> handler" where
  "handleWebRTC env b user r now g =
     (if rq_Method r = ''POST'' then handleCreateWebRTCSession env b user r now g else (not_allowed, g))"

section \<open>Sessions\<close>

definition may_see :: "user option \<Rightarrow> string \<Rightarrow> bool" where
  "may_see user owner \<longleftrightarrow> (case user of None \<Rightarrow> False | Some u \<Rightarrow> RoleAdmin \<le> roleLevel (us_Role u) \<or> owner = us_ID u)"

definition list_session :: "session \<Rightarrow> listed" where
  "list_session s = ListedSession (se_ID s) (se_State s) (se_Mode s) (se_Type s) (se_ResourceClass s)
     (sp_Preset (se_StreamProfile s)) (se_ConnectionToken s)"

text \<open>An entry of the WebRTC list does not name its client, so its owner is looked up by its id.\<close>

definition rtc_owner :: "webrtc_server \<Rightarrow> ws_entry \<Rightarrow> string" where
  "rtc_owner w e = (case wr_GetSession (we_id e) w of Inl _ \<Rightarrow> '''' | Inr p \<Rightarrow> ws_ClientID (wr_at w p))"

definition handleListSessions :: "gw_env \<Rightarrow> handler" where
  "handleListSessions env user r now g =
     (if rq_Method r \<noteq> ''GET'' then (not_allowed, g)
      else
        let sm = gw_sessions g; w = gw_webrtc g
        in (reply 200 (GwSessions
              (map list_session (filter (\<lambda>s. may_see user (se_UserID s))
                 (map (sm_session sm) (sm_ListSessions (ge_sessions env) sm))) @
               map ListedRtc (filter (\<lambda>e. may_see user (rtc_owner w e)) (wr_ListSessions (ge_webrtcs env) w)))), g))"

definition fallback_request :: "create_request \<Rightarrow> ws_request" where
  "fallback_request req =
     (let u32 = (\<lambda>x. nat (x mod 2 ^ 32)); res = rq_RequestedResolution req;
          q = \<lparr>wr_ClientID = rq_UserID req, wr_VideoCodecs = [''h264'', ''vp8'', ''vp9''],
               wr_AudioCodecs = [''opus'', ''aac''], wr_Preset = rq_StreamPreset req, wr_EncodingMode = '''',
               wr_Region = '''', wr_GPURequired = rq_GPURequired req, wr_Width = u32 (rs_Width res),
               wr_Height = u32 (rs_Height res), wr_RefreshRate = u32 (rs_RefreshRate res),
               wr_RequestedFPS = 0, wr_LatencyTarget = 0\<rparr>;
          q = (if wr_Width q = 0 then q\<lparr>wr_Width := 1920\<rparr> else q);
          q = (if wr_Height q = 0 then q\<lparr>wr_Height := 1080\<rparr> else q)
      in q)"

definition session_env :: "gw_env \<Rightarrow> time \<Rightarrow> sm_env" where
  "session_env env now = (ge_session env)\<lparr>env_now := now\<rparr>"

definition named_request :: "user option \<Rightarrow> time \<Rightarrow> create_request \<Rightarrow> create_request" where
  "named_request user now req =
     (if rq_UserID req = '''' then
        case user of Some u \<Rightarrow> req\<lparr>rq_UserID := us_ID u\<rparr> | None \<Rightarrow> req\<lparr>rq_UserID := ''anon-'' @ fmt_x now\<rparr>
      else req)"

text \<open>
  The manager fills in defaults in the request itself, which the fallback then reads: the call passes the
  pointer, and the defaults are set before the allocation fails.
\<close>

definition fallback_session :: "gw_env \<Rightarrow> time \<Rightarrow> create_request \<Rightarrow> gateway \<Rightarrow> gw_body auth_body answer \<times> gateway" where
  "fallback_session env now req g =
     (case wr_CreateSession (ge_random env) (ge_pion env) now (fallback_request (with_defaults req)) (gw_webrtc g) of
        (Inl e, w) \<Rightarrow> (refuse 500 e, g\<lparr>gw_webrtc := w\<rparr>)
      | (Inr resp, w) \<Rightarrow> (reply 201 (GwFallback resp), g\<lparr>gw_webrtc := w\<rparr>))"

definition handleCreateSession :: "gw_env \<Rightarrow> bodies \<Rightarrow> handler" where
  "handleCreateSession env b user r now g = (case bd_session b of
     None \<Rightarrow> (bad_body, g)
   | Some req \<Rightarrow>
       let req = named_request user now req
       in case sm_CreateSession (session_env env now) req (gw_sessions g) of
            (Inr resp, m) \<Rightarrow> (reply 201 (GwCreated resp), g\<lparr>gw_sessions := m\<rparr>)
          | (Inl e, m) \<Rightarrow>
              let g = g\<lparr>gw_sessions := m\<rparr>
              in if contains e ''no available hosts'' \<or> contains e ''no available hosts in region''
                 then fallback_session env now req g
                 else (refuse 500 e, g))"

definition sessionsRoot :: "gw_env \<Rightarrow> bodies \<Rightarrow> handler" where
  "sessionsRoot env b user r now g =
     (if rq_Method r = ''GET'' then handleListSessions env user r now g
      else if rq_Method r = ''POST'' then handleCreateSession env b user r now g
      else (not_allowed, g))"

definition handleGetSession :: handler where
  "handleGetSession = with_id ''/sessions/'' (\<lambda>sid user r now g.
     case sm_GetSession sid (gw_sessions g) of
       Inl e \<Rightarrow> (refuse 404 e, g)
     | Inr p \<Rightarrow>
         let s = sm_session (gw_sessions g) p
         in if (case user of None \<Rightarrow> True | Some u \<Rightarrow> \<not> owns_or_admin (se_UserID s) u) then (refuse 403 ''forbidden'', g)
            else (reply 200 (GwSession s), g))"

text \<open>
  \<open>bd_reason\<close> is the reason in the body, empty when the body is; both managers are asked to end the session,
  and a panic of the second one ends the request.
\<close>

definition end_session :: "gw_env \<Rightarrow> time \<Rightarrow> string \<Rightarrow> string \<Rightarrow> gateway \<Rightarrow> gw_body auth_body answer \<times> gateway" where
  "end_session env now sid reason g =
     (let (sessionErr, m) = sm_EndSession (session_env env now) sid reason (gw_sessions g);
          ((webrtcErr, how), w) = wr_EndSession now sid (gw_webrtc g);
          g = g\<lparr>gw_sessions := m, gw_webrtc := w\<rparr>
      in if how = Panicked then (reply 0 GwDropped, g)
         else case sessionErr of
           Inl e \<Rightarrow> if webrtcErr \<noteq> None then (refuse 404 e, g) else (reply 200 (GwStatus ''ended''), g)
         | Inr _ \<Rightarrow> (reply 200 (GwStatus ''ended''), g))"

definition handleEndSession :: "gw_env \<Rightarrow> bodies \<Rightarrow> handler" where
  "handleEndSession env b = with_id ''/sessions/'' (\<lambda>sid user r now g.
     if (0 < bd_length b \<or> hdr_get (rq_Header r) ''Content-Type'' \<noteq> '''') \<and> bd_reason b = None then (bad_body, g)
     else
       let reason = (if 0 < bd_length b \<or> hdr_get (rq_Header r) ''Content-Type'' \<noteq> '''' then the (bd_reason b) else '''');
           reason = (if reason = '''' then ''user-requested'' else reason)
       in case sessionOwnerFromPath (rq_Path r) ''/sessions/'' g of
            None \<Rightarrow> (refuse 404 ''session not found'', g)
          | Some owner \<Rightarrow>
              if (case user of None \<Rightarrow> True | Some u \<Rightarrow> \<not> owns_or_admin owner u) then (refuse 403 ''forbidden'', g)
              else end_session env now sid reason g)"

definition handleSessions :: "gw_env \<Rightarrow> bodies \<Rightarrow> handler" where
  "handleSessions env b user r now g =
     (if rq_Method r = ''POST'' then handleCreateSession env b user r now g
      else if rq_Method r = ''GET'' then handleGetSession user r now g
      else if rq_Method r = ''DELETE'' then handleEndSession env b user r now g
      else (not_allowed, g))"

section \<open>Devices, media, files\<close>

definition handleInput :: "bodies \<Rightarrow> handler" where
  "handleInput b user r now g =
     (if rq_Method r = ''POST'' then
        with_id ''/input/'' (\<lambda>sid user r now g. case bd_event b of
            None \<Rightarrow> (bad_body, g)
          | Some ev \<Rightarrow>
              (case im_HandleInputEvent now sid ev (gw_input g) of
                 (Some e, m) \<Rightarrow> (refuse 500 e, g\<lparr>gw_input := m\<rparr>)
               | (None, m) \<Rightarrow> (reply 200 (GwStatus ''processed''), g\<lparr>gw_input := m\<rparr>))) user r now g
      else (not_allowed, g))"

definition handleAudio :: "bodies \<Rightarrow> handler" where
  "handleAudio b user r now g =
     (if rq_Method r = ''POST'' then
        with_id ''/audio/'' (\<lambda>sid user r now g. case bd_frame b of
            None \<Rightarrow> (bad_body, g)
          | Some d \<Rightarrow>
              (case ad_ProcessAudioData sid d (gw_audio g) of
                 Inl e \<Rightarrow> (refuse 400 e, g)
               | Inr output \<Rightarrow> (reply 200 (GwAudio sid output), g))) user r now g
      else (not_allowed, g))"

definition handleCreateTransfer :: "gw_env \<Rightarrow> bodies \<Rightarrow> handler" where
  "handleCreateTransfer env b user r now g = (case bd_transfer b of
     None \<Rightarrow> (bad_body, g)
   | Some (sid, dir, name, sz, ty) \<Rightarrow>
       (case user of
          None \<Rightarrow> (refuse 401 ''unauthorized'', g)
        | Some u \<Rightarrow>
            if sid \<noteq> '''' \<and> sessionOwner sid g = None then (refuse 404 ''session not found'', g)
            else if sid \<noteq> '''' \<and> \<not> owns_or_admin (the (sessionOwner sid g)) u then (refuse 403 ''forbidden'', g)
            else
              (case tm_CreateTransfer (ge_transferID env) sid dir name sz ty now (gw_transfers g) of
                 (Inl e, m) \<Rightarrow> (refuse 500 e, g\<lparr>gw_transfers := m\<rparr>)
               | (Inr t, m) \<Rightarrow> (reply 201 (GwTransfer t), g\<lparr>gw_transfers := m\<rparr>))))"

definition handleTransferChunk :: "bodies \<Rightarrow> handler" where
  "handleTransferChunk b user r now g = (case bd_chunk b of
     None \<Rightarrow> (bad_body, g)
   | Some ch \<Rightarrow> (case tm_ProcessChunk ch now (gw_transfers g) of
       (resp, m) \<Rightarrow> (reply 200 (GwChunk resp), g\<lparr>gw_transfers := m\<rparr>)))"

definition handleTransfer :: "gw_env \<Rightarrow> bodies \<Rightarrow> handler" where
  "handleTransfer env b user r now g =
     (if rq_Method r = ''POST'' then handleCreateTransfer env b user r now g
      else if rq_Method r = ''PUT'' then handleTransferChunk b user r now g
      else (not_allowed, g))"

definition handleClipboardWrite :: "bodies \<Rightarrow> handler" where
  "handleClipboardWrite b = with_id ''/clipboard/'' (\<lambda>sid user r now g. case bd_clip b of
       None \<Rightarrow> (bad_body, g)
     | Some (mime, data) \<Rightarrow>
         (case cb_Write sid mime data now (gw_clipboards g) of
            (Inl e, m) \<Rightarrow> (refuse 500 e, g\<lparr>gw_clipboards := m\<rparr>)
          | (Inr _, m) \<Rightarrow> (reply 200 (GwStatus ''written''), g\<lparr>gw_clipboards := m\<rparr>)))"

definition handleClipboardRead :: handler where
  "handleClipboardRead = with_id ''/clipboard/'' (\<lambda>sid user r now g. case cb_Read sid (gw_clipboards g) of
       Inl e \<Rightarrow> (refuse 500 e, g)
     | Inr d \<Rightarrow> (reply 200 (GwClipboard d), g))"

definition handleClipboard :: "bodies \<Rightarrow> handler" where
  "handleClipboard b user r now g =
     (if rq_Method r = ''POST'' then handleClipboardWrite b user r now g
      else if rq_Method r = ''GET'' then handleClipboardRead user r now g
      else (not_allowed, g))"

definition gaming_defaults :: "gaming_config \<Rightarrow> gaming_config" where
  "gaming_defaults c =
     (let c = (if gc_TargetFPS c = 0 then c\<lparr>gc_TargetFPS := 60\<rparr> else c);
          c = (if gc_TargetLatency c = Fin 0 then c\<lparr>gc_TargetLatency := Fin 20\<rparr> else c);
          c = (if gc_Mode c = '''' then c\<lparr>gc_Mode := ''standard''\<rparr> else c)
      in c)"

definition handleCreateGamingSession :: "bodies \<Rightarrow> handler" where
  "handleCreateGamingSession b = with_id ''/gaming/'' (\<lambda>sid user r now g. case bd_gaming b of
       None \<Rightarrow> (bad_body, g)
     | Some c \<Rightarrow>
         (case gm_CreateGamingSession now sid (gaming_defaults c) (gw_gaming g) of
            (se, m) \<Rightarrow> (reply 201 (GwGaming se), g\<lparr>gw_gaming := m\<rparr>)))"

text \<open>The answer of an action on a gaming session, and the state after it.\<close>

definition after_action :: "gateway \<Rightarrow> string option \<times> gaming_manager \<Rightarrow> gw_body auth_body answer \<times> gateway" where
  "after_action g = (\<lambda>(e, m). (case e of Some e \<Rightarrow> refuse 500 e | None \<Rightarrow> reply 200 (GwStatus ''updated''),
     g\<lparr>gw_gaming := m\<rparr>))"

definition handleUpdateGamingState :: "bodies \<Rightarrow> handler" where
  "handleUpdateGamingState b = with_id ''/gaming/'' (\<lambda>sid user r now g. case bd_action b of
       None \<Rightarrow> (bad_body, g)
     | Some action \<Rightarrow>
         if action = ''register-controller'' then
           (case bd_register b of None \<Rightarrow> (refuse 400 ''invalid controller data'', g)
            | Some (cid, vendor) \<Rightarrow> after_action g (gm_RegisterController now sid cid vendor (gw_gaming g)))
         else if action = ''update-controller'' then
           (case bd_update b of None \<Rightarrow> (refuse 400 ''invalid controller data'', g)
            | Some (cid, buttons, axes) \<Rightarrow> after_action g (gm_UpdateControllerState now sid cid buttons axes (gw_gaming g)))
         else if action = ''set-rumble'' then
           (case bd_rumble b of None \<Rightarrow> (refuse 400 ''invalid rumble data'', g)
            | Some (cid, enabled, i) \<Rightarrow> after_action g (gm_SetControllerRumble now sid cid enabled i (gw_gaming g)))
         else if action = ''update-metrics'' then
           (case bd_metrics b of None \<Rightarrow> (refuse 400 ''invalid metrics data'', g)
            | Some (fps, ft, br, lat) \<Rightarrow> after_action g (gm_UpdatePerformanceMetrics now sid fps ft br lat (gw_gaming g)))
         else if action = ''optimize-mode'' then
           (case bd_mode b of None \<Rightarrow> (refuse 400 ''invalid mode data'', g)
            | Some mode \<Rightarrow> after_action g (gm_OptimizeForMode now sid mode (gw_gaming g)))
         else (refuse 400 ''unknown action'', g))"

definition handleGetGamingState :: handler where
  "handleGetGamingState = with_id ''/gaming/'' (\<lambda>sid user r now g. case gm_GetGamingSession sid (gw_gaming g) of
       Inl e \<Rightarrow> (refuse 404 e, g)
     | Inr se \<Rightarrow> (reply 200 (GwGaming se), g))"

definition handleGaming :: "bodies \<Rightarrow> handler" where
  "handleGaming b user r now g =
     (if rq_Method r = ''POST'' then handleCreateGamingSession b user r now g
      else if rq_Method r = ''PUT'' then handleUpdateGamingState b user r now g
      else if rq_Method r = ''GET'' then handleGetGamingState user r now g
      else (not_allowed, g))"

definition handleMediaIngest :: "gw_env \<Rightarrow> bodies \<Rightarrow> handler" where
  "handleMediaIngest env b = with_id ''/media/'' (\<lambda>sid user r now g.
     case wr_HandleMediaIngest (ge_accepts env) (rq_Method r = ''POST'') (hdr_get (rq_Header r) ''Content-Type'')
            (rq_Path r) (bd_bytes b) (bd_reads b) (bd_readError b) (gw_webrtc g) of
       ((ps, ans), w) \<Rightarrow>
         (case ans of
            None \<Rightarrow> (reply 200 (GwMedia ps None), g\<lparr>gw_webrtc := w\<rparr>)
          | Some (Answer code body) \<Rightarrow> (reply code (GwMedia ps (Some body)), g\<lparr>gw_webrtc := w\<rparr>)))"

definition handleDataIngest :: "gw_env \<Rightarrow> bodies \<Rightarrow> handler" where
  "handleDataIngest env b = with_id ''/data/'' (\<lambda>sid user r now g.
     case wr_HandleDataIngest (ge_send env) (rq_Method r = ''POST'') (rq_Path r) (bd_bytes b) (gw_webrtc g) of
       (sent, Answer code body) \<Rightarrow> (reply code (GwData sent body), g))"

definition handleRequestKeyframe :: handler where
  "handleRequestKeyframe = with_id ''/keyframe/'' (\<lambda>sid user r now g.
     case wr_HandleRequestKeyframe (rq_Path r) (gw_webrtc g) of
       Answer code body \<Rightarrow> (reply code (GwKeyframe body), g))"


section \<open>Tailscale, hosts, recordings\<close>

definition handleTailscaleRegister :: "bodies \<Rightarrow> handler" where
  "handleTailscaleRegister b user r now g =
     (if rq_Method r \<noteq> ''POST'' then (not_allowed, g)
      else case bd_tailscale b of
        None \<Rightarrow> (refuse 400 ''invalid request'', g)
      | Some (ip, name, vms) \<Rightarrow>
          if ip = '''' then (refuse 400 ''tailscaleIp required'', g)
          else (reply 200 (GwStatus ''registered''),
            g\<lparr>gw_tailscaleHosts := (gw_tailscaleHosts g)(ip \<mapsto>
              \<lparr>th_TailscaleIP = ip, th_HostName = name, th_VMs = vms, th_LastSeen = now\<rparr>)\<rparr>))"

definition handleTailscaleHosts :: "gw_env \<Rightarrow> handler" where
  "handleTailscaleHosts env user r now g =
     (if rq_Method r \<noteq> ''GET'' then (not_allowed, g)
      else (reply 200 (GwTailscaleHosts (filter (\<lambda>h. now - th_LastSeen h < 5 * minute)
              (map_values (gw_tailscaleHosts g) (ge_hosts env)))), g))"

definition query_get :: "string \<Rightarrow> request \<Rightarrow> string" where
  "query_get k r = (case map_of (rq_Query r) k of Some (v # vs) \<Rightarrow> v | _ \<Rightarrow> '''')"

definition handleUserTailscale :: "bodies \<Rightarrow> handler" where
  "handleUserTailscale b user r now g = (case user of
     None \<Rightarrow> (refuse 401 ''unauthorized'', g)
   | Some u \<Rightarrow>
       if rq_Method r = ''POST'' then
         (case bd_mapping b of
            None \<Rightarrow> (refuse 400 ''invalid request'', g)
          | Some (uid, ip, name, mode) \<Rightarrow>
              let uid = (if roleLevel (us_Role u) < RoleAdmin \<or> uid = '''' then us_ID u else uid)
              in if ip = '''' then (refuse 400 ''tailscaleIp required'', g)
                 else
                   let mode = (if mode = '''' then ''direct'' else mode)
                   in (reply 200 (GwStatus ''mapped''),
                       g\<lparr>gw_userTailscale := (gw_userTailscale g)(uid \<mapsto>
                         \<lparr>ut_UserID = uid, ut_TailscaleIP = ip, ut_HostName = name, ut_ProxyMode = mode,
                          ut_CreatedAt = now, ut_ExpiresAt = now + 24 * 60 * minute\<rparr>)\<rparr>))
       else if rq_Method r = ''GET'' then
         let target = (if RoleAdmin \<le> roleLevel (us_Role u) \<and> query_get ''userId'' r \<noteq> '''' then query_get ''userId'' r
                       else us_ID u)
         in (case gw_userTailscale g target of
               None \<Rightarrow> (refuse 404 ''not found'', g)
             | Some entry \<Rightarrow>
                 if ut_ExpiresAt entry < now
                 then (refuse 404 ''not found'', g\<lparr>gw_userTailscale := (gw_userTailscale g)(target := None)\<rparr>)
                 else (reply 200 (GwMapping entry), g))
       else (not_allowed, g))"

definition handleTailscaleProxy :: "bodies \<Rightarrow> handler" where
  "handleTailscaleProxy b user r now g =
     (if rq_Method r \<noteq> ''POST'' then (not_allowed, g)
      else case bd_target b of
        None \<Rightarrow> (refuse 400 ''invalid request'', g)
      | Some (ip, port) \<Rightarrow>
          let routeID = ''ts-proxy-'' @ map (\<lambda>c. if c = CHR ''.'' then CHR ''-'' else c) ip
          in (reply 200 (GwProxy routeID (''http://'' @ ip @ '':'' @ fmt_d port) (''/ws/'' @ routeID)
                (''/connect/'' @ routeID)), g))"

definition handleHostRegister :: "bodies \<Rightarrow> handler" where
  "handleHostRegister b user r now g =
     (if rq_Method r \<noteq> ''POST'' then (not_allowed, g)
      else if bd_object b = None then (refuse 400 ''invalid request'', g)
      else (reply 200 (GwStatus ''registered''), g))"

text \<open>Type assertions on the fields of a report: another type, or no field, gives the zero value.\<close>

definition str_field :: "string \<Rightarrow> (string \<rightharpoonup> json) \<Rightarrow> string" where
  "str_field k m = (case m k of Some (JStr s) \<Rightarrow> s | _ \<Rightarrow> '''')"

definition num_field :: "string \<Rightarrow> (string \<rightharpoonup> json) \<Rightarrow> rat" where
  "num_field k m = (case m k of Some (JNum x) \<Rightarrow> x | _ \<Rightarrow> 0)"

definition mbps_bytes :: "rat \<Rightarrow> int" where
  "mbps_bytes x = int_of_float (x * 125000)"

definition handleHostMetrics :: "gw_env \<Rightarrow> bodies \<Rightarrow> handler" where
  "handleHostMetrics env b user r now g =
     (if rq_Method r \<noteq> ''POST'' then (not_allowed, g)
      else case bd_object b of
        None \<Rightarrow> (refuse 400 ''invalid request'', g)
      | Some m \<Rightarrow>
          let vm = str_field ''hostId'' m; cpu = num_field ''cpuUsagePercent'' m; gpu = num_field ''gpuUsagePercent'' m;
              tx = num_field ''networkTxMbps'' m; rx = num_field ''networkRxMbps'' m;
              streams = int_of_float (num_field ''activeStreams'' m);
              g = g\<lparr>gw_detector := snd (sd_AnalyzeMetrics now vm cpu gpu (tx + rx) streams (gw_detector g))\<rparr>;
              g = (case (if vm = '''' then None else ge_vmUser env vm) of
                     None \<Rightarrow> g
                   | Some owner \<Rightarrow>
                       let g = g\<lparr>gw_detector := snd (sd_AnalyzeTraffic now owner (mbps_bytes rx) (mbps_bytes tx) 1
                                   (5 * second) (gw_detector g))\<rparr>
                       in g\<lparr>gw_usage := us_Track now owner ResourceNetwork (of_int (mbps_bytes tx)) (gw_usage g)\<rparr>)
          in (reply 200 (GwStatus ''received''), g))"

definition handleHosts :: handler where
  "handleHosts user r now g = (if rq_Method r = ''GET'' then (reply 200 GwHosts, g) else (not_allowed, g))"

definition handleListRecordings :: "gw_env \<Rightarrow> handler" where
  "handleListRecordings env user r now g =
     (if rq_Method r \<noteq> ''GET'' then (not_allowed, g)
      else (reply 200 (GwRecordings (sr_ListRecordings (ge_recordings env) (gw_recorder g))), g))"

definition handleRecordingOps :: "gw_env \<Rightarrow> bodies \<Rightarrow> handler" where
  "handleRecordingOps env b = with_id ''/sessions/recordings/'' (\<lambda>sid user r now g.
     if rq_Method r = ''POST'' then
       (case bd_recording b of
          None \<Rightarrow> (bad_body, g)
        | Some c \<Rightarrow>
            (case sr_StartRecording (ge_tmp env) (ge_create env) now sid c (gw_recorder g) of
               (Inl e, m) \<Rightarrow> (refuse 500 e, g\<lparr>gw_recorder := m\<rparr>)
             | (Inr _, m) \<Rightarrow> (reply 201 (GwRecording ''recording-started'' sid), g\<lparr>gw_recorder := m\<rparr>)))
     else if rq_Method r = ''DELETE'' then
       (case sr_StopRecording now sid (gw_recorder g) of
          (Some e, m) \<Rightarrow> (refuse 404 e, g\<lparr>gw_recorder := m\<rparr>)
        | (None, m) \<Rightarrow> (reply 200 (GwRecording ''recording-stopped'' sid), g\<lparr>gw_recorder := m\<rparr>))
     else (not_allowed, g))"

definition handleAdminHealth :: handler where
  "handleAdminHealth user r now g = (if rq_Method r \<noteq> ''GET'' then (not_allowed, g) else (reply 200 (GwTime now), g))"

section \<open>Signalling\<close>

text \<open>
  /signal/ is \<open>HandleSignal\<close> of webrtc/webrtc.go: a WebSocket that anybody may open to a session that exists
  (\<open>ge_upgrade\<close> is the status with which the WebSocket package refuses the upgrade, if it does). The connection
  then delivers frames, one at a time and among other requests: \<open>gw_frame\<close> is the loop for one frame of the
  connection \<open>i\<close>, with the type of its message (\<open>None\<close> for a binary frame or one that does not decode). An error
  closes the connection. A panic in this goroutine ends the process, which the model does not follow.
\<close>

definition handleSignal :: "gw_env \<Rightarrow> handler" where
  "handleSignal env user r now g =
     (let sid = extractSessionID (rq_Path r)
      in if sid = '''' then (refuse 400 ''session ID required'', g)
         else case ge_upgrade env of
           Some code \<Rightarrow> (refuse code ''upgrade failed'', g)
         | None \<Rightarrow>
             if wr_sessions (gw_webrtc g) sid = None then (reply 101 (GwSignal (Some ''session not found'')), g)
             else (reply 101 (GwSignal None), g\<lparr>gw_signals := gw_signals g @ [Some sid]\<rparr>))"

definition gw_hangup :: "nat \<Rightarrow> gateway \<Rightarrow> gateway" where
  "gw_hangup i g = g\<lparr>gw_signals := (gw_signals g)[i := None]\<rparr>"

definition gw_frame :: "nat \<Rightarrow> string option \<Rightarrow> string option \<Rightarrow> string option \<Rightarrow> time \<Rightarrow> gateway \<Rightarrow> gateway" where
  "gw_frame i ty pion wr now g =
     (if length (gw_signals g) \<le> i then g
      else case gw_signals g ! i of
        None \<Rightarrow> g
      | Some sid \<Rightarrow>
          (case ty of
             None \<Rightarrow> g
           | Some ty \<Rightarrow>
               (case wr_handleSignalMessage now pion wr sid ty (gw_webrtc g) of
                  ((err, ex), w) \<Rightarrow>
                    let g = g\<lparr>gw_webrtc := w\<rparr> in if err \<noteq> None \<or> ex = Panicked then gw_hangup i g else g)))"

section \<open>A request as a step\<close>

text \<open>
  The handlers of this file by the pattern under which they are registered. The other patterns belong to the
  handlers of other packages.
\<close>

definition gw_handlers :: "gw_env \<Rightarrow> bodies \<Rightarrow> (string \<times> handler) list" where
  "gw_handlers env b =
    [(''/'', \<lambda>user r now g. (reply 302 (GwRedirect ''/capabilities''), g)),
     (''/webrtc/'', handleWebRTC env b), (''/sessions'', sessionsRoot env b), (''/sessions/'', handleSessions env b),
     (''/input/'', handleInput b), (''/audio/'', handleAudio b), (''/transfer/'', handleTransfer env b),
     (''/clipboard/'', handleClipboard b), (''/gaming/'', handleGaming b), (''/media/'', handleMediaIngest env b),
     (''/data/'', handleDataIngest env b), (''/keyframe/'', handleRequestKeyframe),
     (''/tailscale/register'', handleTailscaleRegister b), (''/tailscale/hosts'', handleTailscaleHosts env),
     (''/tailscale/user'', handleUserTailscale b), (''/tailscale/proxy'', handleTailscaleProxy b),
     (''/hosts/'', handleHosts), (''/hosts/register'', handleHostRegister b), (''/hosts/metrics'', handleHostMetrics env b),
     (''/admin/health'', handleAdminHealth), (''/sessions/recordings'', handleListRecordings env),
     (''/sessions/recordings/'', handleRecordingOps env b), (''/signal/'', handleSignal env)]"

definition gw_handler_of :: "string \<Rightarrow> gw_env \<Rightarrow> bodies \<Rightarrow> handler option" where
  "gw_handler_of pat env b = map_of (gw_handlers env b) pat"

text \<open>In front of the router the layer of common headers answers every \<open>OPTIONS\<close> request itself.\<close>

definition gw_serve :: "bool \<Rightarrow> gw_env \<Rightarrow> bodies \<Rightarrow> request \<Rightarrow> time \<Rightarrow> gateway \<Rightarrow> (gw_body auth_body answer \<times> gateway) option" where
  "gw_serve speedtest env b r now g =
     (if rq_Method r = ''OPTIONS'' then Some (reply 204 GwPreflight, g)
      else case mux_find (rq_Path r) (gateway_routes speedtest) of
        None \<Rightarrow> Some (refuse 404 ''404 page not found'', g)
      | Some (pat, gd) \<Rightarrow>
          (case gw_handler_of pat env b of None \<Rightarrow> None | Some h \<Rightarrow> Some (behind gd h None r now g)))"


section \<open>What the guards do to a handler\<close>

text \<open>
  A guard refuses, or runs the handler on the same request (with the caller's id in the query, perhaps), for
  the user that the probe reports; of the state it has changed only the accounts and the limiter.
\<close>

definition touched :: "gateway \<Rightarrow> gateway \<Rightarrow> bool" where
  "touched g g' \<longleftrightarrow> (\<exists>am l. g' = g\<lparr>gw_auth := am, gw_limiter := l\<rparr>)"

definition passed ::
  "'b gw_handler \<Rightarrow> request \<Rightarrow> time \<Rightarrow> gateway \<Rightarrow> 'b auth_body answer \<times> gateway \<Rightarrow> user option auth_body answer \<times> gateway \<Rightarrow> bool" where
  "passed h r now g x y \<longleftrightarrow>
     (\<exists>code msg g'. touched g g' \<and> 400 \<le> code \<and> x = (refuse code msg, g')) \<or>
     (\<exists>user q g'. touched g g' \<and> x = h user (r\<lparr>rq_Query := q\<rparr>) now g' \<and> ans_body (fst y) = AuthOk user)"

lemma touched_refl [simp]: "touched g g"
  unfolding touched_def by (rule exI [of _ "gw_auth g"], rule exI [of _ "gw_limiter g"]) simp

lemma touched_trans: "touched g g' \<Longrightarrow> touched g' g'' \<Longrightarrow> touched g g''"
  unfolding touched_def by force

lemma touched_upd [simp]: "touched g (g\<lparr>gw_auth := am\<rparr>)" "touched g (g\<lparr>gw_limiter := l\<rparr>)"
proof -
  show "touched g (g\<lparr>gw_auth := am\<rparr>)"
    unfolding touched_def by (rule exI [of _ am], rule exI [of _ "gw_limiter g"]) simp
  show "touched g (g\<lparr>gw_limiter := l\<rparr>)"
    unfolding touched_def by (rule exI [of _ "gw_auth g"], rule exI [of _ l]) simp
qed

lemma touched_validate [simp]: "touched g (snd (gw_validate tok now g))"
  by (simp add: gw_validate_def split_beta)

lemma touched_sel:
  assumes "touched g g'"
  shows "gw_sessions g' = gw_sessions g" "gw_webrtc g' = gw_webrtc g" "gw_input g' = gw_input g" "gw_audio g' = gw_audio g"
    "gw_transfers g' = gw_transfers g" "gw_clipboards g' = gw_clipboards g" "gw_gaming g' = gw_gaming g"
    "gw_detector g' = gw_detector g" "gw_usage g' = gw_usage g" "gw_recorder g' = gw_recorder g"
    "gw_tailscaleHosts g' = gw_tailscaleHosts g" "gw_userTailscale g' = gw_userTailscale g" "gw_signals g' = gw_signals g"
    "gw_TunnelToken g' = gw_TunnelToken g"
  using assms by (auto simp: touched_def)

lemma passed_refuse: "touched g g' \<Longrightarrow> 400 \<le> code \<Longrightarrow> passed h r now g (refuse code msg, g') y"
  by (auto simp: passed_def)

lemma passed_enter: "touched g g' \<Longrightarrow> passed h r now g (h user r now g') (probe user r now g'')"
  by (auto simp: passed_def probe_def intro!: exI [of _ user] exI [of _ "rq_Query r"] exI [of _ g'])

lemma passed_from: "touched g g' \<Longrightarrow> passed h r now g' x y \<Longrightarrow> passed h r now g x y"
  unfolding passed_def by (blast intro: touched_trans)

lemma passed_AuthMiddleware:
  "passed h r now g (gw_AuthMiddleware h user r now g) (gw_AuthMiddleware probe user r now g)"
proof (cases "gw_validate (bearer_of r) now g")
  case (Pair res g')
  then have t: "touched g g'" using touched_validate [of g "bearer_of r" now] by simp
  then show ?thesis
    using passed_enter [OF t, of h r now] passed_enter [OF touched_refl, of h r now g]
    by (cases res) (simp_all add: gw_AuthMiddleware_def Let_def Pair)
qed

lemma passed_RequireAuth:
  assumes "\<And>user g. passed h r now g (h1 user r now g) (h2 user r now g)"
  shows "passed h r now g (gw_RequireAuth h1 user r now g) (gw_RequireAuth h2 user r now g)"
proof (cases "gw_validate (bearer_of r) now g")
  case (Pair res g')
  then have t: "touched g g'" using touched_validate [of g "bearer_of r" now] by simp
  show ?thesis
    using passed_from [OF t assms]
    by (cases res) (simp_all add: t passed_refuse gw_RequireAuth_def Let_def Pair)
qed

lemma passed_RequireRole:
  "passed h r now g (gw_RequireRole lvl h user r now g) (gw_RequireRole lvl probe user r now g)"
proof (cases "gw_validate (bearer_of r) now g")
  case (Pair res g')
  then have t: "touched g g'" using touched_validate [of g "bearer_of r" now] by simp
  show ?thesis
    using passed_enter [OF t, of h r now]
    by (cases res) (simp_all add: t passed_refuse gw_RequireRole_def Let_def Pair)
qed

lemma passed_requireTunnelToken:
  "passed h r now g (gw_requireTunnelToken h user r now g) (gw_requireTunnelToken probe user r now g)"
proof (cases "gw_validate (caller_token r) now g")
  case (Pair res g')
  then have t: "touched g g'" using touched_validate [of g "caller_token r" now] by simp
  show ?thesis
    using passed_enter [OF t, of h r now]  passed_enter [OF touched_refl, of h r now g]
    by (cases res) (simp_all add: t passed_refuse gw_requireTunnelToken_def Let_def Pair)
qed

lemma passed_requireSessionOwner:
  "passed h r now g (gw_requireSessionOwner pre h user r now g) (gw_requireSessionOwner pre probe user r now g)"
  unfolding gw_requireSessionOwner_def
proof (rule passed_RequireAuth)
  fix user g
  show "passed h r now g
     (case user of None \<Rightarrow> (refuse 401 ''unauthorized'', g)
      | Some u \<Rightarrow> (case sessionOwnerFromPath (rq_Path r) pre g of
          None \<Rightarrow> (refuse 404 ''session not found'', g)
        | Some owner \<Rightarrow> if owns_or_admin owner u then h user r now g else (refuse 403 ''forbidden'', g)))
     (case user of None \<Rightarrow> (refuse 401 ''unauthorized'', g)
      | Some u \<Rightarrow> (case sessionOwnerFromPath (rq_Path r) pre g of
          None \<Rightarrow> (refuse 404 ''session not found'', g)
        | Some owner \<Rightarrow> if owns_or_admin owner u then probe user r now g else (refuse 403 ''forbidden'', g)))"
    by (cases user; cases "sessionOwnerFromPath (rq_Path r) pre g") (simp_all add: passed_refuse passed_enter)
qed

lemma passed_requireSessionIngest:
  "passed h r now g (gw_requireSessionIngest pre h user r now g) (gw_requireSessionIngest pre probe user r now g)"
proof (cases "gw_validate (caller_token r) now g")
  case (Pair res g')
  then have t: "touched g g'" using touched_validate [of g "caller_token r" now] by simp
  show ?thesis
    using passed_enter [OF t, of h r now]  passed_enter [OF touched_refl, of h r now g]
    by (cases res) (simp_all add: t passed_refuse gw_requireSessionIngest_def Let_def Pair split: option.split)
qed

lemma passed_injectUser:
  "passed h r now g (gw_injectUser h user r now g) (gw_injectUser probe user r now g)"
  unfolding gw_injectUser_def
proof (rule passed_RequireAuth)
  fix user g
  have "passed h r now g (h user (r\<lparr>rq_Query := q\<rparr>) now g) (probe user (r\<lparr>rq_Query := q\<rparr>) now g)" for q user
    by (auto simp: passed_def probe_def intro!: exI [of _ user] exI [of _ q] exI [of _ g])
  then show "passed h r now g
     (case user of None \<Rightarrow> (refuse 401 ''unauthorized'', g)
      | Some u \<Rightarrow> h user (r\<lparr>rq_Query := filter (\<lambda>(k, vs). k \<noteq> ''userId'') (rq_Query r) @ [(''userId'', [us_ID u])]\<rparr>) now g)
     (case user of None \<Rightarrow> (refuse 401 ''unauthorized'', g)
      | Some u \<Rightarrow> probe user (r\<lparr>rq_Query := filter (\<lambda>(k, vs). k \<noteq> ''userId'') (rq_Query r) @ [(''userId'', [us_ID u])]\<rparr>) now g)"
    by (cases user) (simp_all add: passed_refuse)
qed

lemma passed_rateLimitByIP:
  assumes "\<And>g. passed h r now g (h1 user r now g) (h2 user r now g)"
  shows "passed h r now g (gw_rateLimitByIP h1 user r now g) (gw_rateLimitByIP h2 user r now g)"
  using passed_from [OF touched_upd(2) assms]
  by (cases "rl_Allow (rate_key r) now (gw_limiter g)") (simp add: gw_rateLimitByIP_def Let_def passed_refuse)

lemma passed_rateLimitByUser:
  assumes "\<And>g. passed h r now g (h1 user r now g) (h2 user r now g)"
  shows "passed h r now g (gw_rateLimitByUser h1 user r now g) (gw_rateLimitByUser h2 user r now g)"
proof (cases user)
  case (Some u)
  show ?thesis
    using passed_from [OF touched_upd(2) assms]
    by (cases "rl_AllowUser (us_ID u) now (gw_limiter g)")
      (simp add: gw_rateLimitByUser_def Let_def Some passed_refuse)
next
  case None
  with assms [of g] show ?thesis by (simp add: gw_rateLimitByUser_def)
qed

lemma behind_passed: "passed h r now g (behind gd h user r now g) (behind gd probe user r now g)"
proof (induction gd arbitrary: user g)
  case Open
  then show ?case using passed_enter [OF touched_refl] by simp
next
  case (Role lvl)
  show ?case unfolding behind.simps by (intro passed_RequireAuth passed_RequireRole)
next
  case Signed
  show ?case unfolding behind.simps by (intro passed_RequireAuth passed_enter touched_refl)
next
  case (RateIP gd)
  then show ?case unfolding behind.simps by (intro passed_rateLimitByIP)
next
  case (RateIPUser gd)
  then show ?case unfolding behind.simps gw_rateLimitByIPAndUser_def by (intro passed_rateLimitByIP passed_rateLimitByUser)
qed (simp_all add: passed_AuthMiddleware passed_injectUser passed_RequireRole passed_requireSessionOwner
    passed_requireSessionIngest passed_requireTunnelToken)

text \<open>A request is answered before the router, refused before its handler, refused by the router, or handled.\<close>

lemma serve_cases:
  assumes "gw_serve sp env b r now g = Some (a, g')"
  obtains (preflight) "rq_Method r = ''OPTIONS''" "a = reply 204 GwPreflight" "g' = g"
  | (refused) code msg where "touched g g'" "400 \<le> code" "a = refuse code msg" "rq_Method r \<noteq> ''OPTIONS''"
  | (handled) pat gd h user q g1 where "mux_find (rq_Path r) (gateway_routes sp) = Some (pat, gd)"
      "gw_handler_of pat env b = Some h" "touched g g1" "h user (r\<lparr>rq_Query := q\<rparr>) now g1 = (a, g')"
      "enters gd r now g user" "rq_Method r \<noteq> ''OPTIONS''"
proof (cases "rq_Method r = ''OPTIONS'' \<or> mux_find (rq_Path r) (gateway_routes sp) = None")
  case True
  show ?thesis
  proof (cases "rq_Method r = ''OPTIONS''")
    case True
    with assms show ?thesis using preflight by (simp add: gw_serve_def)
  next
    case False
    with True assms have "a = refuse 404 ''404 page not found''" "g' = g" by (simp_all add: gw_serve_def)
    then show ?thesis using refused [of 404 "''404 page not found''"] False by simp
  qed
next
  case False
  then obtain pat gd where f: "mux_find (rq_Path r) (gateway_routes sp) = Some (pat, gd)" by auto
  with assms False obtain h where h: "gw_handler_of pat env b = Some h" "behind gd h None r now g = (a, g')"
    by (auto simp: gw_serve_def split: option.splits)
  from behind_passed [of h r now g gd None] h(2)
  consider code msg g1 where "touched g g1" "400 \<le> code" "(a, g') = (refuse code msg, g1)"
    | user q g1 where "touched g g1" "(a, g') = h user (r\<lparr>rq_Query := q\<rparr>) now g1"
        "ans_body (fst (behind gd probe None r now g)) = AuthOk user"
    unfolding passed_def by auto
  then show ?thesis
  proof cases
    case 1
    then show ?thesis using refused False by simp
  next
    case 2
    then show ?thesis using handled [OF f h(1)] False by (simp add: enters_def)
  qed
qed


end
