(* ===== verification/GatewayRuns.thy ===== *)
theory GatewayRuns
  imports GatewayServer
begin

text \<open>
  The whole gateway as a step system: a step is a request to a handler of tunnel/server.go, work of the other
  packages on accounts, limits and the detector, a goroutine of the session manager, a frame or the end of a
  signalling connection, or one of the goroutines, timers and callbacks of the WebRTC server. The invariants of the managers hold together in every run, and with them what the wiring of
  the server makes of the managers: no handler registers a host, approves a session, registers a session
  with the input, audio and clipboard managers, or starts a transfer.
\<close>

section \<open>Steps\<close>

datatype gw_event = Request gw_env bodies request time
  | Elsewhere auth_manager limiter tracker "sd_call list"
  | Goroutine nat time
  | Frame nat "string option" "string option" "string option" time
  | Hangup nat
  | Background wr_call

text \<open>
  What the WebRTC server does on its own: callbacks of the peer connections, the timers that delete entries, the
  samples of the network and of the statistics. Everything else it does is a request or a frame.
\<close>

fun background :: "wr_call \<Rightarrow> bool" where
  "background (WrIce now p ev) = True"
| "background (WrTimer now) = True"
| "background (WrQuality now sid q) = True"
| "background (WrStats now p i out rtt) = True"
| "background _ = False"

fun gw_step :: "bool \<Rightarrow> gateway \<Rightarrow> gw_event \<Rightarrow> gateway" where
  "gw_step sp g (Request env b r now) = (case gw_serve sp env b r now g of None \<Rightarrow> g | Some (a, g') \<Rightarrow> g')"
| "gw_step sp g (Elsewhere am l us ds) = g\<lparr>gw_auth := am, gw_limiter := l, gw_usage := us,
     gw_detector := foldl sd_step (gw_detector g) ds\<rparr>"
| "gw_step sp g (Goroutine i now) = g\<lparr>gw_sessions := sm_run_task i now (gw_sessions g)\<rparr>"
| "gw_step sp g (Frame i ty pion wr now) = gw_frame i ty pion wr now g"
| "gw_step sp g (Hangup i) = gw_hangup i g"
| "gw_step sp g (Background c) = (if background c then g\<lparr>gw_webrtc := wr_step (gw_webrtc g) c\<rparr> else g)"

abbreviation gw_run :: "bool \<Rightarrow> gateway \<Rightarrow> gw_event list \<Rightarrow> gateway" where
  "gw_run sp \<equiv> foldl (gw_step sp)"

section \<open>Sessions that wait\<close>

definition sm_waiting :: "session_manager \<Rightarrow> bool" where
  "sm_waiting m \<longleftrightarrow> sm_hostAllocator m = NewHostAllocator \<and> sm_ok [] m \<and>
     (\<forall>p s. sm_mem m p = Some s \<longrightarrow> needs_approval s \<and> se_HostID s = '''')"

lemma no_host: "\<exists>e. ha_AllocateHost ks now ty cl region gpu NewHostAllocator = Inl e \<and>
    (e = ''no available hosts in region'' \<or> e = ''no available hosts'')"
  by (simp add: ha_AllocateHost_def NewHostAllocator_def map_values_def Let_def List.map_filter_def)

lemma sm_waiting_new: "sm_waiting (NewSessionManager NewHostAllocator)"
  using sm_ok_new [of NewHostAllocator] by (simp add: sm_waiting_def NewSessionManager_def)

definition asks_approval :: "create_request \<Rightarrow> bool" where
  "asks_approval req \<longleftrightarrow> rq_Type req = SessionTypeRemoteSupport \<and> pm_RequiresUserApproval (rq_Permissions req)"

lemma with_defaults_sel [simp]:
  "rq_UserID (with_defaults req) = rq_UserID req" "rq_Type (with_defaults req) = rq_Type req"
  "pm_RequiresUserApproval (rq_Permissions (with_defaults req)) = pm_RequiresUserApproval (rq_Permissions req)"
  by (simp_all add: with_defaults_def Let_def)

text \<open>Without hosts a creation waits for an approval, or fails and changes nothing.\<close>

lemma create_without_hosts:
  assumes "sm_hostAllocator m = NewHostAllocator" "rq_UserID req \<noteq> ''''"
  shows "asks_approval req \<Longrightarrow> \<exists>prof. sm_CreateSession env req m =
      sm_createSessionRequiringApproval env (with_defaults req) prof m"
    and "\<not> asks_approval req \<Longrightarrow> \<exists>e. sm_CreateSession env req m = (Inl e, m) \<and> contains e ''no available hosts''"
proof -
  show "asks_approval req \<Longrightarrow> \<exists>prof. sm_CreateSession env req m =
      sm_createSessionRequiringApproval env (with_defaults req) prof m"
    using assms(2) by (simp add: sm_CreateSession_def asks_approval_def Let_def) blast
  assume na: "\<not> asks_approval req"
  obtain e where h: "ha_AllocateHost (env_order env) (env_now env) (rq_Type req)
      (rq_ResourceClass (with_defaults req)) (rq_Region (with_defaults req)) (rq_GPURequired (with_defaults req))
      NewHostAllocator = Inl e" "e = ''no available hosts in region'' \<or> e = ''no available hosts''"
    using no_host by blast
  have c: "contains (''failed to allocate host: '' @ ''no available hosts in region'') ''no available hosts''"
    "contains (''failed to allocate host: '' @ ''no available hosts'') ''no available hosts''" by code_simp+
  have "sm_CreateSession env req m = (Inl (''failed to allocate host: '' @ e), m)"
    using assms na h(1) unfolding sm_CreateSession_def asks_approval_def Let_def with_defaults_sel
    by (simp only: if_False sum.case)
  moreover have "contains (''failed to allocate host: '' @ e) ''no available hosts''"
    using h(2) c by (elim disjE) (simp_all only:)
  ultimately show "\<exists>e. sm_CreateSession env req m = (Inl e, m) \<and> contains e ''no available hosts''" by blast
qed

lemma create_unnamed: "rq_UserID req = '''' \<Longrightarrow> sm_CreateSession env req m = (Inl ''user ID is required'', m)"
  by (simp add: sm_CreateSession_def)

lemma sm_waiting_Create:
  assumes "sm_waiting m"
  shows "sm_waiting (snd (sm_CreateSession env req m))"
proof (cases "rq_UserID req = ''''")
  case True
  with assms show ?thesis by (simp add: create_unnamed)
next
  case False
  have a: "sm_hostAllocator m = NewHostAllocator" using assms by (simp add: sm_waiting_def)
  show ?thesis
  proof (cases "asks_approval req")
    case True
    obtain prof where c: "sm_CreateSession env req m = sm_createSessionRequiringApproval env (with_defaults req) prof m"
      using create_without_hosts(1) [OF a False True] by blast
    have "sm_ok [] (snd (sm_CreateSession env req m))" using assms by (simp add: sm_waiting_def sm_ok_Create)
    then show ?thesis using assms True unfolding c
      by (auto simp: sm_waiting_def sm_createSessionRequiringApproval_def Let_def sm_add_session_def asks_approval_def
          new_session_def needs_approval_def)
  next
    case False
    with create_without_hosts(2) [OF a \<open>rq_UserID req \<noteq> ''''\<close> False, of env] assms show ?thesis by force
  qed
qed

lemma sm_waiting_End: "sm_waiting m \<Longrightarrow> sm_waiting (snd (sm_EndSession env k reason m))"
proof -
  assume w: "sm_waiting m"
  then have "sm_ok [] (snd (sm_EndSession env k reason m))" by (simp add: sm_waiting_def sm_ok_End)
  moreover have "sm_mem m p \<noteq> None" if "sm_sessions m k = Some p" for p
    using w that sm_wf_session(1) [of m k p] by (auto simp: sm_waiting_def sm_ok_def)
  ultimately show ?thesis using w
    by (cases "sm_sessions m k") (auto simp: sm_EndSession_def Let_def sm_waiting_def sm_GetSession_def needs_approval_def
        sm_write_def sm_log_def sm_spawn_def)
qed

lemma waiting_no_target: "sm_waiting m \<Longrightarrow> t \<in> set (sm_tasks m) \<Longrightarrow> sm_target t = None"
proof (rule ccontr)
  assume w: "sm_waiting m" and t: "t \<in> set (sm_tasks m)" and "sm_target t \<noteq> None"
  then obtain p where p: "sm_target t = Some p" by blast
  with w t obtain s where "sm_mem m p = Some s" by (fastforce simp: sm_waiting_def sm_ok_def sm_wf_def)
  with w t p show False by (auto simp: sm_waiting_def sm_ok_def sm_held_def approved_in_def)
qed

lemma sm_waiting_task: "sm_waiting m \<Longrightarrow> sm_waiting (sm_run_task i now m)"
proof (cases "i < length (sm_tasks m)")
  case True
  assume w: "sm_waiting m"
  have t: "sm_target (sm_tasks m ! i) = None" using waiting_no_target [OF w] True by simp
  have ok: "sm_ok [] (sm_run_task i now m)" using w by (simp add: sm_waiting_def sm_ok_Task)
  from t obtain k d where "sm_tasks m ! i = RemoveAfter k d" by (cases "sm_tasks m ! i") auto
  with ok w True show ?thesis by (auto simp: sm_waiting_def sm_run_task_def Let_def)
qed (simp add: sm_run_task_def)

section \<open>Transfers that wait\<close>

definition tm_waiting :: "transfer_manager \<Rightarrow> bool" where
  "tm_waiting m \<longleftrightarrow> (\<forall>k t. tm_transfers m k = Some t \<longrightarrow> ft_State t = TransferStatePending \<and> ft_BytesTransferred t = 0) \<and>
     tm_limiter m \<le> maxConcurrentTransfers"

lemma tm_waiting_Create: "tm_waiting m \<Longrightarrow> tm_waiting (snd (tm_CreateTransfer i sid dir name sz ty now m))"
  by (auto simp: tm_waiting_def tm_CreateTransfer_def Let_def)

lemma chunk_refused:
  "tm_waiting m \<Longrightarrow> snd (tm_ProcessChunk ch now m) = m \<and> \<not> cs_Success (fst (tm_ProcessChunk ch now m))"
  by (auto simp: tm_waiting_def tm_ProcessChunk_def tm_GetTransfer_def Let_def split: option.split)

section \<open>The invariant of the whole gateway\<close>

definition gw_inv :: "gateway \<Rightarrow> bool" where
  "gw_inv g \<longleftrightarrow> gw_input g = NewInputManager \<and> gw_audio g = NewAudioStreamer \<and> gw_clipboards g = Map.empty \<and>
     sm_waiting (gw_sessions g) \<and> tm_waiting (gw_transfers g) \<and> wr_inv (gw_webrtc g) \<and> gm_inv (gw_gaming g) \<and>
     sr_inv (gw_recorder g) \<and> sd_inv (gw_detector g)"

definition keeps_inv :: "handler \<Rightarrow> bool" where
  "keeps_inv h \<longleftrightarrow> (\<forall>user r now g. gw_inv g \<longrightarrow> gw_inv (snd (h user r now g)))"

lemma gw_inv_upd:
  assumes "gw_inv g"
  shows "wr_inv w \<Longrightarrow> gw_inv (g\<lparr>gw_webrtc := w\<rparr>)" "sm_waiting m \<Longrightarrow> gw_inv (g\<lparr>gw_sessions := m\<rparr>)"
    "sm_waiting m \<Longrightarrow> wr_inv w \<Longrightarrow> gw_inv (g\<lparr>gw_sessions := m, gw_webrtc := w\<rparr>)"
    "tm_waiting t \<Longrightarrow> gw_inv (g\<lparr>gw_transfers := t\<rparr>)" "gm_inv gm \<Longrightarrow> gw_inv (g\<lparr>gw_gaming := gm\<rparr>)"
    "sr_inv sr \<Longrightarrow> gw_inv (g\<lparr>gw_recorder := sr\<rparr>)" "sd_inv d \<Longrightarrow> gw_inv (g\<lparr>gw_detector := d\<rparr>)"
    "gw_inv (g\<lparr>gw_usage := us\<rparr>)" "gw_inv (g\<lparr>gw_tailscaleHosts := th\<rparr>)" "gw_inv (g\<lparr>gw_userTailscale := ut\<rparr>)"
    "gw_inv (g\<lparr>gw_auth := am\<rparr>)" "gw_inv (g\<lparr>gw_limiter := l\<rparr>)" "gw_inv (g\<lparr>gw_signals := cs\<rparr>)"
  using assms by (simp_all add: gw_inv_def)

lemma gw_inv_D:
  assumes "gw_inv g"
  shows "gw_input g sid = None" "gw_audio g sid = None" "gw_clipboards g sid = None" "sm_waiting (gw_sessions g)"
    "tm_waiting (gw_transfers g)" "wr_inv (gw_webrtc g)" "gm_inv (gw_gaming g)" "sr_inv (gw_recorder g)" "sd_inv (gw_detector g)"
  using assms by (simp_all add: gw_inv_def NewInputManager_def NewAudioStreamer_def)

lemma keeps_with_id:
  "(\<And>sid user r now g. gw_inv g \<Longrightarrow> gw_inv (snd (h sid user r now g))) \<Longrightarrow> gw_inv g \<Longrightarrow> gw_inv (snd (with_id pre h user r now g))"
  by (simp add: with_id_def Let_def)

named_theorems keeps

lemma keeps_webrtc [keeps]: "gw_inv g \<Longrightarrow> gw_inv (snd (handleWebRTC env b user r now g))"
proof -
  assume inv: "gw_inv g"
  have "wr_inv (snd (wr_CreateSession (ge_random env) (ge_pion env) now req (gw_webrtc g)))" for req
    using inv by (simp add: gw_inv_D wr_inv_Create)
  then have "wr_inv w" if "wr_CreateSession (ge_random env) (ge_pion env) now req (gw_webrtc g) = (res, w)" for req res w
    using that by (metis snd_conv)
  with inv show ?thesis
    by (auto simp: handleWebRTC_def handleCreateWebRTCSession_def intro!: gw_inv_upd split: option.split sum.split prod.split)
qed

lemma keeps_fallback: "gw_inv g \<Longrightarrow> gw_inv (snd (fallback_session env now req g))"
proof -
  assume inv: "gw_inv g"
  have "wr_inv w" if "wr_CreateSession (ge_random env) (ge_pion env) now q (gw_webrtc g) = (res, w)" for q res w
    using inv that wr_inv_Create [of "gw_webrtc g" "ge_random env" "ge_pion env" now q] by (simp add: gw_inv_D)
  with inv show ?thesis
    by (auto simp: fallback_session_def intro!: gw_inv_upd split: sum.split prod.split)
qed

lemma keeps_create [keeps]: "gw_inv g \<Longrightarrow> gw_inv (snd (handleCreateSession env b user r now g))"
proof (cases "bd_session b")
  case (Some req)
  assume inv: "gw_inv g"
  let ?c = "sm_CreateSession (session_env env now) (named_request user now req) (gw_sessions g)"
  have "sm_waiting (snd ?c)" using inv by (simp add: gw_inv_D sm_waiting_Create)
  then have "gw_inv (g\<lparr>gw_sessions := snd ?c\<rparr>)" using inv by (simp add: gw_inv_upd)
  then show ?thesis
    using keeps_fallback [of "g\<lparr>gw_sessions := snd ?c\<rparr>" env now "named_request user now req"]
    by (cases ?c) (auto simp: handleCreateSession_def Some Let_def split: sum.split)
qed (simp add: handleCreateSession_def)

lemma keeps_end_session: "gw_inv g \<Longrightarrow> gw_inv (snd (end_session env now sid reason g))"
proof -
  assume inv: "gw_inv g"
  then have "gw_inv (g\<lparr>gw_sessions := snd (sm_EndSession e sid reason (gw_sessions g)),
      gw_webrtc := snd (wr_EndSession now sid (gw_webrtc g))\<rparr>)" for e
    by (simp add: gw_inv_upd gw_inv_D sm_waiting_End wr_inv_End)
  then show ?thesis by (simp add: end_session_def Let_def split_beta split: sum.split)
qed

lemma keeps_end: "gw_inv g \<Longrightarrow> gw_inv (snd (handleEndSession env b user r now g))"
  unfolding handleEndSession_def Let_def
  by (erule keeps_with_id [rotated]) (simp add: keeps_end_session split: option.split)

lemma keeps_sessions [keeps]:
  "gw_inv g \<Longrightarrow> gw_inv (snd (sessionsRoot env b user r now g))"
  "gw_inv g \<Longrightarrow> gw_inv (snd (handleSessions env b user r now g))"
  by (auto simp: sessionsRoot_def handleSessions_def handleListSessions_def handleGetSession_def with_id_def Let_def
      intro!: keeps_create keeps_end split: sum.split)


lemma keeps_devices [keeps]:
  "gw_inv g \<Longrightarrow> gw_inv (snd (handleInput b user r now g))"
  "gw_inv g \<Longrightarrow> gw_inv (snd (handleAudio b user r now g))"
  "gw_inv g \<Longrightarrow> gw_inv (snd (handleClipboard b user r now g))"
  "gw_inv g \<Longrightarrow> gw_inv (snd (handleRequestKeyframe user r now g))"
  "gw_inv g \<Longrightarrow> gw_inv (snd (handleDataIngest env b user r now g))"
  by (auto simp: handleInput_def handleAudio_def handleClipboard_def handleClipboardWrite_def handleClipboardRead_def
      handleRequestKeyframe_def handleDataIngest_def with_id_def Let_def im_HandleInputEvent_def im_GetSession_def
      cb_Write_def cb_GetSession_def gw_inv_D split: option.split sum.split answer.split prod.split)

lemma keeps_media [keeps]: "gw_inv g \<Longrightarrow> gw_inv (snd (handleMediaIngest env b user r now g))"
  unfolding handleMediaIngest_def
proof (erule keeps_with_id [rotated])
  fix sid user r now and g :: gateway
  assume inv: "gw_inv g"
  let ?m = "wr_HandleMediaIngest (ge_accepts env) (rq_Method r = ''POST'') (hdr_get (rq_Header r) ''Content-Type'')
            (rq_Path r) (bd_bytes b) (bd_reads b) (bd_readError b) (gw_webrtc g)"
  have "gw_inv (g\<lparr>gw_webrtc := snd ?m\<rparr>)" using inv by (simp add: gw_inv_upd gw_inv_D wr_inv_media)
  then show "gw_inv (snd (case ?m of ((ps, ans), w) \<Rightarrow> (case ans of None \<Rightarrow> (reply 200 (GwMedia ps None), g\<lparr>gw_webrtc := w\<rparr>)
      | Some (Answer code body) \<Rightarrow> (reply code (GwMedia ps (Some body)), g\<lparr>gw_webrtc := w\<rparr>))))"
    by (simp add: split_beta split: option.split answer.split)
qed

lemma keeps_signal [keeps]: "gw_inv g \<Longrightarrow> gw_inv (snd (handleSignal env user r now g))"
  by (simp add: handleSignal_def Let_def gw_inv_upd split: option.split)

lemma keeps_hangup: "gw_inv g \<Longrightarrow> gw_inv (gw_hangup i g)"
  by (simp add: gw_hangup_def gw_inv_upd)

lemma keeps_frame: "gw_inv g \<Longrightarrow> gw_inv (gw_frame i ty pion wr now g)"
proof -
  assume inv: "gw_inv g"
  have "wr_inv (snd (wr_handleSignalMessage now pion wr sid t (gw_webrtc g)))" for sid t
    using wr_step_inv [of "gw_webrtc g" "WrSignal now pion wr sid t"] inv by (simp add: gw_inv_D)
  with inv show ?thesis
    by (simp add: gw_frame_def Let_def split_beta gw_inv_upd keeps_hangup split: option.split)
qed

lemma keeps_transfer [keeps]: "gw_inv g \<Longrightarrow> gw_inv (snd (handleTransfer env b user r now g))"
proof -
  assume inv: "gw_inv g"
  have "tm_waiting m" if "tm_CreateTransfer i sid dir name sz ty now (gw_transfers g) = (res, m)" for i sid dir name sz ty res m
    using inv that tm_waiting_Create [of "gw_transfers g" i sid dir name sz ty now] by (simp add: gw_inv_D)
  moreover have "tm_waiting m" if "tm_ProcessChunk ch now (gw_transfers g) = (res, m)" for ch res m
    using inv that chunk_refused [of "gw_transfers g" ch now] by (simp add: gw_inv_D)
  ultimately show ?thesis using inv
    by (auto simp: handleTransfer_def handleCreateTransfer_def handleTransferChunk_def intro!: gw_inv_upd
        split: option.split sum.split prod.split)
qed

lemma gm_inv_calls:
  assumes "gm_inv m"
  shows "gm_inv (snd (gm_CreateGamingSession now sid c m))" "gm_inv (snd (gm_RegisterController now sid cid v m))"
    "gm_inv (snd (gm_UpdateControllerState now sid cid bs ax m))" "gm_inv (snd (gm_SetControllerRumble now sid cid e x m))"
    "gm_inv (snd (gm_UpdatePerformanceMetrics now sid p1 p2 p3 p4 m))" "gm_inv (snd (gm_OptimizeForMode now sid mode m))"
  using gm.step_inv [OF assms, of "GmCreate now sid c"] gm.step_inv [OF assms, of "GmRegister now sid cid v"]
    gm.step_inv [OF assms, of "GmController now sid cid bs ax"] gm.step_inv [OF assms, of "GmRumble now sid cid e x"]
    gm.step_inv [OF assms, of "GmMetrics now sid p1 p2 p3 p4"] gm.step_inv [OF assms, of "GmOptimize now sid mode"]
  by simp_all

lemma keeps_after_action: "gw_inv g \<Longrightarrow> gm_inv (snd x) \<Longrightarrow> gw_inv (snd (after_action g x))"
  by (cases x) (simp add: after_action_def gw_inv_upd)

lemma keeps_gaming [keeps]: "gw_inv g \<Longrightarrow> gw_inv (snd (handleGaming b user r now g))"
proof -
  have "gw_inv (snd (handleCreateGamingSession b user r now g))" if "gw_inv g"
    using that unfolding handleCreateGamingSession_def
    by (elim keeps_with_id [rotated]) (simp add: gw_inv_upd gw_inv_D gm_inv_calls split_beta split: option.split)
  moreover have "gw_inv (snd (handleUpdateGamingState b user r now g))" if "gw_inv g"
    using that unfolding handleUpdateGamingState_def
    by (elim keeps_with_id [rotated])
      (simp add: keeps_after_action gw_inv_D gm_inv_calls split: option.split prod.split)
  moreover assume "gw_inv g"
  ultimately show ?thesis
    by (simp add: handleGaming_def handleGetGamingState_def with_id_def Let_def split: sum.split)
qed

lemma keeps_tailscale [keeps]:
  "gw_inv g \<Longrightarrow> gw_inv (snd (handleTailscaleRegister b user r now g))"
  "gw_inv g \<Longrightarrow> gw_inv (snd (handleTailscaleHosts env user r now g))"
  "gw_inv g \<Longrightarrow> gw_inv (snd (handleUserTailscale b user r now g))"
  "gw_inv g \<Longrightarrow> gw_inv (snd (handleTailscaleProxy b user r now g))"
  "gw_inv g \<Longrightarrow> gw_inv (snd (handleHosts user r now g))"
  "gw_inv g \<Longrightarrow> gw_inv (snd (handleHostRegister b user r now g))"
  "gw_inv g \<Longrightarrow> gw_inv (snd (handleAdminHealth user r now g))"
  "gw_inv g \<Longrightarrow> gw_inv (snd (handleListRecordings env user r now g))"
  by (auto simp: handleTailscaleRegister_def handleTailscaleHosts_def handleUserTailscale_def handleTailscaleProxy_def
      handleHosts_def handleHostRegister_def handleAdminHealth_def handleListRecordings_def Let_def
      intro!: gw_inv_upd split: option.split prod.split)


lemma keeps_metrics [keeps]: "gw_inv g \<Longrightarrow> gw_inv (snd (handleHostMetrics env b user r now g))"
proof -
  have m: "sd_inv (snd (sd_AnalyzeMetrics now vm cpu gpu net ps d))" if "sd_inv d" for now vm cpu gpu net ps d
    using sd.step_inv [OF that, of "OnMetrics now vm cpu gpu net ps"] by simp
  have t: "sd_inv (snd (sd_AnalyzeTraffic now u i out n dur d))" if "sd_inv d" for now u i out n dur d
    using sd.step_inv [OF that, of "OnTraffic now u i out n dur"] by simp
  assume "gw_inv g"
  then show ?thesis
    by (auto simp: handleHostMetrics_def Let_def gw_inv_D intro!: gw_inv_upd m t split: option.split)
qed

lemma keeps_recordings [keeps]: "gw_inv g \<Longrightarrow> gw_inv (snd (handleRecordingOps env b user r now g))"
  unfolding handleRecordingOps_def
proof (erule keeps_with_id [rotated])
  fix sid user r now and g :: gateway
  assume inv: "gw_inv g"
  have a: "sr_inv m" if "sr_StartRecording tmp e now sid c (gw_recorder g) = (res, m)" for tmp e c res m
    using inv that sr.step_inv [of "gw_recorder g" "SrStart tmp e now sid c"] by (simp add: gw_inv_D)
  have b: "sr_inv m" if "sr_StopRecording now sid (gw_recorder g) = (res, m)" for res m
    using inv that sr.step_inv [of "gw_recorder g" "SrStop now sid"] by (simp add: gw_inv_D)
  from inv a b show "gw_inv (snd (if rq_Method r = ''POST'' then
       (case bd_recording b of
          None \<Rightarrow> (bad_body, g)
        | Some c \<Rightarrow>
            (case sr_StartRecording (ge_tmp env) (ge_create env) now sid c (gw_recorder g) of
               (Inl e, m) \<Rightarrow> (refuse 500 e, g\<lparr>gw_recorder := m\<rparr>)
             | (Inr _, m) \<Rightarrow> (reply 201 (GwRecording ''recording-started'' sid), g\<lparr>gw_recorder := m\<rparr>)))
     else if rq_Method r = ''DELETE'' then
       (case sr_StopRecording now sid (gw_recorder g) of
          (Some e, m) \<Rightarrow> (refuse 404 e, g\<lparr>gw_recorder := m\<rparr>)
        | (None, m) \<Rightarrow> (reply 200 (GwRecording ''recording-stopped'' sid), g\<lparr>gw_recorder := m\<rparr>))
     else (not_allowed, g)))"
    by (auto intro!: gw_inv_upd split: option.split sum.split prod.split)
qed

lemma handler_keeps: "gw_handler_of pat env b = Some h \<Longrightarrow> gw_inv g \<Longrightarrow> gw_inv (snd (h user r now g))"
  unfolding gw_handler_of_def gw_handlers_def by (drule map_of_SomeD) (auto simp: keeps)

lemma touched_inv: "touched g g' \<Longrightarrow> gw_inv g \<Longrightarrow> gw_inv g'"
  by (simp add: gw_inv_def touched_sel)

lemma serve_inv:
  assumes "gw_serve sp env b r now g = Some (a, g')" "gw_inv g"
  shows "gw_inv g'"
  using assms(1)
proof (cases rule: serve_cases)
  case (handled pat gd h user q g1)
  then show ?thesis
    using handler_keeps [of pat env b h g1 user "r\<lparr>rq_Query := q\<rparr>" now] touched_inv [OF handled(3) assms(2)] by simp
qed (use assms(2) touched_inv in simp_all)

lemma gw_step_inv: "gw_inv g \<Longrightarrow> gw_inv (gw_step sp g e)"
proof (cases e)
  case (Request env b r now)
  moreover assume "gw_inv g"
  ultimately show ?thesis by (auto split: option.split intro: serve_inv)
next
  case (Elsewhere am l us ds)
  moreover assume inv: "gw_inv g"
  have "sd_inv (foldl sd_step (gw_detector g) ds)" using inv by (simp add: sd.run_inv gw_inv_D)
  ultimately show ?thesis using inv by (simp add: gw_inv_def)
next
  case (Goroutine i now)
  moreover assume "gw_inv g"
  ultimately show ?thesis by (simp add: gw_inv_upd gw_inv_D sm_waiting_task)
next
  case (Background c)
  moreover assume "gw_inv g"
  ultimately show ?thesis by (simp add: gw_inv_upd gw_inv_D wr_step_inv del: wr_step.simps)
qed (simp_all add: keeps_frame keeps_hangup)

interpretation gw: component "gw_step sp" gw_inv for sp
  by unfold_locales (rule gw_step_inv)

lemma gw_inv_new: "sd_inv det \<Longrightarrow> gw_inv (gw_NewServer token conns cdn edge api rpm am det)"
  by (simp add: gw_inv_def gw_NewServer_def sm_waiting_new tm_waiting_def NewTransferManager_def wr_inv_new gm_inv_def
      NewGamingManager_def sr_inv_def NewSessionRecorder_def)

text \<open>A state of the gateway in a run of the server, whose detector has been through any calls before.\<close>

definition gw_state :: "bool \<Rightarrow> gateway \<Rightarrow> bool" where
  "gw_state sp g \<longleftrightarrow> (\<exists>token conns cdn edge api rpm am active ds es.
     g = gw_run sp (gw_NewServer token conns cdn edge api rpm am (foldl sd_step (NewSecurityDetector active) ds)) es)"

lemma gw_state_inv: "gw_state sp g \<Longrightarrow> gw_inv g"
proof -
  assume "gw_state sp g"
  then obtain token conns cdn edge api rpm am active ds es where
    g: "g = gw_run sp (gw_NewServer token conns cdn edge api rpm am (foldl sd_step (NewSecurityDetector active) ds)) es"
    unfolding gw_state_def by blast
  have "sd_inv (foldl sd_step (NewSecurityDetector active) ds)" by (rule sd.run_inv) (rule sd_inv_new)
  then show ?thesis unfolding g by (intro gw.run_inv gw_inv_new)
qed


section \<open>What a handler leaves alone\<close>

text \<open>For a component \<open>f\<close> of the state that does not see the managers a handler writes.\<close>

lemma frame_with_id:
  "(\<And>sid user r now g. f (snd (h sid user r now g)) = f g) \<Longrightarrow> f (snd (with_id pre h user r now g)) = f g"
  by (simp add: with_id_def Let_def)

lemma frame_webrtc_create:
  assumes "\<And>g x. f (g\<lparr>gw_webrtc := x\<rparr>) = f g"
  shows "f (snd (handleWebRTC env b user r now g)) = f g" "f (snd (fallback_session env now req g)) = f g"
    "f (snd (handleMediaIngest env b user r now g)) = f g"
proof -
  show "f (snd (handleWebRTC env b user r now g)) = f g" "f (snd (fallback_session env now req g)) = f g"
    by (auto simp: handleWebRTC_def handleCreateWebRTCSession_def fallback_session_def assms
        split: option.split sum.split prod.split)
  show "f (snd (handleMediaIngest env b user r now g)) = f g"
    unfolding handleMediaIngest_def
    by (rule frame_with_id) (auto simp: assms split: option.split prod.split answer.split)
qed

lemma frame_sessions:
  assumes w: "\<And>g x. f (g\<lparr>gw_webrtc := x\<rparr>) = f g" and s: "\<And>g x. f (g\<lparr>gw_sessions := x\<rparr>) = f g"
  shows "f (snd (handleCreateSession env b user r now g)) = f g" "f (snd (handleEndSession env b user r now g)) = f g"
    "f (snd (sessionsRoot env b user r now g)) = f g" "f (snd (handleSessions env b user r now g)) = f g"
proof -
  have e: "f (snd (end_session env now sid reason g)) = f g" for now sid reason g
    by (auto simp: end_session_def Let_def w s split: prod.split sum.split)
  show c: "f (snd (handleCreateSession env b user r now g)) = f g"
    by (auto simp: handleCreateSession_def Let_def frame_webrtc_create [OF w] s split: option.split prod.split sum.split)
  show d: "f (snd (handleEndSession env b user r now g)) = f g"
    unfolding handleEndSession_def by (rule frame_with_id) (auto simp: Let_def e split: option.split)
  show "f (snd (sessionsRoot env b user r now g)) = f g" "f (snd (handleSessions env b user r now g)) = f g"
    by (simp_all add: sessionsRoot_def handleSessions_def c d handleListSessions_def handleGetSession_def Let_def
        with_id_def split: sum.split)
qed

lemma frame_input: "(\<And>g x. f (g\<lparr>gw_input := x\<rparr>) = f g) \<Longrightarrow> f (snd (handleInput b user r now g)) = f g"
  by (auto simp: handleInput_def with_id_def Let_def split: option.split prod.split)

lemma frame_transfer: "(\<And>g x. f (g\<lparr>gw_transfers := x\<rparr>) = f g) \<Longrightarrow> f (snd (handleTransfer env b user r now g)) = f g"
  by (auto simp: handleTransfer_def handleCreateTransfer_def handleTransferChunk_def split: option.split prod.split sum.split)

lemma frame_clipboard: "(\<And>g x. f (g\<lparr>gw_clipboards := x\<rparr>) = f g) \<Longrightarrow> f (snd (handleClipboard b user r now g)) = f g"
  by (auto simp: handleClipboard_def handleClipboardWrite_def handleClipboardRead_def with_id_def Let_def
      split: option.split prod.split sum.split)

lemma frame_gaming:
  assumes a: "\<And>g x. f (g\<lparr>gw_gaming := x\<rparr>) = f g"
  shows "f (snd (handleGaming b user r now g)) = f g"
proof -
  have act: "f (snd (after_action g x)) = f g" for g x by (cases x) (simp add: after_action_def a)
  have "f (snd (handleCreateGamingSession b user r now g)) = f g"
    unfolding handleCreateGamingSession_def by (rule frame_with_id) (simp add: a split: option.split prod.split)
  moreover have "f (snd (handleUpdateGamingState b user r now g)) = f g"
    unfolding handleUpdateGamingState_def by (rule frame_with_id) (simp add: act split: option.split prod.split)
  moreover have "f (snd (handleGetGamingState user r now g)) = f g"
    unfolding handleGetGamingState_def by (rule frame_with_id) (simp split: sum.split)
  ultimately show ?thesis by (simp add: handleGaming_def)
qed

lemma frame_register:
  "(\<And>g x. f (g\<lparr>gw_tailscaleHosts := x\<rparr>) = f g) \<Longrightarrow> f (snd (handleTailscaleRegister b user r now g)) = f g"
  by (auto simp: handleTailscaleRegister_def split: option.split)

lemma frame_mapping:
  "(\<And>g x. f (g\<lparr>gw_userTailscale := x\<rparr>) = f g) \<Longrightarrow> f (snd (handleUserTailscale b user r now g)) = f g"
  by (auto simp: handleUserTailscale_def Let_def split: option.split)

lemma frame_metrics:
  assumes "\<And>g x. f (g\<lparr>gw_detector := x\<rparr>) = f g" "\<And>g x. f (g\<lparr>gw_usage := x\<rparr>) = f g"
  shows "f (snd (handleHostMetrics env b user r now g)) = f g"
  by (auto simp: handleHostMetrics_def Let_def assms split: option.split)

lemma frame_recordings: "(\<And>g x. f (g\<lparr>gw_recorder := x\<rparr>) = f g) \<Longrightarrow> f (snd (handleRecordingOps env b user r now g)) = f g"
  by (auto simp: handleRecordingOps_def with_id_def Let_def split: option.split prod.split sum.split)

lemma frame_read_only:
  "f (snd (handleAudio b user r now g)) = f g" "f (snd (handleRequestKeyframe user r now g)) = f g"
  "f (snd (handleDataIngest env b user r now g)) = f g" "f (snd (handleTailscaleHosts env user r now g)) = f g"
  "f (snd (handleTailscaleProxy b user r now g)) = f g" "f (snd (handleHosts user r now g)) = f g"
  "f (snd (handleHostRegister b user r now g)) = f g" "f (snd (handleAdminHealth user r now g)) = f g"
  "f (snd (handleListRecordings env user r now g)) = f g"
  by (auto simp: handleAudio_def handleRequestKeyframe_def handleDataIngest_def with_id_def Let_def
      handleTailscaleHosts_def handleTailscaleProxy_def handleHosts_def handleHostRegister_def handleAdminHealth_def
      handleListRecordings_def split: option.split sum.split prod.split answer.split)

lemma frame_signal: "(\<And>g x. f (g\<lparr>gw_signals := x\<rparr>) = f g) \<Longrightarrow> f (snd (handleSignal env user r now g)) = f g"
  by (simp add: handleSignal_def Let_def split: option.split)

lemma frame_gw_frame:
  assumes "\<And>g x. f (g\<lparr>gw_signals := x\<rparr>) = f g" "\<And>g x. f (g\<lparr>gw_webrtc := x\<rparr>) = f g"
  shows "f (gw_frame i ty pion wr now g) = f g" "f (gw_hangup i g) = f g"
  by (simp_all add: gw_frame_def gw_hangup_def assms Let_def split: option.split prod.split)

lemmas frames = frame_signal frame_webrtc_create frame_sessions frame_input frame_transfer frame_clipboard frame_gaming frame_register
  frame_mapping frame_metrics frame_recordings frame_read_only

lemma handler_entry: "gw_handler_of pat env b = Some h \<Longrightarrow> (pat, h) \<in> set (gw_handlers env b)"
  unfolding gw_handler_of_def by (rule map_of_SomeD)

lemma only_transfer:
  "gw_handler_of pat env b = Some h \<Longrightarrow> gw_transfers (snd (h user r now g)) = gw_transfers g \<or> h = handleTransfer env b"
  by (drule handler_entry, unfold gw_handlers_def list.set insert_iff prod.inject empty_iff, elim disjE conjE FalseE)
    (simp_all add: frames [where f = gw_transfers])

lemma only_mapping:
  "gw_handler_of pat env b = Some h \<Longrightarrow>
    gw_userTailscale (snd (h user r now g)) = gw_userTailscale g \<or> pat = ''/tailscale/user'' \<and> h = handleUserTailscale b"
  by (drule handler_entry, unfold gw_handlers_def list.set insert_iff prod.inject empty_iff, elim disjE conjE FalseE)
    (simp_all add: frames [where f = gw_userTailscale])

lemma only_webrtc:
  "gw_handler_of pat env b = Some h \<Longrightarrow> gw_webrtc (snd (h user r now g)) = gw_webrtc g \<or>
    pat = ''/webrtc/'' \<and> h = handleWebRTC env b \<or> pat = ''/sessions'' \<and> h = sessionsRoot env b \<or>
    pat = ''/sessions/'' \<and> h = handleSessions env b \<or> pat = ''/media/'' \<and> h = handleMediaIngest env b"
  by (drule handler_entry, unfold gw_handlers_def list.set insert_iff prod.inject empty_iff, elim disjE conjE FalseE)
    (simp_all add: frames [where f = gw_webrtc])


section \<open>Who may do what\<close>

lemma sessions_guard:
  "list_all (\<lambda>(pat, gd). pat = ''/sessions/'' \<or> pat = ''/sessions'' \<longrightarrow> gd = WithUser) (gateway_routes sp)"
  by (cases sp) (simp_all, code_simp+)

lemma mapping_guard: "list_all (\<lambda>(pat, gd). pat = ''/tailscale/user'' \<longrightarrow> gd = Signed) (gateway_routes sp)"
  by (cases sp) (simp_all, code_simp+)

lemma guard_of:
  assumes "list_all (\<lambda>(pat, gd). P pat \<longrightarrow> gd = G) rs" "mux_find path rs = Some (pat, gd)" "P pat"
  shows "gd = G"
  using mux_find_best [OF assms(2)] assms(1,3) by (auto simp: list_all_iff)

definition rtc_open :: "nat \<Rightarrow> webrtc_server \<Rightarrow> bool" where
  "rtc_open p w \<longleftrightarrow> (\<exists>se. wr_mem w p = Some se \<and> \<not> ws_stopClosed se)"

lemma open_create: "wr_inv w \<Longrightarrow> rtc_open p w \<Longrightarrow> rtc_open p (snd (wr_CreateSession rnd pion now req w))"
proof -
  assume inv: "wr_inv w" and o: "rtc_open p w"
  then have "p \<noteq> wr_next w" unfolding rtc_open_def wr_inv_def ws_ok_def by (metis less_irrefl option.distinct(1))
  with o show ?thesis by (simp add: rtc_open_def wr_CreateSession_def Let_def split: sum.split option.split)
qed

lemma open_write: "(\<And>se. ws_stopClosed (f se) = ws_stopClosed se) \<Longrightarrow> rtc_open p (wr_write q f w) = rtc_open p w"
  by (auto simp: rtc_open_def wr_write_def)

lemma open_end:
  "rtc_open p w \<Longrightarrow> \<not> rtc_open p (snd (wr_EndSession now sid w)) \<Longrightarrow> wr_sessions w sid = Some p"
proof (cases "wr_sessions w sid")
  case (Some q)
  assume "rtc_open p w" "\<not> rtc_open p (snd (wr_EndSession now sid w))"
  moreover have "wr_mem (snd (wr_EndSession now sid w)) p = wr_mem w p" if "q \<noteq> p"
    using that by (simp add: wr_EndSession_def Some Let_def wr_write_def)
  ultimately have "q = p" unfolding rtc_open_def by metis
  with Some show ?thesis by simp
qed (simp add: wr_EndSession_def)

lemma open_media: "rtc_open p (snd (wr_HandleMediaIngest acc post ty path body chunks rerr w)) = rtc_open p w"
  unfolding wr_HandleMediaIngest_def Let_def
  by (simp add: split_beta open_write split: option.split)


lemma open_fallback:
  "wr_inv (gw_webrtc g) \<Longrightarrow> rtc_open p (gw_webrtc g) \<Longrightarrow> rtc_open p (gw_webrtc (snd (fallback_session env now req g)))"
  using open_create [of "gw_webrtc g" p "ge_random env" "ge_pion env" now "fallback_request (with_defaults req)"]
  by (auto simp: fallback_session_def split: prod.split sum.split)

lemma open_createSession:
  "wr_inv (gw_webrtc g) \<Longrightarrow> rtc_open p (gw_webrtc g) \<Longrightarrow> rtc_open p (gw_webrtc (snd (handleCreateSession env b user r now g)))"
  by (auto simp: handleCreateSession_def Let_def intro!: open_fallback split: option.split prod.split sum.split)

lemma open_webrtc:
  "wr_inv (gw_webrtc g) \<Longrightarrow> rtc_open p (gw_webrtc g) \<Longrightarrow> rtc_open p (gw_webrtc (snd (handleWebRTC env b user r now g)))"
  using open_create [of "gw_webrtc g" p "ge_random env" "ge_pion env" now]
  by (auto simp: handleWebRTC_def handleCreateWebRTCSession_def split: option.split prod.split sum.split) (metis snd_conv)+

lemma open_mediaIngest:
  "rtc_open p (gw_webrtc (snd (handleMediaIngest env b user r now g))) = rtc_open p (gw_webrtc g)"
  using open_media [of p "ge_accepts env" "rq_Method r = ''POST''" "hdr_get (rq_Header r) ''Content-Type''" "rq_Path r"
      "bd_bytes b" "bd_reads b" "bd_readError b" "gw_webrtc g"]
  by (simp add: handleMediaIngest_def with_id_def Let_def split_beta split: option.split answer.split)

lemma open_root:
  "wr_inv (gw_webrtc g) \<Longrightarrow> rtc_open p (gw_webrtc g) \<Longrightarrow> rtc_open p (gw_webrtc (snd (sessionsRoot env b user r now g)))"
  by (simp add: sessionsRoot_def open_createSession handleListSessions_def Let_def)

lemma closed_by_delete:
  "wr_inv (gw_webrtc g) \<Longrightarrow> rtc_open p (gw_webrtc g) \<Longrightarrow> \<not> rtc_open p (gw_webrtc (snd (handleSessions env b user r now g))) \<Longrightarrow>
    rq_Method r = ''DELETE'' \<and> \<not> rtc_open p (gw_webrtc (snd (handleEndSession env b user r now g)))"
  using open_createSession [of g p env b user r now]
  by (auto simp: handleSessions_def handleGetSession_def with_id_def Let_def split: if_splits sum.splits)

lemma end_by_owner:
  assumes "rtc_open p (gw_webrtc g)" "\<not> rtc_open p (gw_webrtc (snd (handleEndSession env b user r now g)))"
  shows "\<exists>u owner. user = Some u \<and> sessionOwnerFromPath (rq_Path r) ''/sessions/'' g = Some owner \<and> owns_or_admin owner u \<and>
    wr_sessions (gw_webrtc g) (path_id ''/sessions/'' (rq_Path r)) = Some p"
proof -
  have e: "gw_webrtc (snd (end_session env now sid reason g)) = snd (wr_EndSession now sid (gw_webrtc g))" for sid reason
    by (simp add: end_session_def Let_def split_beta split: sum.split)
  from assms obtain u owner reason where u: "user = Some u" "sessionOwnerFromPath (rq_Path r) ''/sessions/'' g = Some owner"
      "owns_or_admin owner u"
      "\<not> rtc_open p (gw_webrtc (snd (end_session env now (path_id ''/sessions/'' (rq_Path r)) reason g)))"
    unfolding handleEndSession_def with_id_def Let_def by (auto split: if_splits option.splits)
  with open_end [OF assms(1)] show ?thesis by (auto simp: e)
qed

lemma request_ends:
  assumes "gw_reached mac check secret db cs issued g" "gw_state sp g"
    and "gw_serve sp env b r now g = Some (a, g')" "rtc_open p (gw_webrtc g)" "\<not> rtc_open p (gw_webrtc g')"
  shows "rq_Method r = ''DELETE'' \<and> (\<exists>u owner. signed_in issued (bearer_of r) now g u \<and>
    sessionOwner (ws_ID (wr_at (gw_webrtc g) p)) g = Some owner \<and> (owner = us_ID u \<or> RoleAdmin \<le> roleLevel (us_Role u)))"
  using assms(3)
proof (cases rule: serve_cases)
  case preflight
  with assms(4,5) show ?thesis by simp
next
  case (refused code msg)
  with assms(4,5) show ?thesis by (simp add: touched_sel)
next
  case (handled pat gd h user q g1)
  let ?r = "r\<lparr>rq_Query := q\<rparr>"
  have inv: "wr_inv (gw_webrtc g)" using gw_state_inv [OF assms(2)] by (simp add: gw_inv_D)
  have w: "gw_webrtc g1 = gw_webrtc g" using handled(3) by (simp add: touched_sel)
  have g': "g' = snd (h user ?r now g1)" using handled(4) by simp
  have closed: "\<not> rtc_open p (gw_webrtc (snd (h user ?r now g1)))" "rtc_open p (gw_webrtc g1)" "wr_inv (gw_webrtc g1)"
    using assms(4,5) inv g' w by simp_all
  then have h: "pat = ''/sessions/'' \<and> h = handleSessions env b"
    using only_webrtc [OF handled(2), of user ?r now g1] open_webrtc [of g1 p env b user ?r now]
      open_mediaIngest [of p env b user ?r now g1] open_root [of g1 p env b user ?r now]
    by auto
  then have "gd = WithUser" using guard_of [OF sessions_guard handled(1)] by simp
  then have u: "case user of None \<Rightarrow> True | Some u \<Rightarrow> signed_in issued (bearer_of r) now g u"
    using guards_sound [OF assms(1) handled(5)] by simp
  have d: "rq_Method r = ''DELETE''" "\<not> rtc_open p (gw_webrtc (snd (handleEndSession env b user ?r now g1)))"
    using closed_by_delete [of g1 p env b user ?r now] closed h by auto
  from end_by_owner [OF closed(2) d(2)] obtain v owner where v: "user = Some v"
    "sessionOwnerFromPath (rq_Path r) ''/sessions/'' g1 = Some owner" "owns_or_admin owner v"
    "wr_sessions (gw_webrtc g1) (path_id ''/sessions/'' (rq_Path r)) = Some p" by auto
  have "ws_ID (wr_at (gw_webrtc g) p) = path_id ''/sessions/'' (rq_Path r)"
    using inv v(4) w unfolding wr_inv_def ws_ok_def by simp
  moreover have "sessionOwner (path_id ''/sessions/'' (rq_Path r)) g = Some owner"
    using v(2) handled(3) owner_cong [of g1 g "rq_Path r" "''/sessions/''"]
    by (simp add: touched_sel sessionOwnerFromPath_def Let_def split: if_splits)
  ultimately show ?thesis using u v(1,3) d(1) by (auto simp: owns_or_admin_def)
qed

lemma frame_ends:
  assumes "rtc_open p (gw_webrtc g)" "\<not> rtc_open p (gw_webrtc (gw_frame i ty pion wr now g))"
  shows "ty = Some ''close'' \<and> i < length (gw_signals g) \<and>
    (\<exists>sid. gw_signals g ! i = Some sid \<and> wr_sessions (gw_webrtc g) sid = Some p)"
proof -
  have h: "gw_webrtc (gw_hangup i x) = gw_webrtc x" for x by (simp add: gw_hangup_def)
  from assms obtain sid t where i: "i < length (gw_signals g)" "gw_signals g ! i = Some sid" "ty = Some t"
    unfolding gw_frame_def by (auto simp: Let_def split_beta h split: if_splits option.splits)
  then have "gw_webrtc (gw_frame i ty pion wr now g) = snd (wr_handleSignalMessage now pion wr sid t (gw_webrtc g))"
    by (simp add: gw_frame_def Let_def split_beta h)
  with assms have c: "\<not> rtc_open p (snd (wr_handleSignalMessage now pion wr sid t (gw_webrtc g)))" by simp
  then have "t = ''close''"
    using assms(1) by (auto simp: wr_handleSignalMessage_def open_write split: option.splits if_splits)
  with c assms(1) have "\<not> rtc_open p (snd (wr_EndSession now sid (gw_webrtc g)))"
    by (auto simp: wr_handleSignalMessage_def split: option.splits)
  from open_end [OF assms(1) this] i \<open>t = ''close''\<close> show ?thesis by simp
qed

lemma open_timer: "rtc_open p (wr_timer now w) = rtc_open p w"
proof -
  have f: "wr_mem (foldl (\<lambda>s (sid, due). if due \<le> now then s\<lparr>wr_sessions := (wr_sessions s)(sid := None)\<rparr> else s) w ts) = wr_mem w"
    for w :: webrtc_server and ts by (induction ts arbitrary: w) auto
  show ?thesis unfolding wr_timer_def rtc_open_def f by simp
qed

lemma open_quality: "rtc_open p (w\<lparr>wr_quality := q\<rparr>) = rtc_open p w"
  by (simp add: rtc_open_def)

lemma background_ends:
  assumes "background c" "rtc_open p w" "\<not> rtc_open p (wr_step w c)"
  shows "\<exists>now q. c = WrIce now q IceClosed \<and> wr_sessions w (ws_ID (wr_at w q)) = Some p"
proof (cases c)
  case (WrIce now q ev)
  with assms(2,3) have ev: "ev = IceClosed" by (cases ev) (auto simp: wr_ice_def open_write)
  with WrIce assms(3) have "\<not> rtc_open p (snd (wr_EndSession now (ws_ID (wr_at w q)) w))"
    by (simp add: wr_ice_def split_beta)
  from open_end [OF assms(2) this] WrIce ev show ?thesis by blast
next
  case (WrQuality now sid q)
  with assms(2,3) show ?thesis by (auto simp: wr_UpdateNetworkQuality_def open_write open_quality Let_def split: option.splits)
qed (use assms in \<open>simp_all add: open_timer open_write\<close>)

text \<open>
  C10: How a session ends. A step of the gateway after which a WebRTC session that was open is closed is one of
  three: a DELETE request with a token that a registration or login issued to the account to which the session
  belongs, or to an administrator, and that is still good; a frame of type close on an open connection to
  /signal/ with the session's id (whoever opened it: that path asks for no token, see
  \<open>gateway_signal_closes\<close>); or the callback of the peer connection that it has been closed. No other request,
  frame, timer or work of another package closes a session.
\<close>

theorem gateway_how_sessions_end:
  assumes "gw_reached mac check secret db cs issued g" "gw_state sp g"
    and "rtc_open p (gw_webrtc g)" "\<not> rtc_open p (gw_webrtc (gw_step sp g e))"
  shows "case e of
      Request env b r now \<Rightarrow> rq_Method r = ''DELETE'' \<and> (\<exists>u owner. signed_in issued (bearer_of r) now g u \<and>
        sessionOwner (ws_ID (wr_at (gw_webrtc g) p)) g = Some owner \<and> (owner = us_ID u \<or> RoleAdmin \<le> roleLevel (us_Role u)))
    | Frame i ty pion wr now \<Rightarrow> ty = Some ''close'' \<and> i < length (gw_signals g) \<and>
        (\<exists>sid. gw_signals g ! i = Some sid \<and> wr_sessions (gw_webrtc g) sid = Some p)
    | Background c \<Rightarrow> \<exists>now q. c = WrIce now q IceClosed \<and> wr_sessions (gw_webrtc g) (ws_ID (wr_at (gw_webrtc g) q)) = Some p
    | _ \<Rightarrow> False"
proof (cases e)
  case (Request env b r now)
  with assms(3,4) obtain a g' where "gw_serve sp env b r now g = Some (a, g')" "\<not> rtc_open p (gw_webrtc g')"
    by (cases "gw_serve sp env b r now g") auto
  from request_ends [OF assms(1,2) this(1) assms(3) this(2)] Request show ?thesis by simp
next
  case (Frame i ty pion wr now)
  with frame_ends [OF assms(3)] assms(4) show ?thesis by simp
next
  case (Background c)
  with background_ends [OF _ assms(3)] assms(3,4) show ?thesis by (auto simp del: wr_step.simps split: if_splits)
qed (use assms(3,4) in \<open>simp_all add: gw_hangup_def\<close>)

text \<open>
  Anybody can end any session. A request to /signal/ with the id of a session needs no token, and a frame of type
  close on the connection it opens ends the session, whose owner and state nothing asks for.
\<close>

lemma signal_route: "list_all (\<lambda>(pat, gd). pat = ''/signal/'' \<longrightarrow> gd = Open) (gateway_routes sp)"
  by (cases sp) (simp_all, code_simp+)

theorem gateway_signal_closes:
  assumes "mux_find (rq_Path r) (gateway_routes sp) = Some (''/signal/'', gd)" "rq_Method r \<noteq> ''OPTIONS''"
    and "extractSessionID (rq_Path r) = sid" "sid \<noteq> ''''" "ge_upgrade env = None"
    and "wr_sessions (gw_webrtc g) sid = Some p" "ws_State (wr_at (gw_webrtc g) p) \<noteq> WsEnded" "rtc_open p (gw_webrtc g)"
  shows "\<not> rtc_open p (gw_webrtc (gw_run sp g
    [Request env b r now, Frame (length (gw_signals g)) (Some ''close'') pion wr now']))"
proof -
  have "gd = Open" using guard_of [OF signal_route assms(1)] by simp
  then have s: "gw_serve sp env b r now g = Some (reply 101 (GwSignal None), g\<lparr>gw_signals := gw_signals g @ [Some sid]\<rparr>)"
    using assms(1-6) by (simp add: gw_serve_def gw_handler_of_def gw_handlers_def handleSignal_def Let_def)
  have h: "gw_webrtc (gw_hangup i x) = gw_webrtc x" for i x by (simp add: gw_hangup_def)
  have "gw_webrtc (gw_run sp g [Request env b r now, Frame (length (gw_signals g)) (Some ''close'') pion wr now']) =
      snd (wr_EndSession now' sid (gw_webrtc g))"
    by (simp add: s gw_frame_def Let_def split_beta h wr_handleSignalMessage_def assms(6))
  moreover have "\<not> rtc_open p (snd (wr_EndSession now' sid (gw_webrtc g)))"
    using assms(6-8) by (auto simp: wr_EndSession_def wr_at_def wr_write_def Let_def rtc_open_def)
  ultimately show ?thesis by simp
qed


text \<open>
  C25: A user's Tailscale address is set by that user. A request after which the address mapped to an account is
  another one carries a token issued to that account or to an administrator; in every run of the account
  manager.
\<close>

theorem gateway_mapping_owned:
  assumes "gw_reached mac check secret db cs issued g"
    and "gw_serve sp env b r now g = Some (a, g')" "gw_userTailscale g' uid \<noteq> gw_userTailscale g uid"
  shows "\<exists>u. signed_in issued (bearer_of r) now g u \<and> (us_ID u = uid \<or> RoleAdmin \<le> roleLevel (us_Role u))"
  using assms(2)
proof (cases rule: serve_cases)
  case preflight
  with assms(3) show ?thesis by simp
next
  case (refused code msg)
  with assms(3) show ?thesis by (simp add: touched_sel)
next
  case (handled pat gd h user q g1)
  have g': "g' = snd (h user (r\<lparr>rq_Query := q\<rparr>) now g1)" using handled(4) by simp
  have t: "gw_userTailscale g1 = gw_userTailscale g" using handled(3) by (simp add: touched_sel)
  then have h: "pat = ''/tailscale/user'' \<and> h = handleUserTailscale b"
    using only_mapping [OF handled(2), of user "r\<lparr>rq_Query := q\<rparr>" now g1] assms(3) g' by auto
  then have "gd = Signed" using guard_of [OF mapping_guard handled(1)] by simp
  then obtain u where u: "user = Some u" "signed_in issued (bearer_of r) now g u"
    using guards_sound [OF assms(1) handled(5)] by auto
  have "us_ID u = uid \<or> RoleAdmin \<le> roleLevel (us_Role u)"
  proof (rule ccontr)
    assume "\<not> (us_ID u = uid \<or> RoleAdmin \<le> roleLevel (us_Role u))"
    then have "gw_userTailscale (snd (handleUserTailscale b (Some u) (r\<lparr>rq_Query := q\<rparr>) now g1)) uid = gw_userTailscale g1 uid"
      by (auto simp: handleUserTailscale_def Let_def split: option.split)
    with assms(3) g' h u(1) t show False by simp
  qed
  with u(2) show ?thesis by blast
qed

lemma only_lists:
  assumes "gw_handler_of pat env b = Some h" "fst (h user r now g) = reply 200 (GwSessions xs)"
  shows "pat = ''/sessions'' \<and> fst (handleListSessions env user r now g) = reply 200 (GwSessions xs)"
proof -
  have "fst (fallback_session env now req g) \<noteq> reply 200 (GwSessions xs)" for now req g
    by (simp add: fallback_session_def split_beta split: sum.split)
  then have c: "fst (handleCreateSession env b user r now g) \<noteq> reply 200 (GwSessions xs)"
    by (simp add: handleCreateSession_def Let_def split_beta split: option.split sum.split)
  have "fst (end_session env now sid reason g) \<noteq> reply 200 (GwSessions xs)" for sid reason
    by (simp add: end_session_def Let_def split_beta split: sum.split)
  then have "fst (handleEndSession env b user r now g) \<noteq> reply 200 (GwSessions xs)"
    by (simp add: handleEndSession_def with_id_def Let_def split: option.split)
  then have s: "fst (handleSessions env b user r now g) \<noteq> reply 200 (GwSessions xs)"
    using c by (simp add: handleSessions_def handleGetSession_def with_id_def Let_def split: sum.split)
  have u: "fst (handleUpdateGamingState b user r now g) \<noteq> reply 200 (GwSessions xs)"
    by (simp add: handleUpdateGamingState_def with_id_def Let_def after_action_def split_beta split: option.split)
  have m: "fst (handleGaming b user r now g) \<noteq> reply 200 (GwSessions xs)"
    using u by (simp add: handleGaming_def handleCreateGamingSession_def handleGetGamingState_def with_id_def Let_def split_beta
        split: option.split sum.split)
  show ?thesis
    using handler_entry [OF assms(1)] assms(2) c s m
    unfolding gw_handlers_def list.set insert_iff prod.inject empty_iff
    by (elim disjE conjE FalseE)
      (simp_all add: sessionsRoot_def handleWebRTC_def handleCreateWebRTCSession_def handleInput_def handleAudio_def
        handleTransfer_def handleCreateTransfer_def handleTransferChunk_def handleClipboard_def handleClipboardWrite_def
        handleClipboardRead_def handleMediaIngest_def handleDataIngest_def handleRequestKeyframe_def with_id_def Let_def
        handleTailscaleRegister_def handleTailscaleHosts_def handleUserTailscale_def handleTailscaleProxy_def
        handleHosts_def handleHostRegister_def handleHostMetrics_def handleAdminHealth_def handleListRecordings_def
        handleRecordingOps_def handleSignal_def split_beta split: option.splits sum.splits answer.splits if_splits)
qed

text \<open>
  C26: The list of sessions is the caller's own. Every WebRTC session in the answer of the list belongs to the
  account of a live token of the request, unless the account is an administrator's; without a token the list
  is empty.
\<close>

theorem gateway_list_owned:
  assumes "gw_reached mac check secret db cs issued g"
    and "gw_serve sp env b r now g = Some (reply 200 (GwSessions xs), g')" "ListedRtc e \<in> set xs"
  shows "\<exists>u. signed_in issued (bearer_of r) now g u \<and>
    (rtc_owner (gw_webrtc g) e = us_ID u \<or> RoleAdmin \<le> roleLevel (us_Role u))"
  using assms(2)
proof (cases rule: serve_cases)
  case (handled pat gd h user q g1)
  then have l: "pat = ''/sessions''" "fst (handleListSessions env user (r\<lparr>rq_Query := q\<rparr>) now g1) = reply 200 (GwSessions xs)"
    using only_lists [OF handled(2), of user "r\<lparr>rq_Query := q\<rparr>" now g1 xs] by simp_all
  then have "gd = WithUser" using guard_of [OF sessions_guard handled(1)] by simp
  then have u: "case user of None \<Rightarrow> True | Some u \<Rightarrow> signed_in issued (bearer_of r) now g u"
    using guards_sound [OF assms(1) handled(5)] by simp
  have "may_see user (rtc_owner (gw_webrtc g1) e)"
    using l(2) assms(3) by (auto simp: handleListSessions_def Let_def list_session_def split: if_splits)
  with u handled(3) show ?thesis by (cases user) (auto simp: may_see_def touched_sel)
qed simp_all


section \<open>What the wiring never does\<close>

text \<open>
  C11: No session of the gateway ever gets a host. Nothing registers a host with the allocator and nothing
  approves a session, so in every state of the server every session the manager made waits for an approval
  or has been ended, and has no host.
\<close>

theorem gateway_sessions_hostless:
  assumes "gw_state sp g" "sm_mem (gw_sessions g) p = Some s"
  shows "se_HostID s = '''' \<and> se_State s \<in> {SessionStateWaitingApproval, SessionStateEnded}"
proof -
  have "sm_waiting (gw_sessions g)" using gw_state_inv [OF assms(1)] by (simp add: gw_inv_D)
  with assms(2) show ?thesis
    by (auto simp: sm_waiting_def sm_ok_def sm_held_def approved_in_def state_set_in_def)
qed

lemma device_refused:
  assumes "gw_inv g"
  shows "400 \<le> ans_status (fst (handleInput b user r now g))" "400 \<le> ans_status (fst (handleAudio b user r now g))"
    "400 \<le> ans_status (fst (handleClipboard b user r now g))"
  using gw_inv_D [OF assms]
  by (auto simp: handleInput_def handleAudio_def handleClipboard_def handleClipboardWrite_def handleClipboardRead_def
      with_id_def Let_def im_HandleInputEvent_def im_GetSession_def ad_ProcessAudioData_def ad_GetSession_def
      cb_Write_def cb_Read_def cb_GetSession_def split: option.split)

lemma device_handlers:
  "gw_handler_of ''/input/'' env b = Some (handleInput b)" "gw_handler_of ''/audio/'' env b = Some (handleAudio b)"
  "gw_handler_of ''/clipboard/'' env b = Some (handleClipboard b)" "gw_handler_of ''/transfer/'' env b = Some (handleTransfer env b)"
  "gw_handler_of ''/sessions'' env b = Some (sessionsRoot env b)"
  by (simp_all add: gw_handler_of_def gw_handlers_def)

text \<open>
  C12: Input, sound and clipboard never work. No handler registers a session with the managers behind
  /input/, /audio/ and /clipboard/, so in every state of the server every request below these paths, the
  owner's too, is refused; only the OPTIONS requests of browsers, which no handler sees, get their empty answer.
\<close>

theorem gateway_devices_dead:
  assumes "gw_state sp g" "pre \<in> {''/input/'', ''/audio/'', ''/clipboard/''}" "has_prefix (rq_Path r) pre"
    and "gw_serve sp env b r now g = Some (a, g')"
  shows "if rq_Method r = ''OPTIONS'' then a = reply 204 GwPreflight \<and> g' = g else 400 \<le> ans_status a"
  using assms(4)
proof (cases rule: serve_cases)
  case (handled pat gd h user q g1)
  have "pre \<in> set session_areas" using assms(2) by (auto simp: session_areas_def)
  then have "pat = pre" using session_route [OF _ assms(3) handled(1)] by blast
  then have h: "h \<in> {handleInput b, handleAudio b, handleClipboard b}"
    using assms(2) handled(2) device_handlers [of env b] by auto
  have "gw_inv g1" using touched_inv [OF handled(3)] gw_state_inv [OF assms(1)] .
  with h handled(4) device_refused [of g1 b user "r\<lparr>rq_Query := q\<rparr>" now] have "400 \<le> ans_status a"
    by (auto dest: arg_cong [of _ _ fst])
  with handled(6) show ?thesis by simp
qed simp_all

lemma transfer_route:
  assumes "has_prefix path ''/transfer/''" "mux_find path (gateway_routes sp) = Some (pat, gd)"
  shows "pat = ''/transfer/''"
proof -
  have t: "list_all (\<lambda>pre. list_all (\<lambda>(pat, gd). can_match pre pat \<longrightarrow> pat = ''/'' \<or> pat = pre) (gateway_routes sp)) [''/transfer/'']"
    by (cases sp) (simp_all, code_simp+)
  have "''/transfer/'' \<in> set (map fst (gateway_routes sp))" by (simp add: gateway_routes_def)
  moreover have "has_suffix ''/transfer/'' ''/''" by code_simp
  ultimately have "length ''/transfer/'' \<le> length pat" using longest assms by blast
  moreover have "pat = ''/'' \<or> pat = ''/transfer/''" by (rule table_entry [OF t _ assms]) simp
  ultimately show ?thesis by auto
qed

text \<open>
  No file is ever transferred. No handler starts a transfer, so in every state of the server the upload of a
  chunk is refused, or answered with a failure, for every transfer and whoever asks.
\<close>

theorem gateway_chunks_refused:
  assumes "gw_state sp g" "has_prefix (rq_Path r) ''/transfer/''" "rq_Method r = ''PUT''"
    and "gw_serve sp env b r now g = Some (a, g')"
  shows "400 \<le> ans_status a \<or> (\<exists>resp. a = reply 200 (GwChunk resp) \<and> cs_Success resp = False)"
  using assms(4)
proof (cases rule: serve_cases)
  case (handled pat gd h user q g1)
  have "h = handleTransfer env b"
    using handled(2) transfer_route [OF assms(2) handled(1)] device_handlers [of env b] by simp
  moreover have "gw_inv g1" using touched_inv [OF handled(3)] gw_state_inv [OF assms(1)] .
  then have "tm_waiting (gw_transfers g1)" by (simp add: gw_inv_D)
  ultimately show ?thesis
    using handled(4) assms(3) chunk_refused [of "gw_transfers g1" _ now]
    by (auto simp: handleTransfer_def handleTransferChunk_def split_beta split: option.splits)
qed (use assms(3) in simp_all)

section \<open>Limits that are used up\<close>

lemma create_limit: "tm_limiter m \<le> tm_limiter (snd (tm_CreateTransfer i sid dir name sz ty now m))"
  by (simp add: tm_CreateTransfer_def Let_def)

lemma limiter_kept: "gw_inv g \<Longrightarrow> tm_limiter (gw_transfers g) \<le> tm_limiter (gw_transfers (gw_step sp g e))"
proof (cases e)
  case (Request env b r now)
  assume inv: "gw_inv g"
  have t: "tm_limiter (gw_transfers g1) \<le> tm_limiter (gw_transfers (snd (handleTransfer env b user r' now g1)))"
    if "gw_inv g1" for g1 user r'
  proof -
    have "snd (tm_ProcessChunk ch now (gw_transfers g1)) = gw_transfers g1" for ch
      using \<open>gw_inv g1\<close> chunk_refused [of "gw_transfers g1" ch now] by (simp add: gw_inv_D)
    then show ?thesis
      by (simp add: handleTransfer_def handleCreateTransfer_def handleTransferChunk_def split_beta create_limit
          split: option.split sum.split)
  qed
  show ?thesis
  proof (cases "gw_serve sp env b r now g")
    case (Some x)
    obtain a g' where x: "x = (a, g')" by (cases x)
    from Some x have "gw_serve sp env b r now g = Some (a, g')" by simp
    then have "tm_limiter (gw_transfers g) \<le> tm_limiter (gw_transfers g')"
    proof (cases rule: serve_cases)
      case (handled pat gd h user q g1)
      then have "g' = snd (h user (r\<lparr>rq_Query := q\<rparr>) now g1)" "gw_inv g1" "gw_transfers g1 = gw_transfers g"
        using touched_inv [OF handled(3) inv] by (simp_all add: touched_sel)
      with only_transfer [OF handled(2), of user "r\<lparr>rq_Query := q\<rparr>" now g1] t [of g1 user "r\<lparr>rq_Query := q\<rparr>"]
      show ?thesis by auto
    qed (simp_all add: touched_sel)
    with Request Some x show ?thesis by simp
  qed (simp add: Request)
qed (simp_all add: frame_gw_frame)

lemma limiter_run: "gw_inv g \<Longrightarrow> tm_limiter (gw_transfers g) \<le> tm_limiter (gw_transfers (gw_run sp g es))"
proof (induction es rule: rev_induct)
  case (snoc e es)
  then show ?case using limiter_kept [OF gw.run_inv [OF snoc(2)], of sp es sp e] by simp
qed simp


text \<open>
  C27: Transfers block for good. A transfer takes one of the ten places when it is created and only its end gives
  it back, which no handler reaches: once the places are taken, after any later events, whatever they are,
  every creation of a transfer is refused.
\<close>

theorem gateway_transfers_block:
  assumes "gw_state sp g" "tm_limiter (gw_transfers g) = maxConcurrentTransfers"
    and "has_prefix (rq_Path r) ''/transfer/''" "rq_Method r = ''POST''"
    and "gw_serve sp env b r now (gw_run sp g es) = Some (a, g')"
  shows "400 \<le> ans_status a"
  using assms(5)
proof (cases rule: serve_cases)
  case (handled pat gd h user q g1)
  have inv: "gw_inv g" using gw_state_inv [OF assms(1)] .
  then have "tm_waiting (gw_transfers (gw_run sp g es))" using gw.run_inv [of g sp es] by (simp add: gw_inv_D)
  with limiter_run [OF inv, of sp es] assms(2) have "tm_limiter (gw_transfers (gw_run sp g es)) = maxConcurrentTransfers"
    by (simp add: tm_waiting_def maxConcurrentTransfers_def)
  then have full: "tm_limiter (gw_transfers g1) = maxConcurrentTransfers" using handled(3) by (simp add: touched_sel)
  then have "\<exists>e. fst (tm_CreateTransfer i sid dir name sz ty now (gw_transfers g1)) = Inl e" for i sid dir name sz ty
    by (simp add: tm_CreateTransfer_def)
  then have c: "\<exists>e m. tm_CreateTransfer i sid dir name sz ty now (gw_transfers g1) = (Inl e, m)" for i sid dir name sz ty
    by (metis prod.collapse)
  have "h = handleTransfer env b"
    using handled(2) transfer_route [OF assms(3) handled(1)] device_handlers [of env b] by simp
  moreover have "400 \<le> ans_status (fst (handleCreateTransfer env b user r' now g1))" for r'
  proof (cases "bd_transfer b")
    case (Some x)
    obtain sid dir name sz ty where x: "x = (sid, dir, name, sz, ty)" by (cases x) auto
    obtain e m where "tm_CreateTransfer (ge_transferID env) sid dir name sz ty now (gw_transfers g1) = (Inl e, m)"
      using c by blast
    then show ?thesis by (cases user; cases "sid = ''''") (simp_all add: handleCreateTransfer_def Some x)
  qed (simp add: handleCreateTransfer_def)
  moreover have "h user (r\<lparr>rq_Query := q\<rparr>) now g1 = handleCreateTransfer env b user (r\<lparr>rq_Query := q\<rparr>) now g1"
    if "h = handleTransfer env b" using that assms(4) by (simp add: handleTransfer_def)
  ultimately show ?thesis using handled(4) by (metis fst_conv)
qed (use assms(4) in simp_all)

text \<open>The request asks for no approval, and names a user or comes without a token.\<close>

definition plain_create :: "bodies \<Rightarrow> request \<Rightarrow> bool" where
  "plain_create b r \<longleftrightarrow> (case bd_session b of None \<Rightarrow> False
     | Some req \<Rightarrow> \<not> asks_approval req \<and> (rq_UserID req \<noteq> '''' \<or> bearer_of r = ''''))"

definition wants_approval :: "bodies \<Rightarrow> bool" where
  "wants_approval b \<longleftrightarrow> (case bd_session b of None \<Rightarrow> False | Some req \<Rightarrow> asks_approval req)"

lemma asks_named [simp]: "asks_approval (named_request user now req) = asks_approval req"
  by (simp add: named_request_def asks_approval_def split: option.split)

lemma create_falls_back:
  assumes "sm_waiting (gw_sessions g)" "bd_session b = Some req" "\<not> asks_approval req"
    and "rq_UserID (named_request user now req) \<noteq> ''''"
  shows "handleCreateSession env b user r now g = fallback_session env now (named_request user now req) g"
proof -
  have "sm_hostAllocator (gw_sessions g) = NewHostAllocator" using assms(1) by (simp add: sm_waiting_def)
  from create_without_hosts(2) [OF this assms(4), of "session_env env now"] assms(3) obtain e where
    "sm_CreateSession (session_env env now) (named_request user now req) (gw_sessions g) = (Inl e, gw_sessions g)"
    "contains e ''no available hosts''" by auto
  then show ?thesis using assms(2) by (simp add: handleCreateSession_def Let_def)
qed

lemma create_unnamed_refused:
  assumes "bd_session b = Some req" "rq_UserID (named_request user now req) = ''''"
  shows "handleCreateSession env b user r now g = (refuse 500 ''user ID is required'', g)"
proof -
  have "\<not> contains ''user ID is required'' ''no available hosts''"
    "\<not> contains ''user ID is required'' ''no available hosts in region''" by code_simp+
  with assms show ?thesis by (simp add: handleCreateSession_def Let_def create_unnamed)
qed

lemma sessions_route: "mux_find ''/sessions'' (gateway_routes sp) = Some (''/sessions'', WithUser)"
  by (cases sp) (simp_all, code_simp+)

lemma serve_create:
  assumes "rq_Path r = ''/sessions''" "rq_Method r = ''POST''"
  shows "\<exists>g1 user. touched g g1 \<and> (bearer_of r = '''' \<longrightarrow> user = None) \<and>
    gw_serve sp env b r now g = Some (handleCreateSession env b user r now g1)"
proof -
  have "\<exists>user g1. touched g g1 \<and> (bearer_of r = '''' \<longrightarrow> user = None) \<and>
      behind WithUser (sessionsRoot env b) None r now g = sessionsRoot env b user r now g1"
    using touched_validate [of g "bearer_of r" now]
    by (cases "gw_validate (bearer_of r) now g"; cases "fst (gw_validate (bearer_of r) now g)")
      (auto simp: gw_AuthMiddleware_def Let_def intro: touched_refl)
  with assms show ?thesis by (fastforce simp: gw_serve_def sessions_route device_handlers sessionsRoot_def)
qed

lemma serve_plain_create:
  assumes "gw_inv g" "rq_Path r = ''/sessions''" "rq_Method r = ''POST''" "plain_create b r"
  shows "\<exists>g1 req. touched g g1 \<and> gw_serve sp env b r now g = Some (fallback_session env now req g1)"
proof -
  from assms(4) obtain req where req: "bd_session b = Some req" "\<not> asks_approval req"
    "rq_UserID req \<noteq> '''' \<or> bearer_of r = ''''" by (auto simp: plain_create_def split: option.splits)
  obtain g1 user where g1: "touched g g1" "bearer_of r = '''' \<longrightarrow> user = None"
    "gw_serve sp env b r now g = Some (handleCreateSession env b user r now g1)"
    using serve_create [OF assms(2,3)] by blast
  have "sm_waiting (gw_sessions g1)" using gw_inv_D(4) [OF touched_inv [OF g1(1) assms(1)]] .
  moreover have "rq_UserID (named_request user now req) \<noteq> ''''"
    using req(3) g1(2) by (auto simp: named_request_def)
  ultimately show ?thesis using create_falls_back [OF _ req(1,2)] g1(1,3) by fastforce
qed

lemma fallback_slots:
  "wr_slots (gw_webrtc g) < 1000 \<Longrightarrow> ge_pion env = None \<Longrightarrow>
    wr_slots (gw_webrtc (snd (fallback_session env now req g))) = wr_slots (gw_webrtc g) + 1"
  using create_takes_slot [of "gw_webrtc g" "ge_random env" now "fallback_request (with_defaults req)"]
  by (auto simp: fallback_session_def split: prod.split sum.split)

text \<open>A creation: its environment, its bodies, the request and its time.\<close>

type_synonym creation = "gw_env \<times> bodies \<times> request \<times> time"

fun creation_event :: "creation \<Rightarrow> gw_event" where
  "creation_event (env, b, r, now) = Request env b r now"

fun plain_creation :: "creation \<Rightarrow> bool" where
  "plain_creation (env, b, r, now) \<longleftrightarrow>
     rq_Path r = ''/sessions'' \<and> rq_Method r = ''POST'' \<and> plain_create b r \<and> ge_pion env = None"

lemma requests_take_slots:
  assumes "gw_inv g" "wr_slots (gw_webrtc g) = 0" "length cs \<le> 1000" "\<forall>c \<in> set cs. plain_creation c"
  shows "wr_slots (gw_webrtc (gw_run sp g (map creation_event cs))) = length cs"
  using assms(3,4)
proof (induction cs rule: rev_induct)
  case (snoc c cs)
  let ?g = "gw_run sp g (map creation_event cs)"
  obtain env b r t where c: "c = (env, b, r, t)" by (cases c)
  have "gw_inv ?g" by (rule gw.run_inv [OF assms(1)])
  then obtain g1 req where g1: "touched ?g g1" "gw_serve sp env b r t ?g = Some (fallback_session env t req g1)"
    using serve_plain_create [of ?g r b sp env t] snoc(3) c by auto
  have "wr_slots (gw_webrtc g1) = length cs" using snoc touched_sel(2) [OF g1(1)] by simp
  with fallback_slots [of g1 env t req] snoc(2,3) g1(2) show ?case
    by (cases "fallback_session env t req g1") (simp add: c)
qed (simp add: assms(2))

text \<open>With all slots taken no handler makes a session.\<close>

lemma full_create:
  "wr_slots w = 1000 \<Longrightarrow> wr_CreateSession rnd pion now req w = (Inl ''maximum concurrent sessions reached'', w)"
  by (simp add: wr_CreateSession_def maxConcurrentSessions_def)

lemma full_fallback:
  "wr_slots (gw_webrtc g) = 1000 \<Longrightarrow>
    fallback_session env now req g = (refuse 500 ''maximum concurrent sessions reached'', g)"
  by (simp add: fallback_session_def full_create)

lemma full_handler:
  assumes "gw_handler_of pat env b = Some h" "wr_slots (gw_webrtc g) = 1000"
  shows "wr_next (gw_webrtc (snd (h user r now g))) = wr_next (gw_webrtc g)"
proof -
  have c: "wr_next (gw_webrtc (snd (handleCreateSession env b user r now g))) = wr_next (gw_webrtc g)" for r
    using assms(2) by (simp add: handleCreateSession_def Let_def full_fallback split_beta split: option.split sum.split)
  have "wr_next (snd (wr_EndSession now sid w)) = wr_next w" for sid w
    by (simp add: wr_EndSession_def wr_write_def Let_def split: option.split)
  then have d: "wr_next (gw_webrtc (snd (handleEndSession env b user r now g))) = wr_next (gw_webrtc g)"
    by (simp add: handleEndSession_def with_id_def Let_def end_session_def split_beta split: option.split sum.split)
  have "wr_next (gw_webrtc (snd (handleWebRTC env b user r now g))) = wr_next (gw_webrtc g)"
    using assms(2) by (simp add: handleWebRTC_def handleCreateWebRTCSession_def full_create split: option.split)
  moreover have "wr_next (gw_webrtc (snd (handleMediaIngest env b user r now g))) = wr_next (gw_webrtc g)"
    by (simp add: handleMediaIngest_def with_id_def Let_def split_beta wr_HandleMediaIngest_def wr_write_def
        split: option.split answer.split)
  moreover have "wr_next (gw_webrtc (snd (sessionsRoot env b user r now g))) = wr_next (gw_webrtc g)"
    using c by (simp add: sessionsRoot_def handleListSessions_def Let_def)
  moreover have "wr_next (gw_webrtc (snd (handleSessions env b user r now g))) = wr_next (gw_webrtc g)"
    using c d by (simp add: handleSessions_def handleGetSession_def with_id_def Let_def split: sum.split)
  ultimately show ?thesis using only_webrtc [OF assms(1), of user r now g] by auto
qed

text \<open>
  C24: A thousand requests without any token close the gateway. Nothing limits the creations on /sessions that ask
  for no approval: after 1000 of them on a new server, from anybody (each naming some user or sent without a
  token, and with a peer connection that can be made), no request on any path makes a WebRTC session, until one
  has been closed, and a creation on /sessions is refused unless it asks for an approval. (A creation that asks
  for one takes no slot; it is still accepted, and by C11 waits for ever.)
\<close>

theorem gateway_sessions_exhausted:
  assumes "sd_inv det" "length cs = 1000" "\<forall>c \<in> set cs. plain_creation c"
    and "g = gw_run sp (gw_NewServer token conns cdn edge api rpm am det) (map creation_event cs)"
    and "gw_serve sp env b r now g = Some (a, g')"
  shows "wr_next (gw_webrtc g') = wr_next (gw_webrtc g) \<and>
    (rq_Path r = ''/sessions'' \<and> rq_Method r = ''POST'' \<and> \<not> wants_approval b \<longrightarrow> 400 \<le> ans_status a)"
proof -
  have inv: "gw_inv (gw_NewServer token conns cdn edge api rpm am det)" by (rule gw_inv_new [OF assms(1)])
  then have g: "gw_inv g" unfolding assms(4) by (rule gw.run_inv)
  have full: "wr_slots (gw_webrtc g) = 1000"
    unfolding assms(4) using requests_take_slots [OF inv, of cs sp] assms(2,3) by (simp add: gw_NewServer_def wr_NewServer_def)
  have "wr_next (gw_webrtc g') = wr_next (gw_webrtc g)" using assms(5)
  proof (cases rule: serve_cases)
    case (handled pat gd h user q g1)
    with full_handler [OF handled(2), of g1 user "r\<lparr>rq_Query := q\<rparr>" now] full show ?thesis by (simp add: touched_sel)
  qed (simp_all add: touched_sel)
  moreover have "400 \<le> ans_status a" if c: "rq_Path r = ''/sessions''" "rq_Method r = ''POST''" "\<not> wants_approval b"
  proof -
    obtain g1 user where g1: "touched g g1" "handleCreateSession env b user r now g1 = (a, g')"
      using serve_create [OF c(1,2), of g sp env b now] assms(5) by auto
    have f: "wr_slots (gw_webrtc g1) = 1000" "sm_waiting (gw_sessions g1)"
      using full touched_sel(2) [OF g1(1)] gw_inv_D(4) [OF touched_inv [OF g1(1) g]] by simp_all
    show ?thesis
    proof (cases "bd_session b")
      case None
      with g1(2) show ?thesis by (auto simp: handleCreateSession_def)
    next
      case (Some req)
      with c(3) have "\<not> asks_approval req" by (simp add: wants_approval_def)
      with create_falls_back [OF f(2) Some, of user now env r] create_unnamed_refused [OF Some, of user now env r g1] g1(2)
        full_fallback [OF f(1)] show ?thesis
        by (cases "rq_UserID (named_request user now req) = ''''") auto
    qed
  qed
  ultimately show ?thesis by blast
qed


section \<open>Examples\<close>

definition ex_bodies :: bodies where
  "ex_bodies = \<lparr>bd_length = 0, bd_session = None, bd_webrtc = None, bd_reason = None, bd_event = None, bd_frame = None,
     bd_transfer = None, bd_chunk = None, bd_clip = None, bd_gaming = None, bd_action = None, bd_register = None,
     bd_update = None, bd_rumble = None, bd_metrics = None, bd_mode = None, bd_tailscale = None, bd_mapping = None,
     bd_target = None, bd_object = None, bd_recording = None, bd_bytes = [], bd_reads = [], bd_readError = None\<rparr>"

definition ex_env :: gw_env where
  "ex_env = \<lparr>ge_session = \<lparr>env_sessionID = ''s'', env_token = ''t'', env_linkID = ''l'', env_auditID = ''a'', env_now = 0,
       env_order = []\<rparr>, ge_random = None, ge_pion = None, ge_transferID = ''t'', ge_accepts = (\<lambda>_. True), ge_send = None,
     ge_hosts = [], ge_sessions = [], ge_webrtcs = [''sess_01''], ge_recordings = [], ge_vmUser = Map.empty, ge_tmp = ''/tmp'',
     ge_create = None, ge_upgrade = None\<rparr>"

abbreviation ex_call :: "string \<Rightarrow> string \<Rightarrow> request" where
  "ex_call method path \<equiv> (ex_request path)\<lparr>rq_Method := method\<rparr>"

lemma ex_call_sel [simp]: "rq_Path (ex_request path) = path" "bearer_of (ex_call m path) = ex_tok"
  using ex_bearer [of path] by (simp_all add: ex_request_def)

text \<open>The session of the examples is one that a request without a token made.\<close>

definition ex_desktop :: bodies where
  "ex_desktop = ex_bodies\<lparr>bd_session := Some ((SessionTypes.ex_request SessionTypeDesktop False)\<lparr>rq_UserID := ''user_020304''\<rparr>)\<rparr>"

definition ex_anon :: request where
  "ex_anon = (ex_request ''/sessions'')\<lparr>rq_Method := ''POST'', rq_Header := Map.empty\<rparr>"

lemma ex_anon_sel [simp]: "rq_Path ex_anon = ''/sessions''" "rq_Method ex_anon = ''POST''" "bearer_of ex_anon = ''''"
  by (simp_all add: ex_anon_def GatewayAccess.ex_request_def, code_simp)

lemma ex_gateway_state: "gw_state False ex_gateway"
proof -
  let ?g = "gw_NewServer ''agent'' 2 '''' '''' '''' 600 (snd ex_auth) (NewSecurityDetector False)"
  let ?env = "ex_env\<lparr>ge_random := Some [1]\<rparr>"
  let ?req = "(SessionTypes.ex_request SessionTypeDesktop False)\<lparr>rq_UserID := ''user_020304''\<rparr>"
  have f: "fallback_request (with_defaults ?req) = ex_rtc" by code_simp
  have w: "sm_waiting (gw_sessions ?g)" by (simp add: gw_NewServer_def sm_waiting_new)
  have n: "named_request None 5 ?req = ?req" by (simp add: named_request_def)
  have b: "bd_session ex_desktop = Some ?req" "\<not> asks_approval ?req" "rq_UserID (named_request None 5 ?req) \<noteq> ''''"
    by (simp_all add: ex_desktop_def asks_approval_def SessionTypes.ex_request_def named_request_def)
  have "gw_serve False ?env ex_desktop ex_anon 5 ?g = Some (fallback_session ?env 5 ?req ?g)"
    using create_falls_back [OF w b, of ?env ex_anon]
    by (simp add: gw_serve_def sessions_route device_handlers sessionsRoot_def gw_AuthMiddleware_def n)
  moreover have "snd (fallback_session ?env 5 ?req ?g) = ex_gateway"
    by (simp add: fallback_session_def f ex_gateway_def Let_def ex_env_def split_beta split: sum.split)
  ultimately have "gw_step False ?g (Request ?env ex_desktop ex_anon 5) = ex_gateway"
    by (simp add: split_beta)
  then have "ex_gateway = gw_run False (gw_NewServer ''agent'' 2 '''' '''' '''' 600 (snd ex_auth)
      (foldl sd_step (NewSecurityDetector False) [])) [Request ?env ex_desktop ex_anon 5]" by simp
  then show ?thesis unfolding gw_state_def by blast
qed

lemma ex_valid: "gw_auth g = snd ex_auth \<Longrightarrow> \<exists>g'. gw_validate ex_tok 7 g = (Inr ex_ann, g') \<and> touched g g'"
proof -
  assume a: "gw_auth g = snd ex_auth"
  have "wrap64 1 = 1" by code_simp
  with a have "fst (gw_validate ex_tok 7 g) = Inr ex_ann"
    unfolding gw_validate_def am_ValidateToken_def ex_auth_eq by (simp add: Let_def ex_tok minute_def second_def)
  then show ?thesis using touched_validate [of g ex_tok 7] by (metis prod.collapse)
qed

lemma ex_gateway_auth: "gw_auth ex_gateway = snd ex_auth"
  by (simp add: ex_gateway_def gw_NewServer_def Let_def)

lemma ex_entered:
  assumes "gw_auth g = snd ex_auth" "mux_find path (gateway_routes sp) = Some (pat, gd)" "gw_handler_of pat env b = Some h"
    and "gd = WithUser \<or> gd = Signed" "m \<in> {''GET'', ''POST'', ''DELETE''}"
  shows "\<exists>g1. touched g g1 \<and> gw_serve sp env b (ex_call m path) 7 g = Some (h (Some ex_ann) (ex_call m path) 7 g1)"
proof -
  obtain g1 where "gw_validate ex_tok 7 g = (Inr ex_ann, g1)" "touched g g1" using ex_valid [OF assms(1)] by blast
  with assms(2-4) show ?thesis using assms(5)
    by (auto simp: gw_serve_def gw_AuthMiddleware_def gw_RequireAuth_def Let_def ex_tok ex_bearer)
qed

lemma session_handlers: "gw_handler_of ''/sessions/'' env b = Some (handleSessions env b)"
  "gw_handler_of ''/tailscale/user'' env b = Some (handleUserTailscale b)"
  by (simp_all add: gw_handler_of_def gw_handlers_def)

theorem gateway_devices_dead_witness:
  "\<exists>a g'. gw_serve False ex_env ex_bodies (ex_call ''POST'' ''/input/sess_01'') 7 ex_gateway = Some (a, g') \<and> 400 \<le> ans_status a"
proof -
  have m: "mux_find ''/input/sess_01'' (gateway_routes False) = Some (''/input/'', Owner ''/input/'')" by code_simp
  obtain a g' where s: "gw_serve False ex_env ex_bodies (ex_call ''POST'' ''/input/sess_01'') 7 ex_gateway = Some (a, g')"
    by (cases "behind (Owner ''/input/'') (handleInput ex_bodies) None (ex_call ''POST'' ''/input/sess_01'') 7 ex_gateway")
      (simp add: gw_serve_def m device_handlers)
  have "has_prefix ''/input/sess_01'' ''/input/''" by code_simp
  with gateway_devices_dead [OF ex_gateway_state _ _ s, of "''/input/''"] s show ?thesis by simp
qed

theorem gateway_chunks_refused_witness:
  "\<exists>a g'. gw_serve False ex_env ex_bodies (ex_call ''PUT'' ''/transfer/x'') 7 ex_gateway = Some (a, g') \<and>
    (400 \<le> ans_status a \<or> (\<exists>resp. a = reply 200 (GwChunk resp) \<and> cs_Success resp = False))"
proof -
  have m: "mux_find ''/transfer/x'' (gateway_routes False) = Some (''/transfer/'', Signed)" by code_simp
  obtain a g' where s: "gw_serve False ex_env ex_bodies (ex_call ''PUT'' ''/transfer/x'') 7 ex_gateway = Some (a, g')"
    by (cases "behind Signed (handleTransfer ex_env ex_bodies) None (ex_call ''PUT'' ''/transfer/x'') 7 ex_gateway")
      (simp add: gw_serve_def m device_handlers)
  have "has_prefix ''/transfer/x'' ''/transfer/''" by code_simp
  with gateway_chunks_refused [OF ex_gateway_state _ _ s] s show ?thesis by simp
qed

lemma ex_serve_state: "gw_state sp g \<Longrightarrow> gw_serve sp env b r now g = Some (a, g') \<Longrightarrow> gw_state sp g'"
proof -
  assume "gw_state sp g" and s: "gw_serve sp env b r now g = Some (a, g')"
  then obtain token conns cdn edge api rpm am active ds es where
    g: "g = gw_run sp (gw_NewServer token conns cdn edge api rpm am (foldl sd_step (NewSecurityDetector active) ds)) es"
    unfolding gw_state_def by blast
  with s have "g' = gw_run sp (gw_NewServer token conns cdn edge api rpm am (foldl sd_step (NewSecurityDetector active) ds))
      (es @ [Request env b r now])" by simp
  then show "gw_state sp g'" unfolding gw_state_def by blast
qed

text \<open>A request that asks for an approval leaves a session that waits.\<close>

lemma approval_created:
  assumes "bd_session b = Some req" "asks_approval req" "rq_UserID req \<noteq> ''''"
    and "sm_hostAllocator (gw_sessions g) = NewHostAllocator"
  shows "\<exists>a g' s. handleCreateSession env b user r now g = (a, g') \<and>
    sm_mem (gw_sessions g') (sm_next (gw_sessions g)) = Some s"
proof -
  have n: "named_request user now req = req" using assms(3) by (simp add: named_request_def)
  obtain prof where c: "sm_CreateSession (session_env env now) req (gw_sessions g) =
      sm_createSessionRequiringApproval (session_env env now) (with_defaults req) prof (gw_sessions g)"
    using create_without_hosts(1) [OF assms(4,3,2)] by blast
  show ?thesis
    by (simp add: handleCreateSession_def assms(1) n c)
      (simp add: sm_createSessionRequiringApproval_def Let_def sm_add_session_def)
qed

theorem gateway_sessions_hostless_witness:
  "\<exists>g s. gw_state False g \<and> sm_mem (gw_sessions g) 0 = Some s \<and> se_HostID s = '''' \<and>
    se_State s \<in> {SessionStateWaitingApproval, SessionStateEnded}"
proof -
  let ?b = "ex_bodies\<lparr>bd_session := Some (SessionTypes.ex_request SessionTypeRemoteSupport True)\<rparr>"
  let ?r = "ex_call ''POST'' ''/sessions''"
  obtain g1 where g1: "touched ex_gateway g1"
    "gw_serve False ex_env ?b ?r 7 ex_gateway = Some (sessionsRoot ex_env ?b (Some ex_ann) ?r 7 g1)"
    using ex_entered [OF ex_gateway_auth sessions_route device_handlers(5)] by blast
  have sm: "gw_sessions g1 = NewSessionManager NewHostAllocator"
    using touched_sel(1) [OF g1(1)] by (simp add: ex_gateway_def gw_NewServer_def Let_def)
  have req: "asks_approval (SessionTypes.ex_request SessionTypeRemoteSupport True)"
    "rq_UserID (SessionTypes.ex_request SessionTypeRemoteSupport True) = ''u''"
    by (simp_all add: asks_approval_def SessionTypes.ex_request_def ex_perms_def)
  obtain a g' s where "handleCreateSession ex_env ?b (Some ex_ann) ?r 7 g1 = (a, g')" "sm_mem (gw_sessions g') 0 = Some s"
    using approval_created [OF _ req(1), of ?b g1 ex_env "Some ex_ann" ?r 7] req(2) sm
    by (auto simp: NewSessionManager_def)
  then have "\<exists>a g' s. gw_serve False ex_env ?b ?r 7 ex_gateway = Some (a, g') \<and> sm_mem (gw_sessions g') 0 = Some s"
    unfolding g1(2) by (simp add: sessionsRoot_def)
  then obtain a g' s where s: "gw_serve False ex_env ?b ?r 7 ex_gateway = Some (a, g')" "sm_mem (gw_sessions g') 0 = Some s"
    by blast
  have "gw_state False g'" by (rule ex_serve_state [OF ex_gateway_state s(1)])
  with gateway_sessions_hostless [OF this s(2)] s(2) show ?thesis by blast
qed

definition ex_mapping :: bodies where
  "ex_mapping = ex_bodies\<lparr>bd_mapping := Some ('''', ''100.64.0.7'', ''pc'', '''')\<rparr>"

theorem gateway_mapping_owned_witness:
  "\<exists>u. signed_in (fst ex_auth) (bearer_of (ex_call ''POST'' ''/tailscale/user'')) 7 ex_gateway u \<and>
    (us_ID u = ''user_020304'' \<or> RoleAdmin \<le> roleLevel (us_Role u))"
proof -
  have m: "mux_find ''/tailscale/user'' (gateway_routes False) = Some (''/tailscale/user'', Signed)" by code_simp
  have i: "us_ID ex_ann = ''user_020304''" by (simp add: ex_ann_def)
  obtain g1 where g1: "touched ex_gateway g1" "gw_serve False ex_env ex_mapping (ex_call ''POST'' ''/tailscale/user'') 7 ex_gateway =
      Some (handleUserTailscale ex_mapping (Some ex_ann) (ex_call ''POST'' ''/tailscale/user'') 7 g1)"
    using ex_entered [OF ex_gateway_auth m session_handlers(2)] by blast
  have u: "gw_userTailscale ex_gateway ''user_020304'' = None" by (simp add: ex_gateway_def gw_NewServer_def Let_def)
  have "\<exists>a g'. gw_serve False ex_env ex_mapping (ex_call ''POST'' ''/tailscale/user'') 7 ex_gateway = Some (a, g') \<and>
      gw_userTailscale g' ''user_020304'' \<noteq> None"
    unfolding g1(2) by (simp add: handleUserTailscale_def ex_mapping_def i Let_def)
  then show ?thesis using gateway_mapping_owned [OF ex_reached] u by metis
qed

definition ex_entry :: ws_entry where
  "ex_entry = hd (wr_ListSessions [''sess_01''] (gw_webrtc ex_gateway))"

lemma ex_rtc_session:
  obtains p where "wr_sessions (gw_webrtc ex_gateway) ''sess_01'' = Some p"
    "ws_ClientID (wr_at (gw_webrtc ex_gateway) p) = ''user_020304''" "ws_ID (wr_at (gw_webrtc ex_gateway) p) = ''sess_01''"
    "rtc_open p (gw_webrtc ex_gateway)" "\<not> rtc_open p (snd (wr_EndSession 7 ''sess_01'' (gw_webrtc ex_gateway)))"
    "ws_State (wr_at (gw_webrtc ex_gateway) p) \<noteq> WsEnded"
proof -
  have w: "gw_webrtc ex_gateway = wr_step (wr_NewServer server_codecs '''' '''')
      (WrCreate (Some [1]) None 5 ex_rtc)"
    by (simp add: ex_gateway_def gw_NewServer_def Let_def del: wr_step.simps)
  have i: "generateSessionID (Some [1]) 5 = ''sess_01''" by code_simp
  have e: "wr_EncodingMode ex_rtc = ''''" "wr_ClientID ex_rtc = ''user_020304''" by (simp_all add: ex_rtc_def)
  obtain prof where prof: "SelectEncoderProfile (selectVideoCodec server_codecs (wr_VideoCodecs ex_rtc) (wr_Preset ex_rtc))
      ''balanced'' (cs_HardwareAccel server_codecs) = Inr prof"
    using select_profile by blast
  then have s: "wr_sessions (gw_webrtc ex_gateway) ''sess_01'' = Some 0"
    "\<exists>se. wr_mem (gw_webrtc ex_gateway) 0 = Some se \<and> ws_ClientID se = ''user_020304'' \<and> ws_ID se = ''sess_01'' \<and>
       ws_State se \<noteq> WsEnded \<and> \<not> ws_stopClosed se"
    unfolding w
    by (simp_all add: wr_CreateSession_def wr_NewServer_def maxConcurrentSessions_def Let_def i [simplified] e new_ws_session_def)
  then obtain se where se: "wr_mem (gw_webrtc ex_gateway) 0 = Some se" "ws_ClientID se = ''user_020304''" "ws_ID se = ''sess_01''"
    "ws_State se \<noteq> WsEnded" "\<not> ws_stopClosed se" by blast
  have "\<not> rtc_open 0 (snd (wr_EndSession 7 ''sess_01'' (gw_webrtc ex_gateway)))"
    using s(1) se by (simp add: wr_EndSession_def wr_at_def wr_write_def Let_def rtc_open_def)
  with s(1) se show ?thesis by (intro that [of 0]) (simp_all add: wr_at_def rtc_open_def)
qed


lemma ex_session_route: "mux_find ''/sessions/sess_01'' (gateway_routes False) = Some (''/sessions/'', WithUser)"
  by code_simp

theorem gateway_how_sessions_end_witness:
  "\<exists>p u owner. signed_in (fst ex_auth) (bearer_of (ex_call ''DELETE'' ''/sessions/sess_01'')) 7 ex_gateway u \<and>
    sessionOwner (ws_ID (wr_at (gw_webrtc ex_gateway) p)) ex_gateway = Some owner \<and>
    (owner = us_ID u \<or> RoleAdmin \<le> roleLevel (us_Role u))"
proof -
  let ?r = "ex_call ''DELETE'' ''/sessions/sess_01''"
  obtain p where p: "wr_sessions (gw_webrtc ex_gateway) ''sess_01'' = Some p" "rtc_open p (gw_webrtc ex_gateway)"
    "\<not> rtc_open p (snd (wr_EndSession 7 ''sess_01'' (gw_webrtc ex_gateway)))" using ex_rtc_session by metis
  obtain g1 where g1: "touched ex_gateway g1"
    "gw_serve False ex_env ex_bodies ?r 7 ex_gateway = Some (handleSessions ex_env ex_bodies (Some ex_ann) ?r 7 g1)"
    using ex_entered [OF ex_gateway_auth ex_session_route session_handlers(1)] by blast
  have w: "gw_webrtc g1 = gw_webrtc ex_gateway" using touched_sel(2) [OF g1(1)] .
  have i: "path_id ''/sessions/'' ''/sessions/sess_01'' = ''sess_01''" by code_simp
  have own: "sessionOwnerFromPath ''/sessions/sess_01'' ''/sessions/'' g1 = Some ''user_020304''"
  proof -
    have "sessionOwnerFromPath ''/sessions/sess_01'' ''/sessions/'' g1 =
        sessionOwnerFromPath ''/sessions/sess_01'' ''/sessions/'' ex_gateway"
      using touched_sel(1,2) [OF g1(1)] by (rule owner_cong)
    then show ?thesis by (simp add: sessionOwnerFromPath_def i ex_owner)
  qed
  have ct: "hdr_get (rq_Header ?r) ''Content-Type'' = ''''"
  proof -
    have "canonical_key ''Content-Type'' \<noteq> canonical_key ''Authorization''" by code_simp
    then show ?thesis by (simp add: GatewayAccess.ex_request_def hdr_get_def hdr_set_def)
  qed
  have "gw_webrtc (snd (handleSessions ex_env ex_bodies (Some ex_ann) ?r 7 g1)) =
      snd (wr_EndSession 7 ''sess_01'' (gw_webrtc ex_gateway))"
  proof -
    have "us_ID ex_ann = ''user_020304''" "bd_length ex_bodies = 0" by (simp_all add: ex_ann_def ex_bodies_def)
    then have "handleSessions ex_env ex_bodies (Some ex_ann) ?r 7 g1 =
        end_session ex_env 7 ''sess_01'' ''user-requested'' g1"
      using ct own i by (simp add: handleSessions_def handleEndSession_def with_id_def owns_or_admin_def)
    then show ?thesis by (simp add: end_session_def Let_def split_beta w split: sum.split)
  qed
  with p(3) have "\<not> rtc_open p (gw_webrtc (snd (handleSessions ex_env ex_bodies (Some ex_ann) ?r 7 g1)))" by simp
  moreover obtain a g' where "handleSessions ex_env ex_bodies (Some ex_ann) ?r 7 g1 = (a, g')" by fastforce
  ultimately have "\<not> rtc_open p (gw_webrtc (gw_step False ex_gateway (Request ex_env ex_bodies ?r 7)))"
    using g1(2) by simp
  from gateway_how_sessions_end [OF ex_reached ex_gateway_state p(2) this] show ?thesis by auto
qed

text \<open>The same session, closed over /signal/ by a request without a token.\<close>

theorem gateway_signal_closes_witness:
  "\<exists>p. rtc_open p (gw_webrtc ex_gateway) \<and> \<not> rtc_open p (gw_webrtc (gw_run False ex_gateway
    [Request ex_env ex_bodies (ex_anon\<lparr>rq_Method := ''GET'', rq_Path := ''/signal/sess_01''\<rparr>) 7,
     Frame 0 (Some ''close'') None None 8]))"
proof -
  let ?r = "ex_anon\<lparr>rq_Method := ''GET'', rq_Path := ''/signal/sess_01''\<rparr>"
  obtain p where p: "wr_sessions (gw_webrtc ex_gateway) ''sess_01'' = Some p" "rtc_open p (gw_webrtc ex_gateway)"
    "ws_State (wr_at (gw_webrtc ex_gateway) p) \<noteq> WsEnded" using ex_rtc_session by metis
  have m: "mux_find (rq_Path ?r) (gateway_routes False) = Some (''/signal/'', Open)" by (simp, code_simp)
  have i: "extractSessionID (rq_Path ?r) = ''sess_01''" by (simp, code_simp)
  have l: "length (gw_signals ex_gateway) = 0" by (simp add: ex_gateway_def gw_NewServer_def Let_def)
  have "rq_Method ?r \<noteq> ''OPTIONS''" "''sess_01'' \<noteq> ''''" "ge_upgrade ex_env = None" by (simp_all add: ex_env_def)
  from gateway_signal_closes [OF m this(1) i this(2,3) p(1,3,2), where b = ex_bodies and now = 7 and now' = 8]
  show ?thesis using p(2) unfolding l by blast
qed

theorem gateway_list_owned_witness:
  "\<exists>e u. signed_in (fst ex_auth) (bearer_of (ex_call ''GET'' ''/sessions'')) 7 ex_gateway u \<and>
    (rtc_owner (gw_webrtc ex_gateway) e = us_ID u \<or> RoleAdmin \<le> roleLevel (us_Role u))"
proof -
  let ?r = "ex_call ''GET'' ''/sessions''"
  obtain p where p: "wr_sessions (gw_webrtc ex_gateway) ''sess_01'' = Some p"
    "ws_ClientID (wr_at (gw_webrtc ex_gateway) p) = ''user_020304''" "ws_ID (wr_at (gw_webrtc ex_gateway) p) = ''sess_01''"
    using ex_rtc_session by metis
  obtain g1 where g1: "touched ex_gateway g1"
    "gw_serve False ex_env ex_bodies ?r 7 ex_gateway = Some (sessionsRoot ex_env ex_bodies (Some ex_ann) ?r 7 g1)"
    using ex_entered [OF ex_gateway_auth sessions_route device_handlers(5)] by blast
  have w: "gw_webrtc g1 = gw_webrtc ex_gateway" using touched_sel(2) [OF g1(1)] .
  obtain e where e: "wr_ListSessions [''sess_01''] (gw_webrtc ex_gateway) = [e]" "we_id e = ''sess_01''"
    using p by (simp add: wr_ListSessions_def map_values_def List.map_filter_def Let_def)
  have "rtc_owner (gw_webrtc ex_gateway) e = us_ID ex_ann"
    using p e(2) by (simp add: rtc_owner_def wr_GetSession_def ex_ann_def)
  then have "may_see (Some ex_ann) (rtc_owner (gw_webrtc ex_gateway) e)" by (simp add: may_see_def)
  then have "\<exists>xs g'. sessionsRoot ex_env ex_bodies (Some ex_ann) ?r 7 g1 = (reply 200 (GwSessions xs), g') \<and> ListedRtc e \<in> set xs"
    by (simp add: sessionsRoot_def handleListSessions_def Let_def w e(1) ex_env_def)
  with g1(2) gateway_list_owned [OF ex_reached] show ?thesis by metis
qed

section \<open>Examples of the limits\<close>

definition ex_upload :: bodies where
  "ex_upload = ex_bodies\<lparr>bd_transfer := Some ('''', TransferDirectionUpload, ''f'', 5, ''text'')\<rparr>"

definition ex_uploads :: "nat \<Rightarrow> gw_event list" where
  "ex_uploads n = concat (replicate n [Elsewhere (snd ex_auth) (gw_limiter ex_gateway) (gw_usage ex_gateway) [],
     Request ex_env ex_upload (ex_call ''POST'' ''/transfer/x'') 7])"

lemma concat_replicate_snoc: "concat (replicate (Suc n) xs) = concat (replicate n xs) @ xs"
  by (induction n) auto

lemma ex_uploads_take:
  "n \<le> 10 \<Longrightarrow> tm_limiter (gw_transfers (gw_run False ex_gateway (ex_uploads n))) = n"
proof (induction n)
  case (Suc n)
  let ?g = "gw_run False ex_gateway (ex_uploads n)"
  let ?e = "gw_step False ?g (Elsewhere (snd ex_auth) (gw_limiter ex_gateway) (gw_usage ex_gateway) [])"
  have m: "mux_find ''/transfer/x'' (gateway_routes False) = Some (''/transfer/'', Signed)" by code_simp
  have lim: "tm_limiter (gw_transfers ?e) = n" using Suc by simp
  have a: "gw_auth ?e = snd ex_auth" by simp
  obtain g1 where g1: "touched ?e g1" "gw_serve False ex_env ex_upload (ex_call ''POST'' ''/transfer/x'') 7 ?e =
      Some (handleTransfer ex_env ex_upload (Some ex_ann) (ex_call ''POST'' ''/transfer/x'') 7 g1)"
    using ex_entered [OF a m device_handlers(4)] by blast
  have "tm_limiter (gw_transfers g1) = n" using touched_sel(5) [OF g1(1)] lim by simp
  then have "tm_limiter (gw_transfers (snd (handleTransfer ex_env ex_upload (Some ex_ann) (ex_call ''POST'' ''/transfer/x'') 7 g1))) = Suc n"
    using Suc(2) by (simp add: handleTransfer_def handleCreateTransfer_def ex_upload_def tm_CreateTransfer_def Let_def
        maxFileSize_def maxConcurrentTransfers_def)
  moreover have "ex_uploads (Suc n) = ex_uploads n @ [Elsewhere (snd ex_auth) (gw_limiter ex_gateway) (gw_usage ex_gateway) [],
     Request ex_env ex_upload (ex_call ''POST'' ''/transfer/x'') 7]"
    unfolding ex_uploads_def by (rule concat_replicate_snoc)
  ultimately show ?case using g1(2)
    by (cases "handleTransfer ex_env ex_upload (Some ex_ann) (ex_call ''POST'' ''/transfer/x'') 7 g1") simp
qed (simp add: ex_uploads_def ex_gateway_def gw_NewServer_def Let_def NewTransferManager_def)

lemma gw_state_run: "gw_state sp g \<Longrightarrow> gw_state sp (gw_run sp g es)"
  unfolding gw_state_def by (metis foldl_append)

theorem gateway_transfers_block_witness:
  "\<exists>a g'. gw_serve False ex_env ex_upload (ex_call ''POST'' ''/transfer/x'') 7 (gw_run False ex_gateway (ex_uploads 10)) =
    Some (a, g') \<and> 400 \<le> ans_status a"
proof -
  let ?g = "gw_run False ex_gateway (ex_uploads 10)"
  have m: "mux_find ''/transfer/x'' (gateway_routes False) = Some (''/transfer/'', Signed)" by code_simp
  obtain a g' where s: "gw_serve False ex_env ex_upload (ex_call ''POST'' ''/transfer/x'') 7 (gw_run False ?g []) = Some (a, g')"
    by (cases "behind Signed (handleTransfer ex_env ex_upload) None (ex_call ''POST'' ''/transfer/x'') 7 ?g")
      (simp add: gw_serve_def m device_handlers)
  have "has_prefix ''/transfer/x'' ''/transfer/''" by code_simp
  with gateway_transfers_block [OF gw_state_run [OF ex_gateway_state] _ _ _ s] s show ?thesis
    by (simp add: ex_uploads_take maxConcurrentTransfers_def)
qed

lemma ex_anon_plain: "plain_creation (ex_env, ex_desktop, ex_anon, t)"
  by (simp add: plain_create_def ex_desktop_def ex_env_def asks_approval_def SessionTypes.ex_request_def)

theorem gateway_sessions_exhausted_witness:
  "\<exists>a g'. gw_serve False ex_env ex_desktop (ex_call ''POST'' ''/sessions'') 9
     (gw_run False (gw_NewServer ''agent'' 2 '''' '''' '''' 600 (snd ex_auth) (NewSecurityDetector False))
       (map creation_event (replicate 1000 (ex_env, ex_desktop, ex_anon, 7)))) = Some (a, g') \<and> 400 \<le> ans_status a"
proof -
  let ?g = "gw_run False (gw_NewServer ''agent'' 2 '''' '''' '''' 600 (snd ex_auth) (NewSecurityDetector False))
       (map creation_event (replicate 1000 (ex_env, ex_desktop, ex_anon, 7)))"
  let ?r = "ex_call ''POST'' ''/sessions''"
  have r: "rq_Path ?r = ''/sessions''" "rq_Method ?r = ''POST''" by simp_all
  obtain g1 user where "gw_serve False ex_env ex_desktop ?r 9 ?g = Some (handleCreateSession ex_env ex_desktop user ?r 9 g1)"
    using serve_create [OF r] by blast
  then obtain a g' where s: "gw_serve False ex_env ex_desktop ?r 9 ?g = Some (a, g')"
    by (cases "handleCreateSession ex_env ex_desktop user ?r 9 g1") simp
  have "\<forall>c \<in> set (replicate 1000 (ex_env, ex_desktop, ex_anon, 7)). plain_creation c"
    using ex_anon_plain [of 7] by (simp only: set_replicate_conv_if) simp
  moreover have "\<not> wants_approval ex_desktop"
    by (simp add: wants_approval_def ex_desktop_def asks_approval_def SessionTypes.ex_request_def)
  ultimately show ?thesis
    using gateway_sessions_exhausted [OF sd_inv_new _ _ refl s] s r by simp
qed


end
