(* ===== verification/Keys.thy ===== *)
theory Keys
  imports Auth GoHttp GoStrings
begin

text \<open>
  apps/gateway/internal/keys/keys.go: the SSH keys of the accounts. PEM, X.509, SHA-256 and the decoding of
  base64 are parameters; a key's fingerprint is computed from what they return.
\<close>

section \<open>Public keys\<close>

datatype key_type = KeyTypeEd25519 | KeyTypeECDSA | KeyTypeRSA

datatype crypto_kind = RsaKey int | EcdsaKey int | Ed25519Key | OtherKey

record crypto_key =
  ck_kind :: crypto_kind
  ck_raw :: "nat list"

record crypto_lib =
  cl_pem :: "string \<Rightarrow> (string \<times> nat list) option"
  cl_pkix :: "nat list \<Rightarrow> string + crypto_key"
  cl_pkcs1 :: "nat list \<Rightarrow> string + int \<times> crypto_key"
  cl_marshal :: "crypto_key \<Rightarrow> string + nat list"
  cl_sha256 :: "nat list \<Rightarrow> nat list"
  cl_b64 :: "string \<Rightarrow> nat list option"
  cl_b64raw :: "string \<Rightarrow> nat list option"

type_synonym parsed = "string \<times> key_type \<times> int"

definition fingerprint_of :: "crypto_lib \<Rightarrow> nat list \<Rightarrow> string" where
  "fingerprint_of lib data = ''SHA256:'' @ b64_raw b64_std (cl_sha256 lib data)"

definition parseCryptoKey :: "crypto_lib \<Rightarrow> crypto_key \<Rightarrow> string + parsed" where
  "parseCryptoKey lib key = (case cl_marshal lib key of
     Inl e \<Rightarrow> Inl (''marshal key: '' @ e)
   | Inr data \<Rightarrow>
       Inr (fingerprint_of lib data,
         case ck_kind key of RsaKey n \<Rightarrow> (KeyTypeRSA, n * 8) | EcdsaKey n \<Rightarrow> (KeyTypeECDSA, n)
         | Ed25519Key \<Rightarrow> (KeyTypeEd25519, 256) | OtherKey \<Rightarrow> (KeyTypeRSA, 2048)))"

text \<open>The error of the second marshalling is ignored by the source: its data is then empty.\<close>

definition parsePEMKey :: "crypto_lib \<Rightarrow> string \<times> nat list \<Rightarrow> string + parsed" where
  "parsePEMKey lib block = (case block of (ty, bytes) \<Rightarrow>
     if ty = ''PUBLIC KEY'' then
       (case cl_pkix lib bytes of Inl e \<Rightarrow> Inl (''parse PKIX key: '' @ e) | Inr key \<Rightarrow> parseCryptoKey lib key)
     else if ty = ''RSA PUBLIC KEY'' then
       (case cl_pkcs1 lib bytes of
          Inl e \<Rightarrow> Inl (''parse RSA key: '' @ e)
        | Inr (n, key) \<Rightarrow>
            let data = (case cl_marshal lib key of Inl e \<Rightarrow> [] | Inr d \<Rightarrow> d)
            in Inr (fingerprint_of lib data, KeyTypeRSA, n * 8))
     else Inl (''unsupported PEM type: '' @ ty))"

definition decodeBase64 :: "crypto_lib \<Rightarrow> string \<Rightarrow> string + nat list" where
  "decodeBase64 lib s0 =
     (let s = trim_space s0
      in if s = '''' then Inl ''empty key data''
         else case cl_b64 lib s of
           Some d \<Rightarrow> Inr d
         | None \<Rightarrow> (case cl_b64raw lib s of Some d \<Rightarrow> Inr d | None \<Rightarrow> Inl ''invalid base64 key data''))"

definition parsePublicKey :: "crypto_lib \<Rightarrow> string \<Rightarrow> string + parsed" where
  "parsePublicKey lib pubKey0 =
     (let pubKey = trim_space pubKey0
      in case cl_pem lib pubKey of
        Some block \<Rightarrow> parsePEMKey lib block
      | None \<Rightarrow>
          (case GoStrings.fields pubKey of
             ty # keyData # rest \<Rightarrow>
               (case decodeBase64 lib keyData of
                  Inl e \<Rightarrow> Inl (''invalid base64: '' @ e)
                | Inr data \<Rightarrow>
                    Inr (fingerprint_of lib data,
                      if has_prefix ty ''ssh-ed25519'' then (KeyTypeEd25519, 256)
                      else if has_prefix ty ''ecdsa-sha2-'' then (KeyTypeECDSA, 256)
                      else (KeyTypeRSA, int (length data) * 8)))
           | _ \<Rightarrow> Inl ''invalid format''))"

section \<open>The manager\<close>

text \<open>\<open>LastUsed\<close> is never set: \<open>None\<close> is the zero time.\<close>

record ssh_key =
  sk_ID :: string
  sk_UserID :: string
  sk_Name :: string
  sk_PublicKey :: string
  sk_Fingerprint :: string
  sk_KeyType :: key_type
  sk_KeySize :: int
  sk_LastUsed :: "time option"
  sk_CreatedAt :: time

record key_manager =
  km_keys :: "string \<Rightarrow> ssh_key list"
  km_nextID :: int

definition NewKeyManager :: key_manager where
  "NewKeyManager = \<lparr>km_keys = (\<lambda>_. []), km_nextID = 1\<rparr>"

definition km_Add :: "crypto_lib \<Rightarrow> time \<Rightarrow> string \<Rightarrow> string \<Rightarrow> string \<Rightarrow> key_manager \<Rightarrow> (string + ssh_key) \<times> key_manager" where
  "km_Add lib now u name publicKey m = (case parsePublicKey lib publicKey of
     Inl e \<Rightarrow> (Inl (''invalid public key: '' @ e), m)
   | Inr (fp, ty, sz) \<Rightarrow>
       if \<exists>k \<in> set (km_keys m u). sk_Fingerprint k = fp then (Inl (''key already exists with fingerprint '' @ fp), m)
       else
         let key = \<lparr>sk_ID = numbered_id ''key_'' (km_nextID m) now, sk_UserID = u, sk_Name = name,
               sk_PublicKey = publicKey, sk_Fingerprint = fp, sk_KeyType = ty, sk_KeySize = sz,
                 sk_LastUsed = None, sk_CreatedAt = now\<rparr>
         in (Inr key, m\<lparr>km_keys := (km_keys m)(u := km_keys m u @ [key]), km_nextID := km_nextID m + 1\<rparr>))"

definition km_List :: "string \<Rightarrow> key_manager \<Rightarrow> ssh_key list" where
  "km_List u m = km_keys m u"

definition km_Delete :: "string \<Rightarrow> string \<Rightarrow> key_manager \<Rightarrow> string option \<times> key_manager" where
  "km_Delete k u m =
     (if \<exists>x \<in> set (km_keys m u). sk_ID x = k
      then (None, m\<lparr>km_keys := (km_keys m)(u := remove_first (\<lambda>x. sk_ID x = k) (km_keys m u))\<rparr>)
      else (Some ''key not found'', m))"

definition km_Get :: "string \<Rightarrow> string \<Rightarrow> key_manager \<Rightarrow> ssh_key option" where
  "km_Get k u m = find (\<lambda>x. sk_ID x = k) (km_keys m u)"

definition km_GetAuthorizedKeys :: "string \<Rightarrow> key_manager \<Rightarrow> string list" where
  "km_GetAuthorizedKeys u m = map sk_PublicKey (km_keys m u)"

section \<open>Handlers\<close>

definition first_query :: "string \<Rightarrow> request \<Rightarrow> string" where
  "first_query k r = (case map_of (rq_Query r) k of Some (v # vs) \<Rightarrow> v | _ \<Rightarrow> '''')"

definition resolveUserID :: "user option \<Rightarrow> request \<Rightarrow> string option" where
  "resolveUserID user r = (case user of
     None \<Rightarrow> None
   | Some u \<Rightarrow>
       if RoleAdmin \<le> roleLevel (us_Role u) \<and> first_query ''userId'' r \<noteq> '''' then Some (first_query ''userId'' r)
       else Some (us_ID u))"

datatype keys_body = KeysError string | KeysList "ssh_key list" | KeysKey ssh_key | KeysStatus string

text \<open>\<open>body\<close> is the decoded body of a POST, a name and a key.\<close>

definition HandleKeys ::
  "crypto_lib \<Rightarrow> time \<Rightarrow> (string \<times> string) option \<Rightarrow> user option \<Rightarrow> request \<Rightarrow> key_manager \<Rightarrow> keys_body answer \<times> key_manager" where
  "HandleKeys lib now body user r m = (case resolveUserID user r of
     None \<Rightarrow> (Answer 401 (KeysError ''unauthorized''), m)
   | Some u \<Rightarrow>
       if rq_Method r = ''GET'' then (Answer 200 (KeysList (km_List u m)), m)
       else if rq_Method r = ''POST'' then
         (case body of
            None \<Rightarrow> (Answer 400 (KeysError ''invalid json''), m)
          | Some (name, key) \<Rightarrow>
              if name = '''' \<or> key = '''' then (Answer 400 (KeysError ''name and publicKey required''), m)
              else (case km_Add lib now u name key m of
                  (Inl e, m) \<Rightarrow> (Answer 400 (KeysError e), m)
                | (Inr k, m) \<Rightarrow> (Answer 201 (KeysKey k), m)))
       else (Answer 405 (KeysError ''method not allowed''), m))"

definition HandleKeyOps :: "user option \<Rightarrow> request \<Rightarrow> key_manager \<Rightarrow> keys_body answer \<times> key_manager" where
  "HandleKeyOps user r m = (case resolveUserID user r of
     None \<Rightarrow> (Answer 401 (KeysError ''unauthorized''), m)
   | Some u \<Rightarrow>
       let k = takeWhile (\<lambda>c. c \<noteq> CHR ''/'') (trim_prefix (rq_Path r) ''/keys/'')
       in if k = '''' then (Answer 400 (KeysError ''key id required''), m)
          else if rq_Method r = ''DELETE'' then
            (case km_Delete k u m of
               (Some e, m) \<Rightarrow> (Answer 404 (KeysError e), m)
             | (None, m) \<Rightarrow> (Answer 200 (KeysStatus ''deleted''), m))
          else if rq_Method r = ''GET'' then
            (case km_Get k u m of
               None \<Rightarrow> (Answer 404 (KeysError ''key not found''), m)
             | Some key \<Rightarrow> (Answer 200 (KeysKey key), m))
          else (Answer 405 (KeysError ''method not allowed''), m))"

section \<open>Runs\<close>

datatype km_call = KeysRequest crypto_lib time "(string \<times> string) option" "user option" request
  | KeyOpsRequest "user option" request

fun km_step :: "key_manager \<Rightarrow> km_call \<Rightarrow> key_manager" where
  "km_step m (KeysRequest lib now body user r) = snd (HandleKeys lib now body user r m)"
| "km_step m (KeyOpsRequest user r) = snd (HandleKeyOps user r m)"

fun caller :: "km_call \<Rightarrow> user option" where
  "caller (KeysRequest lib now body user r) = user"
| "caller (KeyOpsRequest user r) = user"

definition km_inv :: "key_manager \<Rightarrow> bool" where
  "km_inv m \<longleftrightarrow> (\<forall>u. distinct (map sk_Fingerprint (km_keys m u))) \<and>
     (\<forall>u. \<forall>k \<in> set (km_keys m u). sk_UserID k = u \<and> (\<exists>n t. n < km_nextID m \<and> sk_ID k = numbered_id ''key_'' n t)) \<and>
     (\<forall>u v. \<forall>k \<in> set (km_keys m u). \<forall>l \<in> set (km_keys m v). sk_ID k = sk_ID l \<longrightarrow> k = l)"

lemma km_inv_Add: "km_inv m \<Longrightarrow> km_inv (snd (km_Add lib now u name key m))"
proof (cases "parsePublicKey lib key")
  case (Inr p)
  obtain fp ty sz where p: "p = (fp, ty, sz)" by (cases p) auto
  assume inv: "km_inv m"
  show ?thesis
  proof (cases "\<exists>k \<in> set (km_keys m u). sk_Fingerprint k = fp")
    case True
    with inv show ?thesis by (simp add: km_Add_def Inr p)
  next
    case False
    define k where "k = \<lparr>sk_ID = numbered_id ''key_'' (km_nextID m) now, sk_UserID = u, sk_Name = name,
               sk_PublicKey = key, sk_Fingerprint = fp, sk_KeyType = ty, sk_KeySize = sz,
                 sk_LastUsed = None, sk_CreatedAt = now\<rparr>"
    have new: "sk_ID l \<noteq> numbered_id ''key_'' (km_nextID m) now" if "l \<in> set (km_keys m v)" for l v
      using inv that unfolding km_inv_def by (metis less_irrefl numbered_id_inj)
    have old: "\<exists>n t. n < km_nextID m + 1 \<and> sk_ID l = numbered_id ''key_'' n t" if "l \<in> set (km_keys m v)" for l v
      using inv that unfolding km_inv_def by (meson less_add_one order_less_trans)
    have m': "snd (km_Add lib now u name key m) = m\<lparr>km_keys := (km_keys m)(u := km_keys m u @ [k]), km_nextID := km_nextID m + 1\<rparr>"
      using False by (auto simp: km_Add_def Inr p k_def Let_def)
    have "distinct (map sk_Fingerprint (km_keys m u @ [k]))" using inv False by (auto simp: km_inv_def k_def)
    moreover have "sk_UserID k = u" "sk_ID k = numbered_id ''key_'' (km_nextID m) now" by (simp_all add: k_def)
    moreover have "\<exists>n t. n < km_nextID m + 1 \<and> sk_ID k = numbered_id ''key_'' n t" by (auto simp: k_def)
    ultimately show ?thesis using inv old new unfolding m' km_inv_def
      by (auto simp: fun_upd_apply split: if_splits)
  qed
qed (simp add: km_Add_def)

lemma km_inv_Delete: "km_inv m \<Longrightarrow> km_inv (snd (km_Delete k u m))"
proof -
  have s: "set (remove_first P xs) \<subseteq> set xs" for P and xs :: "ssh_key list" by (induction xs) auto
  have d: "distinct (map f xs) \<Longrightarrow> distinct (map f (remove_first P xs))" for P and f :: "ssh_key \<Rightarrow> string" and xs
  proof (induction xs)
    case (Cons x xs)
    then show ?case using s [of P xs] by auto
  qed simp
  assume inv: "km_inv m"
  let ?m = "m\<lparr>km_keys := (km_keys m)(u := remove_first (\<lambda>x. sk_ID x = k) (km_keys m u))\<rparr>"
  have sub: "set (km_keys ?m v) \<subseteq> set (km_keys m v)" for v using s by simp
  have "distinct (map sk_Fingerprint (km_keys ?m v))" for v using d inv by (simp add: km_inv_def)
  moreover have "\<forall>v. \<forall>k \<in> set (km_keys ?m v). sk_UserID k = v \<and> (\<exists>n t. n < km_nextID ?m \<and> sk_ID k = numbered_id ''key_'' n t)"
  proof (intro allI ballI)
    fix v l assume "l \<in> set (km_keys ?m v)"
    then have "l \<in> set (km_keys m v)" using sub by blast
    moreover have "km_nextID ?m = km_nextID m" by simp
    ultimately show "sk_UserID l = v \<and> (\<exists>n t. n < km_nextID ?m \<and> sk_ID l = numbered_id ''key_'' n t)"
      using inv unfolding km_inv_def by metis
  qed
  moreover have "\<forall>v w. \<forall>k \<in> set (km_keys ?m v). \<forall>l \<in> set (km_keys ?m w). sk_ID k = sk_ID l \<longrightarrow> k = l"
    using inv sub unfolding km_inv_def by (meson subsetD)
  ultimately have "km_inv ?m" unfolding km_inv_def by blast
  with inv show ?thesis by (simp add: km_Delete_def)
qed

lemma km_step_inv: "km_inv m \<Longrightarrow> km_inv (km_step m c)"
proof (cases c)
  case (KeysRequest lib now body user r)
  assume inv: "km_inv m"
  have "km_inv m'" if "km_Add lib now u name key m = (res, m')" for u name key res m'
    using km_inv_Add [OF inv, of lib now u name key] that by simp
  with inv show ?thesis unfolding KeysRequest
    by (auto simp: HandleKeys_def split: option.split prod.split sum.split)
next
  case (KeyOpsRequest user r)
  assume inv: "km_inv m"
  have "km_inv m'" if "km_Delete k u m = (res, m')" for k u res m'
    using km_inv_Delete [OF inv, of k u] that by simp
  with inv show ?thesis unfolding KeyOpsRequest
    by (auto simp: HandleKeyOps_def Let_def split: option.split prod.split)
qed

interpretation km: component km_step km_inv
  by unfold_locales (rule km_step_inv)

lemma keys_unique: "km_inv (foldl km_step NewKeyManager cs)"
  by (rule km.run_inv) (simp add: km_inv_def NewKeyManager_def)

lemma add_others: "u \<noteq> v \<Longrightarrow> km_keys (snd (km_Add lib now u name key m)) v = km_keys m v"
  by (auto simp: km_Add_def Let_def split: sum.split prod.split)

lemma delete_others: "u \<noteq> v \<Longrightarrow> km_keys (snd (km_Delete k u m)) v = km_keys m v"
  by (simp add: km_Delete_def)

lemma resolved_only:
  "km_keys (snd (HandleKeys lib now body user r m)) uid \<noteq> km_keys m uid \<Longrightarrow> resolveUserID user r = Some uid"
  "km_keys (snd (HandleKeyOps user r m)) uid \<noteq> km_keys m uid \<Longrightarrow> resolveUserID user r = Some uid"
proof -
  have a: "km_keys m' uid = km_keys m uid" if "km_Add lib now v name key m = (res, m')" "v \<noteq> uid" for v name key res m'
    using add_others [of v uid lib now name key m] that by simp
  have d: "km_keys m' uid = km_keys m uid" if "km_Delete k v m = (res, m')" "v \<noteq> uid" for k v res m'
    using delete_others [of v uid k m] that by simp
  show "km_keys (snd (HandleKeys lib now body user r m)) uid \<noteq> km_keys m uid \<Longrightarrow> resolveUserID user r = Some uid"
    by (auto simp: HandleKeys_def split: option.splits prod.splits sum.splits if_splits dest: a)
  show "km_keys (snd (HandleKeyOps user r m)) uid \<noteq> km_keys m uid \<Longrightarrow> resolveUserID user r = Some uid"
    by (auto simp: HandleKeyOps_def Let_def split: option.splits prod.splits if_splits dest: d)
qed

text \<open>
  C28: The keys of an account are its own. A request after which the keys of an account differ was made by that
  account or by an administrator, whatever user the query names; and in every run the keys of an account
  are stored under its id, no account holds two keys of one fingerprint, and no two keys share an id.
\<close>

theorem keys_isolated:
  assumes "m = foldl km_step NewKeyManager cs" "km_keys (km_step m c) uid \<noteq> km_keys m uid"
  shows "km_inv (km_step m c) \<and> (\<exists>u. caller c = Some u \<and> (us_ID u = uid \<or> RoleAdmin \<le> roleLevel (us_Role u)))"
proof
  show "km_inv (km_step m c)" unfolding assms(1) by (rule km_step_inv) (rule keys_unique)
  obtain r where "resolveUserID (caller c) r = Some uid"
    using assms(2) by (cases c) (auto dest: resolved_only)
  then show "\<exists>u. caller c = Some u \<and> (us_ID u = uid \<or> RoleAdmin \<le> roleLevel (us_Role u))"
    by (auto simp: resolveUserID_def split: option.splits if_splits)
qed

definition ex_lib :: crypto_lib where
  "ex_lib = \<lparr>cl_pem = (\<lambda>_. None), cl_pkix = (\<lambda>_. Inl ''''), cl_pkcs1 = (\<lambda>_. Inl ''''), cl_marshal = (\<lambda>_. Inl ''''),
     cl_sha256 = (\<lambda>d. d), cl_b64 = (\<lambda>_. Some [1, 2, 3]), cl_b64raw = (\<lambda>_. None)\<rparr>"

definition ex_post :: request where
  "ex_post = \<lparr>rq_Method = ''POST'', rq_Host = '''', rq_Path = ''/keys'', rq_URL = ''/keys'', rq_Query = [],
     rq_Header = Map.empty, rq_RemoteAddr = ''''\<rparr>"

theorem keys_isolated_witness:
  "\<exists>u. caller (KeysRequest ex_lib 5 (Some (''laptop'', ''ssh-rsa AAAA'')) (Some ex_ann) ex_post) = Some u \<and>
    (us_ID u = us_ID ex_ann \<or> RoleAdmin \<le> roleLevel (us_Role u))"
proof -
  have p: "\<exists>p. parsePublicKey ex_lib ''ssh-rsa AAAA'' = Inr p"
  proof -
    have "GoStrings.fields (trim_space ''ssh-rsa AAAA'') = [''ssh-rsa'', ''AAAA'']" "trim_space ''AAAA'' = ''AAAA''" by code_simp+
    then show ?thesis by (simp add: parsePublicKey_def Let_def ex_lib_def decodeBase64_def)
  qed
  then have "km_keys (km_step NewKeyManager (KeysRequest ex_lib 5 (Some (''laptop'', ''ssh-rsa AAAA'')) (Some ex_ann) ex_post)) (us_ID ex_ann) \<noteq> []"
    by (auto simp: HandleKeys_def ex_post_def resolveUserID_def first_query_def km_Add_def NewKeyManager_def Let_def)
  then show ?thesis using keys_isolated [of NewKeyManager "[]"
      "KeysRequest ex_lib 5 (Some (''laptop'', ''ssh-rsa AAAA'')) (Some ex_ann) ex_post" "us_ID ex_ann"]
    by (simp add: NewKeyManager_def)
qed


end
