(* ===== verification/Spec2Isabelle.thy ===== *)
theory Spec2Isabelle
  imports PriorityQueue SchedulerProofs SessionManager SessionScheduler RateLimit FileTransfer Firewall
    TunnelCache ProxyCache AgentPool DnsCache Quality MultiChannel Bandwidth WebRtc Detector Usage Audio Gaming InputDevices SessionRecording
    GatewayRuns Keys
begin

text \<open>
  A model of Free-Compute, a service that lends virtual machines on volunteers' computers to clients with
  a browser, and the properties of that model. The program has three parts in Go: the scheduler service
  (src/apps/scheduler), which keeps hosts, a queue of requests and allocations; the gateway
  (src/apps/gateway), which keeps accounts, sessions, tunnels, caches, firewall rules and media streams; and
  the agent on the hosts (src/host-agent). The scheduler and the gateway talk over HTTP and share no state;
  inside each, one process holds tables behind mutexes and HTTP handlers and ticker goroutines work on them.

  \<^bold>\<open>How the code is read.\<close> A struct is a record, a method a function from the state (and the values it reads
  from outside: the clock, random identifiers, the order in which a map is ranged over) to the state and its
  results, in the order of the source with its early returns. A method that holds the mutex of its table from
  beginning to end is one step. Two pieces of code that release a lock in between are cut there into several steps:
  the scheduling cycle, which takes the mutex of the hosts anew in every pass of its loops (\<open>sched_step\<close>), and
  the wait for a connection of an agent (\<open>ap_step\<close>); these relations allow every interleaving with the other
  operations. The response cache runs the wrapped handler without its lock, so its handler takes as an argument
  what others do to the cache meanwhile. A signalling connection is one step for each frame. Elsewhere an operation
  is one step although the source releases a lock within it: a tick of the session scheduler (around the
  allocation), the sweep of the rate limiter (between the look at a bucket and its deletion), a tick of the
  bitrate controller, and the handlers of the gateway, which call several managers. Pointers that several tables share
  are addresses in a memory (\<open>HostAllocator\<close>, \<open>SessionManager\<close>, \<open>PtrHeap\<close>). A run-time panic is a value
  (\<open>None\<close> or the constructor for it), never an undefined one. Integers that a client controls keep their
  width; floating-point numbers are exact rationals with the special values of Go where the code can meet
  them, so rounding is not modelled.

  \<^bold>\<open>The theories.\<close>
  \<^item> Shared: \<open>Prelude\<close> (integers with wrap-around, handler results, slices and maps, the locales
    \<open>component\<close> and \<open>simulation\<close>), \<open>GoStrings\<close>, \<open>GoFloat\<close>, \<open>GoSort\<close>, \<open>GoHeap\<close> and \<open>PtrHeap\<close>
    (container/heap over values and over pointers), \<open>GoHttp\<close> (headers, requests, response writers).
  \<^item> Scheduler service: \<open>SchedTypes\<close>, \<open>PriorityQueue\<close> (queue.go), \<open>Allocator\<close> (allocator.go), \<open>HostManager\<close>
    (host/manager.go), \<open>ClusterScheduler\<close> (scheduler.go, ranker.go, config.go and the middleware of main.go),
    \<open>SchedulerProofs\<close> (the service as a step relation, and its properties).
  \<^item> Gateway, sessions: \<open>SessionTypes\<close>, \<open>HostAllocator\<close> (session/allocator.go), \<open>SessionScheduler\<close>
    (session/scheduler.go), \<open>AuditLog\<close> (session/audit.go), \<open>SessionManager\<close> (session/session.go).
  \<^item> Gateway, accounts and policy: \<open>Auth\<close> (auth/auth.go with the users table of database/database.go),
    \<open>RateLimit\<close> (ratelimit/ratelimit.go), \<open>FileTransfer\<close> (transfer/transfer.go), \<open>Firewall\<close>
    (firewall/firewall.go), \<open>Keys\<close> (keys/keys.go; the cryptographic library is a parameter).
  \<^item> Gateway, tunnels: \<open>TunnelRoutes\<close> (tunnel/config.go, routes.go), \<open>TunnelCache\<close> (tunnel/cache.go),
    \<open>ProxyCache\<close> (tunnel/proxy_cache.go), \<open>AgentPool\<close> (tunnel/agent_pool.go), \<open>DnsCache\<close>
    (tunnel/dns_cache.go), \<open>Quality\<close> (tunnel/quality.go).
  \<^item> Gateway, media: \<open>MultiChannel\<close> (webrtc/multichannel.go), \<open>Bandwidth\<close> (webrtc/bandwidth.go), \<open>Encoder\<close>
    (webrtc/encoder.go), \<open>WebRtc\<close> (webrtc/webrtc.go).
  \<^item> Gateway, devices: \<open>Audio\<close> (audio/audio.go), \<open>InputDevices\<close> (input/input.go), \<open>Gaming\<close>
    (gaming/gaming.go), \<open>SessionRecording\<close> (tunnel/session_recording.go).
  \<^item> Gateway, reports of the hosts: \<open>Detector\<close> (security/detector.go), \<open>Usage\<close> (usage/usage.go).
  \<^item> Gateway, the server: \<open>GatewayAccess\<close> (tunnel/server.go and auth.go: the state, the middleware, the table of
    routes), \<open>GatewayServer\<close> (the handlers over the managers above), \<open>GatewayRuns\<close> (requests, goroutines, frames
    on the connections to /signal/ and the callbacks and timers of the WebRTC server as steps of the whole gateway).
    In front of the routes the layer of common headers answers OPTIONS requests itself.

  \<^bold>\<open>What the lemmas show.\<close> Each component has a well-formedness invariant that all its operations keep
  (\<open>PriorityQueue\<close>: the heap and its id table; \<open>HostAllocator\<close>: the indexes agree with the hosts;
  \<open>SessionManager\<close>, \<open>Auth\<close>, \<open>FileTransfer\<close>, \<open>AgentPool\<close>, \<open>TunnelCache\<close>: their tables fit together), and its
  properties hold in every run from the initial state, through the locale \<open>component\<close> or rule induction.
  The caches refine lists in order of use (locale \<open>simulation\<close>). The heaps are correct for any strict weak order
  (locale in \<open>GoHeap\<close>, interpreted on the orders of both queues). Results about the exact outcome of an
  operation cover its error branches. \<open>GatewayRuns\<close> composes the managers: their invariants hold together in
  every run of the server, a guard in front of a handler refuses or passes the request on (\<open>behind_passed\<close>),
  each handler writes the managers it names and no other (\<open>frames\<close>), and with the soundness of the guards
  this gives who can end, list or remap what. Some properties show that the code does less than it promises: a
  proof then exhibits the state and the calls that lead there.

  \<^bold>\<open>Bounds, fuel and termination.\<close> All functions are total. Loops over heaps recurse with a measure; the
  eviction loop of the response cache recurses on the entries and \<open>cache_set_returns\<close> shows that
  it ends with room for the new entry. No theorem depends on an amount of fuel.

  \<^bold>\<open>Assumptions of the whole-gateway model.\<close> JSON decoders are fields of a record of bodies, the database and the
  random source fields of an environment. Handlers of other packages may change accounts, limits and usage
  between requests in any way, and the detector by any of its calls. The runs of the account manager (\<open>Auth\<close>)
  start from empty tables; loading the accounts of a database is modelled but no run begins with it. A panic of a handler drops the answer;
  that it may leave a mutex locked is not followed.

  \<^bold>\<open>Not modelled.\<close> Sockets, TLS, WebRTC, QUIC, processes, the file system and SQL are outside; so are the
  parts of the gateway that only move bytes between them (websocket.go, tcp.go, udp.go),
  the host agent, and the front end, which is TypeScript. Encoding and decoding of JSON is the standard
  library's: handlers take the decoded request. Log output is left out except where its
  arguments can panic. The limit on the size of a body (boundedBody of the scheduler's main.go) is
  left out. The file PROJECT.json lists every part with its reason.
\<close>

end
